(* ===== verification/Prelude.thy ===== *)
theory Prelude
  imports Main "HOL-Library.Char_ord" "HOL-Library.List_Lexorder" "HOL-Library.Multiset"
begin

text \<open>
  Shared vocabulary of the development: results of fallible Go functions (\<open>error + 'a\<close>, the
  error on the left), Go maps as partial functions filled by a loop, the character classes that the
  regular expressions of the sources use, and the generic lemmas on lists and maps that the
  component theories rest on.  Go strings are byte strings: \<^typ>\<open>string\<close> is a list of bytes here and
  \<open><\<close> on strings is the bytewise lexicographic order, as in Go.
\<close>

section \<open>Collections of facts\<close>

named_theorems result_simps \<open>rewriting rules for results and their sequencing\<close>
named_theorems go_time \<open>unfolding rules for the comparisons of Go's time values\<close>
named_theorems bytes_simps \<open>rewriting rules for fixed-width encodings\<close>

section \<open>Results\<close>

type_synonym ('e, 'a) result = "'e + 'a"

text \<open>An error return \<open>if cond { return err }\<close> followed by the rest of the function.\<close>

definition guard :: "bool \<Rightarrow> 'e \<Rightarrow> ('e, 'a) result \<Rightarrow> ('e, 'a) result" where
  "guard bad e rest = (if bad then Inl e else rest)"

definition bind_result :: "('e, 'a) result \<Rightarrow> ('a \<Rightarrow> ('e, 'b) result) \<Rightarrow> ('e, 'b) result" where
  "bind_result r f = (case r of Inl e \<Rightarrow> Inl e | Inr x \<Rightarrow> f x)"

definition is_ok :: "('e, 'a) result \<Rightarrow> bool" where
  "is_ok r = (case r of Inl _ \<Rightarrow> False | Inr _ \<Rightarrow> True)"

lemma guard_simps [simp, result_simps]:
  "guard False e rest = rest"
  "guard True e rest = Inl e"
  by (simp_all add: guard_def)

lemma guard_Inr [simp, result_simps]: "guard bad e rest = Inr x \<longleftrightarrow> \<not> bad \<and> rest = Inr x"
  by (simp add: guard_def)

lemma is_ok_guard [simp, result_simps]: "is_ok (guard bad e rest) \<longleftrightarrow> \<not> bad \<and> is_ok rest"
  by (simp add: guard_def is_ok_def)

lemma bind_result_simps [simp, result_simps]:
  "bind_result (Inl e) f = Inl e"
  "bind_result (Inr x) f = f x"
  by (simp_all add: bind_result_def)

lemma bind_result_Inr [simp, result_simps]:
  "bind_result r f = Inr y \<longleftrightarrow> (\<exists>x. r = Inr x \<and> f x = Inr y)"
  by (cases r) simp_all

lemma is_ok_simps [simp, result_simps]:
  "is_ok (Inr x)"
  "\<not> is_ok (Inl e)"
  by (simp_all add: is_ok_def)

lemma is_ok_iff: "is_ok r \<longleftrightarrow> (\<exists>x. r = Inr x)"
  by (cases r) simp_all

lemma is_ok_bind [simp, result_simps]:
  "is_ok (bind_result r f) \<longleftrightarrow> (\<exists>x. r = Inr x \<and> is_ok (f x))"
  by (cases r) simp_all

lemma is_ok_unit: "is_ok (r :: ('e, unit) result) \<longleftrightarrow> r = Inr ()"
  by (cases r) simp_all

section \<open>Maps filled by a loop\<close>

text \<open>
  A Go loop \<open>for _, x := range xs { if _, dup := m[k(x)]; dup { return err }; m[k(x)] = x }\<close>
  succeeds exactly when the keys are distinct, and leaves the map that sends every key to its
  element.
\<close>

definition map_by :: "('a \<Rightarrow> 'k) \<Rightarrow> 'a list \<Rightarrow> ('k \<rightharpoonup> 'a)" where
  "map_by key xs = map_of (map (\<lambda>x. (key x, x)) xs)"

lemma map_by_Nil [simp]: "map_by key [] = Map.empty"
  by (simp add: map_by_def)

lemma map_by_Cons [simp]: "map_by key (x # xs) = (map_by key xs)(key x \<mapsto> x)"
  by (simp add: map_by_def)

lemma map_by_SomeD: "map_by key xs k = Some x \<Longrightarrow> x \<in> set xs \<and> key x = k"
  unfolding map_by_def by (drule map_of_SomeD) auto

lemma map_by_member:
  assumes "distinct (map key xs)" and "x \<in> set xs"
  shows "map_by key xs (key x) = Some x"
  using assms by (induction xs) (auto simp: rev_image_eqI)

lemma map_by_None: "map_by key xs k = None \<longleftrightarrow> k \<notin> key ` set xs"
  unfolding map_by_def by (simp add: map_of_eq_None_iff image_image)

lemma map_by_perm:
  assumes "distinct (map key xs)" and "mset xs = mset ys"
  shows "map_by key xs = map_by key ys"
proof
  fix k
  have dist: "distinct (map key ys)"
    using assms by (metis mset_eq_imp_distinct_iff mset_map)
  have sets: "set xs = set ys"
    using assms(2) by (metis set_mset_mset)
  show "map_by key xs k = map_by key ys k"
  proof (cases "map_by key xs k")
    case None
    then show ?thesis using sets by (metis map_by_None)
  next
    case (Some x)
    then have "x \<in> set ys" and "key x = k"
      using map_by_SomeD sets by metis+
    then show ?thesis using Some dist map_by_member by metis
  qed
qed

lemma distinct_map_mset:
  "mset xs = mset ys \<Longrightarrow> distinct (map f xs) \<longleftrightarrow> distinct (map f ys)"
  by (metis mset_eq_imp_distinct_iff mset_map)

lemma ball_mset: "mset xs = mset ys \<Longrightarrow> (\<forall>x\<in>set xs. P x) \<longleftrightarrow> (\<forall>x\<in>set ys. P x)"
  by (metis set_mset_mset)

section \<open>Character classes of the sources' regular expressions\<close>

definition is_lower :: "char \<Rightarrow> bool" where
  "is_lower c \<longleftrightarrow> CHR ''a'' \<le> c \<and> c \<le> CHR ''z''"

definition is_upper :: "char \<Rightarrow> bool" where
  "is_upper c \<longleftrightarrow> CHR ''A'' \<le> c \<and> c \<le> CHR ''Z''"

definition is_digit :: "char \<Rightarrow> bool" where
  "is_digit c \<longleftrightarrow> CHR ''0'' \<le> c \<and> c \<le> CHR ''9''"

definition is_lower_alnum :: "char \<Rightarrow> bool" where
  "is_lower_alnum c \<longleftrightarrow> is_lower c \<or> is_digit c"

definition is_alnum :: "char \<Rightarrow> bool" where
  "is_alnum c \<longleftrightarrow> is_lower c \<or> is_upper c \<or> is_digit c"

definition is_lower_hex :: "char \<Rightarrow> bool" where
  "is_lower_hex c \<longleftrightarrow> is_digit c \<or> (CHR ''a'' \<le> c \<and> c \<le> CHR ''f'')"

text \<open>
  \<open>^HEAD TAIL{0,n}$\<close>: one character of a first class, then at most \<open>n\<close> of a second one
  (\<^const>\<open>None\<close>: any number, the quantifier \<open>*\<close>).
\<close>

definition head_tail_match :: "(char \<Rightarrow> bool) \<Rightarrow> (char \<Rightarrow> bool) \<Rightarrow> nat option \<Rightarrow> string \<Rightarrow> bool" where
  "head_tail_match h t n s =
     (case s of [] \<Rightarrow> False
      | c # cs \<Rightarrow> h c \<and> list_all t cs \<and> (case n of None \<Rightarrow> True | Some k \<Rightarrow> length cs \<le> k))"

lemma head_tail_match_length:
  "head_tail_match h t (Some n) s \<Longrightarrow> 0 < length s \<and> length s \<le> Suc n"
  by (auto simp: head_tail_match_def split: list.splits)

lemma head_tail_match_chars:
  assumes "head_tail_match h t n s" and "c \<in> set s" and "\<And>x. h x \<Longrightarrow> t x"
  shows "t c"
  using assms by (auto simp: head_tail_match_def list_all_iff split: list.splits)

section \<open>Strings\<close>

definition has_suffix :: "string \<Rightarrow> string \<Rightarrow> bool" where
  "has_suffix s suf \<longleftrightarrow> length suf \<le> length s \<and> drop (length s - length suf) s = suf"

definition has_prefix :: "string \<Rightarrow> string \<Rightarrow> bool" where
  "has_prefix s pre \<longleftrightarrow> take (length pre) s = pre"

text \<open>\<open>strings.Split\<close> with a one-byte separator: always at least one part.\<close>

fun split_on :: "char \<Rightarrow> string \<Rightarrow> string list" where
  "split_on sep [] = [[]]"
| "split_on sep (c # cs) =
     (if c = sep then [] # split_on sep cs
      else (case split_on sep cs of [] \<Rightarrow> [[c]] | p # ps \<Rightarrow> (c # p) # ps))"

lemma split_on_nonempty [simp]: "split_on sep s \<noteq> []"
  by (induction s) (auto split: list.splits)

text \<open>ASCII lower case, \<open>strings.ToLower\<close> on a string without bytes above 127.\<close>

definition lower_char :: "char \<Rightarrow> char" where
  "lower_char c = (if is_upper c then char_of (of_char c + (32::nat)) else c)"

definition to_lower :: "string \<Rightarrow> string" where
  "to_lower s = map lower_char s"

lemma has_suffix_append: "has_suffix (a @ b) b"
  by (simp add: has_suffix_def)

lemma has_suffixD: "has_suffix s suf \<Longrightarrow> \<exists>pre. s = pre @ suf"
  by (metis append_take_drop_id has_suffix_def)

end
