(* ===== verification/GoTime.thy ===== *)
theory GoTime
  imports Prelude
begin

text \<open>
  Go's \<open>time.Time\<close> and \<open>time.Duration\<close> as far as the controller uses them.  A time is a wall
  clock reading, in nanoseconds since the Unix epoch, and an optional monotonic reading.  Two times
  compare by their monotonic readings when both carry one and by their wall readings otherwise;
  \<open>t.Round(0)\<close> and \<open>t.UTC()\<close> drop the monotonic reading.  Durations are signed 64-bit counts of
  nanoseconds: \<open>Sub\<close> saturates.  Locations are not modelled: they influence no comparison, and the
  years the sources read are those of times converted to UTC.
\<close>

section \<open>Signed 64-bit arithmetic\<close>

definition int64_min :: int where "int64_min = - (2 ^ 63)"
definition int64_max :: int where "int64_max = 2 ^ 63 - 1"

definition int64_clamp :: "int \<Rightarrow> int" where
  "int64_clamp x = max int64_min (min int64_max x)"

definition int64_wrap :: "int \<Rightarrow> int" where
  "int64_wrap x = (x + 2 ^ 63) mod 2 ^ 64 - 2 ^ 63"

definition fits_int64 :: "int \<Rightarrow> bool" where
  "fits_int64 x \<longleftrightarrow> int64_min \<le> x \<and> x \<le> int64_max"

lemma int64_wrap_fixpoint: "int64_wrap x = x \<longleftrightarrow> fits_int64 x"
proof -
  have "int64_wrap x = x \<longleftrightarrow> (x + 2 ^ 63) mod 2 ^ 64 = x + 2 ^ 63"
    by (auto simp: int64_wrap_def)
  also have "\<dots> \<longleftrightarrow> 0 \<le> x + 2 ^ 63 \<and> x + 2 ^ 63 < 2 ^ 64"
    by (metis mod_pos_pos_trivial pos_mod_bound pos_mod_sign zero_less_numeral zero_less_power)
  also have "\<dots> \<longleftrightarrow> fits_int64 x"
    by (auto simp: fits_int64_def int64_min_def int64_max_def)
  finally show ?thesis .
qed

lemma int64_clamp_fits [simp]: "fits_int64 x \<Longrightarrow> int64_clamp x = x"
  by (simp add: int64_clamp_def fits_int64_def)

lemma fits_int64_clamp [simp]: "fits_int64 (int64_clamp x)"
  by (simp add: int64_clamp_def fits_int64_def int64_min_def int64_max_def)

lemma int64_clamp_le_iff: "fits_int64 b \<Longrightarrow> int64_clamp x \<le> b \<longleftrightarrow> x \<le> b \<or> b = int64_max"
  by (auto simp: int64_clamp_def fits_int64_def int64_min_def int64_max_def)

section \<open>Durations\<close>

type_synonym duration = int

definition millisecond :: duration where "millisecond = 1000000"
definition second :: duration where "second = 1000000000"
definition minute :: duration where "minute = 60 * second"
definition hour :: duration where "hour = 60 * minute"

lemmas duration_units = millisecond_def second_def minute_def hour_def

section \<open>Times\<close>

record time =
  wall :: int
  mono_at :: "int option"

text \<open>January 1 of year 1, UTC: the zero \<open>time.Time\<close>.\<close>

definition zero_wall :: int where "zero_wall = - 62135596800 * 1000000000"

definition zero_time :: time where "zero_time = \<lparr>wall = zero_wall, mono_at = None\<rparr>"

definition is_zero :: "time \<Rightarrow> bool" where
  "is_zero t \<longleftrightarrow> wall t = zero_wall"

definition strip :: "time \<Rightarrow> time" where
  "strip t = t\<lparr>mono_at := None\<rparr>"

definition before :: "time \<Rightarrow> time \<Rightarrow> bool" where
  "before t u =
     (case (mono_at t, mono_at u) of (Some a, Some b) \<Rightarrow> a < b | _ \<Rightarrow> wall t < wall u)"

definition after :: "time \<Rightarrow> time \<Rightarrow> bool" where
  "after t u = before u t"

definition time_eq :: "time \<Rightarrow> time \<Rightarrow> bool" where
  "time_eq t u =
     (case (mono_at t, mono_at u) of (Some a, Some b) \<Rightarrow> a = b | _ \<Rightarrow> wall t = wall u)"

definition time_sub :: "time \<Rightarrow> time \<Rightarrow> duration" where
  "time_sub t u =
     int64_clamp (case (mono_at t, mono_at u) of (Some a, Some b) \<Rightarrow> a - b | _ \<Rightarrow> wall t - wall u)"

text \<open>
  The monotonic reading survives an addition unless it overflows or the wall reading leaves the
  33-bit second counter (1885 to 2157) that times with a monotonic reading use.
\<close>

definition mono_wall_range :: "int \<Rightarrow> bool" where
  "mono_wall_range w \<longleftrightarrow> - 2682288000 \<le> w div second \<and> w div second + 2682288000 < 2 ^ 33"

definition time_add :: "time \<Rightarrow> duration \<Rightarrow> time" where
  "time_add t d =
     \<lparr>wall = wall t + d,
      mono_at = (case mono_at t of None \<Rightarrow> None
              | Some m \<Rightarrow> if fits_int64 (m + d) \<and> mono_wall_range (wall t + d)
                          then Some (m + d) else None)\<rparr>"

definition year_over_9999 :: "time \<Rightarrow> bool" where
  "year_over_9999 t \<longleftrightarrow> 253402300800 * 1000000000 \<le> wall t"

definition year_under_1 :: "time \<Rightarrow> bool" where
  "year_under_1 t \<longleftrightarrow> wall t < zero_wall"

text \<open>
  \<open>!t.IsZero() && time.Unix(0, t.UnixNano()).Equal(t)\<close>: \<open>UnixNano\<close> wraps at 64 bits, and a time
  made by \<open>time.Unix\<close> has no monotonic reading, so the comparison is one of wall readings.
\<close>

definition nano_time :: "time \<Rightarrow> bool" where
  "nano_time t \<longleftrightarrow> \<not> is_zero t \<and> int64_wrap (wall t) = wall t"

abbreviation wall_only :: "time \<Rightarrow> bool" where
  "wall_only t \<equiv> mono_at t = None"

lemma nano_time_iff: "nano_time t \<longleftrightarrow> wall t \<noteq> zero_wall \<and> fits_int64 (wall t)"
  by (simp add: nano_time_def is_zero_def int64_wrap_fixpoint)

lemma strip_simps [simp]: "wall (strip t) = wall t" "mono_at (strip t) = None" "strip (strip t) = strip t"
  by (simp_all add: strip_def)

lemma strip_id: "mono_at t = None \<Longrightarrow> strip t = t"
  by (cases t) (simp add: strip_def)

lemma wall_time_add [simp]: "wall (time_add t d) = wall t + d"
  by (simp add: time_add_def)

lemma mono_time_add_None [simp]: "mono_at t = None \<Longrightarrow> mono_at (time_add t d) = None"
  by (simp add: time_add_def)

lemma before_wall [go_time]:
  "mono_at t = None \<Longrightarrow> before t u \<longleftrightarrow> wall t < wall u"
  "mono_at u = None \<Longrightarrow> before t u \<longleftrightarrow> wall t < wall u"
  by (simp_all add: before_def split: option.splits)

lemma after_wall [go_time]:
  "mono_at t = None \<Longrightarrow> after t u \<longleftrightarrow> wall u < wall t"
  "mono_at u = None \<Longrightarrow> after t u \<longleftrightarrow> wall u < wall t"
  by (simp_all add: after_def go_time)

lemma time_eq_wall [go_time]:
  "mono_at t = None \<Longrightarrow> time_eq t u \<longleftrightarrow> wall t = wall u"
  "mono_at u = None \<Longrightarrow> time_eq t u \<longleftrightarrow> wall t = wall u"
  by (simp_all add: time_eq_def split: option.splits)

lemma time_sub_wall [go_time]:
  "mono_at t = None \<Longrightarrow> time_sub t u = int64_clamp (wall t - wall u)"
  "mono_at u = None \<Longrightarrow> time_sub t u = int64_clamp (wall t - wall u)"
  by (simp_all add: time_sub_def split: option.splits)

lemma before_irrefl [simp]: "\<not> before t t"
  by (simp add: before_def split: option.splits)

lemma before_asym: "before t u \<Longrightarrow> \<not> before u t"
  by (auto simp: before_def split: option.splits)

lemma wall_only_eqI: "mono_at (t :: time) = None \<Longrightarrow> mono_at (u :: time) = None \<Longrightarrow> wall t = wall u \<Longrightarrow> t = u"
  by (cases t; cases u) simp

end
