(* ===== verification/Evidence.thy ===== *)
theory Evidence
  imports GoTime
begin

text \<open>
  The loops that the three assessors of \<open>networkquality\<close> share: the loop that collects selected
  targets under their identifiers, the loop that admits measurements (identity, timestamps, no two
  results of one target at the same instant, consistency), and the loop that keeps the latest
  measurement of every target.  The locale \<open>assessed_evidence\<close> is the contract between a validator
  and the selection of the latest evidence: what a valid snapshot promises is enough for the
  selection to be a function of the set of measurements, whatever their order.
\<close>

section \<open>Collecting selections\<close>

fun collect_keyed ::
  "('a \<Rightarrow> ('e, unit) result) \<Rightarrow> ('a \<Rightarrow> 'k) \<Rightarrow> 'e \<Rightarrow> ('k \<rightharpoonup> 'a) \<Rightarrow> 'a list \<Rightarrow> ('e, 'k \<rightharpoonup> 'a) result"
where
  "collect_keyed valid key dup m [] = Inr m"
| "collect_keyed valid key dup m (x # xs) =
     bind_result (valid x) (\<lambda>_.
     guard (m (key x) \<noteq> None) dup
     (collect_keyed valid key dup (m(key x \<mapsto> x)) xs))"

section \<open>Admitting measurements\<close>

text \<open>
  \<open>identify dup m\<close> is told whether the identifier of \<open>m\<close> was seen before and returns the target
  the measurement belongs to; \<open>ends\<close> holds, for every target, the completion instants seen so far
  (wall readings: the code stores \<open>CompletedAt.Round(0).UTC()\<close>).
\<close>

fun admit_measurements ::
  "(bool \<Rightarrow> 'm \<Rightarrow> ('e, 't) result) \<Rightarrow> ('m \<Rightarrow> ('e, unit) result) \<Rightarrow> ('t \<Rightarrow> 'm \<Rightarrow> ('e, unit) result) \<Rightarrow>
   ('m \<Rightarrow> 'i) \<Rightarrow> ('t \<Rightarrow> 'k) \<Rightarrow> ('m \<Rightarrow> time) \<Rightarrow> 'e \<Rightarrow> 'i set \<Rightarrow> ('k \<Rightarrow> int set) \<Rightarrow> 'm list \<Rightarrow>
   ('e, unit) result"
where
  "admit_measurements identify stamps valid ident tkey completed ambiguous seen ends [] = Inr ()"
| "admit_measurements identify stamps valid ident tkey completed ambiguous seen ends (m # ms) =
     bind_result (identify (ident m \<in> seen) m) (\<lambda>t.
     bind_result (stamps m) (\<lambda>_.
     guard (wall (completed m) \<in> ends (tkey t)) ambiguous
     (bind_result (valid t m) (\<lambda>_.
      admit_measurements identify stamps valid ident tkey completed ambiguous
        (insert (ident m) seen)
        (ends(tkey t := insert (wall (completed m)) (ends (tkey t)))) ms))))"

section \<open>Keeping the latest measurement\<close>

fun latest :: "('m \<Rightarrow> 'k) \<Rightarrow> ('m \<Rightarrow> time) \<Rightarrow> ('k \<rightharpoonup> 'm) \<Rightarrow> 'm list \<Rightarrow> ('k \<rightharpoonup> 'm)" where
  "latest mkey completed acc [] = acc"
| "latest mkey completed acc (m # ms) =
     latest mkey completed
       (case acc (mkey m) of
          None \<Rightarrow> acc(mkey m \<mapsto> m)
        | Some previous \<Rightarrow>
            if after (completed m) (completed previous) then acc(mkey m \<mapsto> m) else acc) ms"

section \<open>What the loops compute\<close>

lemma collect_keyed_Inr:
  "collect_keyed valid key dup m xs = Inr m' \<longleftrightarrow>
     (\<forall>x\<in>set xs. valid x = Inr ()) \<and> distinct (map key xs) \<and> (\<forall>x\<in>set xs. m (key x) = None) \<and>
     m' = m ++ map_by key xs"
proof (induction xs arbitrary: m)
  case Nil
  then show ?case by auto
next
  case (Cons x xs)
  have merge: "distinct (map key (x # xs)) \<Longrightarrow>
      m(key x \<mapsto> x) ++ map_by key xs = m ++ map_by key (x # xs)"
    by (rule ext, auto simp: map_add_def dest: map_by_SomeD split: option.splits)
       (metis image_eqI map_by_SomeD)
  have fresh: "(\<forall>y\<in>set xs. (m(key x \<mapsto> x)) (key y) = None) \<longleftrightarrow>
      key x \<notin> key ` set xs \<and> (\<forall>y\<in>set xs. m (key y) = None)"
    by auto (metis imageI)
  show ?case
    using merge by (auto simp: Cons.IH fresh simp del: fun_upd_apply map_by_Cons)
qed

lemma collect_keyed_empty:
  "collect_keyed valid key dup Map.empty xs = Inr m \<longleftrightarrow>
     (\<forall>x\<in>set xs. valid x = Inr ()) \<and> distinct (map key xs) \<and> m = map_by key xs"
  by (auto simp: collect_keyed_Inr)

lemma admit_measurements_Inr:
  assumes dup: "\<And>m t. identify True m \<noteq> Inr t"
    and found: "\<And>m t. identify False m = Inr t \<Longrightarrow> tkey t = mkey m"
  shows "admit_measurements identify stamps valid ident tkey completed amb seen ends ms = Inr () \<longleftrightarrow>
     (\<forall>m\<in>set ms. (\<exists>t. identify False m = Inr t \<and> valid t m = Inr ()) \<and> stamps m = Inr () \<and>
        ident m \<notin> seen \<and> wall (completed m) \<notin> ends (mkey m)) \<and>
     distinct (map ident ms) \<and> distinct (map (\<lambda>m. (mkey m, wall (completed m))) ms)"
proof (induction ms arbitrary: seen ends)
  case Nil
  then show ?case by simp
next
  case (Cons m ms)
  show ?case
  proof (cases "ident m \<in> seen")
    case True
    with dup show ?thesis by simp
  next
    case False
    define good where "good x \<longleftrightarrow> (\<exists>t. identify False x = Inr t \<and> valid t x = Inr ()) \<and> stamps x = Inr ()" for x
    define pair where "pair x = (mkey x, wall (completed x))" for x
    let ?ends = "ends(mkey m := insert (wall (completed m)) (ends (mkey m)))"
    have unseen: "wall (completed x) \<notin> ?ends (mkey x) \<longleftrightarrow>
        wall (completed x) \<notin> ends (mkey x) \<and> pair x \<noteq> pair m" for x
      by (auto simp: pair_def)
    have rest: "admit_measurements identify stamps valid ident tkey completed amb
          (insert (ident m) seen) ?ends ms = Inr () \<longleftrightarrow>
        (\<forall>x\<in>set ms. good x \<and> ident x \<notin> seen \<and> wall (completed x) \<notin> ends (mkey x)) \<and>
        ident m \<notin> ident ` set ms \<and> pair m \<notin> pair ` set ms \<and>
        distinct (map ident ms) \<and> distinct (map pair ms)"
      unfolding Cons.IH unseen good_def pair_def [abs_def, symmetric]
      by (auto simp del: fun_upd_apply) (metis imageI)+
    show ?thesis
    proof (cases "identify False m")
      case (Inl e)
      with False show ?thesis by simp
    next
      case (Inr t)
      then have key: "tkey t = mkey m" by (rule found)
      have "good m \<longleftrightarrow> valid t m = Inr () \<and> stamps m = Inr ()"
        using Inr by (simp add: good_def)
      then have "admit_measurements identify stamps valid ident tkey completed amb seen ends (m # ms) = Inr () \<longleftrightarrow>
          (\<forall>x\<in>set (m # ms). good x \<and> ident x \<notin> seen \<and> wall (completed x) \<notin> ends (mkey x)) \<and>
          distinct (map ident (m # ms)) \<and> distinct (map pair (m # ms))"
        using Inr False key rest by (auto simp del: fun_upd_apply)
      then show ?thesis
        unfolding good_def pair_def [abs_def] by (simp only: conj_assoc)
    qed
  qed
qed

text \<open>Without monotonic readings the loop keeps a completion-time maximum of every key.\<close>

definition is_latest :: "('m \<Rightarrow> 'k) \<Rightarrow> ('m \<Rightarrow> time) \<Rightarrow> 'm list \<Rightarrow> 'k \<Rightarrow> 'm \<Rightarrow> bool" where
  "is_latest mkey completed ms k m \<longleftrightarrow>
     m \<in> set ms \<and> mkey m = k \<and>
     (\<forall>m'\<in>set ms. mkey m' = k \<longrightarrow> wall (completed m') \<le> wall (completed m))"

lemma latest_snoc:
  "latest mkey completed acc (ms @ [m]) =
     (let prev = latest mkey completed acc ms in
      case prev (mkey m) of
        None \<Rightarrow> prev(mkey m \<mapsto> m)
      | Some p \<Rightarrow> if after (completed m) (completed p) then prev(mkey m \<mapsto> m) else prev)"
  by (induction ms arbitrary: acc) (simp_all add: Let_def split: option.splits)

lemma latest_None_iff:
  "latest mkey completed Map.empty ms k = None \<longleftrightarrow> k \<notin> mkey ` set ms"
  by (induction ms rule: rev_induct)
     (auto simp: latest_snoc Let_def split: option.splits if_splits)

lemma latest_is_latest:
  assumes "\<forall>m\<in>set ms. wall_only (completed m)"
    and "latest mkey completed Map.empty ms k = Some m"
  shows "is_latest mkey completed ms k m"
  using assms
proof (induction ms arbitrary: k m rule: rev_induct)
  case Nil
  then show ?case by simp
next
  case (snoc x xs)
  define prev where "prev = latest mkey completed Map.empty xs"
  have IH: "prev k = Some m \<Longrightarrow> is_latest mkey completed xs k m" for k m
    using snoc.IH snoc.prems(1) by (simp add: prev_def)
  have none: "prev k = None \<longleftrightarrow> k \<notin> mkey ` set xs" for k
    by (simp add: prev_def latest_None_iff)
  have upd: "latest mkey completed Map.empty (xs @ [x]) =
      (case prev (mkey x) of None \<Rightarrow> prev(mkey x \<mapsto> x)
       | Some p \<Rightarrow> if wall (completed p) < wall (completed x) then prev(mkey x \<mapsto> x) else prev)"
    using snoc.prems(1)
    by (auto simp: latest_snoc prev_def [symmetric] Let_def go_time split: option.splits)
  show ?case
  proof (cases "prev (mkey x)")
    case None
    then show ?thesis
      using snoc.prems(2) IH none [of "mkey x"]
      by (auto simp: upd is_latest_def image_iff split: if_splits)
  next
    case (Some p)
    from IH [OF Some] have p: "is_latest mkey completed xs (mkey x) p" .
    then show ?thesis
      using snoc.prems(2) IH Some by (fastforce simp: upd is_latest_def split: if_splits)
  qed
qed

section \<open>The contract between validation and selection\<close>

locale assessed_evidence =
  fixes valid :: "'s \<Rightarrow> bool"
    and evidence :: "'s \<Rightarrow> 'm list"
    and mkey :: "'m \<Rightarrow> string"
    and completed :: "'m \<Rightarrow> time"
  assumes no_ties: "valid s \<Longrightarrow> distinct (map (\<lambda>m. (mkey m, wall (completed m))) (evidence s))"
begin

lemma latest_unique:
  assumes "valid s" and "is_latest mkey completed (evidence s) k m"
    and "is_latest mkey completed (evidence s) k m'"
  shows "m = m'"
proof -
  have "inj_on (\<lambda>m. (mkey m, wall (completed m))) (set (evidence s))"
    using no_ties [OF assms(1)] by (simp add: distinct_map)
  moreover have "(mkey m, wall (completed m)) = (mkey m', wall (completed m'))"
    using assms(2,3) unfolding is_latest_def by (metis order_antisym)
  ultimately show ?thesis
    using assms(2,3) unfolding is_latest_def by (meson inj_onD)
qed

lemma latest_Some_iff:
  assumes "valid s" and "\<forall>m\<in>set (evidence s). wall_only (completed m)"
  shows "latest mkey completed Map.empty (evidence s) k = Some m \<longleftrightarrow>
         is_latest mkey completed (evidence s) k m"
proof
  assume "is_latest mkey completed (evidence s) k m"
  then have "k \<in> mkey ` set (evidence s)" by (auto simp: is_latest_def)
  then obtain m' where "latest mkey completed Map.empty (evidence s) k = Some m'"
    using latest_None_iff [of mkey completed "evidence s" k] by auto
  with latest_is_latest [OF assms(2)] latest_unique [OF assms(1) _ \<open>is_latest _ _ _ _ m\<close>]
  show "latest mkey completed Map.empty (evidence s) k = Some m" by metis
qed (rule latest_is_latest [OF assms(2)])

lemma latest_order_independent:
  assumes "valid s" and "\<forall>m\<in>set (evidence s). wall_only (completed m)"
    and "valid s'" and "mset (evidence s') = mset (evidence s)"
  shows "latest mkey completed Map.empty (evidence s') = latest mkey completed Map.empty (evidence s)"
proof
  fix k
  have sets: "set (evidence s') = set (evidence s)"
    using assms(4) by (metis set_mset_mset)
  then have "\<forall>m\<in>set (evidence s'). wall_only (completed m)" using assms(2) by simp
  note iff' = latest_Some_iff [OF assms(3) this] and iff = latest_Some_iff [OF assms(1,2)]
  have "is_latest mkey completed (evidence s') k m \<longleftrightarrow> is_latest mkey completed (evidence s) k m" for m
    by (simp add: is_latest_def sets)
  then show "latest mkey completed Map.empty (evidence s') k =
      latest mkey completed Map.empty (evidence s) k"
    using iff iff' by (metis not_None_eq)
qed

end

end
