(* ===== verification/QualityModel.thy ===== *)
theory QualityModel
  imports Evidence
begin

text \<open>
  \<open>networkquality/model.go\<close>: the bounded input of one network-quality assessment (observer,
  targets, measurements) and its validation.  The string types of the code become datatypes with the
  constants of the code as constructors and one constructor for every other string, so that the
  branches that refuse unknown values are branches of the model.
\<close>

section \<open>Constants and data\<close>

definition MaxTargets :: nat where "MaxTargets = 16"
definition MaxMeasurements :: nat where "MaxMeasurements = 128"
definition MaxWindow :: duration where "MaxWindow = 24 * hour"
definition MaxFreshness :: duration where "MaxFreshness = 15 * minute"
definition MaxCheckTime :: duration where "MaxCheckTime = 30 * second"
definition MaxAttempts :: int where "MaxAttempts = 10"

lemmas quality_limits =
  MaxTargets_def MaxMeasurements_def MaxWindow_def MaxFreshness_def MaxCheckTime_def MaxAttempts_def
  duration_units

datatype layer = LayerLink | LayerGateway | LayerDNS | LayerExternal | LayerOther string

datatype qmethod = MethodInterface | MethodICMP | MethodDNS | MethodHTTPS | MethodOther string

datatype address_family = FamilyNone | FamilyIPv4 | FamilyIPv6 | FamilyOther string

datatype outcome =
  OutcomeSucceeded | OutcomePartial | OutcomeFailed | OutcomeUnavailable | OutcomeNotRun
| OutcomeOther string

datatype gap_reason =
  GapNone | GapPermission | GapUnsupported | GapSourceUnavailable | GapDisabled | GapNotConfigured
| GapSleep | GapOffline | GapNetworkChanged | GapOther string

record observer =
  o_ScopeID :: string
  o_SensorID :: string
  o_InterfaceName :: string
  o_InterfaceIndex :: int

record target =
  t_ID :: string
  t_Layer :: layer
  t_Method :: qmethod
  t_Family :: address_family

record measurement =
  m_ID :: string
  m_TargetID :: string
  m_Observer :: observer
  m_StartedAt :: time
  m_CompletedAt :: time
  m_Outcome :: outcome
  m_Gap :: gap_reason
  m_Attempts :: int
  m_Successes :: int
  m_MeanLatency :: "duration option"

record snapshot =
  s_Observer :: observer
  s_AsOf :: time
  s_WindowStart :: time
  s_Freshness :: duration
  s_Targets :: "target list"
  s_Measurements :: "measurement list"

section \<open>Tokens and observers\<close>

text \<open>
  \<open>^[a-z0-9]+(?:[._-][a-z0-9]+)*$\<close> as an automaton; the flag says whether the last character was
  alphanumeric.
\<close>

definition is_token_separator :: "char \<Rightarrow> bool" where
  "is_token_separator c \<longleftrightarrow> c = CHR ''.'' \<or> c = CHR ''_'' \<or> c = CHR ''-''"

fun token_from :: "bool \<Rightarrow> string \<Rightarrow> bool" where
  "token_from b [] = b"
| "token_from b (c # cs) =
     (if is_lower_alnum c then token_from True cs
      else b \<and> is_token_separator c \<and> token_from False cs)"

definition tokenPattern :: "string \<Rightarrow> bool" where
  "tokenPattern s = token_from False s"

definition is_interface_char :: "char \<Rightarrow> bool" where
  "is_interface_char c \<longleftrightarrow>
     is_alnum c \<or> c = CHR ''_'' \<or> c = CHR ''.'' \<or> c = CHR '':'' \<or> c = CHR ''-''"

definition interfacePattern :: "string \<Rightarrow> bool" where
  "interfacePattern s = head_tail_match is_alnum is_interface_char None s"

definition validToken :: "string \<Rightarrow> bool" where
  "validToken v \<longleftrightarrow> length v > 0 \<and> length v \<le> 128 \<and> tokenPattern v"

definition validObserver :: "observer \<Rightarrow> bool" where
  "validObserver ob \<longleftrightarrow>
     validToken (o_ScopeID ob) \<and> validToken (o_SensorID ob) \<and>
     length (o_InterfaceName ob) > 0 \<and> length (o_InterfaceName ob) \<le> 64 \<and>
     interfacePattern (o_InterfaceName ob) \<and> o_InterfaceIndex ob > 0"

section \<open>Validation of targets and measurements\<close>

definition validateTarget :: "target \<Rightarrow> (string, unit) result" where
  "validateTarget t =
     guard (\<not> validToken (t_ID t)) ''quality target id is invalid''
     (if t_Layer t = LayerLink then
        (if t_Method t = MethodInterface \<and> t_Family t = FamilyNone then Inr ()
         else Inl ''local link requires interface-state with no address family'')
      else
        guard (t_Family t \<noteq> FamilyIPv4 \<and> t_Family t \<noteq> FamilyIPv6)
          ''quality target address family is invalid''
        (if (case t_Layer t of
               LayerGateway \<Rightarrow> t_Method t = MethodICMP
             | LayerDNS \<Rightarrow> t_Method t = MethodDNS
             | LayerExternal \<Rightarrow> t_Method t = MethodICMP \<or> t_Method t = MethodHTTPS
             | _ \<Rightarrow> False)
         then Inr () else Inl ''quality layer and method combination is invalid''))"

text \<open>The metrics of a check that was measured with probes.\<close>

definition probe_metrics :: "measurement \<Rightarrow> (string, unit) result" where
  "probe_metrics m =
     guard (m_Attempts m < 1 \<or> m_Attempts m > MaxAttempts \<or>
            m_Successes m < 0 \<or> m_Successes m > m_Attempts m)
       ''quality check counts are invalid''
     (guard ((m_Outcome m = OutcomeSucceeded \<and> m_Successes m \<noteq> m_Attempts m) \<or>
             (m_Outcome m = OutcomePartial \<and>
                (m_Successes m = 0 \<or> m_Successes m = m_Attempts m)) \<or>
             (m_Outcome m = OutcomeFailed \<and> m_Successes m \<noteq> 0))
       ''quality outcome contradicts check counts''
     (case m_MeanLatency m of
        None \<Rightarrow> Inr ()
      | Some l \<Rightarrow>
          guard (m_Successes m = 0 \<or> l < 0 \<or> l > time_sub (m_CompletedAt m) (m_StartedAt m))
            ''quality latency is inconsistent with successful checks'' (Inr ())))"

definition validateMeasurement :: "target \<Rightarrow> measurement \<Rightarrow> (string, unit) result" where
  "validateMeasurement t m =
     (if m_Outcome m = OutcomeUnavailable \<or> m_Outcome m = OutcomeNotRun then
        guard (m_Attempts m \<noteq> 0 \<or> m_Successes m \<noteq> 0 \<or> m_MeanLatency m \<noteq> None)
          ''unmeasured quality check cannot carry metrics''
        (if (if m_Outcome m = OutcomeUnavailable
             then m_Gap m \<in> {GapPermission, GapUnsupported, GapSourceUnavailable}
             else m_Gap m \<in> {GapDisabled, GapNotConfigured, GapSleep, GapOffline, GapNetworkChanged})
         then Inr () else Inl ''unmeasured quality check requires a matching gap reason'')
      else if m_Outcome m \<in> {OutcomeSucceeded, OutcomePartial, OutcomeFailed} then
        guard (time_sub (m_CompletedAt m) (m_StartedAt m) > MaxCheckTime)
          ''quality check exceeds duration bound''
        (guard (m_Gap m \<noteq> GapNone) ''measured quality check cannot carry a gap reason''
        (if t_Method t = MethodInterface then
           guard (m_Outcome m = OutcomePartial \<or> m_Attempts m \<noteq> 0 \<or> m_Successes m \<noteq> 0 \<or>
                  m_MeanLatency m \<noteq> None)
             ''interface-state cannot carry probe metrics or a partial outcome'' (Inr ())
         else probe_metrics m))
      else Inl ''quality measurement outcome is invalid'')"

section \<open>Validation of a snapshot\<close>

definition identify_measurement ::
  "snapshot \<Rightarrow> (string \<rightharpoonup> target) \<Rightarrow> bool \<Rightarrow> measurement \<Rightarrow> (string, target) result" where
  "identify_measurement s targets seen m =
     guard (\<not> validToken (m_ID m)) ''quality measurement id is invalid''
     (guard seen ''duplicate quality measurement''
     (case targets (m_TargetID m) of
        None \<Rightarrow> Inl ''quality measurement is outside the selected context''
      | Some t \<Rightarrow>
          guard (m_Observer m \<noteq> s_Observer s)
            ''quality measurement is outside the selected context'' (Inr t)))"

definition measurement_stamps :: "snapshot \<Rightarrow> measurement \<Rightarrow> (string, unit) result" where
  "measurement_stamps s m =
     guard (is_zero (m_StartedAt m) \<or> is_zero (m_CompletedAt m) \<or>
            before (m_StartedAt m) (s_WindowStart s) \<or> after (m_CompletedAt m) (s_AsOf s) \<or>
            before (m_CompletedAt m) (m_StartedAt m))
       ''quality measurement timestamps are invalid'' (Inr ())"

definition ValidateSnapshot :: "snapshot \<Rightarrow> (string, unit) result" where
  "ValidateSnapshot s =
     guard (\<not> validObserver (s_Observer s)) ''quality observer is invalid''
     (guard (is_zero (s_AsOf s) \<or> is_zero (s_WindowStart s) \<or>
             after (s_WindowStart s) (s_AsOf s) \<or>
             time_sub (s_AsOf s) (s_WindowStart s) > MaxWindow)
        ''quality assessment window is invalid''
     (guard (s_Freshness s < second \<or> s_Freshness s > MaxFreshness)
        ''quality freshness must be between one second and fifteen minutes''
     (guard (length (s_Targets s) > MaxTargets \<or> length (s_Measurements s) > MaxMeasurements)
        ''quality input exceeds collection bounds''
     (bind_result
        (collect_keyed validateTarget t_ID ''duplicate quality target'' Map.empty (s_Targets s))
        (\<lambda>targets.
          admit_measurements (identify_measurement s targets) (measurement_stamps s)
            validateMeasurement m_ID t_ID m_CompletedAt
            ''quality target has ambiguous simultaneous measurements''
            {} (\<lambda>_. {}) (s_Measurements s))))))"

abbreviation valid_snapshot :: "snapshot \<Rightarrow> bool" where
  "valid_snapshot s \<equiv> ValidateSnapshot s = Inr ()"

section \<open>Tokens\<close>

text \<open>The automaton recognises the language of the regular expression.\<close>

inductive token_language :: "string \<Rightarrow> bool" where
  word: "w \<noteq> [] \<Longrightarrow> list_all is_lower_alnum w \<Longrightarrow> token_language w"
| more: "token_language t \<Longrightarrow> is_token_separator c \<Longrightarrow> w \<noteq> [] \<Longrightarrow> list_all is_lower_alnum w \<Longrightarrow>
     token_language (t @ c # w)"

lemma separator_not_alnum [simp]: "is_token_separator c \<Longrightarrow> \<not> is_lower_alnum c"
  by (auto simp: is_token_separator_def is_lower_alnum_def is_lower_def is_digit_def)

lemma token_from_append: "token_from b xs \<Longrightarrow> token_from b (xs @ ys) = token_from True ys"
  by (induction b xs rule: token_from.induct) (auto split: if_splits)

lemma token_from_word: "list_all is_lower_alnum w \<Longrightarrow> token_from b w \<longleftrightarrow> b \<or> w \<noteq> []"
  by (induction w arbitrary: b) auto

lemma token_language_snoc: "token_language t \<Longrightarrow> is_lower_alnum c \<Longrightarrow> token_language (t @ [c])"
proof (induction rule: token_language.cases)
  case (word w)
  then show ?case by (simp add: token_language.word)
next
  case (more t' d w)
  then have "token_language (t' @ d # (w @ [c]))" by (intro token_language.more) simp_all
  with more show ?case by simp
qed

lemma token_from_language:
  "(token_from True s \<longrightarrow> (\<forall>t. token_language t \<longrightarrow> token_language (t @ s))) \<and>
   (token_from False s \<longrightarrow> token_language s \<and>
      (\<forall>t c. token_language t \<longrightarrow> is_token_separator c \<longrightarrow> token_language (t @ c # s)))"
proof (induction s)
  case Nil
  then show ?case by simp
next
  case (Cons x xs)
  have one: "is_lower_alnum x \<Longrightarrow> token_language [x]"
    by (simp add: token_language.word)
  have sep: "token_language (t @ [c, x])" if "token_language t" "is_token_separator c" "is_lower_alnum x" for t c
    using token_language.more [OF that(1,2), of "[x]"] that(3) by simp
  show ?case
  proof (intro conjI impI allI)
    fix t
    assume "token_from True (x # xs)" and t: "token_language t"
    then show "token_language (t @ x # xs)"
      using Cons.IH token_language_snoc [OF t, of x] by (fastforce split: if_splits)
  next
    assume "token_from False (x # xs)"
    then show "token_language (x # xs)"
      using Cons.IH one by (fastforce split: if_splits)
  next
    fix t c
    assume "token_from False (x # xs)" and "token_language t" and "is_token_separator c"
    then show "token_language (t @ c # x # xs)"
      using Cons.IH sep [of t c] by (fastforce split: if_splits)
  qed
qed

lemma tokenPattern_language: "tokenPattern s \<longleftrightarrow> token_language s"
proof
  assume "token_language s"
  then have "token_from False s"
  proof (induction rule: token_language.induct)
    case (word w)
    then show ?case by (simp add: token_from_word)
  next
    case (more t c w)
    then show ?case by (simp add: token_from_append token_from_word)
  qed
  then show "tokenPattern s" by (simp add: tokenPattern_def)
qed (use token_from_language in \<open>auto simp: tokenPattern_def\<close>)

lemma validToken_nonempty: "validToken v \<Longrightarrow> v \<noteq> []"
  by (auto simp: validToken_def)

section \<open>What validation accepts\<close>

definition target_allowed :: "target \<Rightarrow> bool" where
  "target_allowed t \<longleftrightarrow>
     validToken (t_ID t) \<and>
     (t_Layer t, t_Method t) \<in> {(LayerLink, MethodInterface), (LayerGateway, MethodICMP),
        (LayerDNS, MethodDNS), (LayerExternal, MethodICMP), (LayerExternal, MethodHTTPS)} \<and>
     (if t_Layer t = LayerLink then t_Family t = FamilyNone
      else t_Family t \<in> {FamilyIPv4, FamilyIPv6})"

lemma validateTarget_ok: "validateTarget t = Inr () \<longleftrightarrow> target_allowed t"
  by (cases "t_Layer t") (auto simp: validateTarget_def target_allowed_def)

text \<open>
  A measurement of a target either reports a gap and no metrics, or reports a measured outcome whose
  counts agree with it.
\<close>

definition gap_measurement :: "measurement \<Rightarrow> bool" where
  "gap_measurement m \<longleftrightarrow>
     m_Attempts m = 0 \<and> m_Successes m = 0 \<and> m_MeanLatency m = None \<and>
     (m_Outcome m = OutcomeUnavailable \<and>
        m_Gap m \<in> {GapPermission, GapUnsupported, GapSourceUnavailable} \<or>
      m_Outcome m = OutcomeNotRun \<and>
        m_Gap m \<in> {GapDisabled, GapNotConfigured, GapSleep, GapOffline, GapNetworkChanged})"

definition counts_agree :: "measurement \<Rightarrow> bool" where
  "counts_agree m \<longleftrightarrow>
     1 \<le> m_Attempts m \<and> m_Attempts m \<le> MaxAttempts \<and>
     (case m_Outcome m of
        OutcomeSucceeded \<Rightarrow> m_Successes m = m_Attempts m
      | OutcomePartial \<Rightarrow> 0 < m_Successes m \<and> m_Successes m < m_Attempts m
      | OutcomeFailed \<Rightarrow> m_Successes m = 0
      | _ \<Rightarrow> False) \<and>
     (case m_MeanLatency m of None \<Rightarrow> True
      | Some l \<Rightarrow> 0 < m_Successes m \<and> 0 \<le> l \<and> l \<le> time_sub (m_CompletedAt m) (m_StartedAt m))"

definition measured :: "target \<Rightarrow> measurement \<Rightarrow> bool" where
  "measured t m \<longleftrightarrow>
     m_Gap m = GapNone \<and> time_sub (m_CompletedAt m) (m_StartedAt m) \<le> MaxCheckTime \<and>
     (if t_Method t = MethodInterface
      then m_Outcome m \<in> {OutcomeSucceeded, OutcomeFailed} \<and> m_Attempts m = 0 \<and>
           m_Successes m = 0 \<and> m_MeanLatency m = None
      else counts_agree m)"

lemma probe_metrics_ok:
  "m_Outcome m \<in> {OutcomeSucceeded, OutcomePartial, OutcomeFailed} \<Longrightarrow>
     probe_metrics m = Inr () \<longleftrightarrow> counts_agree m"
  by (auto simp: probe_metrics_def counts_agree_def split: option.splits outcome.splits)

lemma validateMeasurement_ok:
  "validateMeasurement t m = Inr () \<longleftrightarrow> gap_measurement m \<or> measured t m"
proof (cases "m_Outcome m \<in> {OutcomeSucceeded, OutcomePartial, OutcomeFailed}")
  case True
  then show ?thesis
    by (auto simp: validateMeasurement_def gap_measurement_def measured_def probe_metrics_ok)
next
  case False
  then have "\<not> measured t m"
    by (cases "m_Outcome m") (auto simp: measured_def counts_agree_def)
  with False show ?thesis
    by (auto simp: validateMeasurement_def gap_measurement_def)
qed

definition window_allowed :: "snapshot \<Rightarrow> bool" where
  "window_allowed s \<longleftrightarrow>
     \<not> is_zero (s_AsOf s) \<and> \<not> is_zero (s_WindowStart s) \<and> \<not> after (s_WindowStart s) (s_AsOf s) \<and>
     time_sub (s_AsOf s) (s_WindowStart s) \<le> MaxWindow \<and>
     second \<le> s_Freshness s \<and> s_Freshness s \<le> MaxFreshness"

definition stamps_allowed :: "snapshot \<Rightarrow> measurement \<Rightarrow> bool" where
  "stamps_allowed s m \<longleftrightarrow>
     \<not> is_zero (m_StartedAt m) \<and> \<not> is_zero (m_CompletedAt m) \<and>
     \<not> before (m_StartedAt m) (s_WindowStart s) \<and> \<not> after (m_CompletedAt m) (s_AsOf s) \<and>
     \<not> before (m_CompletedAt m) (m_StartedAt m)"

definition measurement_allowed :: "snapshot \<Rightarrow> measurement \<Rightarrow> bool" where
  "measurement_allowed s m \<longleftrightarrow>
     validToken (m_ID m) \<and> m_Observer m = s_Observer s \<and> stamps_allowed s m \<and>
     (\<exists>t\<in>set (s_Targets s). t_ID t = m_TargetID m \<and> (gap_measurement m \<or> measured t m))"

lemma identify_measurement_Inr:
  "identify_measurement s targets seen m = Inr t \<longleftrightarrow>
     \<not> seen \<and> validToken (m_ID m) \<and> m_Observer m = s_Observer s \<and> targets (m_TargetID m) = Some t"
  by (auto simp: identify_measurement_def split: option.splits)

lemma measurement_stamps_ok: "measurement_stamps s m = Inr () \<longleftrightarrow> stamps_allowed s m"
  by (auto simp: measurement_stamps_def stamps_allowed_def)

lemma ValidateSnapshot_iff:
  "valid_snapshot s \<longleftrightarrow>
     validObserver (s_Observer s) \<and> window_allowed s \<and>
     length (s_Targets s) \<le> MaxTargets \<and> length (s_Measurements s) \<le> MaxMeasurements \<and>
     (\<forall>t\<in>set (s_Targets s). target_allowed t) \<and> distinct (map t_ID (s_Targets s)) \<and>
     (\<forall>m\<in>set (s_Measurements s). measurement_allowed s m) \<and>
     distinct (map m_ID (s_Measurements s)) \<and>
     distinct (map (\<lambda>m. (m_TargetID m, wall (m_CompletedAt m))) (s_Measurements s))"
    (is "_ \<longleftrightarrow> ?rhs")
proof -
  define T where "T = map_by t_ID (s_Targets s)"
  have loop: "admit_measurements (identify_measurement s T) (measurement_stamps s) validateMeasurement
        m_ID t_ID m_CompletedAt amb {} (\<lambda>_. {}) ms = Inr () \<longleftrightarrow>
      (\<forall>m\<in>set ms. (\<exists>t. identify_measurement s T False m = Inr t \<and> validateMeasurement t m = Inr ()) \<and>
         measurement_stamps s m = Inr ()) \<and>
      distinct (map m_ID ms) \<and> distinct (map (\<lambda>m. (m_TargetID m, wall (m_CompletedAt m))) ms)"
    for amb ms
    by (subst admit_measurements_Inr [where mkey = m_TargetID])
       (auto simp: identify_measurement_Inr T_def dest: map_by_SomeD)
  have each: "(\<exists>t. identify_measurement s T False m = Inr t \<and> validateMeasurement t m = Inr ()) \<and>
      measurement_stamps s m = Inr () \<longleftrightarrow> measurement_allowed s m"
    if "distinct (map t_ID (s_Targets s))" for m
    using map_by_member [OF that]
    by (auto simp: identify_measurement_Inr validateMeasurement_ok measurement_stamps_ok
        measurement_allowed_def T_def dest: map_by_SomeD) metis+
  have "valid_snapshot s \<longleftrightarrow> validObserver (s_Observer s) \<and> window_allowed s \<and>
      length (s_Targets s) \<le> MaxTargets \<and> length (s_Measurements s) \<le> MaxMeasurements \<and>
      (\<forall>t\<in>set (s_Targets s). target_allowed t) \<and> distinct (map t_ID (s_Targets s)) \<and>
      admit_measurements (identify_measurement s T) (measurement_stamps s) validateMeasurement
        m_ID t_ID m_CompletedAt ''quality target has ambiguous simultaneous measurements''
        {} (\<lambda>_. {}) (s_Measurements s) = Inr ()"
    by (auto simp: ValidateSnapshot_def collect_keyed_empty validateTarget_ok window_allowed_def
        T_def [symmetric])
  then show ?thesis
    by (cases "distinct (map t_ID (s_Targets s))") (simp_all add: loop each)
qed

lemmas ValidateSnapshotD = ValidateSnapshot_iff [THEN iffD1]

text \<open>A valid snapshot has no ties: it meets the contract of the latest-evidence selection.\<close>

interpretation network: assessed_evidence valid_snapshot s_Measurements m_TargetID m_CompletedAt
  by unfold_locales (simp add: ValidateSnapshot_iff)

lemma valid_snapshot_perm:
  assumes "mset ms = mset (s_Measurements s)"
  shows "valid_snapshot (s\<lparr>s_Measurements := ms\<rparr>) \<longleftrightarrow> valid_snapshot s"
proof -
  have len: "length ms = length (s_Measurements s)"
    using assms by (metis size_mset)
  have allowed: "measurement_allowed (s\<lparr>s_Measurements := ms\<rparr>) m \<longleftrightarrow> measurement_allowed s m" for m
    by (simp add: measurement_allowed_def stamps_allowed_def)
  show ?thesis
    unfolding ValidateSnapshot_iff window_allowed_def
    by (simp add: allowed len ball_mset [OF assms] distinct_map_mset [OF assms])
qed

lemma valid_measurement_counts:
  assumes "valid_snapshot s" and "m \<in> set (s_Measurements s)"
  shows "0 \<le> m_Successes m \<and> m_Successes m \<le> m_Attempts m \<and> m_Attempts m \<le> MaxAttempts"
proof -
  have "measurement_allowed s m" using assms by (simp add: ValidateSnapshot_iff)
  then show ?thesis
    by (auto simp: measurement_allowed_def gap_measurement_def measured_def counts_agree_def
        MaxAttempts_def split: if_splits outcome.splits)
qed

end
