(* ===== verification/QualityAssess.thy ===== *)
theory QualityAssess
  imports QualityModel Complex_Main
begin

text \<open>
  \<open>networkquality/assess.go\<close>: the assessment of a validated snapshot.  For every selected target the
  latest measurement is taken by completion time, its freshness is decided against the assessment
  time, and state, confidence, metrics and the texts shown to the user follow from it.  The reply loss
  of the code is a \<open>float64\<close> quotient of small integers; the model keeps the exact quotient.
\<close>

section \<open>Data\<close>

datatype state = StateUnknown | StateNotMeasured | StateStale | StateSucceeded | StateIssueObserved

datatype confidence = ConfidenceUnknown | ConfidenceLimited

record check_assessment =
  c_Target :: target
  c_State :: state
  c_Confidence :: confidence
  c_EvidenceID :: string
  c_StartedAt :: time
  c_CompletedAt :: time
  c_FreshUntil :: time
  c_Gap :: gap_reason
  c_Attempts :: int
  c_Successes :: int
  c_MeanLatency :: "duration option"
  c_ReplyLossPercent :: "rat option"
  c_Summary :: string
  c_NextStep :: string

record report =
  r_Observer :: observer
  r_AsOf :: time
  r_WindowStart :: time
  r_Checks :: "check_assessment list"
  r_Limitations :: "string list"

section \<open>Texts\<close>

fun gapCopy :: "gap_reason \<Rightarrow> string \<times> string" where
  "gapCopy GapPermission =
     (''This check could not run with the available permissions.'',
      ''Review the permission requirement; no network failure was measured.'')"
| "gapCopy GapUnsupported =
     (''This measurement is unavailable on the current platform.'',
      ''Use a supported measurement source; do not interpret missing support as poor connectivity.'')"
| "gapCopy GapSourceUnavailable =
     (''The measurement source was unavailable.'',
      ''Check the measurement source and retry without changing network configuration.'')"
| "gapCopy GapDisabled =
     (''This check is disabled.'',
      ''Leave it disabled, or review its scope and privacy impact before enabling it.'')"
| "gapCopy GapNotConfigured =
     (''This check has no configured destination.'',
      ''Select an authorized destination only when this measurement is needed.'')"
| "gapCopy GapSleep =
     (''No measurement was taken during the recorded controller sleep gap.'',
      ''Collect fresh evidence after resume; the gap is not a measured outage.'')"
| "gapCopy GapOffline =
     (''No measurement was taken during the recorded controller offline gap.'',
      ''Restore the controller and collect fresh evidence; network connectivity during the gap is unknown.'')"
| "gapCopy GapNetworkChanged =
     (''The network binding changed, so this check did not run.'',
      ''Review network enrollment before collecting more evidence.'')"
| "gapCopy gap =
     (''This check was not measured.'',
      ''Review the measurement source before retrying.'')"

definition measurementCopy :: "target \<Rightarrow> outcome \<Rightarrow> string \<times> string" where
  "measurementCopy t outcome =
     (if t_Layer t = LayerLink then
        (if outcome = OutcomeSucceeded
         then (''The local interface reported up.'',
                ''Interface state alone does not establish gateway, DNS, or internet reachability.'')
         else (''The local interface reported down.'',
                ''Review this device's local connection; other devices and paths were not assessed.''))
      else if outcome = OutcomePartial then
        (if t_Method t = MethodICMP
         then (''Some ICMP probes were unanswered.'',
                ''Compare a later bounded sample; filtering or target load can affect probe replies.'')
         else if t_Method t = MethodDNS
         then (''Some DNS checks to the selected resolver failed.'',
                ''Review resolver evidence; failed DNS checks are not a packet-loss measurement.'')
         else (''Some HTTPS checks to the selected target failed.'',
                ''Compare other authorized evidence before inferring a wider connectivity problem.''))
      else (case t_Layer t of
          LayerGateway \<Rightarrow>
            (if outcome = OutcomeSucceeded
             then (''The selected gateway answered the ICMP check.'',
                ''This result does not establish DNS or external connectivity.'')
             else (''The selected gateway did not answer this ICMP check.'',
                ''Review the gateway and local connection; ICMP may be filtered.''))
        | LayerDNS \<Rightarrow>
            (if outcome = OutcomeSucceeded
             then (''The selected resolver completed the DNS check.'',
                ''This result is limited to the selected resolver and query, not all DNS or internet traffic.'')
             else (''The DNS check to the selected resolver failed.'',
                ''Review resolver settings and corroborating evidence before changing DNS configuration.''))
        | _ \<Rightarrow>
            (if outcome = OutcomeSucceeded
             then (''The selected external target passed this check.'',
                ''This result is limited to this target, protocol, address family, and observation point.'')
             else (''The selected external target did not pass this check.'',
                ''Compare other authorized evidence before concluding there is a wider internet problem.''))))"

definition report_limitations :: "string list" where
  "report_limitations =
     [''These measurements describe one observing device and interface, not the whole home.'',
      ''Network quality is separate from security findings and monitoring coverage.'',
      ''One failed check does not establish an internet outage; targets or protocols may be unavailable or filtered.'']"

definition no_measurement_copy :: "string \<times> string" where
  "no_measurement_copy =
     (''No measurement is available for this check.'',
      ''Review setup before collecting a fresh, explicitly authorized measurement.'')"

definition historical_copy :: "string \<times> string" where
  "historical_copy =
     (''This check has only historical evidence.'',
      ''Collect a fresh authorized measurement; a gap does not establish a network outage.'')"

section \<open>Assessment\<close>

definition assessMeasurement ::
  "target \<Rightarrow> measurement \<Rightarrow> time \<Rightarrow> duration \<Rightarrow> check_assessment" where
  "assessMeasurement t m asOf freshness =
     (let check = \<lparr>c_Target = t, c_State = StateStale, c_Confidence = ConfidenceUnknown,
            c_EvidenceID = m_ID m, c_StartedAt = m_StartedAt m, c_CompletedAt = m_CompletedAt m,
            c_FreshUntil = time_add (m_CompletedAt m) freshness, c_Gap = m_Gap m,
            c_Attempts = m_Attempts m, c_Successes = m_Successes m, c_MeanLatency = None,
            c_ReplyLossPercent = None, c_Summary = fst historical_copy,
            c_NextStep = snd historical_copy\<rparr>
      in if \<not> after (c_FreshUntil check) asOf then check
         else if m_Outcome m = OutcomeUnavailable \<or> m_Outcome m = OutcomeNotRun then
           check\<lparr>c_State := StateNotMeasured,
             c_Summary := fst (gapCopy (m_Gap m)), c_NextStep := snd (gapCopy (m_Gap m))\<rparr>
         else
           check\<lparr>c_Confidence := ConfidenceLimited,
             c_State := (if m_Outcome m \<noteq> OutcomeSucceeded then StateIssueObserved
                         else StateSucceeded),
             c_MeanLatency := m_MeanLatency m,
             c_ReplyLossPercent :=
               (if t_Method t = MethodICMP
                then Some (100 * of_int (m_Attempts m - m_Successes m) / of_int (m_Attempts m))
                else None),
             c_Summary := fst (measurementCopy t (m_Outcome m)),
             c_NextStep := snd (measurementCopy t (m_Outcome m))\<rparr>)"

definition unmeasured_check :: "target \<Rightarrow> check_assessment" where
  "unmeasured_check t =
     \<lparr>c_Target = t, c_State = StateUnknown, c_Confidence = ConfidenceUnknown,
      c_EvidenceID = [], c_StartedAt = zero_time, c_CompletedAt = zero_time,
      c_FreshUntil = zero_time, c_Gap = GapNone, c_Attempts = 0, c_Successes = 0,
      c_MeanLatency = None, c_ReplyLossPercent = None,
      c_Summary = fst no_measurement_copy, c_NextStep = snd no_measurement_copy\<rparr>"

definition Assess :: "snapshot \<Rightarrow> (string, report) result" where
  "Assess s =
     bind_result (ValidateSnapshot s) (\<lambda>_.
     (let newest = latest m_TargetID m_CompletedAt Map.empty (s_Measurements s)
      in Inr \<lparr>r_Observer = s_Observer s, r_AsOf = s_AsOf s, r_WindowStart = s_WindowStart s,
              r_Checks = map (\<lambda>t. case newest (t_ID t) of
                                None \<Rightarrow> unmeasured_check t
                              | Some m \<Rightarrow> assessMeasurement t m (s_AsOf s) (s_Freshness s))
                            (s_Targets s),
              r_Limitations = report_limitations\<rparr>))"

section \<open>One measurement\<close>

lemma assessMeasurement_simps [simp]:
  "c_Target (assessMeasurement t m asOf fr) = t"
  "c_EvidenceID (assessMeasurement t m asOf fr) = m_ID m"
  "c_CompletedAt (assessMeasurement t m asOf fr) = m_CompletedAt m"
  "c_Gap (assessMeasurement t m asOf fr) = m_Gap m"
  by (simp_all add: assessMeasurement_def Let_def)

lemma unmeasured_check_simps [simp]:
  "c_Target (unmeasured_check t) = t"
  "c_State (unmeasured_check t) = StateUnknown"
  "c_EvidenceID (unmeasured_check t) = []"
  "c_ReplyLossPercent (unmeasured_check t) = None"
  by (simp_all add: unmeasured_check_def)

definition fresh_at :: "time \<Rightarrow> time \<Rightarrow> duration \<Rightarrow> bool" where
  "fresh_at completed asOf freshness \<longleftrightarrow> wall asOf < wall completed + freshness"

definition state_of :: "time \<Rightarrow> duration \<Rightarrow> measurement option \<Rightarrow> state" where
  "state_of asOf freshness newest =
     (case newest of
        None \<Rightarrow> StateUnknown
      | Some m \<Rightarrow>
          if \<not> fresh_at (m_CompletedAt m) asOf freshness then StateStale
          else (case m_Outcome m of
                  OutcomeUnavailable \<Rightarrow> StateNotMeasured
                | OutcomeNotRun \<Rightarrow> StateNotMeasured
                | OutcomeSucceeded \<Rightarrow> StateSucceeded
                | _ \<Rightarrow> StateIssueObserved))"

lemma assessMeasurement_state:
  assumes "wall_only (m_CompletedAt m)"
  shows "c_State (assessMeasurement t m asOf fr) = state_of asOf fr (Some m)"
  using assms
  by (cases "m_Outcome m")
     (simp_all add: assessMeasurement_def state_of_def fresh_at_def Let_def go_time)

lemma assessMeasurement_loss:
  "c_ReplyLossPercent (assessMeasurement t m asOf fr) = Some p \<Longrightarrow>
     t_Method t = MethodICMP \<and> m_Outcome m \<noteq> OutcomeUnavailable \<and> m_Outcome m \<noteq> OutcomeNotRun \<and>
     p = 100 * of_int (m_Attempts m - m_Successes m) / of_int (m_Attempts m)"
  by (auto simp: assessMeasurement_def Let_def split: if_splits)

section \<open>The whole assessment\<close>

lemma Assess_Inr:
  "Assess s = Inr r \<longleftrightarrow> valid_snapshot s \<and>
     r = \<lparr>r_Observer = s_Observer s, r_AsOf = s_AsOf s, r_WindowStart = s_WindowStart s,
          r_Checks = map (\<lambda>t. case latest m_TargetID m_CompletedAt Map.empty (s_Measurements s) (t_ID t) of
                            None \<Rightarrow> unmeasured_check t
                          | Some m \<Rightarrow> assessMeasurement t m (s_AsOf s) (s_Freshness s)) (s_Targets s),
          r_Limitations = report_limitations\<rparr>"
  by (auto simp: Assess_def Let_def)

lemma Assess_ok: "is_ok (Assess s) \<longleftrightarrow> valid_snapshot s"
  by (auto simp: Assess_def Let_def)

lemma latest_member:
  "latest mkey completed Map.empty ms k = Some m \<Longrightarrow> m \<in> set ms \<and> mkey m = k"
  by (induction ms arbitrary: k m rule: rev_induct)
     (auto simp: latest_snoc Let_def split: option.splits if_splits)

section \<open>A sample snapshot\<close>

text \<open>
  One gateway target measured twice (a partial sample, then a success ten seconds before the
  assessment) and a local link that was never measured.
\<close>

definition at_second :: "int \<Rightarrow> time" where
  "at_second n = \<lparr>wall = n * second, mono_at = None\<rparr>"

definition sample_observer :: observer where
  "sample_observer = \<lparr>o_ScopeID = ''scope.home'', o_SensorID = ''sensor-1'', o_InterfaceName = ''en0'',
     o_InterfaceIndex = 4\<rparr>"

definition sample_gateway :: target where
  "sample_gateway = \<lparr>t_ID = ''gw'', t_Layer = LayerGateway, t_Method = MethodICMP, t_Family = FamilyIPv4\<rparr>"

definition sample_link :: target where
  "sample_link = \<lparr>t_ID = ''link'', t_Layer = LayerLink, t_Method = MethodInterface, t_Family = FamilyNone\<rparr>"

definition sample_partial :: measurement where
  "sample_partial = \<lparr>m_ID = ''m1'', m_TargetID = ''gw'', m_Observer = sample_observer,
     m_StartedAt = at_second 900, m_CompletedAt = at_second 903, m_Outcome = OutcomePartial,
     m_Gap = GapNone, m_Attempts = 3, m_Successes = 2, m_MeanLatency = Some millisecond\<rparr>"

definition sample_success :: measurement where
  "sample_success = sample_partial\<lparr>m_ID := ''m2'', m_StartedAt := at_second 987,
     m_CompletedAt := at_second 990, m_Outcome := OutcomeSucceeded, m_Successes := 3\<rparr>"

definition sample_snapshot :: "measurement list \<Rightarrow> snapshot" where
  "sample_snapshot ms = \<lparr>s_Observer = sample_observer, s_AsOf = at_second 1000,
     s_WindowStart = at_second 500, s_Freshness = 120 * second, s_Targets = [sample_gateway, sample_link],
     s_Measurements = ms\<rparr>"

lemmas sample_defs = at_second_def sample_observer_def sample_gateway_def sample_link_def
  sample_partial_def sample_success_def sample_snapshot_def

lemma sample_tokens [simp]:
  "validToken ''scope.home''" "validToken ''sensor-1''" "validToken ''gw''" "validToken ''link''"
  "validToken ''m1''" "validToken ''m2''"
  by (simp_all add: validToken_def tokenPattern_def is_lower_alnum_def is_lower_def is_digit_def
      is_token_separator_def)

lemma sample_observer_valid [simp]: "validObserver sample_observer"
  by (simp add: validObserver_def sample_observer_def interfacePattern_def head_tail_match_def
      is_alnum_def is_interface_char_def is_lower_def is_upper_def is_digit_def)

lemma sample_snapshot_valid [simp]: "valid_snapshot (sample_snapshot [sample_partial, sample_success])"
  by (simp add: ValidateSnapshot_def sample_snapshot_def validateTarget_def sample_gateway_def
      sample_link_def identify_measurement_def measurement_stamps_def validateMeasurement_def
      probe_metrics_def sample_partial_def sample_success_def at_second_def is_zero_def zero_wall_def
      go_time quality_limits int64_clamp_def int64_min_def int64_max_def)

lemma sample_wall_only: "\<forall>m\<in>set [sample_partial, sample_success]. wall_only (m_CompletedAt m)"
  by (simp add: sample_defs)

section \<open>Properties of the assessment\<close>


lemma sample_newest:
  "latest m_TargetID m_CompletedAt Map.empty [sample_partial, sample_success] ''gw'' = Some sample_success"
  by (simp add: sample_defs go_time quality_limits)


text \<open>
  C2: functional correctness of the assessment.  A valid snapshot gets one check per target, in the
  order of the targets, and its state is decided by the latest measurement of that target alone: it is
  unknown without a measurement, stale from the instant the freshness ends, a gap as not measured, and
  a success only from a fresh succeeded measurement.
\<close>

theorem assess_state_from_latest:
  assumes "\<forall>m\<in>set (s_Measurements s). wall_only (m_CompletedAt m)"
    and "Assess s = Inr r" and "i < length (s_Targets s)"
  shows "length (r_Checks r) = length (s_Targets s) \<and>
         c_Target (r_Checks r ! i) = s_Targets s ! i \<and>
         (\<exists>newest. c_State (r_Checks r ! i) = state_of (s_AsOf s) (s_Freshness s) newest \<and>
            (case newest of
               None \<Rightarrow> \<forall>m\<in>set (s_Measurements s). m_TargetID m \<noteq> t_ID (s_Targets s ! i)
             | Some m \<Rightarrow> is_latest m_TargetID m_CompletedAt (s_Measurements s) (t_ID (s_Targets s ! i)) m))"
proof -
  let ?t = "s_Targets s ! i" and ?new = "latest m_TargetID m_CompletedAt Map.empty (s_Measurements s)"
  have valid: "valid_snapshot s" and r: "r_Checks r = map (\<lambda>t. case ?new (t_ID t) of
      None \<Rightarrow> unmeasured_check t | Some m \<Rightarrow> assessMeasurement t m (s_AsOf s) (s_Freshness s)) (s_Targets s)"
    using assms(2) by (auto simp: Assess_Inr)
  note some = network.latest_Some_iff [OF valid assms(1), of "t_ID ?t"]
  show ?thesis
  proof (cases "?new (t_ID ?t)")
    case None
    then have "t_ID ?t \<notin> m_TargetID ` set (s_Measurements s)"
      by (simp add: latest_None_iff)
    with None assms(3) show ?thesis
      by (force simp: r state_of_def intro!: exI [of _ None])
  next
    case (Some m)
    then have newest: "is_latest m_TargetID m_CompletedAt (s_Measurements s) (t_ID ?t) m"
      by (rule some [THEN iffD1])
    then have "wall_only (m_CompletedAt m)" using assms(1) by (simp add: is_latest_def)
    with Some newest assms(3) show ?thesis
      by (auto simp: r assessMeasurement_state intro!: exI [of _ "Some m"])
  qed
qed

theorem assess_state_from_latest_witness:
  "\<exists>r. Assess (sample_snapshot [sample_partial, sample_success]) = Inr r \<and>
       c_State (r_Checks r ! 0) = StateSucceeded"
proof -
  let ?s = "sample_snapshot [sample_partial, sample_success]"
  obtain r where r: "Assess ?s = Inr r"
    using sample_snapshot_valid Assess_ok is_ok_iff by metis
  have wall: "\<forall>m\<in>set (s_Measurements ?s). wall_only (m_CompletedAt m)"
    by (simp add: sample_defs)
  obtain newest where st: "c_State (r_Checks r ! 0) = state_of (s_AsOf ?s) (s_Freshness ?s) newest"
    and new: "case newest of None \<Rightarrow> \<forall>m\<in>set (s_Measurements ?s). m_TargetID m \<noteq> t_ID (s_Targets ?s ! 0)
      | Some m \<Rightarrow> is_latest m_TargetID m_CompletedAt (s_Measurements ?s) (t_ID (s_Targets ?s ! 0)) m"
    using assess_state_from_latest [OF wall r, of 0] by (auto simp: sample_snapshot_def)
  have "newest = Some sample_success"
    using new by (cases newest) (auto simp: is_latest_def sample_defs quality_limits)
  with st have "c_State (r_Checks r ! 0) = StateSucceeded"
    by (simp add: state_of_def fresh_at_def sample_defs quality_limits)
  with r show ?thesis by blast
qed

text \<open>
  bounds of the only loss metric.  A reply loss is reported for ICMP targets only; it lies between
  0 and 100 percent, and it is 0 exactly when the evidence it was computed from is a success.
\<close>

theorem reply_loss_bounds:
  assumes "Assess s = Inr r" and "c \<in> set (r_Checks r)" and "c_ReplyLossPercent c = Some p"
  shows "t_Method (c_Target c) = MethodICMP \<and> 0 \<le> p \<and> p \<le> 100 \<and>
         (p = 0 \<longleftrightarrow> c_State c = StateSucceeded) \<and>
         (\<exists>m\<in>set (s_Measurements s). m_ID m = c_EvidenceID c \<and>
            p * of_int (m_Attempts m) = 100 * of_int (m_Attempts m - m_Successes m))"
proof -
  let ?new = "latest m_TargetID m_CompletedAt Map.empty (s_Measurements s)"
  have valid: "valid_snapshot s" using assms(1) by (simp add: Assess_Inr)
  obtain t m where c: "c = assessMeasurement t m (s_AsOf s) (s_Freshness s)" and t: "t \<in> set (s_Targets s)"
    and new: "?new (t_ID t) = Some m"
    using assms by (auto simp: Assess_Inr split: option.splits)
  have m: "m \<in> set (s_Measurements s)" "m_TargetID m = t_ID t"
    using latest_member [OF new] by auto
  have loss: "t_Method t = MethodICMP" "m_Outcome m \<noteq> OutcomeUnavailable" "m_Outcome m \<noteq> OutcomeNotRun"
    and p: "p = 100 * of_int (m_Attempts m - m_Successes m) / of_int (m_Attempts m)"
    using assms(3) assessMeasurement_loss unfolding c by blast+
  have "measurement_allowed s m" using valid m(1) by (simp add: ValidateSnapshot_iff)
  then obtain t' where t': "t' \<in> set (s_Targets s)" "t_ID t' = t_ID t" and "gap_measurement m \<or> measured t' m"
    using m(2) by (auto simp: measurement_allowed_def)
  moreover have "t' = t"
    using valid t t' by (auto simp: ValidateSnapshot_iff distinct_map dest: inj_onD)
  ultimately have agree: "counts_agree m"
    using loss by (auto simp: gap_measurement_def measured_def)
  have pos: "0 < m_Attempts m" and range: "0 \<le> m_Successes m" "m_Successes m \<le> m_Attempts m"
    and eq: "m_Successes m = m_Attempts m \<longleftrightarrow> m_Outcome m = OutcomeSucceeded"
    using agree by (auto simp: counts_agree_def split: outcome.splits)
  have fresh: "c_State c = (if m_Outcome m \<noteq> OutcomeSucceeded then StateIssueObserved else StateSucceeded)"
    using assms(3) loss by (auto simp: c assessMeasurement_def Let_def split: if_splits)
  have "0 \<le> p" "p \<le> 100" and "p = 0 \<longleftrightarrow> m_Successes m = m_Attempts m"
    using pos range by (auto simp: p field_simps)
  moreover have "p * of_int (m_Attempts m) = 100 * of_int (m_Attempts m - m_Successes m)"
    using pos by (simp add: p)
  ultimately show ?thesis
    using loss(1) eq fresh m(1) by (auto simp: c)
qed

theorem reply_loss_bounds_witness:
  "\<exists>r c. Assess (sample_snapshot [sample_partial]) = Inr r \<and> c \<in> set (r_Checks r) \<and>
     c_ReplyLossPercent c = Some (100 / 3) \<and> (100 / 3 :: rat) \<le> 100 \<and> c_State c \<noteq> StateSucceeded"
proof -
  let ?s = "sample_snapshot [sample_partial]"
  have "valid_snapshot ?s"
    using sample_snapshot_valid by (simp add: ValidateSnapshot_iff sample_snapshot_def
        measurement_allowed_def stamps_allowed_def window_allowed_def)
  then obtain r where r: "Assess ?s = Inr r" using Assess_ok is_ok_iff by metis
  define c where "c = assessMeasurement sample_gateway sample_partial (at_second 1000) (120 * second)"
  have c: "c \<in> set (r_Checks r)"
    using r by (simp add: Assess_Inr c_def sample_snapshot_def) (simp add: sample_defs)
  have loss: "c_ReplyLossPercent c = Some (100 / 3)"
    by (simp add: c_def assessMeasurement_def sample_defs go_time quality_limits)
  show ?thesis
    using reply_loss_bounds [OF r c loss] r c loss by auto
qed

end
