(* ===== verification/ResolverQuality.thy ===== *)
theory ResolverQuality
  imports QualityAssess
begin

text \<open>
  \<open>networkquality/resolver.go\<close> and \<open>resolver_assess.go\<close>: normalized evidence about one DNS exchange
  with an explicitly selected resolver, its validation and its assessment.  The assessment reads
  through the pointer \<open>m.Reply\<close>; a nil dereference is the failure \<open>NilPanic\<close> of the model.
\<close>

section \<open>Data\<close>

datatype dns_transport = DNSUDP | DNSTCP | DNSTransportOther string

datatype dns_query_type = DNSQueryA | DNSQueryAAAA | DNSQueryOther string

datatype dns_expectation = DNSExpectAnswer | DNSExpectNXDOMAIN | DNSExpectNoData | DNSExpectOther string

datatype dns_exchange_state =
  DNSResponseReceived | DNSTimeout | DNSTransportError | DNSIncomplete | DNSNotMeasured
| DNSExchangeOther string

datatype dns_request_state =
  DNSRequestNotSent | DNSRequestAccepted | DNSRequestUncertain | DNSRequestOther string

text \<open>The empty answer kind is the zero value of the Go field.\<close>

datatype dns_answer_kind =
  DNSAnswerNone | DNSAnswerPresent | DNSAnswerNoData | DNSAnswerReferral | DNSAnswerUnclassified
| DNSAnswerOther string

record resolver_selection =
  rs_ID :: string
  rs_ResolverID :: string
  rs_QueryID :: string
  rs_Family :: address_family
  rs_Transport :: dns_transport
  rs_QueryType :: dns_query_type
  rs_Expect :: dns_expectation

record dns_reply =
  dr_RCode :: int
  dr_Truncated :: bool
  dr_Answer :: dns_answer_kind

record resolver_measurement =
  rm_ID :: string
  rm_Selection :: resolver_selection
  rm_Observer :: observer
  rm_StartedAt :: time
  rm_CompletedAt :: time
  rm_Exchange :: dns_exchange_state
  rm_Request :: dns_request_state
  rm_Gap :: gap_reason
  rm_Reply :: "dns_reply option"
  rm_ResponseTime :: "duration option"

record resolver_snapshot =
  rn_Observer :: observer
  rn_AsOf :: time
  rn_WindowStart :: time
  rn_Freshness :: duration
  rn_Selections :: "resolver_selection list"
  rn_Measurements :: "resolver_measurement list"

section \<open>Validation\<close>

definition resolverTime :: "time \<Rightarrow> bool" where
  "resolverTime t \<longleftrightarrow> \<not> is_zero t \<and> int64_wrap (wall t) = wall t"

definition validResolverSelection :: "resolver_selection \<Rightarrow> bool" where
  "validResolverSelection s \<longleftrightarrow>
     validToken (rs_ID s) \<and> validToken (rs_ResolverID s) \<and> validToken (rs_QueryID s) \<and>
     (rs_Family s = FamilyIPv4 \<or> rs_Family s = FamilyIPv6) \<and>
     (rs_Transport s = DNSUDP \<or> rs_Transport s = DNSTCP) \<and>
     (rs_QueryType s = DNSQueryA \<or> rs_QueryType s = DNSQueryAAAA) \<and>
     (rs_Expect s = DNSExpectAnswer \<or> rs_Expect s = DNSExpectNXDOMAIN \<or> rs_Expect s = DNSExpectNoData)"

definition ValidateResolverSelection :: "resolver_selection \<Rightarrow> (string, unit) result" where
  "ValidateResolverSelection s =
     guard (\<not> validResolverSelection s) ''resolver selection is invalid'' (Inr ())"

text \<open>The gap reasons that a check without a measurement may carry.\<close>

abbreviation all_gap_reasons :: "gap_reason set" where
  "all_gap_reasons \<equiv> {GapPermission, GapUnsupported, GapSourceUnavailable, GapDisabled,
     GapNotConfigured, GapSleep, GapOffline, GapNetworkChanged}"

definition validateResolverMeasurement :: "resolver_measurement \<Rightarrow> (string, unit) result" where
  "validateResolverMeasurement m =
     (let invalid = Inl ''resolver exchange evidence is inconsistent'' in
      if rm_Request m \<noteq> DNSRequestNotSent \<and> rm_Request m \<noteq> DNSRequestAccepted \<and>
         rm_Request m \<noteq> DNSRequestUncertain then invalid
      else if rm_Exchange m = DNSNotMeasured then
        (if rm_Request m \<noteq> DNSRequestNotSent \<or> rm_Reply m \<noteq> None \<or> rm_ResponseTime m \<noteq> None
         then invalid
         else if rm_Gap m \<in> all_gap_reasons then Inr () else invalid)
      else if rm_Gap m \<noteq> GapNone \<or> time_sub (rm_CompletedAt m) (rm_StartedAt m) > MaxCheckTime
      then invalid
      else if rm_Exchange m \<noteq> DNSResponseReceived then
        (if rm_Reply m \<noteq> None \<or> rm_ResponseTime m \<noteq> None then invalid
         else (case rm_Exchange m of
                 DNSTimeout \<Rightarrow>
                   if rm_Request m \<noteq> DNSRequestAccepted \<or> \<not> after (rm_CompletedAt m) (rm_StartedAt m)
                   then invalid else Inr ()
               | DNSTransportError \<Rightarrow> Inr ()
               | DNSIncomplete \<Rightarrow> Inr ()
               | _ \<Rightarrow> invalid))
      else if rm_Request m \<noteq> DNSRequestAccepted then invalid
      else (case rm_Reply m of
              None \<Rightarrow> invalid
            | Some reply \<Rightarrow>
                if dr_RCode reply < 0 \<or> dr_RCode reply > 4095 then invalid
                else if (if dr_Truncated reply \<or> dr_RCode reply \<noteq> 0
                         then dr_Answer reply \<noteq> DNSAnswerNone
                         else dr_Answer reply \<notin> {DNSAnswerPresent, DNSAnswerNoData,
                                DNSAnswerReferral, DNSAnswerUnclassified}) then invalid
                else (case rm_ResponseTime m of
                        None \<Rightarrow> Inr ()
                      | Some l \<Rightarrow>
                          if l < 0 \<or> l > time_sub (rm_CompletedAt m) (rm_StartedAt m)
                          then invalid else Inr ())))"

definition identify_resolver ::
  "resolver_snapshot \<Rightarrow> (string \<rightharpoonup> resolver_selection) \<Rightarrow> bool \<Rightarrow> resolver_measurement \<Rightarrow>
     (string, resolver_selection) result" where
  "identify_resolver s selections seen m =
     (case selections (rs_ID (rm_Selection m)) of
        None \<Rightarrow> Inl ''resolver evidence identity or context is invalid''
      | Some selection \<Rightarrow>
          guard (selection \<noteq> rm_Selection m \<or> rm_Observer m \<noteq> rn_Observer s \<or>
                 \<not> validToken (rm_ID m) \<or> seen)
            ''resolver evidence identity or context is invalid'' (Inr selection))"

definition resolver_stamps :: "resolver_snapshot \<Rightarrow> resolver_measurement \<Rightarrow> (string, unit) result" where
  "resolver_stamps s m =
     guard (\<not> resolverTime (rm_StartedAt m) \<or> \<not> resolverTime (rm_CompletedAt m) \<or>
            before (rm_StartedAt m) (rn_WindowStart s) \<or> before (rm_CompletedAt m) (rm_StartedAt m) \<or>
            after (rm_CompletedAt m) (rn_AsOf s))
       ''resolver evidence timestamps are invalid'' (Inr ())"

definition ValidateResolverSnapshot :: "resolver_snapshot \<Rightarrow> (string, unit) result" where
  "ValidateResolverSnapshot s =
     guard (\<not> validObserver (rn_Observer s) \<or> o_InterfaceIndex (rn_Observer s) > 2147483647 \<or>
            \<not> resolverTime (rn_AsOf s) \<or> \<not> resolverTime (rn_WindowStart s) \<or>
            after (rn_WindowStart s) (rn_AsOf s) \<or>
            time_sub (rn_AsOf s) (rn_WindowStart s) > MaxWindow \<or>
            rn_Freshness s < second \<or> rn_Freshness s > MaxFreshness \<or>
            \<not> resolverTime (time_add (rn_AsOf s) (rn_Freshness s)) \<or>
            length (rn_Selections s) > MaxTargets \<or> length (rn_Measurements s) > MaxMeasurements)
       ''resolver assessment context or bounds are invalid''
     (bind_result
        (collect_keyed ValidateResolverSelection rs_ID ''duplicate resolver selection'' Map.empty
           (rn_Selections s))
        (\<lambda>selections.
          admit_measurements (identify_resolver s selections) (resolver_stamps s)
            (\<lambda>_. validateResolverMeasurement) rm_ID rs_ID rm_CompletedAt
            ''resolver evidence has ambiguous simultaneous results'' {} (\<lambda>_. {}) (rn_Measurements s)))"

abbreviation valid_resolver_snapshot :: "resolver_snapshot \<Rightarrow> bool" where
  "valid_resolver_snapshot s \<equiv> ValidateResolverSnapshot s = Inr ()"

section \<open>Assessment\<close>

datatype resolver_result =
  ResolverUnknown | ResolverNotMeasured | ResolverIncomplete | ResolverTimeout
| ResolverTransportFailure | ResolverAnswer | ResolverNXDOMAIN | ResolverNoData | ResolverRefused
| ResolverServerFailure | ResolverFormatError | ResolverNotImplemented | ResolverOtherError
| ResolverReferral | ResolverTruncated | ResolverUnclassified

record resolver_assessment =
  ra_Selection :: resolver_selection
  ra_State :: state
  ra_Confidence :: confidence
  ra_Result :: resolver_result
  ra_Evidence :: "resolver_measurement option"
  ra_FreshUntil :: time
  ra_ResponseTime :: "duration option"
  ra_Summary :: string
  ra_NextStep :: string

record resolver_report =
  rr_Observer :: observer
  rr_AsOf :: time
  rr_WindowStart :: time
  rr_Checks :: "resolver_assessment list"
  rr_Limitations :: "string list"

text \<open>A failed call: an error return, or a panic on a nil pointer.\<close>

datatype failure = Returned string | NilPanic

fun resolverResultCopy :: "resolver_result \<Rightarrow> string \<times> string" where
  "resolverResultCopy ResolverAnswer =
     (''The selected resolver returned an answer for the selected question.'',
      ''This response is limited to that query; it does not establish all-DNS health, address reachability or security.'')"
| "resolverResultCopy ResolverNXDOMAIN =
     (''The selected resolver reported that the queried name does not exist (NXDOMAIN).'',
      ''A negative reply is still a response. Review the query expectation and resolver policy before treating it as a problem.'')"
| "resolverResultCopy ResolverNoData =
     (''The selected resolver returned no data of the requested type (NODATA).'',
      ''This is distinct from NXDOMAIN and a timeout. Review the requested record type and query expectation.'')"
| "resolverResultCopy ResolverRefused =
     (''The selected resolver refused this query (REFUSED).'',
      ''Review that resolver's access policy and the selected query; do not infer that the internet is down.'')"
| "resolverResultCopy ResolverServerFailure =
     (''The selected resolver reported a server failure for this query (SERVFAIL).'',
      ''Corroborate with other evidence. The response alone does not identify upstream, validation or connectivity as the cause.'')"
| "resolverResultCopy ResolverFormatError =
     (''The selected resolver reported a query format error (FORMERR).'',
      ''Review collector/query compatibility; a format error is not a connectivity diagnosis.'')"
| "resolverResultCopy ResolverNotImplemented =
     (''The selected resolver reported that this query operation is not implemented (NOTIMP).'',
      ''Review support for the selected query before considering another authorized measurement.'')"
| "resolverResultCopy ResolverOtherError =
     (''The selected resolver returned another DNS error code.'',
      ''Inspect the retained response code and collector support; it is not a packet-loss measurement.'')"
| "resolverResultCopy ResolverTimeout =
     (''No matched DNS reply was observed before this accepted request's timeout.'',
      ''Compare the selected resolver, transport and local-path evidence. One timeout does not prove an internet outage.'')"
| "resolverResultCopy ResolverTransportFailure =
     (''The DNS exchange encountered a transport error.'',
      ''Review the recorded request state and local-path evidence. Transport failure is distinct from a DNS refusal response.'')"
| "resolverResultCopy ResolverIncomplete =
     (''The DNS exchange is incomplete; no final query result is available.'',
      ''An unsent or uncertain request is not a timeout. Do not automatically retry uncertain work.'')"
| "resolverResultCopy ResolverTruncated =
     (''A matched DNS response was truncated; the lookup result remains unknown.'',
      ''This contract does not retry over TCP. Any fallback must be explicitly bounded and authorized.'')"
| "resolverResultCopy ResolverReferral =
     (''The selected resolver returned a referral rather than a final answer.'',
      ''No referral is followed here. Review resolver/query configuration without contacting additional servers automatically.'')"
| "resolverResultCopy result =
     (''A matched DNS response could not be classified as a final answer.'',
      ''Preserve the response as incomplete lookup evidence; do not infer NODATA from an empty answer section alone.'')"

definition resolver_limitations :: "string list" where
  "resolver_limitations =
     [''Results describe only the selected resolver, query, transport, address family and observing interface at measurement time.'',
      ''A DNS error reply is a response, not packet loss. A timeout or one resolver failure does not establish an internet outage or all-DNS failure.'',
      ''Answers may reflect cache, split DNS, filtering or resolver policy; neither positive nor negative replies prove DNSSEC validation or data correctness.'',
      ''This evidence is separate from security findings and monitoring coverage. Configuration references and evidence do not authorize traffic or network changes.'']"

definition resolver_unmeasured_copy :: "string \<times> string" where
  "resolver_unmeasured_copy =
     (''No measurement is available for this selected resolver query.'',
      ''Review the selected resolver and query before collecting separately authorized evidence.'')"

definition resolver_historical_copy :: "string \<times> string" where
  "resolver_historical_copy =
     (''This resolver query has only historical evidence.'',
      ''Compare evidence from the same time; any new query needs separate authorization.'')"

text \<open>\<^const>\<open>None\<close> is the panic of \<open>m.Reply.Truncated\<close> on a nil reply.\<close>

definition resolverResult :: "resolver_measurement \<Rightarrow> resolver_result option" where
  "resolverResult m =
     (case rm_Exchange m of
        DNSNotMeasured \<Rightarrow> Some ResolverNotMeasured
      | DNSIncomplete \<Rightarrow> Some ResolverIncomplete
      | DNSTimeout \<Rightarrow> Some ResolverTimeout
      | DNSTransportError \<Rightarrow> Some ResolverTransportFailure
      | _ \<Rightarrow>
        (case rm_Reply m of
           None \<Rightarrow> None
         | Some reply \<Rightarrow>
             Some (if dr_Truncated reply then ResolverTruncated
              else if dr_RCode reply = 1 then ResolverFormatError
              else if dr_RCode reply = 2 then ResolverServerFailure
              else if dr_RCode reply = 3 then ResolverNXDOMAIN
              else if dr_RCode reply = 4 then ResolverNotImplemented
              else if dr_RCode reply = 5 then ResolverRefused
              else if dr_RCode reply = 0 then
                (case dr_Answer reply of
                   DNSAnswerPresent \<Rightarrow> ResolverAnswer
                 | DNSAnswerNoData \<Rightarrow> ResolverNoData
                 | DNSAnswerReferral \<Rightarrow> ResolverReferral
                 | _ \<Rightarrow> ResolverUnclassified)
              else ResolverOtherError)))"

definition copyResolverMeasurement :: "resolver_measurement \<Rightarrow> resolver_measurement" where
  "copyResolverMeasurement m =
     m\<lparr>rm_Reply := map_option (\<lambda>reply. reply) (rm_Reply m),
       rm_ResponseTime := map_option (\<lambda>latency. latency) (rm_ResponseTime m)\<rparr>"

definition expected_result :: "resolver_measurement \<Rightarrow> resolver_result \<Rightarrow> bool" where
  "expected_result m result \<longleftrightarrow>
     (result = ResolverAnswer \<and> rs_Expect (rm_Selection m) = DNSExpectAnswer) \<or>
     (result = ResolverNXDOMAIN \<and> rs_Expect (rm_Selection m) = DNSExpectNXDOMAIN) \<or>
     (result = ResolverNoData \<and> rs_Expect (rm_Selection m) = DNSExpectNoData)"

definition assess_resolver_result ::
  "resolver_measurement \<Rightarrow> time \<Rightarrow> duration \<Rightarrow> resolver_result \<Rightarrow> resolver_assessment" where
  "assess_resolver_result m asOf freshness result =
     (let out = \<lparr>ra_Selection = rm_Selection m, ra_State = StateStale,
            ra_Confidence = ConfidenceUnknown, ra_Result = result,
            ra_Evidence = Some (copyResolverMeasurement m),
            ra_FreshUntil = time_add (rm_CompletedAt m) freshness, ra_ResponseTime = None,
            ra_Summary = fst resolver_historical_copy, ra_NextStep = snd resolver_historical_copy\<rparr>
      in if \<not> after (ra_FreshUntil out) asOf then out
         else if rm_Exchange m = DNSNotMeasured then
           out\<lparr>ra_State := StateNotMeasured,
             ra_Summary := fst (gapCopy (rm_Gap m)), ra_NextStep := snd (gapCopy (rm_Gap m))\<rparr>
         else
           (let limited = out\<lparr>
                  ra_State := (if result \<in> {ResolverIncomplete, ResolverUnclassified,
                                 ResolverTruncated, ResolverReferral}
                               then StateUnknown else StateIssueObserved),
                  ra_Confidence := (if result = ResolverIncomplete then ConfidenceUnknown
                                    else ConfidenceLimited),
                  ra_Summary := fst (resolverResultCopy result),
                  ra_NextStep := snd (resolverResultCopy result),
                  ra_ResponseTime := rm_ResponseTime m\<rparr>
            in if result \<in> {ResolverAnswer, ResolverNXDOMAIN, ResolverNoData} then
                 (if expected_result m result then
                    limited\<lparr>ra_State := StateSucceeded,
                      ra_Summary := ra_Summary limited @ '' This matches the selected query expectation.''\<rparr>
                  else
                    limited\<lparr>ra_Summary := ra_Summary limited @ '' This differs from the selected query expectation.'',
                      ra_NextStep := ''Review the expected query result and resolver policy. A differing answer does not prove a broken resolver or an internet outage.''\<rparr>)
               else limited))"

definition assessResolverMeasurement ::
  "resolver_measurement \<Rightarrow> time \<Rightarrow> duration \<Rightarrow> resolver_assessment option" where
  "assessResolverMeasurement m asOf freshness =
     map_option (assess_resolver_result m asOf freshness) (resolverResult m)"

definition unmeasured_resolver :: "resolver_selection \<Rightarrow> resolver_assessment" where
  "unmeasured_resolver selection =
     \<lparr>ra_Selection = selection, ra_State = StateUnknown, ra_Confidence = ConfidenceUnknown,
      ra_Result = ResolverUnknown, ra_Evidence = None, ra_FreshUntil = zero_time,
      ra_ResponseTime = None, ra_Summary = fst resolver_unmeasured_copy,
      ra_NextStep = snd resolver_unmeasured_copy\<rparr>"

definition AssessResolvers :: "resolver_snapshot \<Rightarrow> (failure, resolver_report) result" where
  "AssessResolvers s =
     (case ValidateResolverSnapshot s of
        Inl e \<Rightarrow> Inl (Returned e)
      | Inr _ \<Rightarrow>
          (let newest = latest (\<lambda>m. rs_ID (rm_Selection m)) rm_CompletedAt Map.empty (rn_Measurements s)
           in case those (map (\<lambda>selection.
                  case newest (rs_ID selection) of
                    None \<Rightarrow> Some (unmeasured_resolver selection)
                  | Some m \<Rightarrow> assessResolverMeasurement m (rn_AsOf s) (rn_Freshness s))
                (rn_Selections s)) of
                None \<Rightarrow> Inl NilPanic
              | Some checks \<Rightarrow>
                  Inr \<lparr>rr_Observer = rn_Observer s, rr_AsOf = rn_AsOf s,
                       rr_WindowStart = rn_WindowStart s, rr_Checks = checks,
                       rr_Limitations = resolver_limitations\<rparr>))"

section \<open>What validation accepts\<close>

text \<open>
  An exchange that was not measured carries a gap and nothing else; a response carries an accepted
  request and a consistent reply; every other outcome carries no reply, and a timeout needs an
  accepted request.
\<close>

definition resolver_evidence_ok :: "resolver_measurement \<Rightarrow> bool" where
  "resolver_evidence_ok m \<longleftrightarrow>
     (case rm_Exchange m of
        DNSNotMeasured \<Rightarrow> rm_Request m = DNSRequestNotSent \<and> rm_Reply m = None \<and>
          rm_ResponseTime m = None \<and> rm_Gap m \<in> all_gap_reasons
      | DNSResponseReceived \<Rightarrow> rm_Request m = DNSRequestAccepted \<and>
          (\<exists>reply. rm_Reply m = Some reply \<and> 0 \<le> dr_RCode reply \<and> dr_RCode reply \<le> 4095 \<and>
             (if dr_Truncated reply \<or> dr_RCode reply \<noteq> 0 then dr_Answer reply = DNSAnswerNone
              else dr_Answer reply \<in> {DNSAnswerPresent, DNSAnswerNoData, DNSAnswerReferral,
                     DNSAnswerUnclassified})) \<and>
          (case rm_ResponseTime m of None \<Rightarrow> True
           | Some l \<Rightarrow> 0 \<le> l \<and> l \<le> time_sub (rm_CompletedAt m) (rm_StartedAt m))
      | DNSExchangeOther _ \<Rightarrow> False
      | _ \<Rightarrow> rm_Request m \<in> {DNSRequestNotSent, DNSRequestAccepted, DNSRequestUncertain} \<and>
          rm_Reply m = None \<and> rm_ResponseTime m = None \<and>
          (rm_Exchange m = DNSTimeout \<longrightarrow>
             rm_Request m = DNSRequestAccepted \<and> after (rm_CompletedAt m) (rm_StartedAt m))) \<and>
     (rm_Exchange m \<noteq> DNSNotMeasured \<longrightarrow>
        rm_Gap m = GapNone \<and> time_sub (rm_CompletedAt m) (rm_StartedAt m) \<le> MaxCheckTime)"

lemma validateResolverMeasurement_ok:
  "validateResolverMeasurement m = Inr () \<longleftrightarrow> resolver_evidence_ok m"
  by (cases "rm_Exchange m"; cases "rm_Request m")
     (auto simp: validateResolverMeasurement_def resolver_evidence_ok_def Let_def split: option.splits)

definition resolver_allowed :: "resolver_snapshot \<Rightarrow> resolver_measurement \<Rightarrow> bool" where
  "resolver_allowed s m \<longleftrightarrow>
     validToken (rm_ID m) \<and> rm_Observer m = rn_Observer s \<and> rm_Selection m \<in> set (rn_Selections s) \<and>
     resolver_stamps s m = Inr () \<and> resolver_evidence_ok m"

abbreviation rm_key :: "resolver_measurement \<Rightarrow> string" where
  "rm_key m \<equiv> rs_ID (rm_Selection m)"

lemma identify_resolver_Inr:
  "identify_resolver s selections seen m = Inr selection \<longleftrightarrow>
     \<not> seen \<and> validToken (rm_ID m) \<and> rm_Observer m = rn_Observer s \<and>
     selections (rm_key m) = Some selection \<and> selection = rm_Selection m"
  by (auto simp: identify_resolver_def split: option.splits)

definition resolver_context_ok :: "resolver_snapshot \<Rightarrow> bool" where
  "resolver_context_ok s \<longleftrightarrow>
     validObserver (rn_Observer s) \<and> o_InterfaceIndex (rn_Observer s) \<le> 2147483647 \<and>
     resolverTime (rn_AsOf s) \<and> resolverTime (rn_WindowStart s) \<and>
     \<not> after (rn_WindowStart s) (rn_AsOf s) \<and> time_sub (rn_AsOf s) (rn_WindowStart s) \<le> MaxWindow \<and>
     second \<le> rn_Freshness s \<and> rn_Freshness s \<le> MaxFreshness \<and>
     resolverTime (time_add (rn_AsOf s) (rn_Freshness s))"

lemma ValidateResolverSnapshot_iff:
  "valid_resolver_snapshot s \<longleftrightarrow>
     resolver_context_ok s \<and>
     length (rn_Selections s) \<le> MaxTargets \<and> length (rn_Measurements s) \<le> MaxMeasurements \<and>
     (\<forall>x\<in>set (rn_Selections s). validResolverSelection x) \<and> distinct (map rs_ID (rn_Selections s)) \<and>
     (\<forall>m\<in>set (rn_Measurements s). resolver_allowed s m) \<and>
     distinct (map rm_ID (rn_Measurements s)) \<and>
     distinct (map (\<lambda>m. (rm_key m, wall (rm_CompletedAt m))) (rn_Measurements s))"
proof -
  define S where "S = map_by rs_ID (rn_Selections s)"
  have loop: "admit_measurements (identify_resolver s S) (resolver_stamps s)
        (\<lambda>_. validateResolverMeasurement) rm_ID rs_ID rm_CompletedAt amb {} (\<lambda>_. {}) ms = Inr () \<longleftrightarrow>
      (\<forall>m\<in>set ms. (\<exists>x. identify_resolver s S False m = Inr x) \<and> validateResolverMeasurement m = Inr () \<and>
         resolver_stamps s m = Inr ()) \<and>
      distinct (map rm_ID ms) \<and> distinct (map (\<lambda>m. (rm_key m, wall (rm_CompletedAt m))) ms)"
    for amb ms
    by (subst admit_measurements_Inr [where mkey = rm_key])
       (auto simp: identify_resolver_Inr)
  have each: "(\<exists>x. identify_resolver s S False m = Inr x) \<and> validateResolverMeasurement m = Inr () \<and>
      resolver_stamps s m = Inr () \<longleftrightarrow> resolver_allowed s m"
    if "distinct (map rs_ID (rn_Selections s))" for m
    using map_by_member [OF that]
    by (auto simp: identify_resolver_Inr validateResolverMeasurement_ok resolver_allowed_def S_def
        dest: map_by_SomeD)
  have "valid_resolver_snapshot s \<longleftrightarrow> resolver_context_ok s \<and>
      length (rn_Selections s) \<le> MaxTargets \<and> length (rn_Measurements s) \<le> MaxMeasurements \<and>
      (\<forall>x\<in>set (rn_Selections s). validResolverSelection x) \<and> distinct (map rs_ID (rn_Selections s)) \<and>
      admit_measurements (identify_resolver s S) (resolver_stamps s)
        (\<lambda>_. validateResolverMeasurement) rm_ID rs_ID rm_CompletedAt
        ''resolver evidence has ambiguous simultaneous results'' {} (\<lambda>_. {}) (rn_Measurements s) = Inr ()"
    by (auto simp: ValidateResolverSnapshot_def collect_keyed_empty ValidateResolverSelection_def
        resolver_context_ok_def S_def [symmetric])
  then show ?thesis
    by (cases "distinct (map rs_ID (rn_Selections s))") (simp_all add: loop each)
qed

interpretation resolvers: assessed_evidence valid_resolver_snapshot rn_Measurements rm_key rm_CompletedAt
  by unfold_locales (simp add: ValidateResolverSnapshot_iff)

lemma valid_resolver_snapshot_perm:
  assumes "mset ms = mset (rn_Measurements s)"
  shows "valid_resolver_snapshot (s\<lparr>rn_Measurements := ms\<rparr>) \<longleftrightarrow> valid_resolver_snapshot s"
proof -
  have len: "length ms = length (rn_Measurements s)"
    using assms by (metis size_mset)
  have allowed: "resolver_allowed (s\<lparr>rn_Measurements := ms\<rparr>) m \<longleftrightarrow> resolver_allowed s m" for m
    by (simp add: resolver_allowed_def resolver_stamps_def)
  show ?thesis
    unfolding ValidateResolverSnapshot_iff resolver_context_ok_def
    by (simp add: allowed len ball_mset [OF assms] distinct_map_mset [OF assms])
qed

section \<open>Assessing one exchange\<close>

lemma resolverResult_defined: "resolver_evidence_ok m \<Longrightarrow> resolverResult m \<noteq> None"
  by (auto simp: resolver_evidence_ok_def resolverResult_def split: dns_exchange_state.splits)

lemma copyResolverMeasurement_id [simp]: "copyResolverMeasurement m = m"
  by (simp add: copyResolverMeasurement_def option.map_ident)

lemma assess_resolver_result_simps [simp]:
  "ra_Selection (assess_resolver_result m asOf fr result) = rm_Selection m"
  "ra_Result (assess_resolver_result m asOf fr result) = result"
  "ra_Evidence (assess_resolver_result m asOf fr result) = Some m"
  by (simp_all add: assess_resolver_result_def Let_def)

text \<open>
  The state of a resolver check as a function of its latest evidence.  Only a final reply that matches
  the selected expectation is a success; an incomplete exchange or a reply that settles nothing stays
  unknown; every other fresh exchange is an observed issue.
\<close>

definition resolver_state_of :: "time \<Rightarrow> duration \<Rightarrow> resolver_measurement \<Rightarrow> resolver_result \<Rightarrow> state" where
  "resolver_state_of asOf freshness m result =
     (if \<not> fresh_at (rm_CompletedAt m) asOf freshness then StateStale
      else if rm_Exchange m = DNSNotMeasured then StateNotMeasured
      else if expected_result m result then StateSucceeded
      else if result \<in> {ResolverIncomplete, ResolverUnclassified, ResolverTruncated, ResolverReferral}
      then StateUnknown else StateIssueObserved)"

lemma assess_resolver_state:
  "wall_only (rm_CompletedAt m) \<Longrightarrow>
     ra_State (assess_resolver_result m asOf fr result) = resolver_state_of asOf fr m result"
  by (auto simp: assess_resolver_result_def resolver_state_of_def fresh_at_def expected_result_def
      Let_def go_time)

section \<open>The whole assessment\<close>

lemma those_map_Some:
  "(\<And>x. x \<in> set xs \<Longrightarrow> f x \<noteq> None) \<Longrightarrow> those (map f xs) = Some (map (the \<circ> f) xs)"
  by (induction xs) force+

definition resolver_check_of :: "resolver_snapshot \<Rightarrow> resolver_selection \<Rightarrow> resolver_assessment" where
  "resolver_check_of s selection =
     (case latest rm_key rm_CompletedAt Map.empty (rn_Measurements s) (rs_ID selection) of
        None \<Rightarrow> unmeasured_resolver selection
      | Some m \<Rightarrow> assess_resolver_result m (rn_AsOf s) (rn_Freshness s) (the (resolverResult m)))"

lemma AssessResolvers_valid:
  assumes "valid_resolver_snapshot s"
  shows "AssessResolvers s = Inr \<lparr>rr_Observer = rn_Observer s, rr_AsOf = rn_AsOf s,
     rr_WindowStart = rn_WindowStart s, rr_Checks = map (resolver_check_of s) (rn_Selections s),
     rr_Limitations = resolver_limitations\<rparr>"
proof -
  let ?new = "latest rm_key rm_CompletedAt Map.empty (rn_Measurements s)"
  let ?f = "\<lambda>x. case ?new (rs_ID x) of None \<Rightarrow> Some (unmeasured_resolver x)
      | Some m \<Rightarrow> assessResolverMeasurement m (rn_AsOf s) (rn_Freshness s)"
  have "?f x = Some (resolver_check_of s x)" for x
  proof (cases "?new (rs_ID x)")
    case None
    then show ?thesis by (simp add: resolver_check_of_def)
  next
    case (Some m)
    then have "resolver_evidence_ok m"
      using assms latest_member [OF Some] by (auto simp: ValidateResolverSnapshot_iff resolver_allowed_def)
    then have "resolverResult m \<noteq> None" by (rule resolverResult_defined)
    with Some show ?thesis by (auto simp: resolver_check_of_def assessResolverMeasurement_def)
  qed
  then have "those (map ?f (rn_Selections s)) = Some (map (resolver_check_of s) (rn_Selections s))"
    by (simp add: those_map_Some comp_def)
  then show ?thesis
    using assms by (simp add: AssessResolvers_def Let_def)
qed

section \<open>A sample exchange\<close>

definition sample_selection :: resolver_selection where
  "sample_selection = \<lparr>rs_ID = ''dns'', rs_ResolverID = ''r1'', rs_QueryID = ''q1'', rs_Family = FamilyIPv4,
     rs_Transport = DNSUDP, rs_QueryType = DNSQueryA, rs_Expect = DNSExpectAnswer\<rparr>"

definition sample_exchange :: resolver_measurement where
  "sample_exchange = \<lparr>rm_ID = ''m3'', rm_Selection = sample_selection, rm_Observer = sample_observer,
     rm_StartedAt = at_second 991, rm_CompletedAt = at_second 992, rm_Exchange = DNSResponseReceived,
     rm_Request = DNSRequestAccepted, rm_Gap = GapNone,
     rm_Reply = Some \<lparr>dr_RCode = 0, dr_Truncated = False, dr_Answer = DNSAnswerPresent\<rparr>,
     rm_ResponseTime = Some millisecond\<rparr>"

definition sample_resolvers :: resolver_snapshot where
  "sample_resolvers = \<lparr>rn_Observer = sample_observer, rn_AsOf = at_second 1000,
     rn_WindowStart = at_second 500, rn_Freshness = 120 * second, rn_Selections = [sample_selection],
     rn_Measurements = [sample_exchange]\<rparr>"

lemmas sample_resolver_defs = sample_selection_def sample_exchange_def sample_resolvers_def at_second_def

lemma sample_resolver_tokens [simp]:
  "validToken ''dns''" "validToken ''r1''" "validToken ''q1''" "validToken ''m3''"
  by (simp_all add: validToken_def tokenPattern_def is_lower_alnum_def is_lower_def is_digit_def
      is_token_separator_def)

lemmas resolver_validation_defs = ValidateResolverSnapshot_def ValidateResolverSelection_def
  validResolverSelection_def identify_resolver_def resolver_stamps_def resolverTime_def
  validateResolverMeasurement_def Let_def

lemmas time_evaluation = is_zero_def zero_wall_def go_time quality_limits int64_clamp_def int64_min_def
  int64_max_def int64_wrap_def

lemma sample_resolvers_valid [simp]: "valid_resolver_snapshot sample_resolvers"
proof -
  have "o_InterfaceIndex sample_observer = 4" by (simp add: sample_observer_def)
  then show ?thesis
    by (simp add: resolver_validation_defs sample_resolver_defs time_evaluation)
qed

section \<open>Properties\<close>

text \<open>
  no nil dereference.  Whatever the snapshot, the assessment returns the validator's error or a
  report; the reply pointer is never read while nil.
\<close>

theorem assess_resolvers_never_panics:
  "AssessResolvers s \<noteq> Inl NilPanic \<and> (is_ok (AssessResolvers s) \<longleftrightarrow> is_ok (ValidateResolverSnapshot s))"
proof (cases "ValidateResolverSnapshot s")
  case (Inl e)
  then show ?thesis by (simp add: AssessResolvers_def)
next
  case (Inr u)
  then have "valid_resolver_snapshot s" by simp
  then show ?thesis using Inr by (simp add: AssessResolvers_valid)
qed

text \<open>
  C3: functional correctness of the resolver assessment.  One check per selection, in order; its state
  and result are those of the latest evidence of that selection.  In particular a success needs a
  fresh, accepted exchange whose reply matches the selected expectation, and a timeout is reported only
  for a request that was accepted, never for an uncertain send.
\<close>

theorem assess_resolvers_from_latest:
  assumes "\<forall>m\<in>set (rn_Measurements s). wall_only (rm_CompletedAt m)"
    and "AssessResolvers s = Inr r" and "i < length (rn_Selections s)"
  shows "length (rr_Checks r) = length (rn_Selections s) \<and>
     ra_Selection (rr_Checks r ! i) = rn_Selections s ! i \<and>
     (case ra_Evidence (rr_Checks r ! i) of
        None \<Rightarrow> ra_State (rr_Checks r ! i) = StateUnknown \<and>
          (\<forall>m\<in>set (rn_Measurements s). rs_ID (rm_Selection m) \<noteq> rs_ID (rn_Selections s ! i))
      | Some m \<Rightarrow>
          is_latest (\<lambda>m. rs_ID (rm_Selection m)) rm_CompletedAt (rn_Measurements s)
            (rs_ID (rn_Selections s ! i)) m \<and>
          resolverResult m = Some (ra_Result (rr_Checks r ! i)) \<and>
          ra_State (rr_Checks r ! i) =
            resolver_state_of (rn_AsOf s) (rn_Freshness s) m (ra_Result (rr_Checks r ! i)) \<and>
          (ra_State (rr_Checks r ! i) = StateSucceeded \<longrightarrow>
             rm_Request m = DNSRequestAccepted \<and> rm_Exchange m = DNSResponseReceived) \<and>
          (ra_Result (rr_Checks r ! i) = ResolverTimeout \<longrightarrow> rm_Request m = DNSRequestAccepted))"
proof -
  let ?x = "rn_Selections s ! i" and ?new = "latest rm_key rm_CompletedAt Map.empty (rn_Measurements s)"
  have valid: "valid_resolver_snapshot s"
    using assms(2) by (auto simp: AssessResolvers_def split: sum.splits)
  then have checks: "rr_Checks r = map (resolver_check_of s) (rn_Selections s)"
    using assms(2) by (auto simp: AssessResolvers_valid)
  have x: "?x \<in> set (rn_Selections s)" using assms(3) by simp
  show ?thesis
  proof (cases "?new (rs_ID ?x)")
    case None
    then have "rs_ID ?x \<notin> rm_key ` set (rn_Measurements s)" by (simp add: latest_None_iff)
    with None assms(3) show ?thesis
      by (force simp: checks resolver_check_of_def unmeasured_resolver_def)
  next
    case (Some m)
    then have newest: "is_latest rm_key rm_CompletedAt (rn_Measurements s) (rs_ID ?x) m"
      by (rule resolvers.latest_Some_iff [OF valid assms(1), THEN iffD1])
    have m: "m \<in> set (rn_Measurements s)" "rm_key m = rs_ID ?x"
      using newest by (auto simp: is_latest_def)
    then have ok: "resolver_evidence_ok m" and sel: "rm_Selection m \<in> set (rn_Selections s)"
      using valid by (auto simp: ValidateResolverSnapshot_iff resolver_allowed_def)
    have same: "rm_Selection m = ?x"
      using valid sel x m(2) by (auto simp: ValidateResolverSnapshot_iff distinct_map dest: inj_onD)
    obtain res where res: "resolverResult m = Some res"
      using resolverResult_defined [OF ok] by auto
    have state: "ra_State (assess_resolver_result m (rn_AsOf s) (rn_Freshness s) res) =
        resolver_state_of (rn_AsOf s) (rn_Freshness s) m res"
      using assms(1) m(1) by (simp add: assess_resolver_state)
    have request: "resolver_state_of (rn_AsOf s) (rn_Freshness s) m res = StateSucceeded \<Longrightarrow>
        rm_Request m = DNSRequestAccepted \<and> rm_Exchange m = DNSResponseReceived"
      using ok res by (auto simp: resolver_state_of_def resolver_evidence_ok_def resolverResult_def
          expected_result_def split: if_splits dns_exchange_state.splits)
    have timeout: "res = ResolverTimeout \<Longrightarrow> rm_Request m = DNSRequestAccepted"
      using ok res by (auto simp: resolver_evidence_ok_def resolverResult_def
          split: dns_exchange_state.splits if_splits dns_answer_kind.splits)
    show ?thesis
      using Some assms(3) newest res same state request timeout
      by (simp add: checks resolver_check_of_def)
  qed
qed

theorem assess_resolvers_from_latest_witness:
  "\<exists>r. AssessResolvers sample_resolvers = Inr r \<and> ra_Selection (rr_Checks r ! 0) = sample_selection \<and>
     ra_State (rr_Checks r ! 0) = StateSucceeded"
proof -
  obtain r where r: "AssessResolvers sample_resolvers = Inr r"
    using AssessResolvers_valid [OF sample_resolvers_valid] by blast
  have wall: "\<forall>m\<in>set (rn_Measurements sample_resolvers). wall_only (rm_CompletedAt m)"
    by (simp add: sample_resolver_defs)
  have one: "0 < length (rn_Selections sample_resolvers)" by (simp add: sample_resolvers_def)
  have sel: "rn_Selections sample_resolvers ! 0 = sample_selection" by (simp add: sample_resolvers_def)
  note spec = assess_resolvers_from_latest [OF wall r one]
  obtain m where m: "ra_Evidence (rr_Checks r ! 0) = Some m" and new: "is_latest rm_key rm_CompletedAt
      (rn_Measurements sample_resolvers) (rs_ID (rn_Selections sample_resolvers ! 0)) m"
    using spec by (cases "ra_Evidence (rr_Checks r ! 0)") (auto simp: sample_resolvers_def sample_exchange_def)
  have "m = sample_exchange"
    using new by (simp add: is_latest_def sample_resolvers_def)
  with spec m have "ra_State (rr_Checks r ! 0) = resolver_state_of (rn_AsOf sample_resolvers)
      (rn_Freshness sample_resolvers) sample_exchange ResolverAnswer"
    by (simp add: resolverResult_def sample_exchange_def)
  then have "ra_State (rr_Checks r ! 0) = StateSucceeded"
    by (simp add: resolver_state_of_def expected_result_def fresh_at_def sample_resolver_defs quality_limits)
  with r sel spec show ?thesis by auto
qed

end
