(* ===== verification/HttpsQuality.thy ===== *)
theory HttpsQuality
  imports ResolverQuality
begin

text \<open>
  \<open>networkquality/https.go\<close> and \<open>https_assess.go\<close>: normalized evidence about one HTTPS connection
  with at most one request, its validation and its assessment.
\<close>

section \<open>Data\<close>

record https_selection =
  hs_ID :: string
  hs_EndpointID :: string
  hs_RequestID :: string
  hs_Family :: address_family
  hs_Method :: string
  hs_ExpectedStatus :: int

text \<open>The empty stage is the zero value of the Go field.\<close>

datatype https_stage = HTTPSNoStage | HTTPSConnect | HTTPSTLS | HTTPSRequest | HTTPSStageOther string

datatype https_exchange =
  HTTPSResponseReceived | HTTPSConnectError | HTTPSTransportError | HTTPSTLSError | HTTPSProtocolError
| HTTPSTimeout | HTTPSIncomplete | HTTPSNotMeasured | HTTPSExchangeOther string

datatype https_request_state =
  HTTPSRequestNotSent | HTTPSRequestAccepted | HTTPSRequestUncertain | HTTPSRequestOther string

record https_measurement =
  hm_ID :: string
  hm_Selection :: https_selection
  hm_Observer :: observer
  hm_StartedAt :: time
  hm_CompletedAt :: time
  hm_Stage :: https_stage
  hm_Exchange :: https_exchange
  hm_Request :: https_request_state
  hm_Gap :: gap_reason
  hm_StatusCode :: int
  hm_ResponseTime :: "duration option"

record https_snapshot =
  hn_Observer :: observer
  hn_AsOf :: time
  hn_WindowStart :: time
  hn_Freshness :: duration
  hn_Selections :: "https_selection list"
  hn_Measurements :: "https_measurement list"

section \<open>Validation\<close>

definition ValidateHTTPSSelection :: "https_selection \<Rightarrow> (string, unit) result" where
  "ValidateHTTPSSelection s =
     guard (\<not> validToken (hs_ID s) \<or> \<not> validToken (hs_EndpointID s) \<or> \<not> validToken (hs_RequestID s) \<or>
            (hs_Family s \<noteq> FamilyIPv4 \<and> hs_Family s \<noteq> FamilyIPv6) \<or>
            (hs_Method s \<noteq> ''GET'' \<and> hs_Method s \<noteq> ''HEAD'') \<or>
            hs_ExpectedStatus s < 200 \<or> hs_ExpectedStatus s > 599)
       ''HTTPS selection is invalid'' (Inr ())"

definition validateHTTPSMeasurement :: "https_measurement \<Rightarrow> (string, unit) result" where
  "validateHTTPSMeasurement m =
     (let invalid = Inl ''HTTPS exchange evidence is inconsistent'' in
      if hm_Request m \<noteq> HTTPSRequestNotSent \<and> hm_Request m \<noteq> HTTPSRequestAccepted \<and>
         hm_Request m \<noteq> HTTPSRequestUncertain then invalid
      else if hm_Exchange m = HTTPSNotMeasured then
        (if hm_Stage m \<noteq> HTTPSNoStage \<or> hm_Request m \<noteq> HTTPSRequestNotSent \<or> hm_StatusCode m \<noteq> 0 \<or>
            hm_ResponseTime m \<noteq> None then invalid
         else if hm_Gap m \<in> all_gap_reasons then Inr () else invalid)
      else if hm_Gap m \<noteq> GapNone \<or> time_sub (hm_CompletedAt m) (hm_StartedAt m) > MaxCheckTime
      then invalid
      else if (case hm_Stage m of
                 HTTPSConnect \<Rightarrow> hm_Request m \<noteq> HTTPSRequestNotSent
               | HTTPSTLS \<Rightarrow> hm_Request m \<noteq> HTTPSRequestNotSent
               | HTTPSRequest \<Rightarrow> False
               | _ \<Rightarrow> True) then invalid
      else if hm_Exchange m = HTTPSResponseReceived then
        (if hm_Stage m \<noteq> HTTPSRequest \<or> hm_Request m \<noteq> HTTPSRequestAccepted \<or>
            hm_StatusCode m < 200 \<or> hm_StatusCode m > 599 then invalid
         else (case hm_ResponseTime m of
                 None \<Rightarrow> Inr ()
               | Some l \<Rightarrow> if l < 0 \<or> l > time_sub (hm_CompletedAt m) (hm_StartedAt m)
                           then invalid else Inr ()))
      else if hm_StatusCode m \<noteq> 0 \<or> hm_ResponseTime m \<noteq> None then invalid
      else (case hm_Exchange m of
              HTTPSConnectError \<Rightarrow> if hm_Stage m \<noteq> HTTPSConnect then invalid else Inr ()
            | HTTPSTLSError \<Rightarrow> if hm_Stage m \<noteq> HTTPSTLS then invalid else Inr ()
            | HTTPSTransportError \<Rightarrow> if hm_Stage m = HTTPSConnect then invalid else Inr ()
            | HTTPSProtocolError \<Rightarrow>
                if hm_Stage m \<noteq> HTTPSRequest \<or> hm_Request m \<noteq> HTTPSRequestAccepted
                then invalid else Inr ()
            | HTTPSTimeout \<Rightarrow>
                if \<not> after (hm_CompletedAt m) (hm_StartedAt m) then invalid else Inr ()
            | HTTPSIncomplete \<Rightarrow> Inr ()
            | _ \<Rightarrow> invalid))"

definition identify_https ::
  "https_snapshot \<Rightarrow> (string \<rightharpoonup> https_selection) \<Rightarrow> bool \<Rightarrow> https_measurement \<Rightarrow>
     (string, https_selection) result" where
  "identify_https s selections seen m =
     (case selections (hs_ID (hm_Selection m)) of
        None \<Rightarrow> Inl ''HTTPS evidence identity or context is invalid''
      | Some selection \<Rightarrow>
          guard (selection \<noteq> hm_Selection m \<or> hm_Observer m \<noteq> hn_Observer s \<or>
                 \<not> validToken (hm_ID m) \<or> seen)
            ''HTTPS evidence identity or context is invalid'' (Inr selection))"

definition https_stamps :: "https_snapshot \<Rightarrow> https_measurement \<Rightarrow> (string, unit) result" where
  "https_stamps s m =
     guard (\<not> resolverTime (hm_StartedAt m) \<or> \<not> resolverTime (hm_CompletedAt m) \<or>
            before (hm_StartedAt m) (hn_WindowStart s) \<or> before (hm_CompletedAt m) (hm_StartedAt m) \<or>
            after (hm_CompletedAt m) (hn_AsOf s))
       ''HTTPS evidence timestamps are invalid'' (Inr ())"

definition ValidateHTTPSSnapshot :: "https_snapshot \<Rightarrow> (string, unit) result" where
  "ValidateHTTPSSnapshot s =
     guard (\<not> validObserver (hn_Observer s) \<or> o_InterfaceIndex (hn_Observer s) > 2147483647 \<or>
            \<not> resolverTime (hn_AsOf s) \<or> \<not> resolverTime (hn_WindowStart s) \<or>
            after (hn_WindowStart s) (hn_AsOf s) \<or>
            time_sub (hn_AsOf s) (hn_WindowStart s) > MaxWindow \<or>
            hn_Freshness s < second \<or> hn_Freshness s > MaxFreshness \<or>
            \<not> resolverTime (time_add (hn_AsOf s) (hn_Freshness s)) \<or>
            length (hn_Selections s) > MaxTargets \<or> length (hn_Measurements s) > MaxMeasurements)
       ''HTTPS assessment context or bounds are invalid''
     (bind_result
        (collect_keyed ValidateHTTPSSelection hs_ID ''duplicate HTTPS selection'' Map.empty
           (hn_Selections s))
        (\<lambda>selections.
          admit_measurements (identify_https s selections) (https_stamps s)
            (\<lambda>_. validateHTTPSMeasurement) hm_ID hs_ID hm_CompletedAt
            ''HTTPS evidence has ambiguous simultaneous results'' {} (\<lambda>_. {}) (hn_Measurements s)))"

abbreviation valid_https_snapshot :: "https_snapshot \<Rightarrow> bool" where
  "valid_https_snapshot s \<equiv> ValidateHTTPSSnapshot s = Inr ()"

section \<open>Assessment\<close>

datatype https_result =
  HTTPSUnknown | HTTPSUnmeasured | HTTPSUnfinished | HTTPSConnectionFailure | HTTPSTransportFailure
| HTTPSTLSFailure | HTTPSProtocolFailure | HTTPSTimedOut | HTTPSStatusResponse | HTTPSRedirectResponse

record https_assessment =
  ha_Selection :: https_selection
  ha_State :: state
  ha_Confidence :: confidence
  ha_Result :: https_result
  ha_Evidence :: "https_measurement option"
  ha_FreshUntil :: time
  ha_ExpectationMatched :: "bool option"
  ha_ResponseTime :: "duration option"
  ha_Summary :: string
  ha_NextStep :: string

record https_report =
  hr_Observer :: observer
  hr_AsOf :: time
  hr_WindowStart :: time
  hr_Checks :: "https_assessment list"
  hr_Limitations :: "string list"

definition httpsResult :: "https_measurement \<Rightarrow> https_result" where
  "httpsResult m =
     (case hm_Exchange m of
        HTTPSNotMeasured \<Rightarrow> HTTPSUnmeasured
      | HTTPSIncomplete \<Rightarrow> HTTPSUnfinished
      | HTTPSConnectError \<Rightarrow> HTTPSConnectionFailure
      | HTTPSTransportError \<Rightarrow> HTTPSTransportFailure
      | HTTPSTLSError \<Rightarrow> HTTPSTLSFailure
      | HTTPSProtocolError \<Rightarrow> HTTPSProtocolFailure
      | HTTPSTimeout \<Rightarrow> HTTPSTimedOut
      | _ \<Rightarrow> if hm_StatusCode m \<in> {301, 302, 303, 307, 308} then HTTPSRedirectResponse
             else HTTPSStatusResponse)"

definition httpsResultCopy :: "https_result \<Rightarrow> https_stage \<Rightarrow> string \<times> string" where
  "httpsResultCopy result stage =
     (case result of
        HTTPSConnectionFailure \<Rightarrow>
          (''The selected endpoint connection failed before an HTTP request.'',
        ''Review the selected address and local-path evidence. This does not prove that the internet or the endpoint is generally unavailable.'')
      | HTTPSTransportFailure \<Rightarrow>
          (''The selected exchange encountered a transport error after connecting.'',
        ''Inspect the recorded stage and HTTP request state. A connection reset is distinct from a TLS verification failure or an HTTP error response; uncertain work must not be retried automatically.'')
      | HTTPSTLSFailure \<Rightarrow>
          (''The selected endpoint's TLS exchange failed before an HTTP request.'',
        ''Review the TLS identity, local clock and protocol compatibility. Do not bypass certificate verification or infer interception or a captive portal from this result alone.'')
      | HTTPSProtocolFailure \<Rightarrow>
          (''The selected exchange did not produce a usable final HTTP response header.'',
        ''Review collector limits and server compatibility. Invalid or oversized response metadata does not establish an internet outage.'')
      | HTTPSTimedOut \<Rightarrow>
          (if stage = HTTPSConnect then
             (''The selected endpoint connection timed out.'',
        ''Compare the original address and local-path evidence. One timeout is not an internet-outage verdict.'')
           else if stage = HTTPSTLS then
             (''The selected endpoint's TLS exchange timed out.'',
        ''Review the recorded stage before inferring a cause. No HTTP request was sent, but connection and TLS traffic may have been sent.'')
           else
             (''The selected HTTPS request stage timed out without a final response header.'',
        ''Inspect the recorded HTTP request state. An uncertain write must not be automatically retried; this timeout is not packet loss.''))
      | HTTPSUnfinished \<Rightarrow>
          (''The HTTPS check ended without a final result.'',
        ''Preserve the stage and request state. Cancellation or uncertain work is not a completed timeout and does not authorize a retry.'')
      | HTTPSRedirectResponse \<Rightarrow>
          (''The selected HTTPS exchange returned a redirect status.'',
        ''No redirect is followed. Review the selected expectation; a redirect alone does not prove a captive portal or authorize contact with another destination.'')
      | _ \<Rightarrow>
          (''The selected HTTPS exchange returned a final status.'',
        ''Compare the recorded status with the selected expectation. Error statuses are still responses; header receipt does not establish body correctness or general connectivity.''))"

definition https_limitations :: "string list" where
  "https_limitations =
     [''Evidence describes one selected HTTPS endpoint, request, address family and observing interface at the original time. A matching status does not prove body correctness or general internet availability.'',
      ''An HTTP error or redirect is a response, not packet loss. A TLS failure or redirect alone does not establish a captive portal, interception, an ISP outage or a security finding.'',
      ''No DNS resolution, redirect, retry or alternate destination is performed here. HTTP request not-sent does not mean no connection or TLS traffic was sent.'',
      ''Configuration references are not consent. A collector must separately disclose the exact destination, TLS identity, request, data budget and privacy impact, and verify the enrolled binding before an explicitly approved check.'']"

definition https_unmeasured_copy :: "string \<times> string" where
  "https_unmeasured_copy =
     (''No measurement is available for this selected HTTPS check.'',
      ''Review the explicit target and privacy disclosure before collecting separately authorized evidence.'')"

definition https_historical_copy :: "string \<times> string" where
  "https_historical_copy =
     (''This HTTPS check has only historical evidence.'',
      ''Compare observations from the same time; any new external request needs separate authorization.'')"

definition https_gap_next_step :: string where
  "https_gap_next_step =
     ''Review the recorded gap and current enrollment. Any external check still needs explicit destination disclosure and separate approval.''"

definition assessHTTPSMeasurement :: "https_measurement \<Rightarrow> time \<Rightarrow> duration \<Rightarrow> https_assessment" where
  "assessHTTPSMeasurement m asOf freshness =
     (let matched = (if hm_Exchange m = HTTPSResponseReceived
                     then Some (hm_StatusCode m = hs_ExpectedStatus (hm_Selection m)) else None);
          out = \<lparr>ha_Selection = hm_Selection m, ha_State = StateStale,
            ha_Confidence = ConfidenceUnknown, ha_Result = httpsResult m, ha_Evidence = Some m,
            ha_FreshUntil = time_add (hm_CompletedAt m) freshness, ha_ExpectationMatched = matched,
            ha_ResponseTime = None, ha_Summary = fst https_historical_copy,
            ha_NextStep = snd https_historical_copy\<rparr>
      in if \<not> after (ha_FreshUntil out) asOf then out
         else if hm_Exchange m = HTTPSNotMeasured then
           out\<lparr>ha_State := StateNotMeasured, ha_Summary := fst (gapCopy (hm_Gap m)),
             ha_NextStep := https_gap_next_step\<rparr>
         else
           (let copied = out\<lparr>
                  ha_State := (if hm_Exchange m = HTTPSIncomplete then StateUnknown
                               else StateIssueObserved),
                  ha_Confidence := (if hm_Exchange m = HTTPSIncomplete then ConfidenceUnknown
                                    else ConfidenceLimited),
                  ha_Summary := fst (httpsResultCopy (ha_Result out) (hm_Stage m)),
                  ha_NextStep := snd (httpsResultCopy (ha_Result out) (hm_Stage m)),
                  ha_ResponseTime := hm_ResponseTime m\<rparr>
            in case matched of
                 None \<Rightarrow> copied
               | Some True \<Rightarrow> copied\<lparr>ha_State := StateSucceeded,
                   ha_Summary := ha_Summary copied @ '' This matches the selected status expectation.''\<rparr>
               | Some False \<Rightarrow> copied\<lparr>
                   ha_Summary := ha_Summary copied @ '' This differs from the selected status expectation.''\<rparr>))"

definition unmeasured_https :: "https_selection \<Rightarrow> https_assessment" where
  "unmeasured_https selection =
     \<lparr>ha_Selection = selection, ha_State = StateUnknown, ha_Confidence = ConfidenceUnknown,
      ha_Result = HTTPSUnknown, ha_Evidence = None, ha_FreshUntil = zero_time,
      ha_ExpectationMatched = None, ha_ResponseTime = None,
      ha_Summary = fst https_unmeasured_copy, ha_NextStep = snd https_unmeasured_copy\<rparr>"

definition AssessHTTPS :: "https_snapshot \<Rightarrow> (string, https_report) result" where
  "AssessHTTPS s =
     bind_result (ValidateHTTPSSnapshot s) (\<lambda>_.
     (let newest = latest (\<lambda>m. hs_ID (hm_Selection m)) hm_CompletedAt Map.empty (hn_Measurements s)
      in Inr \<lparr>hr_Observer = hn_Observer s, hr_AsOf = hn_AsOf s, hr_WindowStart = hn_WindowStart s,
              hr_Checks = map (\<lambda>selection. case newest (hs_ID selection) of
                                 None \<Rightarrow> unmeasured_https selection
                               | Some m \<Rightarrow> assessHTTPSMeasurement m (hn_AsOf s) (hn_Freshness s))
                             (hn_Selections s),
              hr_Limitations = https_limitations\<rparr>))"

section \<open>What validation accepts\<close>

text \<open>
  Before the request stage no HTTP request may have been sent; a response needs the request stage and
  an accepted request and is the only exchange with a status; every failure names a stage it can
  happen in.
\<close>

definition https_evidence_ok :: "https_measurement \<Rightarrow> bool" where
  "https_evidence_ok m \<longleftrightarrow>
     (if hm_Exchange m = HTTPSNotMeasured then
        hm_Stage m = HTTPSNoStage \<and> hm_Request m = HTTPSRequestNotSent \<and> hm_StatusCode m = 0 \<and>
        hm_ResponseTime m = None \<and> hm_Gap m \<in> all_gap_reasons
      else
        hm_Gap m = GapNone \<and> time_sub (hm_CompletedAt m) (hm_StartedAt m) \<le> MaxCheckTime \<and>
        hm_Request m \<in> {HTTPSRequestNotSent, HTTPSRequestAccepted, HTTPSRequestUncertain} \<and>
        hm_Stage m \<in> {HTTPSConnect, HTTPSTLS, HTTPSRequest} \<and>
        (hm_Stage m \<noteq> HTTPSRequest \<longrightarrow> hm_Request m = HTTPSRequestNotSent) \<and>
        (if hm_Exchange m = HTTPSResponseReceived then
           hm_Stage m = HTTPSRequest \<and> hm_Request m = HTTPSRequestAccepted \<and>
           200 \<le> hm_StatusCode m \<and> hm_StatusCode m \<le> 599 \<and>
           (case hm_ResponseTime m of None \<Rightarrow> True
            | Some l \<Rightarrow> 0 \<le> l \<and> l \<le> time_sub (hm_CompletedAt m) (hm_StartedAt m))
         else
           hm_StatusCode m = 0 \<and> hm_ResponseTime m = None \<and>
           (case hm_Exchange m of
              HTTPSConnectError \<Rightarrow> hm_Stage m = HTTPSConnect
            | HTTPSTLSError \<Rightarrow> hm_Stage m = HTTPSTLS
            | HTTPSTransportError \<Rightarrow> hm_Stage m \<noteq> HTTPSConnect
            | HTTPSProtocolError \<Rightarrow> hm_Stage m = HTTPSRequest \<and> hm_Request m = HTTPSRequestAccepted
            | HTTPSTimeout \<Rightarrow> after (hm_CompletedAt m) (hm_StartedAt m)
            | HTTPSIncomplete \<Rightarrow> True
            | _ \<Rightarrow> False)))"

lemma validateHTTPSMeasurement_ok:
  "validateHTTPSMeasurement m = Inr () \<longleftrightarrow> https_evidence_ok m"
  by (cases "hm_Exchange m"; cases "hm_Stage m"; cases "hm_ResponseTime m")
     (auto simp: validateHTTPSMeasurement_def https_evidence_ok_def Let_def)

definition https_allowed :: "https_snapshot \<Rightarrow> https_measurement \<Rightarrow> bool" where
  "https_allowed s m \<longleftrightarrow>
     validToken (hm_ID m) \<and> hm_Observer m = hn_Observer s \<and> hm_Selection m \<in> set (hn_Selections s) \<and>
     https_stamps s m = Inr () \<and> https_evidence_ok m"

abbreviation hm_key :: "https_measurement \<Rightarrow> string" where
  "hm_key m \<equiv> hs_ID (hm_Selection m)"

lemma identify_https_Inr:
  "identify_https s selections seen m = Inr selection \<longleftrightarrow>
     \<not> seen \<and> validToken (hm_ID m) \<and> hm_Observer m = hn_Observer s \<and>
     selections (hm_key m) = Some selection \<and> selection = hm_Selection m"
  by (auto simp: identify_https_def split: option.splits)

definition https_context_ok :: "https_snapshot \<Rightarrow> bool" where
  "https_context_ok s \<longleftrightarrow>
     validObserver (hn_Observer s) \<and> o_InterfaceIndex (hn_Observer s) \<le> 2147483647 \<and>
     resolverTime (hn_AsOf s) \<and> resolverTime (hn_WindowStart s) \<and>
     \<not> after (hn_WindowStart s) (hn_AsOf s) \<and> time_sub (hn_AsOf s) (hn_WindowStart s) \<le> MaxWindow \<and>
     second \<le> hn_Freshness s \<and> hn_Freshness s \<le> MaxFreshness \<and>
     resolverTime (time_add (hn_AsOf s) (hn_Freshness s))"

lemma ValidateHTTPSSnapshot_iff:
  "valid_https_snapshot s \<longleftrightarrow>
     https_context_ok s \<and>
     length (hn_Selections s) \<le> MaxTargets \<and> length (hn_Measurements s) \<le> MaxMeasurements \<and>
     (\<forall>x\<in>set (hn_Selections s). ValidateHTTPSSelection x = Inr ()) \<and>
     distinct (map hs_ID (hn_Selections s)) \<and>
     (\<forall>m\<in>set (hn_Measurements s). https_allowed s m) \<and>
     distinct (map hm_ID (hn_Measurements s)) \<and>
     distinct (map (\<lambda>m. (hm_key m, wall (hm_CompletedAt m))) (hn_Measurements s))"
proof -
  define S where "S = map_by hs_ID (hn_Selections s)"
  have loop: "admit_measurements (identify_https s S) (https_stamps s)
        (\<lambda>_. validateHTTPSMeasurement) hm_ID hs_ID hm_CompletedAt amb {} (\<lambda>_. {}) ms = Inr () \<longleftrightarrow>
      (\<forall>m\<in>set ms. (\<exists>x. identify_https s S False m = Inr x) \<and> validateHTTPSMeasurement m = Inr () \<and>
         https_stamps s m = Inr ()) \<and>
      distinct (map hm_ID ms) \<and> distinct (map (\<lambda>m. (hm_key m, wall (hm_CompletedAt m))) ms)"
    for amb ms
    by (subst admit_measurements_Inr [where mkey = hm_key])
       (auto simp: identify_https_Inr)
  have each: "(\<exists>x. identify_https s S False m = Inr x) \<and> validateHTTPSMeasurement m = Inr () \<and>
      https_stamps s m = Inr () \<longleftrightarrow> https_allowed s m"
    if "distinct (map hs_ID (hn_Selections s))" for m
    using map_by_member [OF that]
    by (auto simp: identify_https_Inr validateHTTPSMeasurement_ok https_allowed_def S_def
        dest: map_by_SomeD)
  have "valid_https_snapshot s \<longleftrightarrow> https_context_ok s \<and>
      length (hn_Selections s) \<le> MaxTargets \<and> length (hn_Measurements s) \<le> MaxMeasurements \<and>
      (\<forall>x\<in>set (hn_Selections s). ValidateHTTPSSelection x = Inr ()) \<and>
      distinct (map hs_ID (hn_Selections s)) \<and>
      admit_measurements (identify_https s S) (https_stamps s)
        (\<lambda>_. validateHTTPSMeasurement) hm_ID hs_ID hm_CompletedAt
        ''HTTPS evidence has ambiguous simultaneous results'' {} (\<lambda>_. {}) (hn_Measurements s) = Inr ()"
    by (auto simp: ValidateHTTPSSnapshot_def collect_keyed_empty https_context_ok_def S_def [symmetric])
  then show ?thesis
    by (cases "distinct (map hs_ID (hn_Selections s))") (simp_all add: loop each)
qed

interpretation https: assessed_evidence valid_https_snapshot hn_Measurements hm_key hm_CompletedAt
  by unfold_locales (simp add: ValidateHTTPSSnapshot_iff)

lemma valid_https_snapshot_perm:
  assumes "mset ms = mset (hn_Measurements s)"
  shows "valid_https_snapshot (s\<lparr>hn_Measurements := ms\<rparr>) \<longleftrightarrow> valid_https_snapshot s"
proof -
  have len: "length ms = length (hn_Measurements s)"
    using assms by (metis size_mset)
  have allowed: "https_allowed (s\<lparr>hn_Measurements := ms\<rparr>) m \<longleftrightarrow> https_allowed s m" for m
    by (simp add: https_allowed_def https_stamps_def)
  show ?thesis
    unfolding ValidateHTTPSSnapshot_iff https_context_ok_def
    by (simp add: allowed len ball_mset [OF assms] distinct_map_mset [OF assms])
qed

section \<open>Assessing one exchange\<close>

lemma assessHTTPSMeasurement_simps [simp]:
  "ha_Selection (assessHTTPSMeasurement m asOf fr) = hm_Selection m"
  "ha_Result (assessHTTPSMeasurement m asOf fr) = httpsResult m"
  "ha_Evidence (assessHTTPSMeasurement m asOf fr) = Some m"
  "ha_ExpectationMatched (assessHTTPSMeasurement m asOf fr) =
     (if hm_Exchange m = HTTPSResponseReceived
      then Some (hm_StatusCode m = hs_ExpectedStatus (hm_Selection m)) else None)"
  by (simp_all add: assessHTTPSMeasurement_def Let_def split: option.splits bool.splits)

definition https_state_of :: "time \<Rightarrow> duration \<Rightarrow> https_measurement \<Rightarrow> state" where
  "https_state_of asOf freshness m =
     (if \<not> fresh_at (hm_CompletedAt m) asOf freshness then StateStale
      else (case hm_Exchange m of
              HTTPSNotMeasured \<Rightarrow> StateNotMeasured
            | HTTPSIncomplete \<Rightarrow> StateUnknown
            | HTTPSResponseReceived \<Rightarrow>
                if hm_StatusCode m = hs_ExpectedStatus (hm_Selection m) then StateSucceeded
                else StateIssueObserved
            | _ \<Rightarrow> StateIssueObserved))"

lemma assess_https_state:
  "wall_only (hm_CompletedAt m) \<Longrightarrow>
     ha_State (assessHTTPSMeasurement m asOf fr) = https_state_of asOf fr m"
  by (cases "hm_Exchange m")
     (auto simp: assessHTTPSMeasurement_def https_state_of_def fresh_at_def Let_def go_time
       split: option.splits bool.splits)

definition https_check_of :: "https_snapshot \<Rightarrow> https_selection \<Rightarrow> https_assessment" where
  "https_check_of s selection =
     (case latest hm_key hm_CompletedAt Map.empty (hn_Measurements s) (hs_ID selection) of
        None \<Rightarrow> unmeasured_https selection
      | Some m \<Rightarrow> assessHTTPSMeasurement m (hn_AsOf s) (hn_Freshness s))"

lemma AssessHTTPS_Inr:
  "AssessHTTPS s = Inr r \<longleftrightarrow> valid_https_snapshot s \<and>
     r = \<lparr>hr_Observer = hn_Observer s, hr_AsOf = hn_AsOf s, hr_WindowStart = hn_WindowStart s,
          hr_Checks = map (https_check_of s) (hn_Selections s), hr_Limitations = https_limitations\<rparr>"
  by (auto simp: AssessHTTPS_def https_check_of_def [abs_def] Let_def)

section \<open>A sample exchange\<close>

definition sample_https_selection :: https_selection where
  "sample_https_selection = \<lparr>hs_ID = ''web'', hs_EndpointID = ''e1'', hs_RequestID = ''q1'',
     hs_Family = FamilyIPv4, hs_Method = ''HEAD'', hs_ExpectedStatus = 204\<rparr>"

definition sample_https_exchange :: https_measurement where
  "sample_https_exchange = \<lparr>hm_ID = ''m4'', hm_Selection = sample_https_selection,
     hm_Observer = sample_observer, hm_StartedAt = at_second 993, hm_CompletedAt = at_second 995,
     hm_Stage = HTTPSRequest, hm_Exchange = HTTPSResponseReceived, hm_Request = HTTPSRequestAccepted,
     hm_Gap = GapNone, hm_StatusCode = 302, hm_ResponseTime = Some second\<rparr>"

definition sample_https :: https_snapshot where
  "sample_https = \<lparr>hn_Observer = sample_observer, hn_AsOf = at_second 1000,
     hn_WindowStart = at_second 500, hn_Freshness = 120 * second,
     hn_Selections = [sample_https_selection], hn_Measurements = [sample_https_exchange]\<rparr>"

lemmas sample_https_defs = sample_https_selection_def sample_https_exchange_def sample_https_def at_second_def

lemma sample_https_tokens [simp]:
  "validToken ''web''" "validToken ''e1''" "validToken ''m4''"
  by (simp_all add: validToken_def tokenPattern_def is_lower_alnum_def is_lower_def is_digit_def
      is_token_separator_def)

lemma sample_https_valid [simp]: "valid_https_snapshot sample_https"
proof -
  have "o_InterfaceIndex sample_observer = 4" by (simp add: sample_observer_def)
  then show ?thesis
    by (simp add: ValidateHTTPSSnapshot_def ValidateHTTPSSelection_def identify_https_def
        https_stamps_def resolverTime_def validateHTTPSMeasurement_def Let_def sample_https_defs
        time_evaluation)
qed

section \<open>Properties\<close>

text \<open>
  functional correctness of the HTTPS assessment.  One check per selection, in order, decided by
  the latest evidence of that selection.  A success is a fresh final response with the expected status
  on a connection that reached the request stage after TLS verification; a redirect or an error status
  that differs from the expectation is an observed issue, and a status is never reported for an
  exchange without a response.
\<close>

theorem assess_https_from_latest:
  assumes "\<forall>m\<in>set (hn_Measurements s). wall_only (hm_CompletedAt m)"
    and "AssessHTTPS s = Inr r" and "i < length (hn_Selections s)"
  shows "length (hr_Checks r) = length (hn_Selections s) \<and>
     ha_Selection (hr_Checks r ! i) = hn_Selections s ! i \<and>
     (case ha_Evidence (hr_Checks r ! i) of
        None \<Rightarrow> ha_State (hr_Checks r ! i) = StateUnknown \<and>
          (\<forall>m\<in>set (hn_Measurements s). hs_ID (hm_Selection m) \<noteq> hs_ID (hn_Selections s ! i))
      | Some m \<Rightarrow>
          is_latest (\<lambda>m. hs_ID (hm_Selection m)) hm_CompletedAt (hn_Measurements s)
            (hs_ID (hn_Selections s ! i)) m \<and>
          ha_State (hr_Checks r ! i) = https_state_of (hn_AsOf s) (hn_Freshness s) m \<and>
          (ha_State (hr_Checks r ! i) = StateSucceeded \<longrightarrow>
             hm_Stage m = HTTPSRequest \<and> hm_Request m = HTTPSRequestAccepted \<and>
             hm_StatusCode m = hs_ExpectedStatus (hn_Selections s ! i)) \<and>
          (ha_ExpectationMatched (hr_Checks r ! i) \<noteq> None \<longleftrightarrow> hm_StatusCode m \<noteq> 0))"
proof -
  let ?x = "hn_Selections s ! i" and ?new = "latest hm_key hm_CompletedAt Map.empty (hn_Measurements s)"
  have valid: "valid_https_snapshot s" and checks: "hr_Checks r = map (https_check_of s) (hn_Selections s)"
    using assms(2) by (auto simp: AssessHTTPS_Inr)
  have x: "?x \<in> set (hn_Selections s)" using assms(3) by simp
  show ?thesis
  proof (cases "?new (hs_ID ?x)")
    case None
    then have "hs_ID ?x \<notin> hm_key ` set (hn_Measurements s)" by (simp add: latest_None_iff)
    with None assms(3) show ?thesis
      by (force simp: checks https_check_of_def unmeasured_https_def)
  next
    case (Some m)
    then have newest: "is_latest hm_key hm_CompletedAt (hn_Measurements s) (hs_ID ?x) m"
      by (rule https.latest_Some_iff [OF valid assms(1), THEN iffD1])
    have m: "m \<in> set (hn_Measurements s)" "hm_key m = hs_ID ?x"
      using newest by (auto simp: is_latest_def)
    then have ok: "https_evidence_ok m" and sel: "hm_Selection m \<in> set (hn_Selections s)"
      using valid by (auto simp: ValidateHTTPSSnapshot_iff https_allowed_def)
    have same: "hm_Selection m = ?x"
      using valid sel x m(2) by (auto simp: ValidateHTTPSSnapshot_iff distinct_map dest: inj_onD)
    have state: "ha_State (assessHTTPSMeasurement m (hn_AsOf s) (hn_Freshness s)) =
        https_state_of (hn_AsOf s) (hn_Freshness s) m"
      using assms(1) m(1) by (simp add: assess_https_state)
    have success: "https_state_of (hn_AsOf s) (hn_Freshness s) m = StateSucceeded \<Longrightarrow>
        hm_Stage m = HTTPSRequest \<and> hm_Request m = HTTPSRequestAccepted \<and>
        hm_StatusCode m = hs_ExpectedStatus (hm_Selection m)"
      using ok by (auto simp: https_state_of_def https_evidence_ok_def
          split: if_splits https_exchange.splits)
    have status: "hm_Exchange m = HTTPSResponseReceived \<longleftrightarrow> hm_StatusCode m \<noteq> 0"
      using ok by (auto simp: https_evidence_ok_def split: if_splits)
    show ?thesis
      using Some assms(3) newest same state success status
      by (simp add: checks https_check_of_def)
  qed
qed

theorem assess_https_from_latest_witness:
  "\<exists>r. AssessHTTPS sample_https = Inr r \<and> ha_Selection (hr_Checks r ! 0) = sample_https_selection \<and>
     ha_State (hr_Checks r ! 0) = StateIssueObserved"
proof -
  obtain r where r: "AssessHTTPS sample_https = Inr r"
    using sample_https_valid by (auto simp: AssessHTTPS_Inr)
  have wall: "\<forall>m\<in>set (hn_Measurements sample_https). wall_only (hm_CompletedAt m)"
    by (simp add: sample_https_defs)
  have one: "0 < length (hn_Selections sample_https)" by (simp add: sample_https_def)
  note spec = assess_https_from_latest [OF wall r one]
  obtain m where m: "ha_Evidence (hr_Checks r ! 0) = Some m" and new: "is_latest hm_key hm_CompletedAt
      (hn_Measurements sample_https) (hs_ID (hn_Selections sample_https ! 0)) m"
    using spec by (cases "ha_Evidence (hr_Checks r ! 0)") (auto simp: sample_https_def sample_https_exchange_def)
  have "m = sample_https_exchange"
    using new by (simp add: is_latest_def sample_https_def)
  with spec m have "ha_State (hr_Checks r ! 0) = StateIssueObserved"
    by (simp add: https_state_of_def fresh_at_def sample_https_defs quality_limits)
  moreover have "hn_Selections sample_https ! 0 = sample_https_selection" by (simp add: sample_https_def)
  ultimately show ?thesis using r spec by auto
qed

end
