(* ===== verification/Corroborate.thy ===== *)
theory Corroborate
  imports HttpsQuality "HOL-Library.Product_Lexorder"
begin

text \<open>
  \<open>networkquality/corroborate.go\<close>: the comparison of already collected network, DNS and HTTPS evidence
  of one observation point.  The latest evidence of every selected check is listed; the fresh, measured
  entries are compared only when they come from at least two layers, start after every recorded sleep,
  offline or network-change gap of the window, and end close together.
\<close>

section \<open>Data\<close>

record corroboration_input =
  ci_HTTPSDeviceID :: string
  ci_HTTPS :: "https_snapshot option"
  ci_NetworkDeviceID :: string
  ci_ResolverDeviceID :: string
  ci_Network :: snapshot
  ci_Resolvers :: resolver_snapshot
  ci_Family :: address_family
  ci_MaxCompletionSkew :: duration

definition MaxCorroborationSkew :: duration where
  "MaxCorroborationSkew = 30 * second"

text \<open>The zero values of the optional result fields are \<open>ResolverUnknown\<close> and so on only when set by
  an assessment; an entry of another layer has no such result (the empty string in Go).\<close>

record corroboration_evidence =
  ce_HTTPSSelection :: "https_selection option"
  ce_HTTPSResult :: "https_result option"
  ce_HTTPSStage :: https_stage
  ce_HTTPSRequest :: "https_request_state option"
  ce_HTTPStatus :: int
  ce_Selection :: "resolver_selection option"
  ce_Layer :: layer
  ce_Reference :: string
  ce_MeasurementID :: string
  ce_Observer :: observer
  ce_Family :: address_family
  ce_Method :: qmethod
  ce_StartedAt :: time
  ce_CompletedAt :: time
  ce_State :: state
  ce_Gap :: gap_reason
  ce_Attempts :: int
  ce_Successes :: int
  ce_DNSResult :: "resolver_result option"
  ce_ExpectationMatched :: "bool option"

datatype conclusion =
  InsufficientEvidence | CollectionDiscontinuity | ObservationsTooFarApart | MixedLinkEvidence
| LocalLinkIssueWithOtherFailures | DnsQueryIssueWithResponses | IcmpMissesWithResponses
| ExternalCheckIssueWithResponses | ProblemsAcrossSelectedLayers | SelectedChecksMatched
| MixedOrLimitedEvidence

record corroboration =
  co_DiscontinuityID :: string
  co_DiscontinuityAt :: time
  co_DiscontinuityGap :: gap_reason
  co_DeviceID :: string
  co_ScopeID :: string
  co_InterfaceName :: string
  co_InterfaceIndex :: int
  co_Family :: address_family
  co_AsOf :: time
  co_MaxCompletionSkew :: duration
  co_Evidence :: "corroboration_evidence list"
  co_Compared :: "string list"
  co_EvidenceStart :: time
  co_EvidenceEnd :: time
  co_Conclusion :: conclusion
  co_Confidence :: confidence
  co_Summary :: string
  co_NextStep :: string
  co_Limitations :: "string list"

section \<open>Texts\<close>

fun conclusion_text :: "conclusion \<Rightarrow> string" where
  "conclusion_text InsufficientEvidence = ''insufficient-evidence''"
| "conclusion_text CollectionDiscontinuity = ''collection-discontinuity''"
| "conclusion_text ObservationsTooFarApart = ''observations-too-far-apart''"
| "conclusion_text MixedLinkEvidence = ''mixed-link-evidence''"
| "conclusion_text LocalLinkIssueWithOtherFailures = ''local-link-issue-with-other-failures''"
| "conclusion_text DnsQueryIssueWithResponses = ''dns-query-issue-with-responses''"
| "conclusion_text IcmpMissesWithResponses = ''icmp-misses-with-responses''"
| "conclusion_text ExternalCheckIssueWithResponses = ''external-check-issue-with-responses''"
| "conclusion_text ProblemsAcrossSelectedLayers = ''problems-across-selected-layers''"
| "conclusion_text SelectedChecksMatched = ''selected-checks-matched''"
| "conclusion_text MixedOrLimitedEvidence = ''mixed-or-limited-evidence''"

fun conclusion_copy :: "conclusion \<Rightarrow> string \<times> string" where
  "conclusion_copy InsufficientEvidence =
     (''There is not enough comparable evidence from different check layers.'',
      ''Review the missing, stale or unmeasured checks. Any new measurement needs separate authorization.'')"
| "conclusion_copy CollectionDiscontinuity =
     (''A recorded sleep, offline or network-change gap separates the selected evidence.'',
      ''Compare evidence collected after the recorded gap. Do not interpret the gap as a measured network outage.'')"
| "conclusion_copy ObservationsTooFarApart =
     (''The latest selected measurements ended too far apart for this comparison.'',
      ''Use evidence from a comparable time window; do not substitute older successes or repeat traffic automatically.'')"
| "conclusion_copy MixedLinkEvidence =
     (''The interface reported down while nearby selected checks recorded responses.'',
      ''Review the original timestamps and collection sources for a transition or path difference. Do not choose one observation as proof of the whole connection.'')"
| "conclusion_copy LocalLinkIssueWithOtherFailures =
     (''The interface reported down and another selected check also recorded a problem nearby in time.'',
      ''Inspect this device's local connection first, then compare separately authorized evidence. The observations do not prove the same cause or another device's state.'')"
| "conclusion_copy DnsQueryIssueWithResponses =
     (''A selected DNS query differed from its expectation or failed, while another layer recorded responses nearby in time.'',
      ''Inspect the recorded DNS result and query expectation. Resolver policy, filtering or upstream behavior remain possible, not proven causes; other replies do not prove the resolver path worked.'')"
| "conclusion_copy IcmpMissesWithResponses =
     (''The selected ICMP target missed replies while another selected check recorded a response nearby in time.'',
      ''Review target and protocol behavior, including ICMP filtering, before inferring a wider connectivity failure. The target's gateway role is unverified.'')"
| "conclusion_copy ExternalCheckIssueWithResponses =
     (''An external target check had a problem while another selected check recorded responses nearby in time.'',
      ''Review that target and protocol, then corroborate with other authorized evidence. This does not diagnose an ISP outage or captive portal.'')"
| "conclusion_copy ProblemsAcrossSelectedLayers =
     (''Checks in more than one selected layer recorded problems nearby in time.'',
      ''Inspect each original result and local binding. Shared dependencies, target behavior and collection differences prevent an internet-outage or root-cause verdict.'')"
| "conclusion_copy SelectedChecksMatched =
     (''The compared checks met their selected expectations during this evidence window.'',
      ''Keep the conclusion limited to these checks and their original times. This is not proof of general internet availability, security or coverage.'')"
| "conclusion_copy MixedOrLimitedEvidence =
     (''Comparable checks provide mixed or limited evidence without a supported explanation for a wider problem.'',
      ''Inspect individual observations, including incomplete DNS classifications, before collecting any separately authorized follow-up.'')"

definition corroboration_limitations :: "string list" where
  "corroboration_limitations =
     [''Comparisons describe selected checks on one observing device, enrolled scope, interface and address family at the supplied assessment time.'',
      ''Nearby completion times do not prove simultaneous observations, the same route, independent failures or a common root cause.'',
      ''The ICMP target's gateway role is unverified. DNS replies, including errors, are responses rather than packet loss.'',
      ''No conclusion establishes internet availability, captive-portal status, DNSSEC validation, whole-home quality, security or monitoring coverage.'']"

fun layer_text :: "layer \<Rightarrow> string" where
  "layer_text LayerLink = ''local-link''"
| "layer_text LayerGateway = ''gateway''"
| "layer_text LayerDNS = ''dns''"
| "layer_text LayerExternal = ''external-target''"
| "layer_text (LayerOther s) = s"

section \<open>Validation\<close>

text \<open>Measurement identifiers must be new: the loop adds each to the set of those already used.\<close>

fun claim_ids :: "string set \<Rightarrow> string list \<Rightarrow> string set option" where
  "claim_ids ids [] = Some ids"
| "claim_ids ids (i # rest) = (if i \<in> ids then None else claim_ids (insert i ids) rest)"

definition same_context :: "observer \<Rightarrow> observer \<Rightarrow> bool" where
  "same_context a b \<longleftrightarrow> o_ScopeID a = o_ScopeID b \<and> o_InterfaceName a = o_InterfaceName b \<and>
     o_InterfaceIndex a = o_InterfaceIndex b"

definition https_context_matches :: "corroboration_input \<Rightarrow> bool" where
  "https_context_matches inp =
     (let a = ci_Network inp; b = ci_Resolvers inp in
      case ci_HTTPS inp of
        None \<Rightarrow> ci_HTTPSDeviceID inp = []
      | Some h \<Rightarrow>
          ci_HTTPSDeviceID inp = ci_NetworkDeviceID inp \<and>
          same_context (hn_Observer h) (s_Observer a) \<and>
          time_eq (hn_AsOf h) (s_AsOf a) \<and> time_eq (hn_WindowStart h) (s_WindowStart a) \<and>
          hn_Freshness h = s_Freshness a \<and>
          length (s_Targets a) + length (rn_Selections b) + length (hn_Selections h) \<le> MaxTargets \<and>
          length (s_Measurements a) + length (rn_Measurements b) + length (hn_Measurements h)
            \<le> MaxMeasurements \<and>
          ValidateHTTPSSnapshot h = Inr ())"

definition https_selections :: "corroboration_input \<Rightarrow> https_selection list" where
  "https_selections inp = (case ci_HTTPS inp of None \<Rightarrow> [] | Some h \<Rightarrow> hn_Selections h)"

definition https_measurements :: "corroboration_input \<Rightarrow> https_measurement list" where
  "https_measurements inp = (case ci_HTTPS inp of None \<Rightarrow> [] | Some h \<Rightarrow> hn_Measurements h)"

definition validateCorroboration :: "corroboration_input \<Rightarrow> (string, unit) result" where
  "validateCorroboration inp =
     (let invalid = ''quality comparison context is invalid'';
          a = ci_Network inp; b = ci_Resolvers inp in
      guard (\<not> validToken (ci_NetworkDeviceID inp) \<or> ci_NetworkDeviceID inp \<noteq> ci_ResolverDeviceID inp \<or>
             \<not> same_context (s_Observer a) (rn_Observer b) \<or>
             \<not> time_eq (s_AsOf a) (rn_AsOf b) \<or> \<not> time_eq (s_WindowStart a) (rn_WindowStart b) \<or>
             s_Freshness a \<noteq> rn_Freshness b \<or>
             (ci_Family inp \<noteq> FamilyIPv4 \<and> ci_Family inp \<noteq> FamilyIPv6) \<or>
             ci_MaxCompletionSkew inp < second \<or> ci_MaxCompletionSkew inp > MaxCorroborationSkew \<or>
             length (s_Targets a) + length (rn_Selections b) > MaxTargets \<or>
             length (s_Measurements a) + length (rn_Measurements b) > MaxMeasurements) invalid
      (guard (\<not> resolverTime (s_AsOf a) \<or> \<not> resolverTime (s_WindowStart a)) invalid
      (guard (ValidateSnapshot a \<noteq> Inr ()) invalid
      (guard (ValidateResolverSnapshot b \<noteq> Inr ()) invalid
      (guard (\<not> https_context_matches inp) invalid
      (guard (\<exists>t\<in>set (s_Targets a). t_Layer t = LayerDNS \<or> t_Method t = MethodHTTPS) invalid
      (guard (\<exists>x\<in>set (https_selections inp). \<exists>t\<in>set (s_Targets a).
                t_Layer t = LayerExternal \<and> t_ID t = hs_ID x) invalid
      (guard (\<exists>m\<in>set (s_Measurements a).
                \<not> resolverTime (m_StartedAt m) \<or> \<not> resolverTime (m_CompletedAt m)) invalid
      (case claim_ids (set (map m_ID (s_Measurements a))) (map rm_ID (rn_Measurements b)) of
         None \<Rightarrow> Inl invalid
       | Some ids \<Rightarrow>
           (case claim_ids ids (map hm_ID (https_measurements inp)) of
              None \<Rightarrow> Inl invalid
            | Some _ \<Rightarrow> Inr ()))))))))))"

section \<open>Recorded discontinuities\<close>

definition consider_gap ::
  "string \<times> time \<times> gap_reason \<Rightarrow> string \<times> time \<times> gap_reason \<Rightarrow> string \<times> time \<times> gap_reason" where
  "consider_gap best entry =
     (case (best, entry) of ((ident, at_time, gap), (mid, end_time, reason)) \<Rightarrow>
        if reason \<noteq> GapSleep \<and> reason \<noteq> GapOffline \<and> reason \<noteq> GapNetworkChanged then best
        else if after end_time at_time \<or> (time_eq end_time at_time \<and> mid < ident) then entry
        else best)"

definition gap_entries :: "corroboration_input \<Rightarrow> (string \<times> time \<times> gap_reason) list" where
  "gap_entries inp =
     map (\<lambda>m. (m_ID m, m_CompletedAt m, m_Gap m)) (s_Measurements (ci_Network inp)) @
     map (\<lambda>m. (rm_ID m, rm_CompletedAt m, rm_Gap m)) (rn_Measurements (ci_Resolvers inp)) @
     map (\<lambda>m. (hm_ID m, hm_CompletedAt m, hm_Gap m)) (https_measurements inp)"

definition latestDiscontinuity :: "corroboration_input \<Rightarrow> string \<times> time \<times> gap_reason" where
  "latestDiscontinuity inp = foldl consider_gap ([], zero_time, GapNone) (gap_entries inp)"

section \<open>Evidence entries\<close>

definition network_entry :: "observer \<Rightarrow> check_assessment \<Rightarrow> corroboration_evidence" where
  "network_entry ob c =
     \<lparr>ce_HTTPSSelection = None, ce_HTTPSResult = None, ce_HTTPSStage = HTTPSNoStage,
      ce_HTTPSRequest = None, ce_HTTPStatus = 0, ce_Selection = None,
      ce_Layer = t_Layer (c_Target c), ce_Reference = t_ID (c_Target c),
      ce_MeasurementID = c_EvidenceID c, ce_Observer = ob, ce_Family = t_Family (c_Target c),
      ce_Method = t_Method (c_Target c), ce_StartedAt = c_StartedAt c,
      ce_CompletedAt = c_CompletedAt c, ce_State = c_State c, ce_Gap = c_Gap c,
      ce_Attempts = c_Attempts c, ce_Successes = c_Successes c, ce_DNSResult = None,
      ce_ExpectationMatched = None\<rparr>"

text \<open>The result and the expectation are compared as strings in the code.\<close>

definition result_matches_expectation :: "resolver_result \<Rightarrow> dns_expectation \<Rightarrow> bool" where
  "result_matches_expectation result expect \<longleftrightarrow>
     (result, expect) \<in> {(ResolverAnswer, DNSExpectAnswer), (ResolverNXDOMAIN, DNSExpectNXDOMAIN),
        (ResolverNoData, DNSExpectNoData)}"

definition resolver_entry :: "observer \<Rightarrow> resolver_assessment \<Rightarrow> corroboration_evidence" where
  "resolver_entry ob c =
     (let e = \<lparr>ce_HTTPSSelection = None, ce_HTTPSResult = None, ce_HTTPSStage = HTTPSNoStage,
            ce_HTTPSRequest = None, ce_HTTPStatus = 0, ce_Selection = Some (ra_Selection c),
            ce_Layer = LayerDNS, ce_Reference = rs_ID (ra_Selection c), ce_MeasurementID = [],
            ce_Observer = ob, ce_Family = rs_Family (ra_Selection c), ce_Method = MethodDNS,
            ce_StartedAt = zero_time, ce_CompletedAt = zero_time, ce_State = ra_State c,
            ce_Gap = GapNone, ce_Attempts = 0, ce_Successes = 0, ce_DNSResult = Some (ra_Result c),
            ce_ExpectationMatched = None\<rparr>
      in case ra_Evidence c of
           None \<Rightarrow> e
         | Some m \<Rightarrow>
             e\<lparr>ce_MeasurementID := rm_ID m, ce_StartedAt := rm_StartedAt m,
               ce_CompletedAt := rm_CompletedAt m, ce_Gap := rm_Gap m,
               ce_ExpectationMatched :=
                 (if ra_Result c \<in> {ResolverAnswer, ResolverNXDOMAIN, ResolverNoData}
                  then Some (result_matches_expectation (ra_Result c) (rs_Expect (ra_Selection c)))
                  else None)\<rparr>)"

definition https_entry :: "observer \<Rightarrow> https_assessment \<Rightarrow> corroboration_evidence" where
  "https_entry ob c =
     (let e = \<lparr>ce_HTTPSSelection = Some (ha_Selection c), ce_HTTPSResult = Some (ha_Result c),
            ce_HTTPSStage = HTTPSNoStage, ce_HTTPSRequest = None, ce_HTTPStatus = 0,
            ce_Selection = None, ce_Layer = LayerExternal, ce_Reference = hs_ID (ha_Selection c),
            ce_MeasurementID = [], ce_Observer = ob, ce_Family = hs_Family (ha_Selection c),
            ce_Method = MethodHTTPS, ce_StartedAt = zero_time, ce_CompletedAt = zero_time,
            ce_State = ha_State c, ce_Gap = GapNone, ce_Attempts = 0, ce_Successes = 0,
            ce_DNSResult = None, ce_ExpectationMatched = ha_ExpectationMatched c\<rparr>
      in case ha_Evidence c of
           None \<Rightarrow> e
         | Some m \<Rightarrow>
             e\<lparr>ce_MeasurementID := hm_ID m, ce_StartedAt := hm_StartedAt m,
               ce_CompletedAt := hm_CompletedAt m, ce_Gap := hm_Gap m, ce_HTTPSStage := hm_Stage m,
               ce_HTTPSRequest := Some (hm_Request m), ce_HTTPStatus := hm_StatusCode m\<rparr>)"

definition collect_evidence ::
  "address_family \<Rightarrow> report \<Rightarrow> resolver_report \<Rightarrow> https_report option \<Rightarrow> corroboration_evidence list" where
  "collect_evidence family n d h =
     map (network_entry (r_Observer n))
       (filter (\<lambda>c. \<not> (t_Family (c_Target c) \<noteq> family \<and> t_Layer (c_Target c) \<noteq> LayerLink)) (r_Checks n)) @
     map (resolver_entry (rr_Observer d))
       (filter (\<lambda>c. rs_Family (ra_Selection c) = family) (rr_Checks d)) @
     (case h of None \<Rightarrow> []
      | Some hr \<Rightarrow> map (https_entry (hr_Observer hr))
          (filter (\<lambda>c. hs_Family (ha_Selection c) = family) (hr_Checks hr)))"

definition sort_evidence :: "corroboration_evidence list \<Rightarrow> corroboration_evidence list" where
  "sort_evidence es = sort_key (\<lambda>e. (layer_text (ce_Layer e), ce_Reference e)) es"

section \<open>Comparison\<close>

definition candidate :: "corroboration_evidence \<Rightarrow> bool" where
  "candidate e \<longleftrightarrow>
     ce_State e = StateSucceeded \<or> ce_State e = StateIssueObserved \<or>
     (ce_Layer e = LayerDNS \<and> ce_State e = StateUnknown \<and> ce_MeasurementID e \<noteq> [] \<and>
      ce_DNSResult e \<in> {Some ResolverTruncated, Some ResolverReferral, Some ResolverUnclassified})"

text \<open>The earliest and the latest of the given instants, as the loops compute them.\<close>

fun earliest :: "(corroboration_evidence \<Rightarrow> time) \<Rightarrow> time \<Rightarrow> corroboration_evidence list \<Rightarrow> time" where
  "earliest f t [] = t"
| "earliest f t (e # es) = earliest f (if is_zero t \<or> before (f e) t then f e else t) es"

fun last_completion :: "time \<Rightarrow> corroboration_evidence list \<Rightarrow> time" where
  "last_completion t [] = t"
| "last_completion t (e # es) =
     last_completion (if after (ce_CompletedAt e) t then ce_CompletedAt e else t) es"

definition distinct_layers :: "corroboration_evidence list \<Rightarrow> nat" where
  "distinct_layers es = length (remdups (map ce_Layer es))"

definition passed :: "corroboration_evidence \<Rightarrow> bool" where
  "passed e \<longleftrightarrow> ce_State e = StateSucceeded"

definition dns_responded :: "corroboration_evidence \<Rightarrow> bool" where
  "dns_responded e \<longleftrightarrow> ce_DNSResult e \<in> Some ` {ResolverAnswer, ResolverNXDOMAIN, ResolverNoData,
     ResolverRefused, ResolverServerFailure, ResolverFormatError, ResolverNotImplemented,
     ResolverOtherError, ResolverReferral, ResolverTruncated, ResolverUnclassified}"

definition probe_responded :: "corroboration_evidence \<Rightarrow> bool" where
  "probe_responded e \<longleftrightarrow>
     (if ce_Method e = MethodHTTPS then ce_HTTPStatus e \<noteq> 0 else ce_Successes e > 0)"

definition conclude :: "corroboration_evidence list \<Rightarrow> conclusion" where
  "conclude es =
     (let linkDown = list_ex (\<lambda>e. ce_Layer e = LayerLink \<and> \<not> passed e) es;
          dnsReply = list_ex (\<lambda>e. ce_Layer e = LayerDNS \<and> dns_responded e) es;
          dnsIssue = list_ex (\<lambda>e. ce_Layer e = LayerDNS \<and> ce_State e = StateIssueObserved) es;
          reply = list_ex (\<lambda>e. if ce_Layer e = LayerLink then False
                    else if ce_Layer e = LayerDNS then dns_responded e else probe_responded e) es;
          icmpMiss = list_ex (\<lambda>e. ce_Layer e = LayerGateway \<and> \<not> passed e) es;
          icmpReply = list_ex (\<lambda>e. ce_Layer e = LayerGateway \<and> ce_Successes e > 0) es;
          externalMiss = list_ex (\<lambda>e. ce_Layer e = LayerExternal \<and> \<not> passed e) es;
          externalReply = list_ex (\<lambda>e. ce_Layer e = LayerExternal \<and> probe_responded e) es;
          failureLayers = distinct_layers (filter (\<lambda>e. ce_State e = StateIssueObserved) es);
          allPassed = list_all passed es
      in if linkDown \<and> reply then MixedLinkEvidence
         else if linkDown \<and> failureLayers > 1 then LocalLinkIssueWithOtherFailures
         else if dnsIssue \<and> (icmpReply \<or> externalReply) then DnsQueryIssueWithResponses
         else if icmpMiss \<and> (dnsReply \<or> externalReply) then IcmpMissesWithResponses
         else if externalMiss \<and> (dnsReply \<or> icmpReply) then ExternalCheckIssueWithResponses
         else if failureLayers > 1 then ProblemsAcrossSelectedLayers
         else if allPassed then SelectedChecksMatched
         else MixedOrLimitedEvidence)"

definition conclude_with :: "corroboration \<Rightarrow> conclusion \<Rightarrow> corroboration" where
  "conclude_with out c =
     out\<lparr>co_Conclusion := c, co_Summary := fst (conclusion_copy c), co_NextStep := snd (conclusion_copy c)\<rparr>"

text \<open>The part of \<open>Corroborate\<close> that follows the sorting of the evidence.\<close>

definition compare_evidence :: "corroboration_input \<Rightarrow> corroboration \<Rightarrow> corroboration" where
  "compare_evidence inp out =
     (let candidates = filter candidate (co_Evidence out);
          firstEnd = earliest ce_CompletedAt zero_time candidates;
          lastEnd = last_completion zero_time candidates;
          (barrierID, barrier, barrierGap) = latestDiscontinuity inp
      in if distinct_layers candidates < 2 then out
         else if \<not> is_zero barrier \<and> list_ex (\<lambda>e. \<not> after (ce_StartedAt e) barrier) candidates then
           (conclude_with out CollectionDiscontinuity)\<lparr>co_DiscontinuityID := barrierID,
              co_DiscontinuityAt := barrier, co_DiscontinuityGap := barrierGap\<rparr>
         else if time_sub lastEnd firstEnd > ci_MaxCompletionSkew inp then
           conclude_with out ObservationsTooFarApart
         else (conclude_with out (conclude candidates))\<lparr>co_Confidence := ConfidenceLimited,
                co_Compared := map ce_MeasurementID candidates,
                co_EvidenceStart := earliest ce_StartedAt zero_time candidates,
                co_EvidenceEnd := last_completion zero_time candidates\<rparr>)"

definition start_corroboration ::
  "corroboration_input \<Rightarrow> report \<Rightarrow> corroboration_evidence list \<Rightarrow> corroboration" where
  "start_corroboration inp n evidence =
     \<lparr>co_DiscontinuityID = [], co_DiscontinuityAt = zero_time, co_DiscontinuityGap = GapNone,
      co_DeviceID = ci_NetworkDeviceID inp, co_ScopeID = o_ScopeID (r_Observer n),
      co_InterfaceName = o_InterfaceName (r_Observer n),
      co_InterfaceIndex = o_InterfaceIndex (r_Observer n), co_Family = ci_Family inp,
      co_AsOf = s_AsOf (ci_Network inp), co_MaxCompletionSkew = ci_MaxCompletionSkew inp,
      co_Evidence = evidence, co_Compared = [], co_EvidenceStart = zero_time,
      co_EvidenceEnd = zero_time, co_Conclusion = InsufficientEvidence,
      co_Confidence = ConfidenceUnknown,
      co_Summary = fst (conclusion_copy InsufficientEvidence),
      co_NextStep = snd (conclusion_copy InsufficientEvidence),
      co_Limitations = corroboration_limitations\<rparr>"

definition Corroborate :: "corroboration_input \<Rightarrow> (failure, corroboration) result" where
  "Corroborate inp =
     (case validateCorroboration inp of
        Inl e \<Rightarrow> Inl (Returned e)
      | Inr _ \<Rightarrow>
     (case Assess (ci_Network inp) of
        Inl e \<Rightarrow> Inl (Returned e)
      | Inr n \<Rightarrow>
     bind_result (AssessResolvers (ci_Resolvers inp)) (\<lambda>d.
     (case (case ci_HTTPS inp of
              None \<Rightarrow> Inr None
            | Some snapshot \<Rightarrow>
                (case AssessHTTPS snapshot of Inl e \<Rightarrow> Inl (Returned e) | Inr h \<Rightarrow> Inr (Some h))) of
        Inl e \<Rightarrow> Inl e
      | Inr h \<Rightarrow>
          Inr (compare_evidence inp
                 (start_corroboration inp n
                   (sort_evidence (collect_evidence (ci_Family inp) n d h))))))))"

end
