(* ===== verification/CorroborateProps.thy ===== *)
theory CorroborateProps
  imports Corroborate
begin

text \<open>
  What the comparison of \<open>corroborate.go\<close> guarantees: which inputs it accepts, which recorded gap it
  treats as a barrier, which entries support a conclusion, and that the order in which measurements were
  recorded never matters.
\<close>

section \<open>Validation\<close>

lemma claim_ids_Some:
  "claim_ids ids xs = Some ids' \<longleftrightarrow> distinct xs \<and> set xs \<inter> ids = {} \<and> ids' = ids \<union> set xs"
  by (induction xs arbitrary: ids) auto

definition used_ids :: "corroboration_input \<Rightarrow> string list" where
  "used_ids inp = map m_ID (s_Measurements (ci_Network inp)) @ map rm_ID (rn_Measurements (ci_Resolvers inp)) @
     map hm_ID (https_measurements inp)"

definition input_context_ok :: "corroboration_input \<Rightarrow> bool" where
  "input_context_ok inp \<longleftrightarrow>
     (let a = ci_Network inp; b = ci_Resolvers inp in
      validToken (ci_NetworkDeviceID inp) \<and> ci_NetworkDeviceID inp = ci_ResolverDeviceID inp \<and>
      same_context (s_Observer a) (rn_Observer b) \<and>
      time_eq (s_AsOf a) (rn_AsOf b) \<and> time_eq (s_WindowStart a) (rn_WindowStart b) \<and>
      s_Freshness a = rn_Freshness b \<and> ci_Family inp \<in> {FamilyIPv4, FamilyIPv6} \<and>
      second \<le> ci_MaxCompletionSkew inp \<and> ci_MaxCompletionSkew inp \<le> MaxCorroborationSkew \<and>
      length (s_Targets a) + length (rn_Selections b) \<le> MaxTargets \<and>
      length (s_Measurements a) + length (rn_Measurements b) \<le> MaxMeasurements \<and>
      resolverTime (s_AsOf a) \<and> resolverTime (s_WindowStart a))"

lemma validateCorroboration_iff:
  "validateCorroboration inp = Inr () \<longleftrightarrow>
     input_context_ok inp \<and> valid_snapshot (ci_Network inp) \<and> valid_resolver_snapshot (ci_Resolvers inp) \<and>
     https_context_matches inp \<and>
     (\<forall>t\<in>set (s_Targets (ci_Network inp)). t_Layer t \<noteq> LayerDNS \<and> t_Method t \<noteq> MethodHTTPS) \<and>
     (\<forall>x\<in>set (https_selections inp). \<forall>t\<in>set (s_Targets (ci_Network inp)).
        \<not> (t_Layer t = LayerExternal \<and> t_ID t = hs_ID x)) \<and>
     (\<forall>m\<in>set (s_Measurements (ci_Network inp)). resolverTime (m_StartedAt m) \<and> resolverTime (m_CompletedAt m)) \<and>
     distinct (used_ids inp)"
proof -
  let ?a = "map m_ID (s_Measurements (ci_Network inp))" and ?b = "map rm_ID (rn_Measurements (ci_Resolvers inp))"
    and ?c = "map hm_ID (https_measurements inp)"
  have "(case claim_ids A b of None \<Rightarrow> Inl e | Some ids \<Rightarrow>
        (case claim_ids ids c of None \<Rightarrow> Inl e | Some _ \<Rightarrow> Inr ())) = Inr () \<longleftrightarrow>
      (\<exists>ids ids'. claim_ids A b = Some ids \<and> claim_ids ids c = Some ids')" for A b c and e :: string
    by (simp split: option.splits)
  then have ids: "(case claim_ids (set ?a) ?b of None \<Rightarrow> Inl e | Some ids \<Rightarrow>
        (case claim_ids ids ?c of None \<Rightarrow> Inl e | Some _ \<Rightarrow> Inr ())) = Inr () \<longleftrightarrow>
      distinct ?b \<and> set ?b \<inter> set ?a = {} \<and> distinct ?c \<and> set ?c \<inter> (set ?a \<union> set ?b) = {}" for e :: string
    by (simp only: claim_ids_Some) blast
  have dist: "valid_snapshot (ci_Network inp) \<Longrightarrow> distinct ?a"
    by (simp add: ValidateSnapshot_iff)
  have used: "distinct (used_ids inp) \<longleftrightarrow> distinct ?a \<and>
      distinct ?b \<and> set ?b \<inter> set ?a = {} \<and> distinct ?c \<and> set ?c \<inter> (set ?a \<union> set ?b) = {}"
    unfolding used_ids_def distinct_append by auto
  show ?thesis
    unfolding validateCorroboration_def Let_def guard_Inr ids used input_context_ok_def
    using dist by auto
qed


section \<open>Discontinuities\<close>

definition is_discontinuity :: "gap_reason \<Rightarrow> bool" where
  "is_discontinuity g \<longleftrightarrow> g \<in> {GapSleep, GapOffline, GapNetworkChanged}"

lemma consider_gap_cases:
  "consider_gap (i, t, g) (j, u, r) =
     (if is_discontinuity r \<and> (after u t \<or> (time_eq u t \<and> j < i)) then (j, u, r) else (i, t, g))"
  by (auto simp: consider_gap_def is_discontinuity_def)

text \<open>For readings without a monotonic part the fold keeps the latest discontinuity.\<close>

definition wall_only_entries :: "(string \<times> time \<times> gap_reason) list \<Rightarrow> bool" where
  "wall_only_entries xs \<longleftrightarrow> (\<forall>(i, t, g)\<in>set xs. wall_only t)"

lemma consider_gap_wall:
  "wall_only u \<Longrightarrow> consider_gap (i, t, g) (j, u, r) =
     (if is_discontinuity r \<and> (wall t < wall u \<or> (wall u = wall t \<and> j < i)) then (j, u, r) else (i, t, g))"
  by (simp add: consider_gap_cases go_time)

lemma foldl_consider_gap_mono:
  "wall_only_entries xs \<Longrightarrow> foldl consider_gap (i, t, g) xs = (i', t', g') \<Longrightarrow> wall t \<le> wall t'"
proof (induction xs arbitrary: i t g)
  case Nil
  then show ?case by simp
next
  case (Cons x xs)
  obtain j u r where x: "x = (j, u, r)" by (cases x)
  have u: "wall_only u" and xs: "wall_only_entries xs"
    using Cons.prems(1) x by (auto simp: wall_only_entries_def)
  show ?case
    using Cons.IH [OF xs] Cons.prems(2) u by (auto simp: x consider_gap_wall split: if_splits) fastforce+
qed

lemma foldl_consider_gap_bound:
  assumes "wall_only_entries xs" and "foldl consider_gap (i, t, g) xs = (i', t', g')"
    and "(j, u, r) \<in> set xs" and "is_discontinuity r"
  shows "wall u \<le> wall t'"
  using assms
proof (induction xs arbitrary: i t g)
  case Nil
  then show ?case by simp
next
  case (Cons x xs)
  obtain j' u' r' where x: "x = (j', u', r')" by (cases x)
  have u: "wall_only u'" and xs: "wall_only_entries xs"
    using Cons.prems(1) x by (auto simp: wall_only_entries_def)
  show ?case
  proof (cases "(j, u, r) \<in> set xs")
    case True
    obtain k v q where "consider_gap (i, t, g) x = (k, v, q)" by (cases "consider_gap (i, t, g) x")
    then show ?thesis using Cons.IH [OF xs _ True] Cons.prems(2,4) by simp
  next
    case False
    then have eq: "u' = u" "r' = r" "j' = j" using Cons.prems(3) x by auto
    have "wall u \<le> wall (if is_discontinuity r' \<and> (wall t < wall u' \<or> (wall u' = wall t \<and> j' < i)) then u' else t)"
      using Cons.prems(4) eq by auto
    moreover have "wall (if is_discontinuity r' \<and> (wall t < wall u' \<or> (wall u' = wall t \<and> j' < i)) then u' else t) \<le> wall t'"
      using foldl_consider_gap_mono [OF xs] Cons.prems(2) u
      by (auto simp: x consider_gap_wall split: if_splits)
    ultimately show ?thesis by simp
  qed
qed

lemma consider_gap_commute:
  assumes "wall_only u" and "wall_only v" and "j \<noteq> k"
  shows "consider_gap (consider_gap s (j, u, r)) (k, v, q) = consider_gap (consider_gap s (k, v, q)) (j, u, r)"
proof -
  obtain i t g where s: "s = (i, t, g)" by (cases s)
  show ?thesis
    using assms by (auto simp: s consider_gap_wall)
qed

lemma latestDiscontinuity_perm:
  assumes "wall_only_entries xs" and "distinct (map fst xs)" and "mset ys = mset xs"
  shows "foldl consider_gap s ys = foldl consider_gap s xs"
proof -
  have set: "set ys = set xs" using assms(3) by (metis set_mset_mset)
  have "fold (\<lambda>x s. consider_gap s x) xs = fold (\<lambda>x s. consider_gap s x) ys"
  proof (rule fold_multiset_equiv)
    fix x y
    assume "x \<in> set xs" and "y \<in> set xs"
    then show "(\<lambda>s. consider_gap s x) \<circ> (\<lambda>s. consider_gap s y) = (\<lambda>s. consider_gap s y) \<circ> (\<lambda>s. consider_gap s x)"
    proof (cases "fst x = fst y")
      case True
      then have "x = y" using assms(2) \<open>x \<in> set xs\<close> \<open>y \<in> set xs\<close> by (auto simp: distinct_map dest: inj_onD)
      then show ?thesis by simp
    next
      case False
      obtain j u r where x: "x = (j, u, r)" by (cases x)
      obtain k v q where y: "y = (k, v, q)" by (cases y)
      have "wall_only u" "wall_only v"
        using assms(1) \<open>x \<in> set xs\<close> \<open>y \<in> set xs\<close> x y by (auto simp: wall_only_entries_def)
      then show ?thesis using False x y by (auto simp: fun_eq_iff consider_gap_commute)
    qed
  qed (use assms(3) in simp)
  then show ?thesis by (simp add: foldl_conv_fold)
qed

section \<open>Spans\<close>

lemma earliest_bounds:
  assumes "\<forall>e\<in>set es. wall_only (f e) \<and> \<not> is_zero (f e)" and "wall_only t" and "\<not> is_zero t \<or> es \<noteq> []"
  shows "wall_only (earliest f t es) \<and> \<not> is_zero (earliest f t es) \<and>
     (\<forall>e\<in>set es. wall (earliest f t es) \<le> wall (f e)) \<and>
     (\<not> is_zero t \<longrightarrow> wall (earliest f t es) \<le> wall t)"
  using assms
proof (induction es arbitrary: t)
  case Nil
  then show ?case by simp
next
  case (Cons e es)
  let ?t = "if is_zero t \<or> before (f e) t then f e else t"
  have "wall_only ?t" "\<not> is_zero ?t"
    using Cons.prems by auto
  with Cons.IH [of ?t] Cons.prems have
    "wall_only (earliest f ?t es) \<and> \<not> is_zero (earliest f ?t es) \<and>
     (\<forall>e\<in>set es. wall (earliest f ?t es) \<le> wall (f e)) \<and> wall (earliest f ?t es) \<le> wall ?t" by auto
  moreover have "wall ?t \<le> wall (f e)" "\<not> is_zero t \<Longrightarrow> wall ?t \<le> wall t"
    using Cons.prems by (auto simp: go_time)
  ultimately show ?case by auto
qed

lemma last_completion_bounds:
  assumes "\<forall>e\<in>set es. wall_only (ce_CompletedAt e)" and "wall_only t"
  shows "wall_only (last_completion t es) \<and> wall t \<le> wall (last_completion t es) \<and>
     (\<forall>e\<in>set es. wall (ce_CompletedAt e) \<le> wall (last_completion t es))"
  using assms
proof (induction es arbitrary: t)
  case Nil
  then show ?case by simp
next
  case (Cons e es)
  let ?t = "if after (ce_CompletedAt e) t then ce_CompletedAt e else t"
  have "wall_only ?t" and "wall t \<le> wall ?t" "wall (ce_CompletedAt e) \<le> wall ?t"
    using Cons.prems by (auto simp: go_time)
  with Cons.IH [of ?t] Cons.prems show ?case by force
qed


section \<open>The result of a corroboration\<close>

definition network_check_of :: "snapshot \<Rightarrow> target \<Rightarrow> check_assessment" where
  "network_check_of s t =
     (case latest m_TargetID m_CompletedAt Map.empty (s_Measurements s) (t_ID t) of
        None \<Rightarrow> unmeasured_check t
      | Some m \<Rightarrow> assessMeasurement t m (s_AsOf s) (s_Freshness s))"

definition network_report :: "snapshot \<Rightarrow> report" where
  "network_report s = \<lparr>r_Observer = s_Observer s, r_AsOf = s_AsOf s, r_WindowStart = s_WindowStart s,
     r_Checks = map (network_check_of s) (s_Targets s), r_Limitations = report_limitations\<rparr>"

definition input_evidence :: "corroboration_input \<Rightarrow> corroboration_evidence list" where
  "input_evidence inp =
     (let a = ci_Network inp; b = ci_Resolvers inp; family = ci_Family inp in
      map (network_entry (s_Observer a) \<circ> network_check_of a)
        (filter (\<lambda>t. t_Family t = family \<or> t_Layer t = LayerLink) (s_Targets a)) @
      map (resolver_entry (rn_Observer b) \<circ> resolver_check_of b)
        (filter (\<lambda>x. rs_Family x = family) (rn_Selections b)) @
      (case ci_HTTPS inp of None \<Rightarrow> []
       | Some h \<Rightarrow> map (https_entry (hn_Observer h) \<circ> https_check_of h)
           (filter (\<lambda>x. hs_Family x = family) (hn_Selections h))))"

lemma network_check_target [simp]: "c_Target (network_check_of s t) = t"
  by (simp add: network_check_of_def split: option.splits)

lemma latest_selection:
  assumes "distinct (map key xs)" and "x \<in> set xs" and "\<forall>m\<in>set ms. sel m \<in> set xs"
    and "latest (\<lambda>m. key (sel m)) completed Map.empty ms (key x) = Some m"
  shows "sel m = x"
proof -
  have "m \<in> set ms" and "key (sel m) = key x" using latest_member [OF assms(4)] by auto
  then show ?thesis using assms(1-3) by (auto simp: distinct_map dest: inj_onD)
qed

lemma resolver_check_selection:
  assumes "valid_resolver_snapshot s" and "x \<in> set (rn_Selections s)"
  shows "ra_Selection (resolver_check_of s x) = x"
  using assms
  by (auto simp: resolver_check_of_def unmeasured_resolver_def ValidateResolverSnapshot_iff
      resolver_allowed_def split: option.splits intro: latest_selection)

lemma https_check_selection:
  assumes "valid_https_snapshot s" and "x \<in> set (hn_Selections s)"
  shows "ha_Selection (https_check_of s x) = x"
  using assms
  by (auto simp: https_check_of_def unmeasured_https_def ValidateHTTPSSnapshot_iff
      https_allowed_def split: option.splits intro: latest_selection)

lemma filter_map_selection:
  "(\<And>x. x \<in> set xs \<Longrightarrow> P (f x) \<longleftrightarrow> Q x) \<Longrightarrow> filter P (map f xs) = map f (filter Q xs)"
  by (induction xs) auto

lemma Corroborate_valid:
  assumes "validateCorroboration inp = Inr ()"
  shows "Corroborate inp = Inr (compare_evidence inp
    (start_corroboration inp (network_report (ci_Network inp)) (sort_evidence (input_evidence inp))))"
proof -
  let ?a = "ci_Network inp" and ?b = "ci_Resolvers inp" and ?f = "ci_Family inp"
  have v: "valid_snapshot ?a" "valid_resolver_snapshot ?b" "https_context_matches inp"
    using assms by (simp_all add: validateCorroboration_iff)
  obtain n where n: "Assess ?a = Inr n" "r_Checks n = map (network_check_of ?a) (s_Targets ?a)"
      "n = network_report (ci_Network inp)"
    using v(1) by (auto simp: Assess_Inr network_report_def network_check_of_def [abs_def])
  obtain d where d: "AssessResolvers ?b = Inr d" "rr_Observer d = rn_Observer ?b"
      "rr_Checks d = map (resolver_check_of ?b) (rn_Selections ?b)"
    using v(2) by (auto simp: AssessResolvers_valid)
  define h where "h = (case ci_HTTPS inp of None \<Rightarrow> None | Some s \<Rightarrow>
      Some \<lparr>hr_Observer = hn_Observer s, hr_AsOf = hn_AsOf s, hr_WindowStart = hn_WindowStart s,
          hr_Checks = map (https_check_of s) (hn_Selections s), hr_Limitations = https_limitations\<rparr>)"
  have vh: "ci_HTTPS inp = Some s \<Longrightarrow> valid_https_snapshot s" for s
    using v(3) by (simp add: https_context_matches_def Let_def)
  then have hh: "ci_HTTPS inp = Some s \<Longrightarrow> AssessHTTPS s = Inr (the h)" for s
    by (auto simp: h_def AssessHTTPS_Inr)
  have net: "filter (\<lambda>c. \<not> (t_Family (c_Target c) \<noteq> ?f \<and> t_Layer (c_Target c) \<noteq> LayerLink)) (r_Checks n) =
      map (network_check_of ?a) (filter (\<lambda>t. t_Family t = ?f \<or> t_Layer t = LayerLink) (s_Targets ?a))"
    unfolding n(2) by (rule filter_map_selection) simp
  have res: "filter (\<lambda>c. rs_Family (ra_Selection c) = ?f) (rr_Checks d) =
      map (resolver_check_of ?b) (filter (\<lambda>x. rs_Family x = ?f) (rn_Selections ?b))"
    unfolding d(3) by (rule filter_map_selection) (simp add: resolver_check_selection [OF v(2)])
  have web: "filter (\<lambda>c. hs_Family (ha_Selection c) = ?f) (map (https_check_of s) (hn_Selections s)) =
      map (https_check_of s) (filter (\<lambda>x. hs_Family x = ?f) (hn_Selections s))" if "ci_HTTPS inp = Some s" for s
    by (rule filter_map_selection) (simp add: https_check_selection [OF vh [OF that]])
  have "collect_evidence ?f n d h = input_evidence inp"
    unfolding collect_evidence_def net res input_evidence_def
    by (auto simp: n(3) d(2) h_def web network_report_def Let_def split: option.splits)
  then show ?thesis
    using assms hh n(1,3) d(1)
    by (auto simp: Corroborate_def h_def split: option.splits)
qed


section \<open>Entries that can be compared\<close>

text \<open>Every measurement of the three inputs, as identifier, start, completion and gap.\<close>

definition input_stamps :: "corroboration_input \<Rightarrow> (string \<times> time \<times> time \<times> gap_reason) list" where
  "input_stamps inp =
     map (\<lambda>m. (m_ID m, m_StartedAt m, m_CompletedAt m, m_Gap m)) (s_Measurements (ci_Network inp)) @
     map (\<lambda>m. (rm_ID m, rm_StartedAt m, rm_CompletedAt m, rm_Gap m)) (rn_Measurements (ci_Resolvers inp)) @
     map (\<lambda>m. (hm_ID m, hm_StartedAt m, hm_CompletedAt m, hm_Gap m)) (https_measurements inp)"

lemma input_stampsI:
  "m \<in> set (s_Measurements (ci_Network inp)) \<Longrightarrow>
     (m_ID m, m_StartedAt m, m_CompletedAt m, m_Gap m) \<in> set (input_stamps inp)"
  "d \<in> set (rn_Measurements (ci_Resolvers inp)) \<Longrightarrow>
     (rm_ID d, rm_StartedAt d, rm_CompletedAt d, rm_Gap d) \<in> set (input_stamps inp)"
  "w \<in> set (https_measurements inp) \<Longrightarrow>
     (hm_ID w, hm_StartedAt w, hm_CompletedAt w, hm_Gap w) \<in> set (input_stamps inp)"
  by (simp_all add: input_stamps_def)

definition wall_only_input :: "corroboration_input \<Rightarrow> bool" where
  "wall_only_input inp \<longleftrightarrow>
     wall_only (s_AsOf (ci_Network inp)) \<and>
     (\<forall>(i, s, c, g)\<in>set (input_stamps inp). wall_only s \<and> wall_only c)"

lemma wall_only_input_iff:
  "wall_only_input inp \<longleftrightarrow> wall_only (s_AsOf (ci_Network inp)) \<and>
     (\<forall>m\<in>set (s_Measurements (ci_Network inp)). wall_only (m_StartedAt m) \<and> wall_only (m_CompletedAt m)) \<and>
     (\<forall>m\<in>set (rn_Measurements (ci_Resolvers inp)). wall_only (rm_StartedAt m) \<and> wall_only (rm_CompletedAt m)) \<and>
     (\<forall>m\<in>set (https_measurements inp). wall_only (hm_StartedAt m) \<and> wall_only (hm_CompletedAt m))"
  by (simp add: wall_only_input_def input_stamps_def ball_Un)

definition backed_by :: "corroboration_evidence \<Rightarrow> string \<times> time \<times> time \<times> gap_reason \<Rightarrow> bool" where
  "backed_by e stamp \<longleftrightarrow> stamp = (ce_MeasurementID e, ce_StartedAt e, ce_CompletedAt e, GapNone)"

lemma network_candidate:
  assumes "valid_snapshot s" and "\<forall>m\<in>set (s_Measurements s). wall_only (m_CompletedAt m)"
    and "candidate (network_entry ob (network_check_of s t))"
  obtains m where "m \<in> set (s_Measurements s)" and "fresh_at (m_CompletedAt m) (s_AsOf s) (s_Freshness s)"
    and "backed_by (network_entry ob (network_check_of s t)) (m_ID m, m_StartedAt m, m_CompletedAt m, m_Gap m)"
proof (cases "latest m_TargetID m_CompletedAt Map.empty (s_Measurements s) (t_ID t)")
  case None
  then show thesis using assms(3)
    by (simp add: network_check_of_def candidate_def network_entry_def)
next
  case (Some m)
  then have m: "m \<in> set (s_Measurements s)" using latest_member by fast
  then have "measurement_allowed s m" and w: "wall_only (m_CompletedAt m)"
    using assms(1,2) by (simp_all add: ValidateSnapshot_iff)
  then have ok: "gap_measurement m \<or> m_Gap m = GapNone"
    by (auto simp: measurement_allowed_def measured_def)
  have st: "state_of (s_AsOf s) (s_Freshness s) (Some m) \<in> {StateSucceeded, StateIssueObserved}"
    using assms(3) Some
    by (auto simp: candidate_def network_entry_def network_check_of_def assessMeasurement_state [OF w])
  then have fresh: "fresh_at (m_CompletedAt m) (s_AsOf s) (s_Freshness s)"
    by (auto simp: state_of_def split: if_splits)
  have "m_Gap m = GapNone"
    using ok st by (auto simp: state_of_def gap_measurement_def split: if_splits)
  with Some m fresh show thesis
    by (intro that [of m]) (auto simp: backed_by_def network_entry_def network_check_of_def
        assessMeasurement_def Let_def)
qed

lemma resolver_entry_simps:
  "ce_State (resolver_entry ob c) = ra_State c"
  "ce_MeasurementID (resolver_entry ob c) = (case ra_Evidence c of None \<Rightarrow> [] | Some m \<Rightarrow> rm_ID m)"
  "ce_StartedAt (resolver_entry ob c) = (case ra_Evidence c of None \<Rightarrow> zero_time | Some m \<Rightarrow> rm_StartedAt m)"
  "ce_CompletedAt (resolver_entry ob c) = (case ra_Evidence c of None \<Rightarrow> zero_time | Some m \<Rightarrow> rm_CompletedAt m)"
  "ce_DNSResult (resolver_entry ob c) = Some (ra_Result c)"
  "ce_Layer (resolver_entry ob c) = LayerDNS"
  by (simp_all add: resolver_entry_def Let_def split: option.splits)

lemma resolver_candidate:
  assumes "valid_resolver_snapshot s" and "\<forall>m\<in>set (rn_Measurements s). wall_only (rm_CompletedAt m)"
    and "candidate (resolver_entry ob (resolver_check_of s x))"
  obtains m where "m \<in> set (rn_Measurements s)" and "fresh_at (rm_CompletedAt m) (rn_AsOf s) (rn_Freshness s)"
    and "backed_by (resolver_entry ob (resolver_check_of s x)) (rm_ID m, rm_StartedAt m, rm_CompletedAt m, rm_Gap m)"
proof (cases "latest rm_key rm_CompletedAt Map.empty (rn_Measurements s) (rs_ID x)")
  case None
  then show thesis using assms(3)
    by (simp add: resolver_check_of_def candidate_def resolver_entry_simps unmeasured_resolver_def)
next
  case (Some m)
  then have m: "m \<in> set (rn_Measurements s)" using latest_member by fast
  then have ok: "resolver_evidence_ok m" and w: "wall_only (rm_CompletedAt m)"
    using assms(1,2) by (simp_all add: ValidateResolverSnapshot_iff resolver_allowed_def)
  obtain res where res: "resolverResult m = Some res"
    using resolverResult_defined [OF ok] by auto
  have chk: "resolver_check_of s x = assess_resolver_result m (rn_AsOf s) (rn_Freshness s) res"
    using Some res by (simp add: resolver_check_of_def)
  have st: "resolver_state_of (rn_AsOf s) (rn_Freshness s) m res \<notin> {StateStale, StateNotMeasured}"
    using assms(3) by (auto simp: chk candidate_def resolver_entry_simps assess_resolver_state [OF w])
  then have fresh: "fresh_at (rm_CompletedAt m) (rn_AsOf s) (rn_Freshness s)"
    by (auto simp: resolver_state_of_def split: if_splits)
  have "rm_Exchange m \<noteq> DNSNotMeasured"
    using st by (auto simp: resolver_state_of_def split: if_splits)
  then have "rm_Gap m = GapNone"
    using ok by (auto simp: resolver_evidence_ok_def)
  with m fresh show thesis
    by (intro that [of m]) (auto simp: backed_by_def chk resolver_entry_simps)
qed

lemma https_entry_simps:
  "ce_State (https_entry ob c) = ha_State c"
  "ce_MeasurementID (https_entry ob c) = (case ha_Evidence c of None \<Rightarrow> [] | Some m \<Rightarrow> hm_ID m)"
  "ce_StartedAt (https_entry ob c) = (case ha_Evidence c of None \<Rightarrow> zero_time | Some m \<Rightarrow> hm_StartedAt m)"
  "ce_CompletedAt (https_entry ob c) = (case ha_Evidence c of None \<Rightarrow> zero_time | Some m \<Rightarrow> hm_CompletedAt m)"
  "ce_DNSResult (https_entry ob c) = None"
  "ce_Layer (https_entry ob c) = LayerExternal"
  by (simp_all add: https_entry_def Let_def split: option.splits)

lemma https_candidate:
  assumes "valid_https_snapshot s" and "\<forall>m\<in>set (hn_Measurements s). wall_only (hm_CompletedAt m)"
    and "candidate (https_entry ob (https_check_of s x))"
  obtains m where "m \<in> set (hn_Measurements s)" and "fresh_at (hm_CompletedAt m) (hn_AsOf s) (hn_Freshness s)"
    and "backed_by (https_entry ob (https_check_of s x)) (hm_ID m, hm_StartedAt m, hm_CompletedAt m, hm_Gap m)"
proof (cases "latest hm_key hm_CompletedAt Map.empty (hn_Measurements s) (hs_ID x)")
  case None
  then show thesis using assms(3)
    by (simp add: https_check_of_def candidate_def https_entry_simps unmeasured_https_def)
next
  case (Some m)
  then have m: "m \<in> set (hn_Measurements s)" using latest_member by fast
  then have ok: "https_evidence_ok m" and w: "wall_only (hm_CompletedAt m)"
    using assms(1,2) by (simp_all add: ValidateHTTPSSnapshot_iff https_allowed_def)
  have chk: "https_check_of s x = assessHTTPSMeasurement m (hn_AsOf s) (hn_Freshness s)"
    using Some by (simp add: https_check_of_def)
  have st: "https_state_of (hn_AsOf s) (hn_Freshness s) m \<notin> {StateStale, StateNotMeasured}"
    using assms(3) by (auto simp: chk candidate_def https_entry_simps assess_https_state [OF w])
  then have fresh: "fresh_at (hm_CompletedAt m) (hn_AsOf s) (hn_Freshness s)"
    and "hm_Exchange m \<noteq> HTTPSNotMeasured"
    by (auto simp: https_state_of_def split: if_splits)
  then have "hm_Gap m = GapNone"
    using ok by (simp add: https_evidence_ok_def)
  with m fresh show thesis
    by (intro that [of m]) (auto simp: backed_by_def chk https_entry_simps)
qed

lemma candidate_backed:
  assumes "validateCorroboration inp = Inr ()" and "wall_only_input inp"
    and "e \<in> set (input_evidence inp)" and "candidate e"
  obtains stamp where "stamp \<in> set (input_stamps inp)" and "backed_by e stamp"
    and "fresh_at (ce_CompletedAt e) (s_AsOf (ci_Network inp)) (s_Freshness (ci_Network inp))"
proof -
  let ?a = "ci_Network inp" and ?b = "ci_Resolvers inp"
  have v: "valid_snapshot ?a" "valid_resolver_snapshot ?b"
      "wall (rn_AsOf ?b) = wall (s_AsOf ?a)" "rn_Freshness ?b = s_Freshness ?a"
    using assms(1,2) by (auto simp: validateCorroboration_iff input_context_ok_def wall_only_input_def go_time Let_def)
  have h: "ci_HTTPS inp = Some h \<Longrightarrow> valid_https_snapshot h \<and> wall (hn_AsOf h) = wall (s_AsOf ?a) \<and>
      hn_Freshness h = s_Freshness ?a" for h
    using assms(1,2) by (auto simp: validateCorroboration_iff https_context_matches_def wall_only_input_def go_time Let_def)
  have w: "\<forall>m\<in>set (s_Measurements ?a). wall_only (m_CompletedAt m)"
      "\<forall>m\<in>set (rn_Measurements ?b). wall_only (rm_CompletedAt m)"
      "\<forall>m\<in>set (https_measurements inp). wall_only (hm_CompletedAt m)"
    using assms(2) by (simp_all add: wall_only_input_iff)
  consider (net) t where "e = network_entry (s_Observer ?a) (network_check_of ?a t)"
    | (dns) x where "e = resolver_entry (rn_Observer ?b) (resolver_check_of ?b x)"
    | (web) h x where "ci_HTTPS inp = Some h" "e = https_entry (hn_Observer h) (https_check_of h x)"
    using assms(3) by (cases "ci_HTTPS inp") (auto simp: input_evidence_def Let_def)
  then show thesis
  proof cases
    case net
    with network_candidate [OF v(1) w(1)] assms(4) obtain m where "m \<in> set (s_Measurements ?a)"
        "fresh_at (m_CompletedAt m) (s_AsOf ?a) (s_Freshness ?a)"
        "backed_by e (m_ID m, m_StartedAt m, m_CompletedAt m, m_Gap m)" by metis
    then show thesis by (intro that [OF input_stampsI(1)]) (auto simp: backed_by_def)
  next
    case dns
    with resolver_candidate [OF v(2) w(2)] assms(4) obtain m where "m \<in> set (rn_Measurements ?b)"
        "fresh_at (rm_CompletedAt m) (rn_AsOf ?b) (rn_Freshness ?b)"
        "backed_by e (rm_ID m, rm_StartedAt m, rm_CompletedAt m, rm_Gap m)" by metis
    then show thesis using v by (intro that [OF input_stampsI(2)]) (auto simp: backed_by_def fresh_at_def)
  next
    case web
    then have "\<forall>m\<in>set (hn_Measurements h). wall_only (hm_CompletedAt m)"
      using w(3) by (simp add: https_measurements_def)
    with https_candidate h [OF web(1)] assms(4) web(2) obtain m where "m \<in> set (hn_Measurements h)"
        "fresh_at (hm_CompletedAt m) (hn_AsOf h) (hn_Freshness h)"
        "backed_by e (hm_ID m, hm_StartedAt m, hm_CompletedAt m, hm_Gap m)" by metis
    then show thesis using h [OF web(1)] web(1)
      by (intro that [OF input_stampsI(3)]) (auto simp: https_measurements_def backed_by_def fresh_at_def)
  qed
qed


section \<open>The barrier\<close>

lemma gap_entries_stamps: "gap_entries inp = map (\<lambda>(i, s, c, g). (i, c, g)) (input_stamps inp)"
  by (simp add: gap_entries_def input_stamps_def)

lemma resolverTime_after_zero: "resolverTime t \<Longrightarrow> zero_wall < wall t"
  by (simp add: resolverTime_def int64_wrap_fixpoint fits_int64_def int64_min_def zero_wall_def)

lemma input_stamps_times:
  assumes "validateCorroboration inp = Inr ()" and "(i, s, c, g) \<in> set (input_stamps inp)"
  shows "zero_wall < wall s \<and> zero_wall < wall c"
proof -
  have "https_measurements inp \<noteq> [] \<Longrightarrow>
      \<exists>h. https_measurements inp = hn_Measurements h \<and> valid_https_snapshot h"
    using assms(1) by (auto simp: validateCorroboration_iff https_context_matches_def
        https_measurements_def Let_def split: option.splits)
  then have "\<forall>m\<in>set (https_measurements inp). resolverTime (hm_StartedAt m) \<and> resolverTime (hm_CompletedAt m)"
    by (cases "https_measurements inp = []") (auto simp: ValidateHTTPSSnapshot_iff https_allowed_def https_stamps_def)
  moreover have "\<forall>m\<in>set (rn_Measurements (ci_Resolvers inp)). resolverTime (rm_StartedAt m) \<and> resolverTime (rm_CompletedAt m)"
    using assms(1) by (auto simp: validateCorroboration_iff ValidateResolverSnapshot_iff resolver_allowed_def
        resolver_stamps_def)
  ultimately have "resolverTime s \<and> resolverTime c"
    using assms by (auto simp: input_stamps_def validateCorroboration_iff)
  then show ?thesis by (simp add: resolverTime_after_zero)
qed

lemma barrier_bound:
  assumes "wall_only_input inp" and "latestDiscontinuity inp = (b, t, g')"
    and "(i, s, c, g) \<in> set (input_stamps inp)" and "is_discontinuity g"
  shows "wall c \<le> wall t"
proof -
  have "wall_only_entries (gap_entries inp)"
    using assms(1) by (auto simp: wall_only_entries_def gap_entries_stamps wall_only_input_def)
  moreover have "(i, c, g) \<in> set (gap_entries inp)"
    using assms(3) by (force simp: gap_entries_stamps)
  ultimately show ?thesis
    using foldl_consider_gap_bound assms(2,4) unfolding latestDiscontinuity_def by blast
qed

lemma latestDiscontinuity_wall_only:
  assumes "wall_only_entries xs" and "wall_only t"
  shows "wall_only (fst (snd (foldl consider_gap (i, t, g) xs)))"
  using assms
proof (induction xs arbitrary: i t g)
  case Nil
  then show ?case by simp
next
  case (Cons x xs)
  then show ?case by (cases x) (auto simp: wall_only_entries_def consider_gap_cases)
qed

section \<open>What a comparison uses\<close>

lemma compare_evidence_limited:
  assumes "co_Confidence out = ConfidenceUnknown" and "co_Confidence (compare_evidence inp out) = ConfidenceLimited"
  shows "let used = filter candidate (co_Evidence out) in
     co_Compared (compare_evidence inp out) = map ce_MeasurementID used \<and>
     co_Conclusion (compare_evidence inp out) = conclude used \<and>
     co_Evidence (compare_evidence inp out) = co_Evidence out \<and> 2 \<le> distinct_layers used \<and>
     (\<forall>b t g. latestDiscontinuity inp = (b, t, g) \<longrightarrow> is_zero t \<or> (\<forall>e\<in>set used. after (ce_StartedAt e) t)) \<and>
     time_sub (last_completion zero_time used) (earliest ce_CompletedAt zero_time used) \<le> ci_MaxCompletionSkew inp"
  using assms
  by (auto simp: compare_evidence_def conclude_with_def Let_def list_ex_iff split: prod.splits if_splits)

lemma distinct_layers_card: "distinct_layers es = card (ce_Layer ` set es)"
  by (metis distinct_layers_def image_set length_remdups_card_conv)

lemma completions_close:
  assumes "\<forall>e\<in>set es. wall_only (ce_CompletedAt e) \<and> zero_wall < wall (ce_CompletedAt e)"
    and "time_sub (last_completion zero_time es) (earliest ce_CompletedAt zero_time es) \<le> skew"
    and "skew < int64_max" and "fits_int64 skew" and "e \<in> set es" and "e' \<in> set es"
  shows "wall (ce_CompletedAt e) - wall (ce_CompletedAt e') \<le> skew"
proof -
  have zero: "wall_only zero_time" by (simp add: zero_time_def)
  have "\<forall>e\<in>set es. wall_only (ce_CompletedAt e) \<and> \<not> is_zero (ce_CompletedAt e)"
    using assms(1) by (auto simp: is_zero_def)
  moreover have "\<not> is_zero zero_time \<or> es \<noteq> []" using assms(5) by auto
  ultimately have lo: "wall_only (earliest ce_CompletedAt zero_time es)"
      "wall (earliest ce_CompletedAt zero_time es) \<le> wall (ce_CompletedAt e')"
    using earliest_bounds zero assms(6) by blast+
  have hi: "wall (ce_CompletedAt e) \<le> wall (last_completion zero_time es)"
    using last_completion_bounds [OF _ zero, of es] assms(1,5) by blast
  have "wall (last_completion zero_time es) - wall (earliest ce_CompletedAt zero_time es) \<le> skew"
    using assms(2-4) lo(1) by (simp add: go_time int64_clamp_le_iff)
  with lo(2) hi show ?thesis by simp
qed

lemma start_corroboration_simps [simp]:
  "co_Confidence (start_corroboration inp n es) = ConfidenceUnknown"
  "co_Evidence (start_corroboration inp n es) = es"
  by (simp_all add: start_corroboration_def)

lemma Corroborate_InrD:
  assumes "Corroborate inp = Inr out"
  shows "validateCorroboration inp = Inr () \<and> out = compare_evidence inp
    (start_corroboration inp (network_report (ci_Network inp)) (sort_evidence (input_evidence inp)))"
proof -
  have "validateCorroboration inp = Inr ()"
    using assms by (auto simp: Corroborate_def split: sum.splits)
  then show ?thesis using assms Corroborate_valid by simp
qed

lemma set_sort_evidence [simp]: "set (sort_evidence es) = set es"
  by (simp add: sort_evidence_def)

section \<open>Properties\<close>

text \<open>
  totality of the comparison.  A comparison is returned exactly for the inputs that pass validation,
  every other input gets an error, and no nil pointer is read on the way.
\<close>

theorem corroborate_total:
  "Corroborate inp \<noteq> Inl NilPanic \<and> (is_ok (Corroborate inp) \<longleftrightarrow> is_ok (validateCorroboration inp))"
proof (cases "validateCorroboration inp")
  case (Inl e)
  then show ?thesis by (simp add: Corroborate_def)
next
  case (Inr u)
  then have "validateCorroboration inp = Inr ()" by simp
  then show ?thesis using Inr by (simp add: Corroborate_valid)
qed

text \<open>
  C4: what supports a conclusion.  When a comparison draws a conclusion (limited confidence), the compared
  entries are exactly the listed entries that qualify; they span at least two layers; each is backed by a
  recorded, fresh measurement of one of the inputs that reports no gap and that started after every
  recorded sleep, offline or network-change gap of all three inputs; and the completions of any two of
  them differ by at most the allowed skew.
\<close>

theorem corroborate_comparison_sound:
  assumes "wall_only_input inp" and "Corroborate inp = Inr out" and "co_Confidence out = ConfidenceLimited"
  shows "let used = filter candidate (co_Evidence out) in
     co_Compared out = map ce_MeasurementID used \<and> co_Conclusion out = conclude used \<and>
     2 \<le> card (ce_Layer ` set used) \<and>
     (\<forall>e\<in>set used. (\<exists>stamp\<in>set (input_stamps inp). backed_by e stamp) \<and>
        fresh_at (ce_CompletedAt e) (s_AsOf (ci_Network inp)) (s_Freshness (ci_Network inp)) \<and>
        (\<forall>(i, s, c, g)\<in>set (input_stamps inp). is_discontinuity g \<longrightarrow> wall c < wall (ce_StartedAt e)) \<and>
        (\<forall>e'\<in>set used. \<bar>wall (ce_CompletedAt e) - wall (ce_CompletedAt e')\<bar> \<le> ci_MaxCompletionSkew inp))"
proof -
  have valid: "validateCorroboration inp = Inr ()" and out: "out = compare_evidence inp
      (start_corroboration inp (network_report (ci_Network inp)) (sort_evidence (input_evidence inp)))"
    using Corroborate_InrD [OF assms(2)] by auto
  define used where "used = filter candidate (sort_evidence (input_evidence inp))"
  obtain b t g where bar: "latestDiscontinuity inp = (b, t, g)" by (cases "latestDiscontinuity inp")
  have cmp: "co_Compared out = map ce_MeasurementID used" "co_Conclusion out = conclude used"
      "filter candidate (co_Evidence out) = used"
    and layers: "2 \<le> distinct_layers used"
    and start: "is_zero t \<or> (\<forall>e\<in>set used. after (ce_StartedAt e) t)"
    and skew: "time_sub (last_completion zero_time used) (earliest ce_CompletedAt zero_time used) \<le> ci_MaxCompletionSkew inp"
    using compare_evidence_limited [OF start_corroboration_simps(1) assms(3) [unfolded out]] bar
    by (simp_all add: out used_def Let_def)
  have backed: "\<exists>stamp\<in>set (input_stamps inp). backed_by e stamp"
      "fresh_at (ce_CompletedAt e) (s_AsOf (ci_Network inp)) (s_Freshness (ci_Network inp))"
    if "e \<in> set used" for e
    using candidate_backed [OF valid assms(1), of e] that by (auto simp: used_def)
  have times: "wall_only (ce_StartedAt e)" "wall_only (ce_CompletedAt e)" "zero_wall < wall (ce_CompletedAt e)"
    if "e \<in> set used" for e
    using backed(1) [OF that] input_stamps_times [OF valid] assms(1)
    by (auto simp: backed_by_def wall_only_input_def)
  have gaps: "wall c < wall (ce_StartedAt e)"
    if "e \<in> set used" "(i, s, c, g') \<in> set (input_stamps inp)" "is_discontinuity g'" for e i s c g'
  proof -
    have le: "wall c \<le> wall t" using barrier_bound [OF assms(1) bar that(2,3)] .
    then have "\<not> is_zero t" using input_stamps_times [OF valid that(2)] by (simp add: is_zero_def)
    then show ?thesis using start that(1) times(1) [OF that(1)] le by (auto simp: go_time)
  qed
  have range: "0 < ci_MaxCompletionSkew inp" "ci_MaxCompletionSkew inp \<le> MaxCorroborationSkew"
    using valid by (auto simp: validateCorroboration_iff input_context_ok_def Let_def second_def)
  then have "ci_MaxCompletionSkew inp < int64_max" "fits_int64 (ci_MaxCompletionSkew inp)"
    by (auto simp: fits_int64_def int64_max_def int64_min_def MaxCorroborationSkew_def second_def)
  then have close: "\<bar>wall (ce_CompletedAt e) - wall (ce_CompletedAt e')\<bar> \<le> ci_MaxCompletionSkew inp"
    if "e \<in> set used" "e' \<in> set used" for e e'
    using completions_close [OF _ skew] times that by (simp add: abs_le_iff)
  show ?thesis
    unfolding Let_def cmp using layers backed gaps close by (auto simp: distinct_layers_card)
qed


section \<open>Reordered measurements\<close>

definition reorder ::
  "measurement list \<Rightarrow> resolver_measurement list \<Rightarrow> https_measurement list \<Rightarrow> corroboration_input \<Rightarrow> corroboration_input" where
  "reorder a b c inp = inp\<lparr>ci_Network := (ci_Network inp)\<lparr>s_Measurements := a\<rparr>,
     ci_Resolvers := (ci_Resolvers inp)\<lparr>rn_Measurements := b\<rparr>,
     ci_HTTPS := map_option (\<lambda>h. h\<lparr>hn_Measurements := c\<rparr>) (ci_HTTPS inp)\<rparr>"

definition reordering ::
  "measurement list \<Rightarrow> resolver_measurement list \<Rightarrow> https_measurement list \<Rightarrow> corroboration_input \<Rightarrow> bool" where
  "reordering a b c inp \<longleftrightarrow> mset a = mset (s_Measurements (ci_Network inp)) \<and>
     mset b = mset (rn_Measurements (ci_Resolvers inp)) \<and> mset c = mset (https_measurements inp)"

lemma reorder_simps [simp]:
  "ci_Network (reorder a b c inp) = (ci_Network inp)\<lparr>s_Measurements := a\<rparr>"
  "ci_Resolvers (reorder a b c inp) = (ci_Resolvers inp)\<lparr>rn_Measurements := b\<rparr>"
  "ci_HTTPS (reorder a b c inp) = map_option (\<lambda>h. h\<lparr>hn_Measurements := c\<rparr>) (ci_HTTPS inp)"
  "ci_Family (reorder a b c inp) = ci_Family inp" "ci_MaxCompletionSkew (reorder a b c inp) = ci_MaxCompletionSkew inp"
  "ci_NetworkDeviceID (reorder a b c inp) = ci_NetworkDeviceID inp"
  "ci_ResolverDeviceID (reorder a b c inp) = ci_ResolverDeviceID inp"
  "ci_HTTPSDeviceID (reorder a b c inp) = ci_HTTPSDeviceID inp"
  "https_selections (reorder a b c inp) = https_selections inp"
  by (simp_all add: reorder_def https_selections_def split: option.splits)

lemma reorder_https_measurements:
  "reordering a b c inp \<Longrightarrow> https_measurements (reorder a b c inp) = c"
  by (auto simp: reordering_def https_measurements_def split: option.splits)

lemma reorder_https_context:
  assumes "reordering a b c inp"
  shows "https_context_matches (reorder a b c inp) \<longleftrightarrow> https_context_matches inp"
proof (cases "ci_HTTPS inp")
  case None
  then show ?thesis by (simp add: https_context_matches_def)
next
  case (Some h)
  then have c: "mset c = mset (hn_Measurements h)"
    using assms by (simp add: reordering_def https_measurements_def)
  have len: "length a = length (s_Measurements (ci_Network inp))"
      "length b = length (rn_Measurements (ci_Resolvers inp))" "length c = length (hn_Measurements h)"
    using assms c by (metis reordering_def size_mset)+
  show ?thesis
    using Some by (simp add: https_context_matches_def Let_def len valid_https_snapshot_perm [OF c])
qed

lemma reorder_valid:
  assumes "reordering a b c inp"
  shows "validateCorroboration (reorder a b c inp) = Inr () \<longleftrightarrow> validateCorroboration inp = Inr ()"
proof -
  have p: "mset a = mset (s_Measurements (ci_Network inp))" "mset b = mset (rn_Measurements (ci_Resolvers inp))"
      "mset c = mset (https_measurements inp)"
    using assms by (simp_all add: reordering_def)
  have len: "length a = length (s_Measurements (ci_Network inp))"
      "length b = length (rn_Measurements (ci_Resolvers inp))"
    using p by (metis size_mset)+
  have ctx: "input_context_ok (reorder a b c inp) \<longleftrightarrow> input_context_ok inp"
    by (simp add: input_context_ok_def Let_def len)
  have ids: "distinct (used_ids (reorder a b c inp)) \<longleftrightarrow> distinct (used_ids inp)"
    by (rule mset_eq_imp_distinct_iff) (simp add: used_ids_def reorder_https_measurements [OF assms] p)
  show ?thesis
    unfolding validateCorroboration_iff ctx ids reorder_https_context [OF assms]
    by (simp add: valid_snapshot_perm p valid_resolver_snapshot_perm ball_mset [OF p(1)])
qed

lemma reorder_evidence:
  assumes "reordering a b c inp" and "validateCorroboration inp = Inr ()" and "wall_only_input inp"
  shows "input_evidence (reorder a b c inp) = input_evidence inp"
proof -
  have p: "mset a = mset (s_Measurements (ci_Network inp))" "mset b = mset (rn_Measurements (ci_Resolvers inp))"
      "mset c = mset (https_measurements inp)"
    using assms(1) by (simp_all add: reordering_def)
  have v: "valid_snapshot (ci_Network inp)" "valid_resolver_snapshot (ci_Resolvers inp)"
    using assms(2) by (simp_all add: validateCorroboration_iff)
  have w: "\<forall>m\<in>set (s_Measurements (ci_Network inp)). wall_only (m_CompletedAt m)"
      "\<forall>m\<in>set (rn_Measurements (ci_Resolvers inp)). wall_only (rm_CompletedAt m)"
      "\<forall>m\<in>set (https_measurements inp). wall_only (hm_CompletedAt m)"
    using assms(3) by (simp_all add: wall_only_input_iff)
  have net: "network_check_of ((ci_Network inp)\<lparr>s_Measurements := a\<rparr>) = network_check_of (ci_Network inp)"
    using network.latest_order_independent [OF v(1) w(1), of "(ci_Network inp)\<lparr>s_Measurements := a\<rparr>"] p(1) v(1)
    by (auto simp: network_check_of_def fun_eq_iff valid_snapshot_perm split: option.splits)
  have dns: "resolver_check_of ((ci_Resolvers inp)\<lparr>rn_Measurements := b\<rparr>) = resolver_check_of (ci_Resolvers inp)"
    using resolvers.latest_order_independent [OF v(2) w(2), of "(ci_Resolvers inp)\<lparr>rn_Measurements := b\<rparr>"] p(2) v(2)
    by (auto simp: resolver_check_of_def fun_eq_iff valid_resolver_snapshot_perm split: option.splits)
  have web: "https_check_of (h\<lparr>hn_Measurements := c\<rparr>) = https_check_of h" if h: "ci_HTTPS inp = Some h" for h
  proof -
    have vh: "valid_https_snapshot h"
      using assms(2) h by (simp add: validateCorroboration_iff https_context_matches_def Let_def)
    have "mset c = mset (hn_Measurements h)" "\<forall>m\<in>set (hn_Measurements h). wall_only (hm_CompletedAt m)"
      using p(3) w(3) h by (simp_all add: https_measurements_def)
    then show ?thesis
      using https.latest_order_independent [OF vh _, of "h\<lparr>hn_Measurements := c\<rparr>"] vh
      by (auto simp: https_check_of_def fun_eq_iff valid_https_snapshot_perm split: option.splits)
  qed
  show ?thesis
    by (auto simp: input_evidence_def Let_def net dns web split: option.splits)
qed

lemma reorder_discontinuity:
  assumes "reordering a b c inp" and "validateCorroboration inp = Inr ()" and "wall_only_input inp"
  shows "latestDiscontinuity (reorder a b c inp) = latestDiscontinuity inp"
  unfolding latestDiscontinuity_def
proof (rule latestDiscontinuity_perm)
  show "wall_only_entries (gap_entries inp)"
    using assms(3) by (auto simp: wall_only_entries_def gap_entries_stamps wall_only_input_def)
  have "map fst (gap_entries inp) = used_ids inp"
    by (simp add: gap_entries_def used_ids_def)
  then show "distinct (map fst (gap_entries inp))"
    using assms(2) by (simp add: validateCorroboration_iff)
  show "mset (gap_entries (reorder a b c inp)) = mset (gap_entries inp)"
    using assms(1) reorder_https_measurements [OF assms(1)]
    by (simp add: gap_entries_def reordering_def)
qed


section \<open>Conclusions\<close>

definition responded :: "corroboration_evidence \<Rightarrow> bool" where
  "responded e \<longleftrightarrow> (if ce_Layer e = LayerDNS then dns_responded e else probe_responded e \<or> 0 < ce_Successes e)"

lemma conclude_with_responses:
  "conclude es = MixedLinkEvidence \<Longrightarrow> (\<exists>e\<in>set es. ce_Layer e = LayerLink \<and> \<not> passed e) \<and>
     (\<exists>e\<in>set es. ce_Layer e \<noteq> LayerLink \<and> responded e)"
  "conclude es = DnsQueryIssueWithResponses \<Longrightarrow> (\<exists>e\<in>set es. ce_Layer e = LayerDNS \<and> \<not> passed e) \<and>
     (\<exists>e\<in>set es. ce_Layer e \<noteq> LayerDNS \<and> responded e)"
  "conclude es = IcmpMissesWithResponses \<Longrightarrow> (\<exists>e\<in>set es. ce_Layer e = LayerGateway \<and> \<not> passed e) \<and>
     (\<exists>e\<in>set es. ce_Layer e \<noteq> LayerGateway \<and> responded e)"
  "conclude es = ExternalCheckIssueWithResponses \<Longrightarrow> (\<exists>e\<in>set es. ce_Layer e = LayerExternal \<and> \<not> passed e) \<and>
     (\<exists>e\<in>set es. ce_Layer e \<noteq> LayerExternal \<and> responded e)"
proof -
  have R: "ce_Layer e = LayerGateway \<Longrightarrow> 0 < ce_Successes e \<Longrightarrow> responded e"
      "ce_Layer e = LayerExternal \<Longrightarrow> probe_responded e \<Longrightarrow> responded e"
      "ce_Layer e = LayerDNS \<Longrightarrow> dns_responded e \<Longrightarrow> responded e"
      "ce_State e = StateIssueObserved \<Longrightarrow> \<not> passed e" for e
    by (simp_all add: responded_def passed_def)
  show "(\<exists>e\<in>set es. ce_Layer e = LayerLink \<and> \<not> passed e) \<and> (\<exists>e\<in>set es. ce_Layer e \<noteq> LayerLink \<and> responded e)"
    if "conclude es = MixedLinkEvidence"
  proof -
    have "list_ex (\<lambda>e. ce_Layer e = LayerLink \<and> \<not> passed e) es \<and>
        list_ex (\<lambda>e. if ce_Layer e = LayerLink then False
          else if ce_Layer e = LayerDNS then dns_responded e else probe_responded e) es"
      using that unfolding conclude_def Let_def by (rule contrapos_pp) (simp only: if_False simp_thms, simp)
    then show ?thesis by (fastforce simp: responded_def list_ex_iff split: if_splits)
  qed
  show "(\<exists>e\<in>set es. ce_Layer e = LayerDNS \<and> \<not> passed e) \<and> (\<exists>e\<in>set es. ce_Layer e \<noteq> LayerDNS \<and> responded e)"
    if "conclude es = DnsQueryIssueWithResponses"
  proof -
    have "list_ex (\<lambda>e. ce_Layer e = LayerDNS \<and> ce_State e = StateIssueObserved) es \<and>
     (list_ex (\<lambda>e. ce_Layer e = LayerGateway \<and> ce_Successes e > 0) es \<or>
      list_ex (\<lambda>e. ce_Layer e = LayerExternal \<and> probe_responded e) es)"
      using that unfolding conclude_def Let_def by (rule contrapos_pp) (simp only: if_False simp_thms, simp)
    then show ?thesis using R unfolding list_ex_iff by (metis layer.distinct)
  qed
  show "(\<exists>e\<in>set es. ce_Layer e = LayerGateway \<and> \<not> passed e) \<and> (\<exists>e\<in>set es. ce_Layer e \<noteq> LayerGateway \<and> responded e)"
    if "conclude es = IcmpMissesWithResponses"
  proof -
    have "list_ex (\<lambda>e. ce_Layer e = LayerGateway \<and> \<not> passed e) es \<and>
     (list_ex (\<lambda>e. ce_Layer e = LayerDNS \<and> dns_responded e) es \<or>
      list_ex (\<lambda>e. ce_Layer e = LayerExternal \<and> probe_responded e) es)"
      using that unfolding conclude_def Let_def by (rule contrapos_pp) (simp only: if_False simp_thms, simp)
    then show ?thesis using R unfolding list_ex_iff by (metis layer.distinct)
  qed
  show "(\<exists>e\<in>set es. ce_Layer e = LayerExternal \<and> \<not> passed e) \<and> (\<exists>e\<in>set es. ce_Layer e \<noteq> LayerExternal \<and> responded e)"
    if "conclude es = ExternalCheckIssueWithResponses"
  proof -
    have "list_ex (\<lambda>e. ce_Layer e = LayerExternal \<and> \<not> passed e) es \<and>
     (list_ex (\<lambda>e. ce_Layer e = LayerDNS \<and> dns_responded e) es \<or>
      list_ex (\<lambda>e. ce_Layer e = LayerGateway \<and> ce_Successes e > 0) es)"
      using that unfolding conclude_def Let_def by (rule contrapos_pp) (simp only: if_False simp_thms, simp)
    then show ?thesis using R unfolding list_ex_iff by (metis layer.distinct)
  qed
qed

text \<open>
  every conclusion is supported by the entries compared.  "Matched" is concluded exactly when every
  entry passed; a conclusion that sets a problem against responses rests on a problem in one layer and a
  response in another; a conclusion about several layers rests on issues in at least two.
\<close>

theorem conclude_supported:
  "(conclude es = SelectedChecksMatched \<longleftrightarrow> (\<forall>e\<in>set es. passed e)) \<and>
   (conclude es \<in> {MixedLinkEvidence, DnsQueryIssueWithResponses, IcmpMissesWithResponses,
      ExternalCheckIssueWithResponses} \<longrightarrow>
      (\<exists>e\<in>set es. \<exists>e'\<in>set es. \<not> passed e \<and> responded e' \<and> ce_Layer e \<noteq> ce_Layer e')) \<and>
   (conclude es \<in> {LocalLinkIssueWithOtherFailures, ProblemsAcrossSelectedLayers} \<longrightarrow>
      (\<exists>e\<in>set es. \<exists>e'\<in>set es. ce_State e = StateIssueObserved \<and> ce_State e' = StateIssueObserved \<and>
         ce_Layer e \<noteq> ce_Layer e'))"
proof -
  let ?issues = "filter (\<lambda>e. ce_State e = StateIssueObserved) es"
  have many: "\<exists>e\<in>set es. \<exists>e'\<in>set es. ce_State e = StateIssueObserved \<and> ce_State e' = StateIssueObserved \<and>
      ce_Layer e \<noteq> ce_Layer e'" if "1 < distinct_layers ?issues"
  proof -
    have "\<not> card (ce_Layer ` set ?issues) \<le> Suc 0"
      using that by (simp add: distinct_layers_card)
    then obtain x y where "x \<in> ce_Layer ` set ?issues" "y \<in> ce_Layer ` set ?issues" "x \<noteq> y"
      by (metis List.finite_set card_le_Suc0_iff_eq finite_imageI)
    then show ?thesis by auto
  qed
  have all: "distinct_layers ?issues = 0" if "\<forall>e\<in>set es. passed e"
  proof -
    have "?issues = []" using that by (simp add: filter_empty_conv passed_def)
    then show ?thesis by (simp add: distinct_layers_def)
  qed
  have A: "conclude es = SelectedChecksMatched \<longleftrightarrow> (\<forall>e\<in>set es. passed e)"
  proof
    assume "\<forall>e\<in>set es. passed e"
    then show "conclude es = SelectedChecksMatched"
      using all by (auto simp: conclude_def Let_def list_ex_iff list_all_iff passed_def)
  qed (auto simp: conclude_def Let_def list_all_iff split: if_splits)
  have B: "\<exists>e\<in>set es. \<exists>e'\<in>set es. \<not> passed e \<and> responded e' \<and> ce_Layer e \<noteq> ce_Layer e'"
    if "conclude es \<in> {MixedLinkEvidence, DnsQueryIssueWithResponses, IcmpMissesWithResponses,
      ExternalCheckIssueWithResponses}"
    using that conclude_with_responses [of es] by auto metis+
  have C: "1 < distinct_layers ?issues"
    if "conclude es \<in> {LocalLinkIssueWithOtherFailures, ProblemsAcrossSelectedLayers}"
    using that by (auto simp: conclude_def Let_def split: if_splits)
  show ?thesis using A B C many by blast
qed


section \<open>A sample comparison\<close>

text \<open>The gateway and the resolver answered; the HTTPS endpoint returned an unexpected status.\<close>

definition sample_corroboration :: corroboration_input where
  "sample_corroboration = \<lparr>ci_HTTPSDeviceID = ''dev'', ci_HTTPS = Some sample_https,
     ci_NetworkDeviceID = ''dev'', ci_ResolverDeviceID = ''dev'',
     ci_Network = sample_snapshot [sample_partial, sample_success], ci_Resolvers = sample_resolvers,
     ci_Family = FamilyIPv4, ci_MaxCompletionSkew = 10 * second\<rparr>"

lemma sample_corroboration_valid [simp]: "validateCorroboration sample_corroboration = Inr ()"
proof -
  have tok: "validToken ''dev''"
    by (simp add: validToken_def tokenPattern_def is_lower_alnum_def is_lower_def is_digit_def is_token_separator_def)
  show ?thesis
    using sample_snapshot_valid sample_resolvers_valid sample_https_valid tok
    unfolding validateCorroboration_iff sample_corroboration_def input_context_ok_def https_context_matches_def
      https_selections_def used_ids_def https_measurements_def Let_def
    by (simp add: sample_snapshot_def sample_resolvers_def sample_https_def same_context_def resolverTime_def
        sample_defs sample_resolver_defs sample_https_defs time_evaluation MaxCorroborationSkew_def)
qed

lemma sample_corroboration_wall_only: "wall_only_input sample_corroboration"
  by (simp add: wall_only_input_iff sample_corroboration_def https_measurements_def sample_defs
      sample_resolver_defs sample_https_defs)

definition sample_entries :: "corroboration_evidence list" where
  "sample_entries =
     [network_entry sample_observer (assessMeasurement sample_gateway sample_success (at_second 1000) (120 * second)),
      network_entry sample_observer (unmeasured_check sample_link),
      resolver_entry sample_observer (assess_resolver_result sample_exchange (at_second 1000) (120 * second) ResolverAnswer),
      https_entry sample_observer (assessHTTPSMeasurement sample_https_exchange (at_second 1000) (120 * second))]"

lemma sample_input_evidence: "input_evidence sample_corroboration = sample_entries"
proof -
  have dns: "latest rm_key rm_CompletedAt Map.empty [sample_exchange] ''dns'' = Some sample_exchange"
      "latest hm_key hm_CompletedAt Map.empty [sample_https_exchange] ''web'' = Some sample_https_exchange"
    by (simp_all add: sample_resolver_defs sample_https_defs)
  have link: "latest m_TargetID m_CompletedAt Map.empty [sample_partial, sample_success] ''link'' = None"
    by (simp add: latest_None_iff sample_defs)
  have res: "resolverResult sample_exchange = Some ResolverAnswer"
    by (simp add: resolverResult_def sample_resolver_defs)
  have ids: "t_ID sample_gateway = ''gw''" "t_ID sample_link = ''link''" "rs_ID sample_selection = ''dns''"
      "hs_ID sample_https_selection = ''web''" "t_Family sample_gateway = FamilyIPv4" "t_Layer sample_link = LayerLink"
      "rs_Family sample_selection = FamilyIPv4" "hs_Family sample_https_selection = FamilyIPv4"
    by (simp_all add: sample_defs sample_resolver_defs sample_https_defs)
  show ?thesis
    unfolding input_evidence_def sample_corroboration_def sample_snapshot_def sample_resolvers_def sample_https_def
    by (simp add: Let_def ids network_check_of_def resolver_check_of_def https_check_of_def sample_newest dns link
        res sample_entries_def del: latest.simps)
qed

lemma sample_compared: "co_Confidence (compare_evidence sample_corroboration
    (start_corroboration sample_corroboration n (sort_evidence sample_entries))) = ConfidenceLimited"
proof -
  have gap: "latestDiscontinuity sample_corroboration = ([], zero_time, GapNone)"
    by (simp add: latestDiscontinuity_def gap_entries_def sample_corroboration_def https_measurements_def
        consider_gap_def sample_defs sample_resolver_defs sample_https_defs)
  obtain g l d w where es: "sample_entries = [g, l, d, w]"
    and g: "ce_State g = StateSucceeded" "ce_Layer g = LayerGateway" "ce_CompletedAt g = at_second 990"
    and l: "ce_State l = StateUnknown" "ce_Layer l = LayerLink"
    and d: "ce_State d = StateSucceeded" "ce_Layer d = LayerDNS" "ce_CompletedAt d = at_second 992"
    and w: "ce_State w = StateIssueObserved" "ce_Layer w = LayerExternal" "ce_CompletedAt w = at_second 995"
  proof
    show "sample_entries = [sample_entries ! 0, sample_entries ! 1, sample_entries ! 2, sample_entries ! 3]"
      by (simp add: sample_entries_def)
  qed (simp_all add: sample_entries_def resolver_entry_simps https_entry_simps assess_resolver_state assess_https_state
     network_entry_def resolver_state_of_def https_state_of_def expected_result_def fresh_at_def assessMeasurement_def
     sample_defs sample_resolver_defs sample_https_defs go_time quality_limits)
  have "sort_evidence sample_entries = [d, w, g, l]"
    by (simp add: es sort_evidence_def sort_key_def g l d w)
  moreover have "filter candidate [d, w, g, l] = [d, w, g]"
    by (simp add: candidate_def g l d w)
  moreover have "ci_MaxCompletionSkew sample_corroboration = 10 * second"
    by (simp add: sample_corroboration_def)
  ultimately show ?thesis
    unfolding compare_evidence_def gap Let_def
    by (simp add: distinct_layers_def g d w conclude_with_def zero_time_def at_second_def time_evaluation
        del: filter.simps)
qed

text \<open>The sample meets the hypotheses of the soundness property, and its conclusion follows.\<close>

theorem corroborate_comparison_sound_witness:
  "\<exists>out. Corroborate sample_corroboration = Inr out \<and> co_Confidence out = ConfidenceLimited \<and>
     2 \<le> card (ce_Layer ` set (filter candidate (co_Evidence out)))"
proof -
  obtain out where out: "Corroborate sample_corroboration = Inr out"
    using Corroborate_valid [OF sample_corroboration_valid] by blast
  have lim: "co_Confidence out = ConfidenceLimited"
    using Corroborate_InrD [OF out] sample_compared by (simp add: sample_input_evidence)
  show ?thesis
    using corroborate_comparison_sound [OF sample_corroboration_wall_only out lim] out lim
    by (auto simp: Let_def)
qed


definition sample_down :: corroboration_evidence where
  "sample_down = (network_entry sample_observer (unmeasured_check sample_link))\<lparr>ce_State := StateIssueObserved\<rparr>"

definition sample_up :: corroboration_evidence where
  "sample_up = (network_entry sample_observer (unmeasured_check sample_gateway))\<lparr>ce_State := StateSucceeded,
     ce_Attempts := 3, ce_Successes := 3\<rparr>"

theorem conclude_supported_witness:
  "conclude [sample_down, sample_up] = MixedLinkEvidence \<and>
   (\<exists>e\<in>{sample_down, sample_up}. \<exists>e'\<in>{sample_down, sample_up}. \<not> passed e \<and> responded e' \<and> ce_Layer e \<noteq> ce_Layer e')"
proof -
  have f: "ce_State sample_down = StateIssueObserved" "ce_Layer sample_down = LayerLink"
      "ce_State sample_up = StateSucceeded" "ce_Layer sample_up = LayerGateway" "ce_Successes sample_up = 3"
      "ce_Method sample_up = MethodICMP"
    by (simp_all add: sample_down_def sample_up_def network_entry_def sample_defs)
  then have "conclude [sample_down, sample_up] = MixedLinkEvidence"
    by (simp add: conclude_def passed_def probe_responded_def)
  then show ?thesis
    using conclude_supported [of "[sample_down, sample_up]"] by simp
qed

end
