(* ===== verification/Netip.thy ===== *)
theory Netip
  imports Prelude "HOL-Library.Word"
begin

text \<open>
  The part of Go's \<open>net/netip\<close> that the controller uses: the address type (no address, IPv4, IPv6 with an
  optional zone), the parsers and printers of addresses and prefixes, the address classes, and masking and
  containment of prefixes.  Addresses hold their 32 or 128 bits as machine words.  Parse errors are
  \<^const>\<open>None\<close>: no caller looks at their text.  The print/parse round trip of IPv4 addresses is proved
  here; the plan validators rest on it.
\<close>

unbundle bit_operations_syntax

section \<open>Addresses\<close>

type_synonym byte = "8 word"

datatype addr = AddrNone | Addr4 "32 word" | Addr6 "128 word" string

definition Is4 :: "addr \<Rightarrow> bool" where
  "Is4 a = (case a of Addr4 _ \<Rightarrow> True | _ \<Rightarrow> False)"

definition Is6 :: "addr \<Rightarrow> bool" where
  "Is6 a = (case a of Addr6 _ _ \<Rightarrow> True | _ \<Rightarrow> False)"

definition Is4In6 :: "addr \<Rightarrow> bool" where
  "Is4In6 a = (case a of Addr6 w _ \<Rightarrow> drop_bit 32 w = 0xffff | _ \<Rightarrow> False)"

definition Unmap :: "addr \<Rightarrow> addr" where
  "Unmap a = (case a of Addr6 w _ \<Rightarrow> if Is4In6 a then Addr4 (ucast w) else a | _ \<Rightarrow> a)"

text \<open>Byte \<open>i\<close> of an address, the most significant one first.\<close>

definition octet4 :: "32 word \<Rightarrow> nat \<Rightarrow> byte" where
  "octet4 w i = ucast (drop_bit (8 * (3 - i)) w)"

definition octet6 :: "128 word \<Rightarrow> nat \<Rightarrow> byte" where
  "octet6 w i = ucast (drop_bit (8 * (15 - i)) w)"

definition As4 :: "32 word \<Rightarrow> byte list" where
  "As4 w = map (octet4 w) [0, 1, 2, 3]"

definition AddrFrom4 :: "byte list \<Rightarrow> addr" where
  "AddrFrom4 bs = Addr4 (foldl (\<lambda>w b. push_bit 8 w OR ucast b) 0 bs)"

definition AddrFrom16 :: "byte list \<Rightarrow> string \<Rightarrow> addr" where
  "AddrFrom16 bs zone = Addr6 (foldl (\<lambda>w b. push_bit 8 w OR ucast b) 0 bs) zone"

definition IsPrivate :: "addr \<Rightarrow> bool" where
  "IsPrivate a =
     (case Unmap a of
        Addr4 w \<Rightarrow> octet4 w 0 = 10 \<or> (octet4 w 0 = 172 \<and> octet4 w 1 AND 0xf0 = 16) \<or>
                   (octet4 w 0 = 192 \<and> octet4 w 1 = 168)
      | Addr6 w _ \<Rightarrow> octet6 w 0 AND 0xfe = 0xfc
      | AddrNone \<Rightarrow> False)"

definition IsLoopback :: "addr \<Rightarrow> bool" where
  "IsLoopback a =
     (case Unmap a of Addr4 w \<Rightarrow> octet4 w 0 = 127 | Addr6 w _ \<Rightarrow> w = 1 | AddrNone \<Rightarrow> False)"

definition IsMulticast :: "addr \<Rightarrow> bool" where
  "IsMulticast a =
     (case Unmap a of
        Addr4 w \<Rightarrow> octet4 w 0 AND 0xf0 = 0xe0 | Addr6 w _ \<Rightarrow> octet6 w 0 = 0xff | AddrNone \<Rightarrow> False)"

definition IsLinkLocalUnicast :: "addr \<Rightarrow> bool" where
  "IsLinkLocalUnicast a =
     (case Unmap a of
        Addr4 w \<Rightarrow> octet4 w 0 = 169 \<and> octet4 w 1 = 254
      | Addr6 w _ \<Rightarrow> octet6 w 0 = 0xfe \<and> octet6 w 1 AND 0xc0 = 0x80
      | AddrNone \<Rightarrow> False)"

definition IsUnspecified :: "addr \<Rightarrow> bool" where
  "IsUnspecified a \<longleftrightarrow> a = Addr4 0 \<or> a = Addr6 0 []"

section \<open>Printing\<close>

definition digit_char :: "nat \<Rightarrow> char" where
  "digit_char d = char_of (48 + d)"

definition hex_char :: "nat \<Rightarrow> char" where
  "hex_char d = (if d < 10 then char_of (48 + d) else char_of (87 + d))"

text \<open>Decimal text of a byte, and of the small numbers of prefixes.\<close>

definition decimal :: "nat \<Rightarrow> string" where
  "decimal n =
     (if n \<ge> 100 then [digit_char (n div 100)] else []) @
     (if n \<ge> 10 then [digit_char (n div 10 mod 10)] else []) @ [digit_char (n mod 10)]"

fun join_with :: "string \<Rightarrow> string list \<Rightarrow> string" where
  "join_with sep [] = []"
| "join_with sep [x] = x"
| "join_with sep (x # y # ys) = x @ sep @ join_with sep (y # ys)"

definition string4 :: "32 word \<Rightarrow> string" where
  "string4 w = join_with ''.'' (map (\<lambda>b. decimal (unat b)) (As4 w))"

text \<open>Hexadecimal text of a 16-bit group, without leading zeros.\<close>

definition hex_group :: "nat \<Rightarrow> string" where
  "hex_group n =
     (if n \<ge> 4096 then [hex_char (n div 4096)] else []) @
     (if n \<ge> 256 then [hex_char (n div 256 mod 16)] else []) @
     (if n \<ge> 16 then [hex_char (n div 16 mod 16)] else []) @ [hex_char (n mod 16)]"

definition groups :: "128 word \<Rightarrow> nat list" where
  "groups w = map (\<lambda>i. unat (drop_bit (16 * (7 - i)) w AND 0xffff)) [0..<8]"

definition zero_run :: "nat list \<Rightarrow> nat \<Rightarrow> nat" where
  "zero_run gs i = length (takeWhile (\<lambda>g. g = 0) (drop i gs))"

text \<open>The first longest run of at least two zero groups: its start and its length (0 for none).\<close>

definition longest_zeros :: "nat list \<Rightarrow> nat \<times> nat" where
  "longest_zeros gs =
     foldl (\<lambda>(start, len) i. if zero_run gs i \<ge> 2 \<and> zero_run gs i > len then (i, zero_run gs i) else (start, len))
       (0, 0) [0..<length gs]"

definition string6 :: "128 word \<Rightarrow> string" where
  "string6 w =
     (let gs = groups w; (start, len) = longest_zeros gs; texts = map hex_group gs in
      if len = 0 then join_with '':'' texts
      else join_with '':'' (take start texts) @ ''::'' @ join_with '':'' (drop (start + len) texts))"

definition zone_suffix :: "string \<Rightarrow> string" where
  "zone_suffix zone = (if zone = [] then [] else ''%'' @ zone)"

definition addr_string :: "addr \<Rightarrow> string" where
  "addr_string a =
     (case a of
        AddrNone \<Rightarrow> ''invalid IP''
      | Addr4 w \<Rightarrow> string4 w
      | Addr6 w zone \<Rightarrow>
          (if Is4In6 a then ''::ffff:'' @ string4 (ucast w) else string6 w) @ zone_suffix zone)"

section \<open>Parsing\<close>

definition digit_value :: "char \<Rightarrow> nat" where
  "digit_value c = of_char c - 48"

text \<open>
  \<open>parseIPv4Fields\<close>: the value and the number of digits of the current octet, the octets before it, and
  whether the previous byte was a dot (or there was none).
\<close>

fun parse_fields4 :: "nat \<Rightarrow> nat \<Rightarrow> nat list \<Rightarrow> bool \<Rightarrow> string \<Rightarrow> nat list option" where
  "parse_fields4 val digLen acc dot [] = (if length acc < 3 then None else Some (acc @ [val]))"
| "parse_fields4 val digLen acc dot (c # cs) =
     (if is_digit c then
        (if digLen = 1 \<and> val = 0 then None
         else if val * 10 + digit_value c > 255 then None
         else parse_fields4 (val * 10 + digit_value c) (digLen + 1) acc False cs)
      else if c = CHR ''.'' then
        (if dot \<or> cs = [] then None
         else if length acc = 3 then None
         else parse_fields4 0 0 (acc @ [val]) True cs)
      else None)"

definition parseIPv4 :: "string \<Rightarrow> addr option" where
  "parseIPv4 s = map_option (\<lambda>fs. AddrFrom4 (map word_of_nat fs)) (parse_fields4 0 0 [] True s)"

definition hex_value :: "char \<Rightarrow> nat option" where
  "hex_value c =
     (if is_digit c then Some (of_char c - 48)
      else if CHR ''a'' \<le> c \<and> c \<le> CHR ''f'' then Some (of_char c - 87)
      else if CHR ''A'' \<le> c \<and> c \<le> CHR ''F'' then Some (of_char c - 55)
      else None)"

text \<open>One group: at most four hexadecimal digits; \<^const>\<open>None\<close> when a fifth follows.\<close>

fun parse_group :: "nat \<Rightarrow> nat \<Rightarrow> string \<Rightarrow> (nat \<times> nat \<times> string) option" where
  "parse_group acc off [] = Some (acc, off, [])"
| "parse_group acc off (c # cs) =
     (case hex_value c of
        None \<Rightarrow> Some (acc, off, c # cs)
      | Some d \<Rightarrow> if off > 3 then None else parse_group (acc * 16 + d) (off + 1) cs)"

text \<open>
  The loop of \<open>parseIPv6\<close>: the bytes stored so far (\<open>i\<close> is their number), the position of the ellipsis,
  and the rest of the text.  It stops with the bytes, the ellipsis and the text left over.
\<close>

function parse_groups6 ::
  "nat list \<Rightarrow> nat option \<Rightarrow> string \<Rightarrow> (nat list \<times> nat option \<times> string) option" where
  "parse_groups6 ip ellipsis s =
     (if length ip \<ge> 16 then Some (ip, ellipsis, s)
      else case parse_group 0 0 s of
        None \<Rightarrow> None
      | Some (acc, off, rest) \<Rightarrow>
          if off = 0 then None
          else if rest \<noteq> [] \<and> hd rest = CHR ''.'' then
            (if ellipsis = None \<and> length ip \<noteq> 12 then None
             else if length ip + 4 > 16 then None
             else (case parse_fields4 0 0 [] True s of
                     None \<Rightarrow> None
                   | Some fs \<Rightarrow> Some (ip @ fs, ellipsis, [])))
          else
            (let ip' = ip @ [acc div 256, acc mod 256] in
             if rest = [] then Some (ip', ellipsis, [])
             else if hd rest \<noteq> CHR '':'' \<or> length rest = 1 then None
             else
               (let s' = tl rest in
                if hd s' = CHR '':'' then
                  (if ellipsis \<noteq> None then None
                   else if tl s' = [] then Some (ip', Some (length ip'), [])
                   else parse_groups6 ip' (Some (length ip')) (tl s'))
                else parse_groups6 ip' ellipsis s')))"
  by pat_completeness auto
termination
  by (relation "measure (\<lambda>(ip, _, _). 16 - length ip)") auto

text \<open>The zone is what follows the first percent sign.\<close>

definition split_zone :: "string \<Rightarrow> string \<times> string option" where
  "split_zone s =
     (let addr = takeWhile (\<lambda>c. c \<noteq> CHR ''%'') s; rest = drop (length addr) s in
      if rest = [] then (s, None) else (addr, Some (tl rest)))"

definition expand_ellipsis :: "nat list \<Rightarrow> nat option \<Rightarrow> nat list option" where
  "expand_ellipsis ip ellipsis =
     (if length ip < 16 then
        (case ellipsis of
           None \<Rightarrow> None
         | Some e \<Rightarrow> Some (take e ip @ replicate (16 - length ip) 0 @ drop e ip))
      else if ellipsis \<noteq> None then None else Some ip)"

definition parseIPv6 :: "string \<Rightarrow> addr option" where
  "parseIPv6 text =
     (case split_zone text of (s, zone) \<Rightarrow>
      if zone = Some [] then None
      else
        (let z = (case zone of None \<Rightarrow> [] | Some n \<Rightarrow> n);
             leading = has_prefix s ''::'';
             body = (if leading then drop 2 s else s)
         in if leading \<and> body = [] then Some (AddrFrom16 (replicate 16 0) z)
            else (case parse_groups6 [] (if leading then Some 0 else None) body of
                    None \<Rightarrow> None
                  | Some (ip, ellipsis, rest) \<Rightarrow>
                      if rest \<noteq> [] then None
                      else map_option (\<lambda>bs. AddrFrom16 (map word_of_nat bs) z) (expand_ellipsis ip ellipsis))))"

definition ParseAddr :: "string \<Rightarrow> addr option" where
  "ParseAddr s =
     (case filter (\<lambda>c. c = CHR ''.'' \<or> c = CHR '':'' \<or> c = CHR ''%'') s of
        [] \<Rightarrow> None
      | c # _ \<Rightarrow> if c = CHR ''.'' then parseIPv4 s else if c = CHR '':'' then parseIPv6 s else None)"

section \<open>Prefixes\<close>

text \<open>The invalid prefix has no length (\<open>Bits\<close> returns -1 for it); no operation here returns it.\<close>

record prefix =
  p_Addr :: addr
  p_Bits :: nat

definition max_bits :: "addr \<Rightarrow> nat" where
  "max_bits a = (case a of Addr4 _ \<Rightarrow> 32 | Addr6 _ _ \<Rightarrow> 128 | AddrNone \<Rightarrow> 0)"

fun decimal_value :: "nat \<Rightarrow> string \<Rightarrow> nat option" where
  "decimal_value acc [] = Some acc"
| "decimal_value acc (c # cs) = (if is_digit c then decimal_value (acc * 10 + digit_value c) cs else None)"

text \<open>The length after the slash: digits only, no leading zero unless it is the only digit.\<close>

definition parse_bits :: "string \<Rightarrow> nat option" where
  "parse_bits s =
     (if s = [] \<or> (length s > 1 \<and> \<not> (CHR ''1'' \<le> hd s \<and> hd s \<le> CHR ''9'')) then None
      else decimal_value 0 s)"

text \<open>The address before the last slash; zones are refused.\<close>

definition ParsePrefix :: "string \<Rightarrow> prefix option" where
  "ParsePrefix s =
     (if CHR ''/'' \<notin> set s then None
      else
        (let bitsStr = rev (takeWhile (\<lambda>c. c \<noteq> CHR ''/'') (rev s));
             addrStr = take (length s - Suc (length bitsStr)) s
         in case ParseAddr addrStr of
              None \<Rightarrow> None
            | Some a \<Rightarrow>
                if (case a of Addr6 _ zone \<Rightarrow> zone \<noteq> [] | _ \<Rightarrow> False) then None
                else (case parse_bits bitsStr of
                        None \<Rightarrow> None
                      | Some n \<Rightarrow> if n > max_bits a then None else Some \<lparr>p_Addr = a, p_Bits = n\<rparr>)))"

definition mask4 :: "nat \<Rightarrow> 32 word" where
  "mask4 n = push_bit (32 - n) (- 1)"

definition mask6 :: "nat \<Rightarrow> 128 word" where
  "mask6 n = push_bit (128 - n) (- 1)"

definition Masked :: "prefix \<Rightarrow> prefix" where
  "Masked p =
     p\<lparr>p_Addr := (case p_Addr p of
        Addr4 w \<Rightarrow> Addr4 (w AND mask4 (p_Bits p))
      | Addr6 w _ \<Rightarrow> Addr6 (w AND mask6 (p_Bits p)) []
      | AddrNone \<Rightarrow> AddrNone)\<rparr>"

definition prefix_string :: "prefix \<Rightarrow> string" where
  "prefix_string p = addr_string (p_Addr p) @ ''/'' @ decimal (p_Bits p)"

definition Contains :: "prefix \<Rightarrow> addr \<Rightarrow> bool" where
  "Contains p a =
     (case (p_Addr p, a) of
        (Addr4 v, Addr4 w) \<Rightarrow> drop_bit (32 - p_Bits p) (w XOR v) = 0
      | (Addr6 v _, Addr6 w zone) \<Rightarrow> zone = [] \<and> (w XOR v) AND mask6 (p_Bits p) = 0
      | _ \<Rightarrow> False)"

section \<open>IPv4 text\<close>

lemma digit_char_digit [simp]: "d < 10 \<Longrightarrow> is_digit (digit_char d)"
  by (simp add: is_digit_def digit_char_def less_eq_char_def)

lemma digit_char_value [simp]: "d < 10 \<Longrightarrow> digit_value (digit_char d) = d"
  by (simp add: digit_value_def digit_char_def)

lemma parse_fields4_decimal:
  assumes "n < 256" and "rest = [] \<or> hd rest = CHR ''.''"
  shows "parse_fields4 0 0 acc dot (decimal n @ rest) = parse_fields4 n (length (decimal n)) acc False rest"
proof -
  have small: "n div 100 < 10" "n div 10 mod 10 < 10" "n mod 10 < 10" using assms(1) by auto
  consider "n < 10" | "10 \<le> n" "n < 100" | "100 \<le> n" by linarith
  then show ?thesis
  proof cases
    case 1
    then show ?thesis using small by (simp add: decimal_def)
  next
    case 2
    then have "n div 10 mod 10 = n div 10" "n div 10 * 10 + n mod 10 = n" "0 < n div 10" by auto
    then show ?thesis using 2 small by (simp add: decimal_def)
  next
    case 3
    have "n div 100 = n div 10 div 10" by (simp add: div_mult2_eq [symmetric])
    then have "(n div 100 * 10 + n div 10 mod 10) * 10 + n mod 10 = n" by simp
    moreover have "n div 100 * 10 + n div 10 mod 10 \<le> 255" "0 < n div 100"
      using assms(1) 3 small by auto
    ultimately have "(n div 100 * 10 + n div 10 mod 10) * 10 + n mod 10 = n" "n div 100 \<noteq> 0"
      "n div 100 * 10 + n div 10 mod 10 \<le> 255" by auto
    then show ?thesis using 3 small assms(1) by (simp add: decimal_def div_eq_0_iff)
  qed
qed

lemma parse_fields4_string:
  assumes "a < 256" "b < 256" "c < 256" "d < 256"
  shows "parse_fields4 0 0 [] True (join_with ''.'' (map decimal [a, b, c, d])) = Some [a, b, c, d]"
proof -
  have ne: "decimal n \<noteq> []" for n by (simp add: decimal_def)
  have dot: "parse_fields4 v l acc False (CHR ''.'' # rest) = parse_fields4 0 0 (acc @ [v]) True rest"
    if "rest \<noteq> []" "length acc < 3" for v l acc rest
    using that by (simp add: is_digit_def)
  have last: "parse_fields4 0 0 acc dot (decimal d) = parse_fields4 d (length (decimal d)) acc False []" for acc dot
    using parse_fields4_decimal [OF assms(4), of "[]"] by simp
  show ?thesis
    using assms ne
    by (simp add: parse_fields4_decimal dot last del: parse_fields4.simps(2))
qed

lemma addr_from_as4: "AddrFrom4 (As4 w) = Addr4 w"
proof -
  have "foldl (\<lambda>w b. push_bit 8 w OR ucast b) (0 :: 32 word) (As4 w) = w"
  proof (rule bit_word_eqI)
    fix n
    assume "n < LENGTH(32)"
    then consider "n < 8" | "8 \<le> n" "n < 16" | "16 \<le> n" "n < 24" | "24 \<le> n" "n < 32"
      by (simp add: not_less) linarith
    then show "bit (foldl (\<lambda>w b. push_bit 8 w OR ucast b) (0 :: 32 word) (As4 w)) n = bit w n"
      by cases (auto simp: As4_def octet4_def bit_simps)
  qed
  then show ?thesis by (simp add: AddrFrom4_def)
qed

lemma octets_small: "map (\<lambda>b. unat (b :: byte)) (As4 w) = [a, b, c, d] \<Longrightarrow> a < 256 \<and> b < 256 \<and> c < 256 \<and> d < 256"
proof -
  have "unat b < 256" for b :: byte
    by (rule order_less_le_trans [OF unsigned_less]) simp
  then show "map (\<lambda>b. unat (b :: byte)) (As4 w) = [a, b, c, d] \<Longrightarrow> a < 256 \<and> b < 256 \<and> c < 256 \<and> d < 256"
    by (auto simp: As4_def)
qed

text \<open>Every printed IPv4 address is parsed back to itself.\<close>

lemma parse_string4: "ParseAddr (string4 w) = Some (Addr4 w)"
proof -
  define os where "os = map (\<lambda>b. unat b) (As4 w)"
  obtain a b c d where os: "os = [a, b, c, d]" by (simp add: os_def As4_def)
  have small: "a < 256" "b < 256" "c < 256" "d < 256"
    using octets_small [of w] os by (auto simp: os_def)
  have printed: "string4 w = join_with ''.'' (map decimal os)"
    by (simp add: string4_def os_def As4_def)
  have parsed: "parse_fields4 0 0 [] True (string4 w) = Some os"
    unfolding printed os by (rule parse_fields4_string [OF small])
  have "map word_of_nat os = As4 w" by (simp add: os_def As4_def)
  then have addr: "parseIPv4 (string4 w) = Some (Addr4 w)"
    by (simp add: parseIPv4_def parsed addr_from_as4)
  have nodot: "x < 256 \<Longrightarrow> filter (\<lambda>c. c = CHR ''.'' \<or> c = CHR '':'' \<or> c = CHR ''%'') (decimal x) = []" for x
  proof -
    assume "x < 256"
    then have "\<forall>y\<in>set (decimal x). is_digit y" by (auto simp: decimal_def)
    then show ?thesis by (auto simp: filter_empty_conv is_digit_def)
  qed
  have "filter (\<lambda>c. c = CHR ''.'' \<or> c = CHR '':'' \<or> c = CHR ''%'') (string4 w) = [CHR ''.'', CHR ''.'', CHR ''.'']"
    unfolding printed os using small by (simp add: nodot)
  then show ?thesis using addr by (simp add: ParseAddr_def)
qed

lemma string4_inj: "string4 v = string4 w \<longleftrightarrow> v = w"
  using parse_string4 by (metis addr.inject(1) option.inject)

lemma string4_length: "length (string4 w) \<le> 15"
proof -
  have d: "length (decimal n) \<le> 3" for n by (simp add: decimal_def)
  show ?thesis
    using d [of "unat (octet4 w 0)"] d [of "unat (octet4 w 1)"] d [of "unat (octet4 w 2)"]
      d [of "unat (octet4 w 3)"] by (simp add: string4_def As4_def)
qed

lemma addr_string_Is4: "Is4 a \<Longrightarrow> ParseAddr (addr_string a) = Some a"
  by (cases a) (simp_all add: Is4_def addr_string_def parse_string4)

text \<open>Only an IPv4 address prints as a dotted quad.\<close>

lemma join_with_chars: "c \<in> set (join_with sep xs) \<Longrightarrow> c \<in> set sep \<or> (\<exists>x\<in>set xs. c \<in> set x)"
  by (induction sep xs rule: join_with.induct) auto

lemma string4_no_colon: "CHR '':'' \<notin> set (string4 w)" "CHR ''i'' \<notin> set (string4 w)"
proof -
  have dec: "c \<noteq> CHR '':'' \<and> c \<noteq> CHR ''i''" if "c \<in> set (decimal n)" "n < 256" for c n
  proof -
    have "n mod 10 < 10" "n div 100 < 10" "n div 10 mod 10 < 10" using that by auto
    then have "is_digit c" using that by (auto simp: decimal_def split: if_splits)
    then show ?thesis by (auto simp: is_digit_def less_eq_char_def)
  qed
  have "unat b < 256" for b :: byte by (rule order_less_le_trans [OF unsigned_less]) simp
  then show "CHR '':'' \<notin> set (string4 w)" "CHR ''i'' \<notin> set (string4 w)"
    using dec by (fastforce simp: string4_def dest: join_with_chars)+
qed

lemma string6_colon: "CHR '':'' \<in> set (string6 w)"
proof (cases "longest_zeros (groups w)")
  case (Pair start len)
  then show ?thesis by (auto simp: string6_def groups_def upt_rec Let_def)
qed

lemma addr_string_string4: "addr_string a = string4 w \<longleftrightarrow> a = Addr4 w"
proof
  assume eq: "addr_string a = string4 w"
  show "a = Addr4 w"
  proof (cases a)
    case AddrNone
    then have "CHR ''i'' \<in> set (addr_string a)" by (simp add: addr_string_def)
    then show ?thesis using eq string4_no_colon(2) by metis
  next
    case (Addr4 v)
    then show ?thesis using eq string4_inj by (simp add: addr_string_def)
  next
    case (Addr6 v zone)
    then have "CHR '':'' \<in> set (addr_string a)" using string6_colon by (simp add: addr_string_def)
    then show ?thesis using eq string4_no_colon(1) by metis
  qed
qed (simp add: addr_string_def)

end
