(* ===== verification/GoEncoding.thy ===== *)
theory GoEncoding
  imports Netip
begin

text \<open>
  The encodings of Go's standard library that the audit digests use: \<open>crypto/sha256\<close>, \<open>encoding/hex\<close> and
  the strings and integers of \<open>encoding/json\<close> (with its HTML escaping and its replacement of invalid
  UTF-8).  Strings are byte strings.
\<close>

section \<open>Bytes\<close>

definition byte_of_char :: "char \<Rightarrow> byte" where
  "byte_of_char c = word_of_nat (of_char c)"

definition bytes_of :: "string \<Rightarrow> byte list" where
  "bytes_of s = map byte_of_char s"

definition hex_encode :: "byte list \<Rightarrow> string" where
  "hex_encode bs = concat (map (\<lambda>b. [hex_char (unat b div 16), hex_char (unat b mod 16)]) bs)"

text \<open>\<open>^[0-9a-f]{n}$\<close>.\<close>

definition hex_match :: "nat \<Rightarrow> string \<Rightarrow> bool" where
  "hex_match n s \<longleftrightarrow> length s = n \<and> list_all is_lower_hex s"

text \<open>Big-endian bytes of a word of \<open>k\<close> bytes.\<close>

definition be_bytes :: "nat \<Rightarrow> 'w::len word \<Rightarrow> byte list" where
  "be_bytes k w = map (\<lambda>i. ucast (drop_bit (8 * (k - Suc i)) w)) [0..<k]"

section \<open>SHA-256\<close>

text \<open>The round constants and the initial state of the standard, in decimal: the first 32 bits of
the fractional parts of the cube roots of the first 64 primes and of the square roots of the first
eight.\<close>

definition sha_k :: "32 word list" where
  "sha_k =
    [1116352408, 1899447441, 3049323471, 3921009573, 961987163, 1508970993,
     2453635748, 2870763221, 3624381080, 310598401, 607225278, 1426881987,
     1925078388, 2162078206, 2614888103, 3248222580, 3835390401, 4022224774,
     264347078, 604807628, 770255983, 1249150122, 1555081692, 1996064986,
     2554220882, 2821834349, 2952996808, 3210313671, 3336571891, 3584528711,
     113926993, 338241895, 666307205, 773529912, 1294757372, 1396182291,
     1695183700, 1986661051, 2177026350, 2456956037, 2730485921, 2820302411,
     3259730800, 3345764771, 3516065817, 3600352804, 4094571909, 275423344,
     430227734, 506948616, 659060556, 883997877, 958139571, 1322822218,
     1537002063, 1747873779, 1955562222, 2024104815, 2227730452, 2361852424,
     2428436474, 2756734187, 3204031479, 3329325298]"

definition sha_init :: "32 word list" where
  "sha_init =
    [1779033703, 3144134277, 1013904242, 2773480762, 1359893119, 2600822924,
     528734635, 1541459225]"

definition sha_pad :: "byte list \<Rightarrow> byte list" where
  "sha_pad m = m @ 0x80 # replicate ((119 - length m mod 64) mod 64) 0 @ be_bytes 8 (word_of_nat (8 * length m) :: 64 word)"

definition be_word :: "byte list \<Rightarrow> 32 word" where
  "be_word bs = foldl (\<lambda>w b. push_bit 8 w OR ucast b) 0 bs"

fun sha_schedule :: "nat \<Rightarrow> 32 word list \<Rightarrow> 32 word list" where
  "sha_schedule 0 ws = ws"
| "sha_schedule (Suc n) ws =
     (let k = length ws; a = ws ! (k - 15); b = ws ! (k - 2);
          s0 = word_rotr 7 a XOR word_rotr 18 a XOR drop_bit 3 a;
          s1 = word_rotr 17 b XOR word_rotr 19 b XOR drop_bit 10 b
      in sha_schedule n (ws @ [ws ! (k - 16) + s0 + ws ! (k - 7) + s1]))"

definition sha_round :: "32 word list \<Rightarrow> 32 word \<times> 32 word \<Rightarrow> 32 word list" where
  "sha_round st kw =
     (case (st, kw) of
        ([a, b, c, d, e, f, g, h], (k, w)) \<Rightarrow>
          (let s1 = word_rotr 6 e XOR word_rotr 11 e XOR word_rotr 25 e;
               ch = (e AND f) XOR (NOT e AND g);
               t1 = h + s1 + ch + k + w;
               s0 = word_rotr 2 a XOR word_rotr 13 a XOR word_rotr 22 a;
               maj = (a AND b) XOR (a AND c) XOR (b AND c)
           in [t1 + s0 + maj, a, b, c, d + t1, e, f, g])
      | _ \<Rightarrow> st)"

definition sha_block :: "32 word list \<Rightarrow> byte list \<Rightarrow> 32 word list" where
  "sha_block st block =
     (let ws = sha_schedule 48 (map (\<lambda>i. be_word (take 4 (drop (4 * i) block))) [0..<16])
      in map2 (+) st (foldl sha_round st (zip sha_k ws)))"

definition sha256 :: "byte list \<Rightarrow> byte list" where
  "sha256 m =
     (let p = sha_pad m
      in concat (map (\<lambda>w. be_bytes 4 w)
           (foldl (\<lambda>st i. sha_block st (take 64 (drop (64 * i) p))) sha_init [0..<length p div 64])))"

section \<open>JSON text\<close>

fun show_nat :: "nat \<Rightarrow> string" where
  "show_nat n = (if n < 10 then [digit_char n] else show_nat (n div 10) @ [digit_char (n mod 10)])"

declare show_nat.simps [simp del]

definition show_int :: "int \<Rightarrow> string" where
  "show_int i = (if i < 0 then CHR ''-'' # show_nat (nat (- i)) else show_nat (nat i))"

text \<open>\<open>utf8.DecodeRune\<close>: the length of the valid sequence at the front, if there is one.\<close>

definition in_range :: "nat \<Rightarrow> nat \<Rightarrow> byte \<Rightarrow> bool" where
  "in_range lo hi b \<longleftrightarrow> lo \<le> unat b \<and> unat b \<le> hi"

definition utf8_length :: "byte list \<Rightarrow> nat option" where
  "utf8_length bs =
     (case bs of
        [] \<Rightarrow> None
      | b0 # rest \<Rightarrow>
          if in_range 0 0x7f b0 then Some 1
          else if in_range 0xc2 0xdf b0 \<and> rest \<noteq> [] \<and> in_range 0x80 0xbf (hd rest) then Some 2
          else if in_range 0xe0 0xef b0 \<and> length rest \<ge> 2 \<and>
               in_range (if b0 = 0xe0 then 0xa0 else 0x80) (if b0 = 0xed then 0x9f else 0xbf) (rest ! 0) \<and>
               in_range 0x80 0xbf (rest ! 1) then Some 3
          else if in_range 0xf0 0xf4 b0 \<and> length rest \<ge> 3 \<and>
               in_range (if b0 = 0xf0 then 0x90 else 0x80) (if b0 = 0xf4 then 0x8f else 0xbf) (rest ! 0) \<and>
               in_range 0x80 0xbf (rest ! 1) \<and> in_range 0x80 0xbf (rest ! 2) then Some 4
          else None)"

definition json_ascii :: "char \<Rightarrow> string" where
  "json_ascii c =
     (if c = CHR 0x22 then [CHR 0x5C, CHR 0x22]
      else if c = CHR 0x5C then [CHR 0x5C, CHR 0x5C]
      else if c = CHR 0x08 then CHR 0x5C # ''b''
      else if c = CHR 0x0C then CHR 0x5C # ''f''
      else if c = CHR 0x0A then CHR 0x5C # ''n''
      else if c = CHR 0x0D then CHR 0x5C # ''r''
      else if c = CHR 0x09 then CHR 0x5C # ''t''
      else if c < CHR 0x20 \<or> c \<in> {CHR ''<'', CHR ''>'', CHR ''&''} then
        CHR 0x5C # ''u00'' @ [hex_char (of_char c div 16), hex_char (of_char c mod 16)]
      else [c])"

function json_body :: "string \<Rightarrow> string" where
  "json_body s =
     (case s of
        [] \<Rightarrow> []
      | c # cs \<Rightarrow>
          if c < CHR 0x80 then json_ascii c @ json_body cs
          else (case utf8_length (bytes_of s) of
                  None \<Rightarrow> CHR 0x5C # ''ufffd'' @ json_body cs
                | Some n \<Rightarrow>
                    (if take 3 s = [CHR 0xE2, CHR 0x80, CHR 0xA8] then CHR 0x5C # ''u2028''
                     else if take 3 s = [CHR 0xE2, CHR 0x80, CHR 0xA9] then CHR 0x5C # ''u2029''
                     else take n s) @ json_body (drop (n - 1) cs)))"
  by pat_completeness auto
termination
  by (relation "measure length") auto

declare json_body.simps [simp del]

definition json_string :: "string \<Rightarrow> string" where
  "json_string s = CHR 0x22 # json_body s @ [CHR 0x22]"

definition json_object :: "(string \<times> string) list \<Rightarrow> string" where
  "json_object kvs = ''{'' @ join_with '','' (map (\<lambda>(k, v). json_string k @ '':'' @ v) kvs) @ ''}''"

definition json_array :: "string list \<Rightarrow> string" where
  "json_array vs = ''['' @ join_with '','' vs @ '']''"

section \<open>Lengths\<close>

lemma length_hex_encode [simp]: "length (hex_encode bs) = 2 * length bs"
  by (induction bs) (simp_all add: hex_encode_def)

lemma hex_char_hex: "d < 16 \<Longrightarrow> is_lower_hex (hex_char d)"
  by (auto simp: hex_char_def is_lower_hex_def is_digit_def less_eq_char_def)

lemma hex_encode_chars: "list_all is_lower_hex (hex_encode bs)"
proof -
  have "unat b div 16 < 16 \<and> unat b mod 16 < 16" for b :: byte
  proof -
    have "unat b < 256" by (rule order_less_le_trans [OF unsigned_less]) simp
    then show ?thesis by auto
  qed
  then show ?thesis by (induction bs) (auto simp: hex_encode_def intro: hex_char_hex)
qed

lemma hex_match_encode: "length bs = n \<Longrightarrow> hex_match (2 * n) (hex_encode bs)"
  by (simp add: hex_match_def hex_encode_chars)

lemma sha_round_length: "length st = 8 \<Longrightarrow> length (sha_round st kw) = 8"
proof -
  assume "length st = 8"
  then obtain a b c d e f g h where "st = [a, b, c, d, e, f, g, h]"
    by (auto simp: numeral_eq_Suc length_Suc_conv)
  then show ?thesis by (simp add: sha_round_def Let_def split: prod.splits)
qed

lemma foldl_length: "(\<And>st x. length st = n \<Longrightarrow> length (f st x) = n) \<Longrightarrow> length st = n \<Longrightarrow> length (foldl f st xs) = n"
  by (induction xs arbitrary: st) auto

lemma sha_block_length: "length st = 8 \<Longrightarrow> length (sha_block st block) = 8"
  using foldl_length [where n = 8 and f = sha_round, OF sha_round_length] by (simp add: sha_block_def Let_def)

lemma sha256_length [simp]: "length (sha256 m) = 32"
proof -
  have len: "length (concat (map (\<lambda>w. be_bytes 4 w) ws)) = 4 * length ws" for ws :: "32 word list"
    by (induction ws) (simp_all add: be_bytes_def)
  have "length (foldl (\<lambda>st i. sha_block st (take 64 (drop (64 * i) p))) sha_init ns) = 8" for p ns
    by (rule foldl_length) (simp_all add: sha_block_length sha_init_def)
  then show ?thesis by (simp add: sha256_def Let_def len)
qed

end
