(* ===== verification/RunControl.thy ===== *)
theory RunControl
  imports GoEncoding GoTime
begin

text \<open>
  The one-shot run control that \<open>gatewayrun/control.go\<close>, \<open>resolverrun/control.go\<close> and
  \<open>httpsrun/control.go\<close> share.  The three files are one program up to the types of selections, samples and
  events and a few predicates; these are the fields of a \<open>run_profile\<close>.  A \<open>control\<close> is the Go struct
  \<open>Control\<close>.  Every section that the code runs while it holds the mutex is one function here, and every
  stretch between two sections is part of one of them; \<open>advance\<close> is the program of the goroutine that holds
  the reservation, as a machine whose steps are these atomic sections.  \<open>sys_step\<close> interleaves it with
  calls from other goroutines.

  What comes from outside is an input of a step: the reading of the clock, the error of the caller's
  context at the points where the code reads it, the results of the preflight, the executor, the auditor
  and the random source, with \<^const>\<open>None\<close> for an error or a recovered panic.  The call of the stored
  cancel function is the field \<open>ct_cancelled\<close>: from then on the context of the reserved operation has an
  error, whatever the input says.
\<close>

section \<open>Errors and parameters\<close>

datatype run_error =
  ErrUnavailable | ErrBusy | ErrCooldown | ErrConsent | ErrReview | ErrPreflight | ErrAudit | ErrClock
| ErrExecution | Canceled | DeadlineExceeded

definition RunInterval :: duration where "RunInterval = minute"
definition OperationTimeout :: duration where "OperationTimeout = 5 * second"
definition AuditTimeout :: duration where "AuditTimeout = second"

type_synonym ticket = "byte list"

text \<open>\<open>phase_info\<close> is what \<open>record\<close> is told: the state, the outcome, the reason and the sample.\<close>

record 'smp phase_info =
  ph_State :: string
  ph_Outcome :: string
  ph_Reason :: string
  ph_Sample :: "'smp option"

record ('key, 'sel, 'smp, 'ev) run_profile =
  rp_clock_ok :: "time \<Rightarrow> bool"
  rp_overlong :: "time \<Rightarrow> time \<Rightarrow> bool"
  rp_key_ok :: "'key \<Rightarrow> bool"
  rp_key_of :: "'sel \<Rightarrow> 'key"
  rp_normalize :: "'sel \<Rightarrow> 'key \<Rightarrow> time \<Rightarrow> (run_error, 'sel) result"
  rp_evidence_at :: "'sel \<Rightarrow> time"
  rp_review_expires :: "'sel \<Rightarrow> time"
  rp_route_fresh_until :: "'sel \<Rightarrow> time"
  rp_same_selection :: "'sel \<Rightarrow> 'sel \<Rightarrow> bool"
  rp_validate_sample ::
    "'smp \<Rightarrow> run_error option \<Rightarrow> 'sel \<Rightarrow> string \<Rightarrow> time \<Rightarrow> time \<Rightarrow> time \<Rightarrow> (run_error, 'smp option) result"
  rp_timeout_is_evidence :: "'smp option \<Rightarrow> bool"
  rp_event :: "'sel \<Rightarrow> string \<Rightarrow> time \<Rightarrow> 'smp phase_info \<Rightarrow> 'ev"
  rp_event_valid :: "'ev \<Rightarrow> bool"

section \<open>State\<close>

record 'sel pending_review =
  pr_ticket :: ticket
  pr_selection :: 'sel
  pr_expiresAt :: time
  pr_deadline :: time
  pr_runID :: string

record 'sel control =
  ct_hasPreflight :: bool
  ct_hasExecutor :: bool
  ct_hasAuditor :: bool
  ct_pending :: "'sel pending_review option"
  ct_busy :: bool
  ct_closed :: bool
  ct_fault :: "run_error option"
  ct_lastWall :: time
  ct_notBefore :: time
  ct_activeCancel :: bool
  ct_cancelled :: bool
  ct_drained :: bool

text \<open>What the outside answers at one step.\<close>

record ('sel, 'smp) answers =
  an_now :: time
  an_ctx_err :: "run_error option"
  an_preflight :: "'sel option"
  an_ticket_bytes :: "ticket option"
  an_run_bytes :: "byte list option"
  an_audit_ok :: bool
  an_execute :: "('smp \<times> run_error option) option"

definition New ::
  "bool \<Rightarrow> bool \<Rightarrow> bool \<Rightarrow> time \<Rightarrow> (run_error, 'sel control) result" where
  "New hasPreflight hasExecutor hasAuditor now =
     guard (\<not> nano_time now \<or> \<not> nano_time (time_add now RunInterval)) ErrClock
     (Inr \<lparr>ct_hasPreflight = hasPreflight, ct_hasExecutor = hasExecutor, ct_hasAuditor = hasAuditor,
           ct_pending = None, ct_busy = False, ct_closed = False, ct_fault = None,
           ct_lastWall = strip now, ct_notBefore = time_add now RunInterval, ct_activeCancel = False,
           ct_cancelled = False, ct_drained = False\<rparr>)"

section \<open>Locked helpers\<close>

definition cancel_active :: "'sel control \<Rightarrow> 'sel control" where
  "cancel_active c = (if ct_activeCancel c then c\<lparr>ct_cancelled := True\<rparr> else c)"

definition clockLocked ::
  "('key, 'sel, 'smp, 'ev) run_profile \<Rightarrow> time \<Rightarrow> 'sel control \<Rightarrow> (run_error, time) result \<times> 'sel control" where
  "clockLocked prof now c =
     (case ct_fault c of
        Some e \<Rightarrow> (Inl e, c)
      | None \<Rightarrow>
          if \<not> rp_clock_ok prof now \<or> before (strip now) (ct_lastWall c)
          then (Inl ErrClock, cancel_active (c\<lparr>ct_fault := Some ErrClock, ct_pending := None\<rparr>))
          else (Inr now, c\<lparr>ct_lastWall := strip now\<rparr>))"

definition availableLocked :: "'sel control \<Rightarrow> run_error option" where
  "availableLocked c =
     (case ct_fault c of
        Some e \<Rightarrow> Some e
      | None \<Rightarrow> if ct_closed c \<or> \<not> ct_hasPreflight c \<or> \<not> ct_hasExecutor c \<or> \<not> ct_hasAuditor c
                then Some ErrUnavailable else None)"

definition signalDrainedLocked :: "'sel control \<Rightarrow> 'sel control" where
  "signalDrainedLocked c = (if ct_closed c \<and> \<not> ct_busy c then c\<lparr>ct_drained := True\<rparr> else c)"

definition release :: "'sel control \<Rightarrow> 'sel control" where
  "release c = signalDrainedLocked (c\<lparr>ct_busy := False, ct_activeCancel := False\<rparr>)"

definition live :: "'sel pending_review \<Rightarrow> time \<Rightarrow> bool" where
  "live p now \<longleftrightarrow> before (strip now) (pr_expiresAt p) \<and> before now (pr_deadline p)"

definition reserve :: "'sel control \<Rightarrow> 'sel control" where
  "reserve c = c\<lparr>ct_busy := True, ct_activeCancel := True, ct_cancelled := False\<rparr>"

text \<open>The error of the reserved operation's context: the caller's, or that of the cancel call.\<close>

definition ctx_error :: "('sel, 'smp) answers \<Rightarrow> 'sel control \<Rightarrow> run_error option" where
  "ctx_error an c =
     (case an_ctx_err an of Some e \<Rightarrow> Some e | None \<Rightarrow> if ct_cancelled c then Some Canceled else None)"

section \<open>Prepare\<close>

definition prepare_reserve ::
  "('key, 'sel, 'smp, 'ev) run_profile \<Rightarrow> 'key \<Rightarrow> ('sel, 'smp) answers \<Rightarrow> 'sel control \<Rightarrow>
   (run_error, time) result \<times> 'sel control" where
  "prepare_reserve prof key an c =
     (case an_ctx_err an of
        Some e \<Rightarrow> (Inl e, c)
      | None \<Rightarrow>
     if \<not> rp_key_ok prof key then (Inl ErrPreflight, c)
     else (case availableLocked c of
        Some e \<Rightarrow> (Inl e, c)
      | None \<Rightarrow>
     (case clockLocked prof (an_now an) c of
        (Inl e, c) \<Rightarrow> (Inl e, c)
      | (Inr start, c) \<Rightarrow>
          if ct_busy c then (Inl ErrBusy, c)
          else if before start (ct_notBefore c) then (Inl ErrCooldown, c)
          else if (case ct_pending c of None \<Rightarrow> False | Some p \<Rightarrow> live p start) then (Inl ErrBusy, c)
          else (Inr start, reserve (c\<lparr>ct_pending := None\<rparr>)))))"

text \<open>
  The preflight and the two reads from the random source, outside the mutex.  The reads fill arrays of 32
  and 16 bytes.
\<close>

definition byte_array :: "nat \<Rightarrow> byte list \<Rightarrow> byte list" where
  "byte_array n bs = take n (bs @ replicate n 0)"

definition prepare_draw ::
  "('sel, 'smp) answers \<Rightarrow> (run_error, 'sel \<times> ticket \<times> byte list) result" where
  "prepare_draw an =
     (case an_preflight an of
        None \<Rightarrow> Inl ErrPreflight
      | Some selected \<Rightarrow>
     (case an_ticket_bytes an of
        None \<Rightarrow> Inl ErrUnavailable
      | Some ticket \<Rightarrow>
     (case an_run_bytes an of
        None \<Rightarrow> Inl ErrUnavailable
      | Some run \<Rightarrow>
          if byte_array 32 ticket = replicate 32 0 then Inl ErrUnavailable
          else Inr (selected, byte_array 32 ticket, byte_array 16 run))))"

definition prepare_commit ::
  "('key, 'sel, 'smp, 'ev) run_profile \<Rightarrow> 'key \<Rightarrow> time \<Rightarrow> 'sel \<times> ticket \<times> byte list \<Rightarrow> ('sel, 'smp) answers \<Rightarrow>
   'sel control \<Rightarrow> (run_error, 'sel pending_review) result \<times> 'sel control" where
  "prepare_commit prof key start drawn an c =
     (case clockLocked prof (an_now an) c of
        (Inl e, c) \<Rightarrow> (Inl e, c)
      | (Inr now, c) \<Rightarrow>
     (case availableLocked c of
        Some e \<Rightarrow> (Inl e, c)
      | None \<Rightarrow>
     (case ctx_error an c of
        Some e \<Rightarrow> (Inl e, c)
      | None \<Rightarrow>
     if rp_overlong prof start now then (Inl ErrPreflight, c)
     else (case drawn of (selected0, ticket, run) \<Rightarrow>
     (case rp_normalize prof selected0 key (strip now) of
        Inl _ \<Rightarrow> (Inl ErrPreflight, c)
      | Inr selected \<Rightarrow>
          if before (rp_evidence_at prof selected) (strip start) then (Inl ErrPreflight, c)
          else
            (let expires = (if before (rp_route_fresh_until prof selected) (rp_review_expires prof selected)
                            then rp_route_fresh_until prof selected else rp_review_expires prof selected);
                 p = \<lparr>pr_ticket = ticket, pr_selection = selected, pr_expiresAt = expires,
                      pr_deadline = time_add now (time_sub expires (strip now)),
                      pr_runID = hex_encode run\<rparr>
             in (Inr p, c\<lparr>ct_pending := Some p\<rparr>)))))))"

section \<open>Run\<close>

definition run_reserve ::
  "('key, 'sel, 'smp, 'ev) run_profile \<Rightarrow> ticket \<Rightarrow> bool \<Rightarrow> ('sel, 'smp) answers \<Rightarrow> 'sel control \<Rightarrow>
   (run_error, 'sel pending_review \<times> time) result \<times> 'sel control" where
  "run_reserve prof ticket consent an c =
     (if \<not> consent then (Inl ErrConsent, c)
      else (case availableLocked c of
        Some e \<Rightarrow> (Inl e, c)
      | None \<Rightarrow>
     (case clockLocked prof (an_now an) c of
        (Inl e, c) \<Rightarrow> (Inl e, c)
      | (Inr start, c) \<Rightarrow>
     (case ct_pending c of
        None \<Rightarrow> (Inl ErrReview, c)
      | Some approved \<Rightarrow>
          if ticket \<noteq> pr_ticket approved then (Inl ErrReview, c)
          else
            (let c = c\<lparr>ct_pending := None\<rparr> in
             if \<not> live approved start then (Inl ErrReview, c)
             else if ct_busy c \<or> before start (ct_notBefore c) then (Inl ErrBusy, c)
             else (Inr (approved, start), reserve (c\<lparr>ct_notBefore := time_add start RunInterval\<rparr>)))))))"

text \<open>
  The phases of \<open>record\<close>, with what follows a durable audit: the revalidation after the authorization, the
  execution after the admission, the return after the terminal event.
\<close>

datatype ('sel, 'smp) phase =
  Authorizing
| Admitting 'sel
| Finishing string string "'smp option" "run_error option"

primrec phase_of :: "('sel, 'smp) phase \<Rightarrow> 'smp phase_info" where
  "phase_of Authorizing = \<lparr>ph_State = ''authorized'', ph_Outcome = [], ph_Reason = [], ph_Sample = None\<rparr>"
| "phase_of (Admitting _) = \<lparr>ph_State = ''admitted'', ph_Outcome = [], ph_Reason = [], ph_Sample = None\<rparr>"
| "phase_of (Finishing outcome reason measured _) =
     \<lparr>ph_State = ''finished'', ph_Outcome = outcome, ph_Reason = reason, ph_Sample = measured\<rparr>"

record 'smp run_result =
  rr_RunID :: string
  rr_Outcome :: string
  rr_Sample :: "'smp option"

datatype ('sel, 'smp) returned =
  PrepareReturned "(run_error, 'sel pending_review) result"
| RunReturned "'smp run_result option" "run_error option"

text \<open>Where the goroutine that holds the reservation is.\<close>

datatype ('key, 'sel, 'smp) op =
  PreparePreflight 'key time
| PrepareCommit 'key time "'sel \<times> ticket \<times> byte list"
| RunStart "'sel pending_review" time
| RecordClock "'sel pending_review" time "('sel, 'smp) phase"
| RecordAudit "'sel pending_review" time "('sel, 'smp) phase" time
| RecordFault "'sel pending_review" time
| RunPreflight "'sel pending_review" time
| RunRevalidate "'sel pending_review" time 'sel
| RunHandover "'sel pending_review" time 'sel
| RunExecute "'sel pending_review" time 'sel time
| RunValidate "'sel pending_review" time 'sel time 'smp "run_error option"
| Releasing "('sel, 'smp) returned"

text \<open>What an operation leaves behind for others to see.\<close>

datatype ('sel, 'smp, 'ev) item =
  Issued "'sel pending_review"
| Consumed "'sel pending_review" time
| Audited 'ev
| Executed "'sel pending_review" 'sel
| Returned_item "('sel, 'smp) returned"

definition finish ::
  "'sel pending_review \<Rightarrow> time \<Rightarrow> string \<Rightarrow> string \<Rightarrow> 'smp option \<Rightarrow> run_error option \<Rightarrow> ('key, 'sel, 'smp) op" where
  "finish approved start outcome reason measured cause =
     RecordClock approved start (Finishing outcome reason measured cause)"

definition run_revalidate ::
  "('key, 'sel, 'smp, 'ev) run_profile \<Rightarrow> 'sel pending_review \<Rightarrow> time \<Rightarrow> 'sel \<Rightarrow> time \<Rightarrow> ('key, 'sel, 'smp) op" where
  "run_revalidate prof approved start fresh0 now =
     (if \<not> live approved now \<or> rp_overlong prof start now
      then finish approved start ''blocked'' ''review-expired'' None (Some ErrReview)
      else (case rp_normalize prof fresh0 (rp_key_of prof (pr_selection approved)) (strip now) of
        Inl _ \<Rightarrow> finish approved start ''blocked'' ''preflight-unavailable'' None (Some ErrPreflight)
      | Inr fresh \<Rightarrow>
          if before (rp_evidence_at prof fresh) (strip start)
          then finish approved start ''blocked'' ''preflight-unavailable'' None (Some ErrPreflight)
          else if \<not> rp_same_selection prof (pr_selection approved) fresh
          then finish approved start ''blocked'' ''selection-changed'' None (Some ErrPreflight)
          else RecordClock approved start (Admitting fresh)))"

definition run_handover ::
  "('key, 'sel, 'smp, 'ev) run_profile \<Rightarrow> 'sel pending_review \<Rightarrow> time \<Rightarrow> 'sel \<Rightarrow> time \<Rightarrow> run_error option \<Rightarrow>
   ('key, 'sel, 'smp) op" where
  "run_handover prof approved start fresh now ctx =
     (case ctx of
        Some e \<Rightarrow> finish approved start ''canceled'' ''canceled'' None (Some e)
      | None \<Rightarrow>
          if \<not> live approved now \<or> rp_overlong prof start now
          then finish approved start ''blocked'' ''review-expired'' None (Some ErrReview)
          else RunExecute approved start fresh (strip now))"

definition run_validate ::
  "('key, 'sel, 'smp, 'ev) run_profile \<Rightarrow> 'sel pending_review \<Rightarrow> time \<Rightarrow> 'sel \<Rightarrow> time \<Rightarrow> 'smp \<Rightarrow> run_error option \<Rightarrow>
   time \<Rightarrow> run_error option \<Rightarrow> ('key, 'sel, 'smp) op" where
  "run_validate prof approved start fresh executionStarted sample executionErr now ctx =
     (case rp_validate_sample prof sample executionErr fresh (pr_runID approved) executionStarted (strip now)
             (pr_expiresAt approved) of
        Inl _ \<Rightarrow> finish approved start ''failed'' ''measurement-invalid'' None (Some ErrExecution)
      | Inr measured \<Rightarrow>
     (case ctx of
        Some e \<Rightarrow> finish approved start ''canceled'' ''canceled'' measured (Some e)
      | None \<Rightarrow>
          if \<not> live approved now \<or> rp_overlong prof start now
          then finish approved start ''canceled'' ''canceled'' measured (Some DeadlineExceeded)
          else if executionErr = Some Canceled
          then finish approved start ''canceled'' ''canceled'' measured (Some Canceled)
          else if executionErr = Some DeadlineExceeded \<and> rp_timeout_is_evidence prof measured
          then finish approved start ''completed'' [] measured None
          else if executionErr = Some DeadlineExceeded
          then finish approved start ''canceled'' ''canceled'' measured (Some DeadlineExceeded)
          else if executionErr \<noteq> None
          then finish approved start ''failed'' ''execution-error'' measured (Some ErrExecution)
          else finish approved start ''completed'' [] measured None))"

definition clock_then ::
  "('key, 'sel, 'smp, 'ev) run_profile \<Rightarrow> ('sel, 'smp) answers \<Rightarrow> 'sel control \<Rightarrow>
   (time \<Rightarrow> 'sel control \<Rightarrow> ('key, 'sel, 'smp) op) \<Rightarrow> 'sel control \<times> ('key, 'sel, 'smp) op" where
  "clock_then prof an c k =
     (case clockLocked prof (an_now an) c of
        (Inl e, c) \<Rightarrow> (c, Releasing (RunReturned None (Some e)))
      | (Inr now, c) \<Rightarrow> (c, k now c))"

text \<open>
  After a durable audit.  The terminal event is recorded under its own cleanup context, whose error is the
  caller's input only; the other two are recorded under the operation's context.
\<close>

definition audit_ctx_error ::
  "('sel, 'smp) phase \<Rightarrow> ('sel, 'smp) answers \<Rightarrow> 'sel control \<Rightarrow> run_error option" where
  "audit_ctx_error ph an c = (case ph of Finishing _ _ _ _ \<Rightarrow> an_ctx_err an | _ \<Rightarrow> ctx_error an c)"

definition after_audit ::
  "'sel pending_review \<Rightarrow> time \<Rightarrow> ('sel, 'smp) phase \<Rightarrow> ('key, 'sel, 'smp) op" where
  "after_audit approved start ph =
     (case ph of
        Authorizing \<Rightarrow> RunPreflight approved start
      | Admitting fresh \<Rightarrow> RunHandover approved start fresh
      | Finishing outcome reason measured cause \<Rightarrow>
          Releasing (RunReturned
            (Some \<lparr>rr_RunID = pr_runID approved, rr_Outcome = outcome, rr_Sample = measured\<rparr>) cause))"

definition record_fault :: "'sel control \<Rightarrow> 'sel control" where
  "record_fault c = cancel_active (c\<lparr>ct_fault := Some ErrAudit, ct_pending := None\<rparr>)"

text \<open>One atomic step of the goroutine that holds the reservation.\<close>

fun advance ::
  "('key, 'sel, 'smp, 'ev) run_profile \<Rightarrow> ('sel, 'smp) answers \<Rightarrow> 'sel control \<Rightarrow> ('key, 'sel, 'smp) op \<Rightarrow>
   'sel control \<times> ('key, 'sel, 'smp) op option \<times> ('sel, 'smp, 'ev) item list" where
  "advance prof an c (PreparePreflight key start) =
     (case prepare_draw an of
        Inl e \<Rightarrow> (c, Some (Releasing (PrepareReturned (Inl e))), [])
      | Inr drawn \<Rightarrow> (c, Some (PrepareCommit key start drawn), []))"
| "advance prof an c (PrepareCommit key start drawn) =
     (case prepare_commit prof key start drawn an c of
        (Inl e, c') \<Rightarrow> (c', Some (Releasing (PrepareReturned (Inl e))), [])
      | (Inr p, c') \<Rightarrow> (c', Some (Releasing (PrepareReturned (Inr p))), [Issued p]))"
| "advance prof an c (RunStart p start) =
     (case ctx_error an c of
        Some e \<Rightarrow> (c, Some (Releasing (RunReturned None (Some e))), [])
      | None \<Rightarrow> (c, Some (RecordClock p start Authorizing), []))"
| "advance prof an c (RecordClock p start ph) =
     (case clock_then prof an c (\<lambda>now c. RecordAudit p start ph now) of (c', op) \<Rightarrow> (c', Some op, []))"
| "advance prof an c (RecordAudit p start ph now) =
     (let ev = rp_event prof (pr_selection p) (pr_runID p) (strip now) (phase_of ph) in
      if \<not> rp_event_valid prof ev \<or> \<not> an_audit_ok an then (c, Some (RecordFault p start), [])
      else if audit_ctx_error ph an c \<noteq> None then (c, Some (RecordFault p start), [Audited ev])
      else (c, Some (after_audit p start ph), [Audited ev]))"
| "advance prof an c (RecordFault p start) =
     (record_fault c, Some (Releasing (RunReturned None (Some ErrAudit))), [])"
| "advance prof an c (RunPreflight p start) =
     (case ctx_error an c of
        Some e \<Rightarrow> (c, Some (finish p start ''canceled'' ''canceled'' None (Some e)), [])
      | None \<Rightarrow>
     (case an_preflight an of
        None \<Rightarrow> (c, Some (finish p start ''blocked'' ''preflight-unavailable'' None (Some ErrPreflight)), [])
      | Some fresh \<Rightarrow> (c, Some (RunRevalidate p start fresh), [])))"
| "advance prof an c (RunRevalidate p start fresh) =
     (case clock_then prof an c (\<lambda>now c. run_revalidate prof p start fresh now) of (c', op) \<Rightarrow> (c', Some op, []))"
| "advance prof an c (RunHandover p start fresh) =
     (case clock_then prof an c (\<lambda>now c. run_handover prof p start fresh now (ctx_error an c)) of
        (c', op) \<Rightarrow> (c', Some op, []))"
| "advance prof an c (RunExecute p start fresh executionStarted) =
     (case an_execute an of
        None \<Rightarrow> (c, Some (finish p start ''indeterminate'' ''execution-panic'' None (Some ErrExecution)),
                 [Executed p fresh])
      | Some (sample, err) \<Rightarrow>
          (c, Some (RunValidate p start fresh executionStarted sample err), [Executed p fresh]))"
| "advance prof an c (RunValidate p start fresh executionStarted sample err) =
     (case clock_then prof an c
             (\<lambda>now c. run_validate prof p start fresh executionStarted sample err now (ctx_error an c)) of
        (c', op) \<Rightarrow> (c', Some op, []))"
| "advance prof an c (Releasing r) = (release c, None, [Returned_item r])"

section \<open>Close, Shutdown and Discard\<close>

definition Close :: "'sel control \<Rightarrow> 'sel control" where
  "Close c = signalDrainedLocked (cancel_active (c\<lparr>ct_closed := True, ct_pending := None\<rparr>))"

text \<open>\<open>Shutdown\<close> closes, then waits for the drain signal: \<^const>\<open>None\<close> while it would still wait.\<close>

definition shutdown_poll :: "run_error option \<Rightarrow> 'sel control \<Rightarrow> (run_error, unit) result option" where
  "shutdown_poll ctx c =
     (if ct_drained c then Some (Inr ()) else case ctx of Some e \<Rightarrow> Some (Inl e) | None \<Rightarrow> None)"

definition Discard :: "ticket \<Rightarrow> 'sel control \<Rightarrow> 'sel control" where
  "Discard ticket c =
     (case ct_pending c of
        None \<Rightarrow> c
      | Some p \<Rightarrow> if ticket = pr_ticket p then c\<lparr>ct_pending := None\<rparr> else c)"

section \<open>The whole system\<close>

record ('key, 'sel, 'smp, 'ev) sys =
  sy_control :: "'sel control"
  sy_active :: "('key, 'sel, 'smp) op option"
  sy_trace :: "('sel, 'smp, 'ev) item list"

datatype ('key, 'sel, 'smp) input =
  CallPrepare 'key "('sel, 'smp) answers"
| CallRun ticket bool "('sel, 'smp) answers"
| Advance "('sel, 'smp) answers"
| CallClose
| CallDiscard ticket

fun sys_step ::
  "('key, 'sel, 'smp, 'ev) run_profile \<Rightarrow> ('key, 'sel, 'smp) input \<Rightarrow> ('key, 'sel, 'smp, 'ev) sys \<Rightarrow>
   ('key, 'sel, 'smp, 'ev) sys" where
  "sys_step prof (CallPrepare key an) s =
     (case prepare_reserve prof key an (sy_control s) of
        (Inl _, c) \<Rightarrow> s\<lparr>sy_control := c\<rparr>
      | (Inr start, c) \<Rightarrow> s\<lparr>sy_control := c, sy_active := Some (PreparePreflight key start)\<rparr>)"
| "sys_step prof (CallRun ticket consent an) s =
     (case run_reserve prof ticket consent an (sy_control s) of
        (Inl _, c) \<Rightarrow> s\<lparr>sy_control := c\<rparr>
      | (Inr (p, start), c) \<Rightarrow>
          s\<lparr>sy_control := c, sy_active := Some (RunStart p start), sy_trace := sy_trace s @ [Consumed p start]\<rparr>)"
| "sys_step prof (Advance an) s =
     (case sy_active s of
        None \<Rightarrow> s
      | Some op \<Rightarrow>
          (case advance prof an (sy_control s) op of (c, op', items) \<Rightarrow>
             s\<lparr>sy_control := c, sy_active := op', sy_trace := sy_trace s @ items\<rparr>))"
| "sys_step prof CallClose s = s\<lparr>sy_control := Close (sy_control s)\<rparr>"
| "sys_step prof (CallDiscard ticket) s = s\<lparr>sy_control := Discard ticket (sy_control s)\<rparr>"

definition start_sys :: "'sel control \<Rightarrow> ('key, 'sel, 'smp, 'ev) sys" where
  "start_sys c = \<lparr>sy_control = c, sy_active = None, sy_trace = []\<rparr>"

inductive reaches ::
  "('key, 'sel, 'smp, 'ev) run_profile \<Rightarrow> ('key, 'sel, 'smp, 'ev) sys \<Rightarrow> ('key, 'sel, 'smp, 'ev) sys \<Rightarrow> bool"
  for prof where
  here: "reaches prof s s"
| more: "reaches prof s t \<Longrightarrow> reaches prof s (sys_step prof inp t)"

text \<open>Reachable from a control constructed at the given time.\<close>

definition reachable ::
  "('key, 'sel, 'smp, 'ev) run_profile \<Rightarrow> time \<Rightarrow> ('key, 'sel, 'smp, 'ev) sys \<Rightarrow> bool" where
  "reachable prof created s \<longleftrightarrow>
     (\<exists>a b d c. New a b d created = Inr c \<and> reaches prof (start_sys c) s)"

end
