(* ===== verification/RunControlProps.thy ===== *)
theory RunControlProps
  imports RunControl
begin

text \<open>
  The invariant of the run control and what follows from it.  The history of a control (reviews issued and
  consumed, events recorded, executions, results) is justified entry by entry; closing and faults last; a
  reserved operation ends after at most fourteen of its own steps, whatever other goroutines do.
\<close>

section \<open>What the sections change\<close>

lemma clockLocked_cases:
  obtains (fault) e where "ct_fault c = Some e" "clockLocked prof now c = (Inl e, c)"
  | (bad) "ct_fault c = None" "clockLocked prof now c =
      (Inl ErrClock, cancel_active (c\<lparr>ct_fault := Some ErrClock, ct_pending := None\<rparr>))"
  | (good) "ct_fault c = None" "clockLocked prof now c = (Inr now, c\<lparr>ct_lastWall := strip now\<rparr>)"
  by (cases "ct_fault c"; cases "\<not> rp_clock_ok prof now \<or> before (strip now) (ct_lastWall c)")
     (auto simp: clockLocked_def)

lemma cancel_active_simps [simp]:
  "ct_pending (cancel_active c) = ct_pending c" "ct_busy (cancel_active c) = ct_busy c"
  "ct_closed (cancel_active c) = ct_closed c" "ct_fault (cancel_active c) = ct_fault c"
  "ct_lastWall (cancel_active c) = ct_lastWall c" "ct_notBefore (cancel_active c) = ct_notBefore c"
  "ct_activeCancel (cancel_active c) = ct_activeCancel c" "ct_drained (cancel_active c) = ct_drained c"
  by (simp_all add: cancel_active_def)

lemma signalDrained_simps [simp]:
  "ct_pending (signalDrainedLocked c) = ct_pending c" "ct_busy (signalDrainedLocked c) = ct_busy c"
  "ct_closed (signalDrainedLocked c) = ct_closed c" "ct_fault (signalDrainedLocked c) = ct_fault c"
  "ct_notBefore (signalDrainedLocked c) = ct_notBefore c"
  "ct_activeCancel (signalDrainedLocked c) = ct_activeCancel c"
  "ct_drained (signalDrainedLocked c) \<longleftrightarrow> ct_drained c \<or> (ct_closed c \<and> \<not> ct_busy c)"
  by (auto simp: signalDrainedLocked_def)

lemma reserve_simps [simp]:
  "ct_pending (reserve c) = ct_pending c" "ct_busy (reserve c)" "ct_activeCancel (reserve c)"
  "ct_closed (reserve c) = ct_closed c" "ct_fault (reserve c) = ct_fault c"
  "ct_notBefore (reserve c) = ct_notBefore c" "ct_drained (reserve c) = ct_drained c"
  by (simp_all add: reserve_def)

lemma availableLocked_None: "availableLocked c = None \<longleftrightarrow>
    ct_fault c = None \<and> \<not> ct_closed c \<and> ct_hasPreflight c \<and> ct_hasExecutor c \<and> ct_hasAuditor c"
  by (auto simp: availableLocked_def split: option.splits if_splits)

text \<open>
  What no section but a reservation or a release changes: the reservation, the closing, the drain signal and
  the cooldown; faults only appear, and a pending review only disappears.
\<close>

definition quiet_change :: "'sel control \<Rightarrow> 'sel control \<Rightarrow> bool" where
  "quiet_change c c' \<longleftrightarrow> ct_busy c' = ct_busy c \<and> ct_closed c' = ct_closed c \<and> ct_drained c' = ct_drained c \<and>
     ct_activeCancel c' = ct_activeCancel c \<and> ct_notBefore c' = ct_notBefore c \<and>
     (ct_fault c \<noteq> None \<longrightarrow> ct_fault c' \<noteq> None) \<and> (ct_pending c' = ct_pending c \<or> ct_pending c' = None) \<and>
     (ct_fault c' \<noteq> None \<longrightarrow> ct_fault c \<noteq> None \<or> ct_pending c' = None)"

lemma quiet_refl [simp]: "quiet_change c c"
  by (auto simp: quiet_change_def)

lemma quiet_trans: "quiet_change a b \<Longrightarrow> quiet_change b c \<Longrightarrow> quiet_change a c"
  by (auto simp: quiet_change_def)

lemma clockLocked_quiet: "clockLocked prof now c = (r, c') \<Longrightarrow> quiet_change c c'"
  by (cases rule: clockLocked_cases [of c prof now]) (auto simp: quiet_change_def)

lemma clockLocked_Inr:
  "clockLocked prof now c = (Inr t, c') \<Longrightarrow> ct_fault c = None \<and> t = now \<and> c' = c\<lparr>ct_lastWall := strip now\<rparr>"
  by (cases rule: clockLocked_cases [of c prof now]) auto

lemma clock_then_quiet: "clock_then prof an c k = (c', op) \<Longrightarrow> quiet_change c c'"
  by (auto simp: clock_then_def split: prod.splits sum.splits dest: clockLocked_quiet)

lemma clock_then_cases:
  assumes "clock_then prof an c k = (c', op)"
  obtains (stop) e where "op = Releasing (RunReturned None (Some e))"
  | (go) now where "ct_fault c = None" "c' = c\<lparr>ct_lastWall := strip now\<rparr>" "op = k now c'"
  using assms by (auto simp: clock_then_def split: prod.splits sum.splits dest: clockLocked_Inr)

lemma record_fault_quiet: "quiet_change c (record_fault c)"
  by (simp add: record_fault_def quiet_change_def)

lemma Discard_quiet: "quiet_change c (Discard ticket c)"
  by (auto simp: Discard_def quiet_change_def split: option.splits)

lemma quiet_lastWall [simp]: "quiet_change c (c\<lparr>ct_lastWall := w\<rparr>)"
  by (auto simp: quiet_change_def)

lemma quiet_drop_pending [simp]: "quiet_change c (c\<lparr>ct_lastWall := w, ct_pending := None\<rparr>)"
  by (auto simp: quiet_change_def)

lemma prepare_reserve_cases:
  assumes "prepare_reserve prof key an c = (r, c')"
  obtains (err) e where "r = Inl e" "quiet_change c c'"
  | (ok) start w where "r = Inr start" "c' = reserve (c\<lparr>ct_lastWall := w, ct_pending := None\<rparr>)"
      "\<not> ct_busy c" "ct_fault c = None" "\<not> ct_closed c" "\<not> before start (ct_notBefore c)"
proof (cases "an_ctx_err an = None \<and> rp_key_ok prof key \<and> availableLocked c = None")
  case False
  then have "\<exists>e. r = Inl e \<and> c' = c"
    using assms by (auto simp: prepare_reserve_def split: option.splits if_splits)
  then show thesis using err by auto
next
  case True
  then have avail: "\<not> ct_closed c" by (simp add: availableLocked_None)
  obtain r0 c0 where clk: "clockLocked prof (an_now an) c = (r0, c0)" by fastforce
  show thesis
  proof (cases r0)
    case (Inl e)
    then show thesis using assms True clk clockLocked_quiet [OF clk] err by (auto simp: prepare_reserve_def)
  next
    case (Inr start)
    then have c0: "c0 = c\<lparr>ct_lastWall := strip (an_now an)\<rparr>" "ct_fault c = None"
      using clockLocked_Inr clk by blast+
    have "(\<exists>e. r = Inl e \<and> c' = c0) \<or> (r = Inr start \<and> c' = reserve (c0\<lparr>ct_pending := None\<rparr>) \<and> \<not> ct_busy c \<and>
        \<not> before start (ct_notBefore c))"
      using assms True clk Inr c0(1) by (auto simp: prepare_reserve_def split: if_splits)
    then show thesis using err ok c0 avail by auto
  qed
qed

lemma run_reserve_cases:
  assumes "run_reserve prof ticket consent an c = (r, c')"
  obtains (err) e where "r = Inl e" "quiet_change c c'"
  | (ok) p start w where "r = Inr (p, start)" "ct_pending c = Some p" "pr_ticket p = ticket" "consent"
      "c' = reserve (c\<lparr>ct_lastWall := w, ct_pending := None, ct_notBefore := time_add start RunInterval\<rparr>)"
      "\<not> ct_busy c" "ct_fault c = None" "\<not> ct_closed c" "\<not> before start (ct_notBefore c)" "live p start"
proof (cases "consent \<and> availableLocked c = None")
  case False
  then have "\<exists>e. r = Inl e \<and> c' = c"
    using assms by (auto simp: run_reserve_def split: option.splits if_splits)
  then show thesis using err by auto
next
  case True
  then have avail: "\<not> ct_closed c" by (simp add: availableLocked_None)
  obtain r0 c0 where clk: "clockLocked prof (an_now an) c = (r0, c0)" by fastforce
  show thesis
  proof (cases r0)
    case (Inl e)
    then show thesis using assms True clk clockLocked_quiet [OF clk] err by (auto simp: run_reserve_def)
  next
    case (Inr start)
    then have c0: "c0 = c\<lparr>ct_lastWall := strip (an_now an)\<rparr>" "ct_fault c = None"
      using clockLocked_Inr clk by blast+
    have "(\<exists>e. r = Inl e \<and> (c' = c0 \<or> c' = c0\<lparr>ct_pending := None\<rparr>)) \<or>
        (\<exists>p. r = Inr (p, start) \<and> ct_pending c = Some p \<and> pr_ticket p = ticket \<and> live p start \<and> \<not> ct_busy c \<and>
          c' = reserve (c0\<lparr>ct_pending := None, ct_notBefore := time_add start RunInterval\<rparr>) \<and>
          \<not> before start (ct_notBefore c))"
      using assms True clk Inr c0(1)
      by (cases "ct_pending c") (auto simp: run_reserve_def Let_def split: if_splits)
    then show thesis using err ok c0 avail True by auto
  qed
qed

lemma prepare_commit_cases:
  assumes "prepare_commit prof key start drawn an c = (r, c')"
  obtains (err) e where "r = Inl e" "quiet_change c c'"
  | (ok) p w where "r = Inr p" "c' = c\<lparr>ct_lastWall := w, ct_pending := Some p\<rparr>" "ct_fault c = None" "\<not> ct_closed c"
proof -
  obtain r0 c0 where clk: "clockLocked prof (an_now an) c = (r0, c0)" by fastforce
  obtain s t b where drawn: "drawn = (s, t, b)" by (cases drawn)
  show thesis
  proof (cases r0)
    case (Inl e)
    then show thesis using assms clk clockLocked_quiet [OF clk] err by (auto simp: prepare_commit_def)
  next
    case (Inr now)
    then have c0: "c0 = c\<lparr>ct_lastWall := strip (an_now an)\<rparr>" "ct_fault c = None"
      using clockLocked_Inr clk by blast+
    show thesis
    proof (cases "availableLocked c0 = None \<and> ctx_error an c0 = None \<and> \<not> rp_overlong prof start now")
      case False
      then have "\<exists>e. r = Inl e \<and> c' = c0"
        using assms clk Inr by (auto simp: prepare_commit_def split: option.splits if_splits)
      then show thesis using err c0 by auto
    next
      case True
      then have closed: "\<not> ct_closed c" using c0 by (simp add: availableLocked_None)
      have "(\<exists>e. r = Inl e \<and> c' = c0) \<or> (\<exists>p. r = Inr p \<and> c' = c0\<lparr>ct_pending := Some p\<rparr>)"
        using assms clk Inr True
        by (cases "rp_normalize prof s key (strip now)")
           (simp_all add: prepare_commit_def drawn Let_def split: if_splits, auto)
      then show thesis using err ok c0 closed by auto
    qed
  qed
qed


section \<open>Histories\<close>

text \<open>A history in which every entry is justified by what precedes it.\<close>

definition history_ok :: "('a list \<Rightarrow> 'a \<Rightarrow> bool) \<Rightarrow> 'a list \<Rightarrow> bool" where
  "history_ok J tr \<longleftrightarrow> (\<forall>pre x post. tr = pre @ x # post \<longrightarrow> J pre x)"

lemma history_ok_Nil [simp]: "history_ok J []"
  by (simp add: history_ok_def)

lemma history_ok_snoc [simp]: "history_ok J (tr @ [x]) \<longleftrightarrow> history_ok J tr \<and> J tr x"
proof
  assume h: "history_ok J (tr @ [x])"
  then have "J tr x" by (auto simp: history_ok_def)
  moreover have "J pre y" if "tr = pre @ y # post" for pre y post
    using h that unfolding history_ok_def by (metis append.assoc append_Cons)
  ultimately show "history_ok J tr \<and> J tr x" by (simp add: history_ok_def)
next
  assume h: "history_ok J tr \<and> J tr x"
  show "history_ok J (tr @ [x])"
    unfolding history_ok_def
  proof (intro allI impI)
    fix pre y post
    assume eq: "tr @ [x] = pre @ y # post"
    show "J pre y"
    proof (cases post rule: rev_cases)
      case Nil
      then show ?thesis using eq h by auto
    next
      case (snoc post' z)
      then have "tr = pre @ y # post'" using eq by auto
      then show ?thesis using h by (auto simp: history_ok_def)
    qed
  qed
qed

lemma history_okD: "history_ok J tr \<Longrightarrow> tr = pre @ x # post \<Longrightarrow> J pre x"
  by (simp add: history_ok_def)

fun is_consumed :: "('sel, 'smp, 'ev) item \<Rightarrow> bool" where
  "is_consumed (Consumed _ _) = True"
| "is_consumed _ = False"

fun is_issued :: "('sel, 'smp, 'ev) item \<Rightarrow> bool" where
  "is_issued (Issued _) = True"
| "is_issued _ = False"

fun is_executed :: "('sel, 'smp, 'ev) item \<Rightarrow> bool" where
  "is_executed (Executed _ _) = True"
| "is_executed _ = False"

text \<open>The review that was issued last and not consumed since.\<close>

definition outstanding :: "('sel, 'smp, 'ev) item list \<Rightarrow> 'sel pending_review \<Rightarrow> bool" where
  "outstanding tr p \<longleftrightarrow> (\<exists>a b. tr = a @ Issued p # b \<and> (\<forall>x\<in>set b. \<not> is_consumed x \<and> \<not> is_issued x))"

definition last_start :: "('sel, 'smp, 'ev) item list \<Rightarrow> time option" where
  "last_start tr = foldl (\<lambda>acc x. case x of Consumed _ start \<Rightarrow> Some start | _ \<Rightarrow> acc) None tr"

lemma last_start_snoc [simp]:
  "last_start (tr @ [x]) = (case x of Consumed _ start \<Rightarrow> Some start | _ \<Rightarrow> last_start tr)"
  by (cases x) (simp_all add: last_start_def)

lemma last_start_Nil [simp]: "last_start [] = None"
  by (simp add: last_start_def)

lemma last_start_other: "\<not> is_consumed x \<Longrightarrow> last_start (tr @ [x]) = last_start tr"
  by (cases x) simp_all

lemma outstanding_snoc:
  "outstanding tr p \<Longrightarrow> \<not> is_consumed x \<Longrightarrow> \<not> is_issued x \<Longrightarrow> outstanding (tr @ [x]) p"
  by (force simp: outstanding_def)

lemma outstanding_issued [simp]: "outstanding (tr @ [Issued p]) p"
  by (force simp: outstanding_def)

definition cooldown_end :: "time \<Rightarrow> ('sel, 'smp, 'ev) item list \<Rightarrow> time" where
  "cooldown_end created tr = time_add (case last_start tr of None \<Rightarrow> created | Some start \<Rightarrow> start) RunInterval"

definition phase_event ::
  "('key, 'sel, 'smp, 'ev) run_profile \<Rightarrow> 'sel pending_review \<Rightarrow> time \<Rightarrow> ('sel, 'smp) phase \<Rightarrow> 'ev" where
  "phase_event prof p now ph = rp_event prof (pr_selection p) (pr_runID p) (strip now) (phase_of ph)"

text \<open>The end of the history while a run makes its way to the executor.\<close>

definition consumed_now where
  "consumed_now p start tr \<longleftrightarrow> (\<exists>pre. tr = pre @ [Consumed p start])"

definition authorized_now where
  "authorized_now prof p start tr \<longleftrightarrow>
     (\<exists>pre t1. tr = pre @ [Consumed p start, Audited (phase_event prof p t1 Authorizing)])"

definition admitted_now where
  "admitted_now prof p start fresh tr \<longleftrightarrow>
     (\<exists>pre t1 t2. tr = pre @ [Consumed p start, Audited (phase_event prof p t1 Authorizing),
        Audited (phase_event prof p t2 (Admitting fresh))])"

text \<open>The terminal event of the run whose result is being returned has just been recorded.\<close>

definition confirmed_now where
  "confirmed_now prof res cause tr \<longleftrightarrow>
     (\<exists>pre p t reason. tr = pre @ [Audited (phase_event prof p t (Finishing (rr_Outcome res) reason (rr_Sample res) cause))] \<and>
        pr_runID p = rr_RunID res)"

fun phase_history where
  "phase_history prof p start Authorizing tr = consumed_now p start tr"
| "phase_history prof p start (Admitting fresh) tr =
     (authorized_now prof p start tr \<and> rp_same_selection prof (pr_selection p) fresh)"
| "phase_history prof p start (Finishing _ _ _ _) tr = True"

fun op_history :: "('key, 'sel, 'smp, 'ev) run_profile \<Rightarrow> ('key, 'sel, 'smp) op \<Rightarrow> ('sel, 'smp, 'ev) item list \<Rightarrow> bool" where
  "op_history prof (RunStart p start) tr = consumed_now p start tr"
| "op_history prof (RecordClock p start ph) tr = phase_history prof p start ph tr"
| "op_history prof (RecordAudit p start ph _) tr = phase_history prof p start ph tr"
| "op_history prof (RunPreflight p start) tr = authorized_now prof p start tr"
| "op_history prof (RunRevalidate p start _) tr = authorized_now prof p start tr"
| "op_history prof (RunHandover p start fresh) tr =
     (admitted_now prof p start fresh tr \<and> rp_same_selection prof (pr_selection p) fresh)"
| "op_history prof (RunExecute p start fresh _) tr =
     (admitted_now prof p start fresh tr \<and> rp_same_selection prof (pr_selection p) fresh)"
| "op_history prof (Releasing (RunReturned (Some res) cause)) tr = confirmed_now prof res cause tr"
| "op_history prof _ tr = True"

text \<open>
  What justifies an entry: a consumed review is the outstanding one, live, and the cooldown of the previous
  run (or of the construction) is over; an audited event is valid; an execution follows at once upon the
  durable authorization and admission of the review just consumed, for a selection equal to the reviewed
  one; a result follows at once upon the durable terminal event that carries it.
\<close>

fun justified ::
  "('key, 'sel, 'smp, 'ev) run_profile \<Rightarrow> time \<Rightarrow> ('sel, 'smp, 'ev) item list \<Rightarrow> ('sel, 'smp, 'ev) item \<Rightarrow> bool" where
  "justified prof created pre (Consumed p start) =
     (outstanding pre p \<and> live p start \<and> \<not> before start (cooldown_end created pre))"
| "justified prof created pre (Audited ev) = rp_event_valid prof ev"
| "justified prof created pre (Executed p fresh) =
     ((\<exists>start. admitted_now prof p start fresh pre) \<and> rp_same_selection prof (pr_selection p) fresh)"
| "justified prof created pre (Returned_item (RunReturned (Some res) cause)) = confirmed_now prof res cause pre"
| "justified prof created pre _ = True"

section \<open>The invariant\<close>

definition sys_inv :: "('key, 'sel, 'smp, 'ev) run_profile \<Rightarrow> time \<Rightarrow> ('key, 'sel, 'smp, 'ev) sys \<Rightarrow> bool" where
  "sys_inv prof created s \<longleftrightarrow>
     (let c = sy_control s; tr = sy_trace s in
      (ct_busy c \<longleftrightarrow> sy_active s \<noteq> None) \<and> (ct_activeCancel c \<longleftrightarrow> ct_busy c) \<and>
      (ct_drained c \<longleftrightarrow> ct_closed c \<and> \<not> ct_busy c) \<and>
      (ct_closed c \<or> ct_fault c \<noteq> None \<longrightarrow> ct_pending c = None) \<and>
      (\<forall>p. ct_pending c = Some p \<longrightarrow> outstanding tr p) \<and>
      ct_notBefore c = cooldown_end created tr \<and>
      history_ok (justified prof created) tr \<and>
      (\<forall>op. sy_active s = Some op \<longrightarrow> op_history prof op tr))"

lemma sys_inv_New: "New a b d created = Inr c \<Longrightarrow> sys_inv prof created (start_sys c)"
  by (auto simp: New_def start_sys_def sys_inv_def cooldown_end_def)

text \<open>A step of another goroutine that neither reserves nor closes.\<close>

lemma sys_inv_quiet:
  assumes "sys_inv prof created s" and "quiet_change (sy_control s) c'"
  shows "sys_inv prof created (s\<lparr>sy_control := c'\<rparr>)"
  using assms by (auto simp: sys_inv_def quiet_change_def Let_def)

lemma sys_inv_close:
  assumes "sys_inv prof created s"
  shows "sys_inv prof created (s\<lparr>sy_control := Close (sy_control s)\<rparr>)"
  using assms by (auto simp: sys_inv_def Close_def Let_def)

lemma sys_inv_prepare:
  assumes "sys_inv prof created s"
  shows "sys_inv prof created (sys_step prof (CallPrepare key an) s)"
proof -
  obtain r c' where r: "prepare_reserve prof key an (sy_control s) = (r, c')" by fastforce
  then show ?thesis
  proof (cases rule: prepare_reserve_cases)
    case (err e)
    then show ?thesis using r sys_inv_quiet [OF assms] by simp
  next
    case (ok start w)
    then show ?thesis using r assms by (auto simp: sys_inv_def Let_def)
  qed
qed

lemma sys_inv_run:
  assumes "sys_inv prof created s"
  shows "sys_inv prof created (sys_step prof (CallRun ticket consent an) s)"
proof -
  obtain r c' where r: "run_reserve prof ticket consent an (sy_control s) = (r, c')" by fastforce
  then show ?thesis
  proof (cases rule: run_reserve_cases)
    case (err e)
    then show ?thesis using r sys_inv_quiet [OF assms] by simp
  next
    case (ok p start w)
    then show ?thesis using r assms by (auto simp: sys_inv_def Let_def consumed_now_def cooldown_end_def)
  qed
qed


text \<open>A step of the reserved operation that keeps the reservation.\<close>

lemma sys_inv_continue:
  assumes "sys_inv prof created s" and "sy_active s \<noteq> None" and "quiet_change (sy_control s) c'"
    and "items = [] \<or> (\<exists>x. items = [x] \<and> \<not> is_consumed x \<and> \<not> is_issued x \<and> justified prof created (sy_trace s) x)"
    and "op_history prof op' (sy_trace s @ items)"
  shows "sys_inv prof created (s\<lparr>sy_control := c', sy_active := Some op', sy_trace := sy_trace s @ items\<rparr>)"
proof -
  have start: "cooldown_end created (sy_trace s @ items) = cooldown_end created (sy_trace s)"
    using assms(4) by (auto simp: cooldown_end_def last_start_other simp del: last_start_snoc)
  have hist: "history_ok (justified prof created) (sy_trace s @ items)"
    using assms(1,4) by (auto simp: sys_inv_def Let_def)
  have out: "outstanding (sy_trace s) p \<Longrightarrow> outstanding (sy_trace s @ items) p" for p
    using assms(4) by (auto intro: outstanding_snoc)
  show ?thesis
    using assms(1-3,5) start hist out by (auto simp: sys_inv_def Let_def quiet_change_def)
qed

lemma sys_inv_issue:
  assumes "sys_inv prof created s" and "sy_active s \<noteq> None" and "ct_fault (sy_control s) = None" and "\<not> ct_closed (sy_control s)"
  shows "sys_inv prof created (s\<lparr>sy_control := (sy_control s)\<lparr>ct_lastWall := w, ct_pending := Some p\<rparr>,
     sy_active := Some (Releasing (PrepareReturned r)), sy_trace := sy_trace s @ [Issued p]\<rparr>)"
  using assms by (auto simp: sys_inv_def Let_def cooldown_end_def)

lemma sys_inv_release:
  assumes "sys_inv prof created s" and "op_history prof (Releasing r) (sy_trace s)"
  shows "sys_inv prof created (s\<lparr>sy_control := release (sy_control s), sy_active := None,
     sy_trace := sy_trace s @ [Returned_item r]\<rparr>)"
proof -
  have "justified prof created (sy_trace s) (Returned_item r)"
  proof (cases r)
    case (PrepareReturned x)
    then show ?thesis by simp
  next
    case (RunReturned res cause)
    then show ?thesis using assms(2) by (cases res) simp_all
  qed
  then show ?thesis
    using assms(1)
    by (auto simp: sys_inv_def Let_def release_def  cooldown_end_def
        intro: outstanding_snoc)
qed

lemma consumed_authorized:
  "consumed_now p start tr \<Longrightarrow> authorized_now prof p start (tr @ [Audited (phase_event prof p t Authorizing)])"
  by (auto simp: consumed_now_def authorized_now_def)

lemma authorized_admitted:
  "authorized_now prof p start tr \<Longrightarrow>
     admitted_now prof p start fresh (tr @ [Audited (phase_event prof p t (Admitting fresh))])"
  by (auto simp: authorized_now_def admitted_now_def)

lemma after_audit_history:
  assumes "phase_history prof p start ph tr"
  shows "op_history prof (after_audit p start ph) (tr @ [Audited (phase_event prof p now ph)])"
  using assms
  by (cases ph) (auto simp: after_audit_def confirmed_now_def intro: consumed_authorized authorized_admitted)

lemma finish_history [simp]: "op_history prof (finish p start o' r m cause) tr"
  by (simp add: finish_def)

lemma run_revalidate_history:
  "authorized_now prof p start tr \<Longrightarrow> op_history prof (run_revalidate prof p start fresh now) tr"
  by (auto simp: run_revalidate_def split: sum.splits)

lemma run_handover_history:
  "admitted_now prof p start fresh tr \<Longrightarrow> rp_same_selection prof (pr_selection p) fresh \<Longrightarrow>
     op_history prof (run_handover prof p start fresh now ctx) tr"
  by (auto simp: run_handover_def split: option.splits)

lemma run_validate_history: "op_history prof (run_validate prof p start fresh es sample err now ctx) tr"
  by (auto simp: run_validate_def split: option.splits sum.splits)

lemma clock_then_history:
  assumes "clock_then prof an c k = (c', op)" and "\<And>now c. op_history prof (k now c) tr"
  shows "op_history prof op tr"
  using assms(1) by (cases rule: clock_then_cases) (simp_all add: assms(2))

lemma sys_inv_advance:
  assumes inv: "sys_inv prof created s" and act: "sy_active s = Some op"
  shows "sys_inv prof created (sys_step prof (Advance an) s)"
proof -
  let ?c = "sy_control s" and ?tr = "sy_trace s"
  have hist: "op_history prof op ?tr" and some: "sy_active s \<noteq> None"
    using inv act by (auto simp: sys_inv_def Let_def)
  have cont: "sys_inv prof created (s\<lparr>sy_control := c', sy_active := Some op'\<rparr>)"
    if "quiet_change ?c c'" "op_history prof op' ?tr" for c' op'
    using sys_inv_continue [OF inv some that(1), of "[]"] that(2) by simp
  have stay: "sys_inv prof created (s\<lparr>sy_active := Some op'\<rparr>)" if "op_history prof op' ?tr" for op'
    using cont [OF quiet_refl that] by simp
  have emit: "sys_inv prof created (s\<lparr>sy_active := Some op', sy_trace := ?tr @ [x]\<rparr>)"
    if "op_history prof op' (?tr @ [x])" "\<not> is_consumed x" "\<not> is_issued x" "justified prof created ?tr x" for op' x
    using sys_inv_continue [OF inv some quiet_refl, of "[x]"] that by simp
  show ?thesis
  proof (cases op)
    case (PreparePreflight key start)
    then show ?thesis using act by (auto split: sum.splits intro!: stay)
  next
    case (PrepareCommit key start drawn)
    obtain r c' where r: "prepare_commit prof key start drawn an ?c = (r, c')" by fastforce
    then show ?thesis
    proof (cases rule: prepare_commit_cases)
      case (err e)
      then show ?thesis using act PrepareCommit r by (auto intro!: cont)
    next
      case (ok p w)
      then show ?thesis using act PrepareCommit r sys_inv_issue [OF inv some] by simp
    qed
  next
    case (RunStart p start)
    then show ?thesis using act hist by (auto split: option.splits intro!: stay)
  next
    case (RecordClock p start ph)
    obtain c' op' where k: "clock_then prof an ?c (\<lambda>now c. RecordAudit p start ph now) = (c', op')" by fastforce
    then have "op_history prof op' ?tr"
      using hist RecordClock by (auto intro: clock_then_history)
    then show ?thesis using act RecordClock k clock_then_quiet [OF k] by (auto intro!: cont)
  next
    case (RecordAudit p start ph now)
    then show ?thesis
      using act hist after_audit_history [of prof p start ph ?tr now]
      by (auto simp: Let_def phase_event_def [symmetric]  intro!: stay emit)
  next
    case (RecordFault p start)
    then show ?thesis using act record_fault_quiet by (auto intro!: cont)
  next
    case (RunPreflight p start)
    then show ?thesis using act hist by (auto split: option.splits intro!: stay)
  next
    case (RunRevalidate p start fresh)
    obtain c' op' where k: "clock_then prof an ?c (\<lambda>now c. run_revalidate prof p start fresh now) = (c', op')" by fastforce
    then have "op_history prof op' ?tr"
      using hist RunRevalidate by (auto intro: clock_then_history run_revalidate_history)
    then show ?thesis using act RunRevalidate k clock_then_quiet [OF k] by (auto intro!: cont)
  next
    case (RunHandover p start fresh)
    obtain c' op' where k: "clock_then prof an ?c
        (\<lambda>now c. run_handover prof p start fresh now (ctx_error an c)) = (c', op')" by fastforce
    then have "op_history prof op' ?tr"
      using hist RunHandover by (auto intro: clock_then_history run_handover_history)
    then show ?thesis using act RunHandover k clock_then_quiet [OF k] by (auto intro!: cont)
  next
    case (RunExecute p start fresh es)
    then show ?thesis
      using act hist by (auto simp:  split: option.splits intro!: emit)
  next
    case (RunValidate p start fresh es sample err)
    obtain c' op' where k: "clock_then prof an ?c
        (\<lambda>now c. run_validate prof p start fresh es sample err now (ctx_error an c)) = (c', op')" by fastforce
    then have "op_history prof op' ?tr"
      by (auto intro: clock_then_history run_validate_history)
    then show ?thesis using act RunValidate k clock_then_quiet [OF k] by (auto intro!: cont)
  next
    case (Releasing r)
    then show ?thesis using act hist sys_inv_release [OF inv] by simp
  qed
qed

lemma sys_inv_step:
  assumes inv: "sys_inv prof created s"
  shows "sys_inv prof created (sys_step prof inp s)"
proof (cases inp)
  case (Advance an)
  show ?thesis
  proof (cases "sy_active s")
    case None
    then show ?thesis using inv Advance by simp
  next
    case (Some op)
    then show ?thesis unfolding Advance by (rule sys_inv_advance [OF inv])
  qed
next
  case (CallPrepare key an)
  show ?thesis unfolding CallPrepare by (rule sys_inv_prepare [OF inv])
next
  case (CallRun ticket consent an)
  show ?thesis unfolding CallRun by (rule sys_inv_run [OF inv])
next
  case CallClose
  show ?thesis unfolding CallClose sys_step.simps by (rule sys_inv_close [OF inv])
next
  case (CallDiscard ticket)
  show ?thesis unfolding CallDiscard sys_step.simps by (rule sys_inv_quiet [OF inv Discard_quiet])
qed

lemma reaches_inv: "reaches prof s t \<Longrightarrow> sys_inv prof created s \<Longrightarrow> sys_inv prof created t"
  by (induction rule: reaches.induct) (auto intro: sys_inv_step)

lemma reachable_inv: "reachable prof created s \<Longrightarrow> sys_inv prof created s"
  by (auto simp: reachable_def intro: reaches_inv sys_inv_New)


section \<open>Closing and faults last\<close>

definition is_admission :: "('sel, 'smp, 'ev) item \<Rightarrow> bool" where
  "is_admission x \<longleftrightarrow> is_issued x \<or> is_consumed x"

text \<open>A step keeps a fault and a closed state, and while one of them holds it neither issues nor consumes.\<close>

definition locked_out :: "'sel control \<Rightarrow> bool" where
  "locked_out c \<longleftrightarrow> ct_closed c \<or> ct_fault c \<noteq> None"

definition lock_kept ::
  "('key, 'sel, 'smp, 'ev) sys \<Rightarrow> ('key, 'sel, 'smp, 'ev) sys \<Rightarrow> bool" where
  "lock_kept s t \<longleftrightarrow>
     (ct_closed (sy_control s) \<longrightarrow> ct_closed (sy_control t)) \<and>
     (ct_fault (sy_control s) \<noteq> None \<longrightarrow> ct_fault (sy_control t) \<noteq> None) \<and>
     (\<exists>ext. sy_trace t = sy_trace s @ ext \<and>
        (locked_out (sy_control s) \<longrightarrow> (\<forall>x\<in>set ext. \<not> is_admission x)))"

lemma lock_kept_refl [simp]: "lock_kept s s"
  by (auto simp: lock_kept_def)

lemma lock_kept_trans:
  assumes "lock_kept s t" and "lock_kept t u"
  shows "lock_kept s u"
proof -
  obtain e1 e2 where e: "sy_trace t = sy_trace s @ e1" "sy_trace u = sy_trace t @ e2"
    "locked_out (sy_control s) \<longrightarrow> (\<forall>x\<in>set e1. \<not> is_admission x)"
    "locked_out (sy_control t) \<longrightarrow> (\<forall>x\<in>set e2. \<not> is_admission x)"
    using assms by (auto simp: lock_kept_def)
  have "locked_out (sy_control s) \<Longrightarrow> locked_out (sy_control t)"
    using assms(1) by (auto simp: lock_kept_def locked_out_def)
  then have "\<exists>ext. sy_trace u = sy_trace s @ ext \<and>
      (locked_out (sy_control s) \<longrightarrow> (\<forall>x\<in>set ext. \<not> is_admission x))"
    using e by (intro exI [of _ "e1 @ e2"]) auto
  then show ?thesis using assms by (auto simp: lock_kept_def)
qed

lemma lock_kept_quiet:
  assumes "quiet_change (sy_control s) c'" and "\<forall>x\<in>set ext. \<not> is_admission x"
  shows "lock_kept s (s\<lparr>sy_control := c', sy_active := op, sy_trace := sy_trace s @ ext\<rparr>)"
  using assms by (auto simp: lock_kept_def quiet_change_def)

lemma item_not_admission [simp]:
  "\<not> is_admission (Audited ev)" "\<not> is_admission (Executed p f)" "\<not> is_admission (Returned_item r)"
  by (simp_all add: is_admission_def)

lemma advance_lock_kept:
  assumes "sy_active s = Some op"
  shows "lock_kept s (sys_step prof (Advance an) s)"
proof -
  let ?c = "sy_control s"
  obtain c' op' items where adv: "advance prof an ?c op = (c', op', items)" by (cases "advance prof an ?c op")
  have "lock_kept s (s\<lparr>sy_control := c', sy_active := op', sy_trace := sy_trace s @ items\<rparr>)"
  proof (cases "\<exists>key start drawn p. op = PrepareCommit key start drawn \<and> items = [Issued p]")
    case True
    then obtain key start drawn p where op: "op = PrepareCommit key start drawn" and items: "items = [Issued p]" by blast
    obtain r c0 where r: "prepare_commit prof key start drawn an ?c = (r, c0)" by fastforce
    then show ?thesis
    proof (cases rule: prepare_commit_cases)
      case (err e)
      then show ?thesis using adv op r items by simp
    next
      case (ok q w)
      then show ?thesis using adv op r by (auto simp: lock_kept_def locked_out_def)
    qed
  next
    case False
    have quiet: "quiet_change ?c c' \<or> c' = release ?c"
      using adv False
      by (cases op)
         (auto simp: Let_def split: sum.splits option.splits prod.splits if_splits
           dest: clock_then_quiet intro: record_fault_quiet elim: prepare_commit_cases)
    have "\<forall>x\<in>set items. \<not> is_admission x"
      using adv False
      by (cases op) (auto simp: Let_def split: sum.splits option.splits prod.splits if_splits)
    with quiet show ?thesis
      by (auto simp: lock_kept_def quiet_change_def release_def)
  qed
  then show ?thesis using assms adv by simp
qed

lemma step_lock_kept: "lock_kept s (sys_step prof inp s)"
proof (cases inp)
  case (Advance an)
  show ?thesis
  proof (cases "sy_active s")
    case None
    then show ?thesis by (simp add: Advance)
  next
    case (Some op)
    then show ?thesis unfolding Advance by (rule advance_lock_kept)
  qed
next
  case (CallPrepare key an)
  obtain r c' where r: "prepare_reserve prof key an (sy_control s) = (r, c')" by fastforce
  then show ?thesis
    by (cases rule: prepare_reserve_cases)
       (simp_all add: r CallPrepare lock_kept_def quiet_change_def)
next
  case (CallRun ticket consent an)
  obtain r c' where r: "run_reserve prof ticket consent an (sy_control s) = (r, c')" by fastforce
  then show ?thesis
  proof (cases rule: run_reserve_cases)
    case (err e)
    then show ?thesis using r by (simp add: CallRun lock_kept_def quiet_change_def)
  next
    case (ok p start w)
    then show ?thesis using r by (simp add: CallRun lock_kept_def locked_out_def)
  qed
next
  case CallClose
  then show ?thesis by (simp add: lock_kept_def Close_def)
next
  case (CallDiscard ticket)
  then show ?thesis using Discard_quiet [of "sy_control s" ticket] by (simp add: lock_kept_def quiet_change_def)
qed

lemma reaches_lock_kept: "reaches prof s t \<Longrightarrow> lock_kept s t"
  by (induction rule: reaches.induct) (auto intro: lock_kept_trans step_lock_kept)

lemma drained_step:
  assumes "sys_inv prof created s" and "ct_drained (sy_control s)"
  shows "sy_trace (sys_step prof inp s) = sy_trace s \<and> ct_drained (sy_control (sys_step prof inp s))"
proof -
  have idle: "sy_active s = None" "ct_closed (sy_control s)"
    using assms by (auto simp: sys_inv_def Let_def)
  have "sy_trace (sys_step prof inp s) = sy_trace s \<and> sy_active (sys_step prof inp s) = None"
  proof (cases inp)
    case (CallRun ticket consent an)
    obtain r c' where r: "run_reserve prof ticket consent an (sy_control s) = (r, c')" by fastforce
    then show ?thesis by (cases rule: run_reserve_cases) (simp_all add: r CallRun idle)
  next
    case (CallPrepare key an)
    obtain r c' where r: "prepare_reserve prof key an (sy_control s) = (r, c')" by fastforce
    then show ?thesis by (cases rule: prepare_reserve_cases) (simp_all add: r CallPrepare idle)
  qed (simp_all add: idle)
  moreover have "ct_closed (sy_control (sys_step prof inp s))"
    using step_lock_kept [of s prof inp] idle(2) by (simp only: lock_kept_def)
  ultimately show ?thesis
    using sys_inv_step [OF assms(1), of inp] by (simp add: sys_inv_def Let_def del: sys_step.simps)
qed

lemma drained_reaches:
  assumes "reaches prof s t" and "sys_inv prof created s" and "ct_drained (sy_control s)"
  shows "sy_trace t = sy_trace s \<and> ct_drained (sy_control t) \<and> sys_inv prof created t"
  using assms
proof (induction rule: reaches.induct)
  case (here s)
  then show ?case by simp
next
  case (more s t inp)
  then have "sys_inv prof created t" "ct_drained (sy_control t)" "sy_trace t = sy_trace s" by auto
  then show ?case using drained_step sys_inv_step by metis
qed

section \<open>Progress\<close>

text \<open>The number of steps that the reserved operation still needs, at most.\<close>

fun op_rank :: "('key, 'sel, 'smp) op \<Rightarrow> nat" where
  "op_rank (Releasing _) = 1"
| "op_rank (RecordFault _ _) = 2"
| "op_rank (PrepareCommit _ _ _) = 2"
| "op_rank (PreparePreflight _ _) = 3"
| "op_rank (RecordAudit _ _ ph _) = (case ph of Finishing _ _ _ _ \<Rightarrow> 3 | Admitting _ \<Rightarrow> 8 | Authorizing \<Rightarrow> 12)"
| "op_rank (RecordClock _ _ ph) = (case ph of Finishing _ _ _ _ \<Rightarrow> 4 | Admitting _ \<Rightarrow> 9 | Authorizing \<Rightarrow> 13)"
| "op_rank (RunValidate _ _ _ _ _ _) = 5"
| "op_rank (RunExecute _ _ _ _) = 6"
| "op_rank (RunHandover _ _ _) = 7"
| "op_rank (RunRevalidate _ _ _) = 10"
| "op_rank (RunPreflight _ _) = 11"
| "op_rank (RunStart _ _) = 14"

lemma op_rank_bounds: "0 < op_rank op \<and> op_rank op \<le> 14"
  by (cases op) (auto split: phase.splits)

lemma finish_rank [simp]: "op_rank (finish p start o' r m cause) = 4"
  by (simp add: finish_def)

lemma run_section_ranks:
  "op_rank (run_revalidate prof p start fresh now) < 10"
  "op_rank (run_handover prof p start fresh now ctx) < 7"
  "op_rank (run_validate prof p start fresh es sample err now ctx) = 4"
  by (auto simp: run_revalidate_def run_handover_def run_validate_def split: sum.splits option.splits)

lemma clock_then_rank:
  assumes "clock_then prof an c k = (c', op)" and "\<And>now c. op_rank (k now c) < n" and "1 < n"
  shows "op_rank op < n"
  using assms(1,3) by (cases rule: clock_then_cases) (simp_all add: assms(2))

lemma advance_rank:
  assumes "advance prof an c op = (c', Some op', items)"
  shows "op_rank op' < op_rank op"
proof (cases op)
  case (RecordClock p start ph)
  obtain c1 op1 where k: "clock_then prof an c (\<lambda>now c. RecordAudit p start ph now) = (c1, op1)" by fastforce
  then have "op_rank op1 < op_rank op"
    unfolding RecordClock by (rule clock_then_rank) (auto split: phase.splits)
  then show ?thesis using assms RecordClock k by simp
next
  case (RunRevalidate p start fresh)
  obtain c1 op1 where k: "clock_then prof an c (\<lambda>now c. run_revalidate prof p start fresh now) = (c1, op1)" by fastforce
  then have "op_rank op1 < 10"
    by (rule clock_then_rank) (simp_all add: run_section_ranks)
  then show ?thesis using assms RunRevalidate k by simp
next
  case (RunHandover p start fresh)
  obtain c1 op1 where k: "clock_then prof an c
      (\<lambda>now c. run_handover prof p start fresh now (ctx_error an c)) = (c1, op1)" by fastforce
  then have "op_rank op1 < 7"
    by (rule clock_then_rank) (simp_all add: run_section_ranks)
  then show ?thesis using assms RunHandover k by simp
next
  case (RunValidate p start fresh es sample err)
  obtain c1 op1 where k: "clock_then prof an c
      (\<lambda>now c. run_validate prof p start fresh es sample err now (ctx_error an c)) = (c1, op1)" by fastforce
  then have "op_rank op1 < 5"
    by (rule clock_then_rank) (simp_all add: run_section_ranks(3))
  then show ?thesis using assms RunValidate k by simp
next
  case (RecordAudit p start ph now)
  then show ?thesis
    using assms by (auto simp: Let_def after_audit_def split: if_splits phase.splits)
qed (use assms in \<open>auto split: sum.splits option.splits prod.splits\<close>)

definition run_inputs where
  "run_inputs prof ins s = foldl (\<lambda>s inp. sys_step prof inp s) s ins"

definition is_advance :: "('key, 'sel, 'smp) input \<Rightarrow> bool" where
  "is_advance inp = (case inp of Advance _ \<Rightarrow> True | _ \<Rightarrow> False)"

lemma other_keeps_active:
  assumes "sys_inv prof created s" and "sy_active s = Some op" and "\<not> is_advance inp"
  shows "sy_active (sys_step prof inp s) = Some op"
proof (cases inp)
  case (CallPrepare key an)
  obtain r c' where r: "prepare_reserve prof key an (sy_control s) = (r, c')" by fastforce
  then show ?thesis
    using assms(1,2) by (cases rule: prepare_reserve_cases) (simp_all add: r CallPrepare sys_inv_def Let_def)
next
  case (CallRun ticket consent an)
  obtain r c' where r: "run_reserve prof ticket consent an (sy_control s) = (r, c')" by fastforce
  then show ?thesis
    using assms(1,2) by (cases rule: run_reserve_cases) (simp_all add: r CallRun sys_inv_def Let_def)
qed (use assms in \<open>auto simp: is_advance_def\<close>)

lemma run_inputs_Cons [simp]: "run_inputs prof (inp # ins) s = run_inputs prof ins (sys_step prof inp s)"
  by (simp add: run_inputs_def)

lemma run_inputs_Nil [simp]: "run_inputs prof [] s = s"
  by (simp add: run_inputs_def)

lemma step_rank:
  assumes "sys_inv prof created s" and "sy_active s = Some op" and "sy_active (sys_step prof inp s) = Some op'"
  shows "op_rank op' + (if is_advance inp then 1 else 0) \<le> op_rank op"
proof (cases "is_advance inp")
  case True
  then obtain an where inp: "inp = Advance an" by (cases inp) (auto simp: is_advance_def)
  obtain c1 op1 items where adv: "advance prof an (sy_control s) op = (c1, op1, items)"
    by (cases "advance prof an (sy_control s) op")
  then have "op1 = Some op'" using assms(2,3) by (simp add: inp)
  then have "op_rank op' < op_rank op" using adv advance_rank by metis
  then show ?thesis using True by simp
next
  case False
  then show ?thesis using other_keeps_active [OF assms(1,2) False] assms(3) by simp
qed

lemma active_completes:
  assumes "sys_inv prof created s" and "sy_active s = Some op"
    and "op_rank op \<le> length (filter is_advance ins)"
  shows "\<exists>k\<le>length ins. sy_active (run_inputs prof (take k ins) s) = None"
  using assms
proof (induction ins arbitrary: s op)
  case Nil
  then show ?case using op_rank_bounds [of op] by simp
next
  case (Cons inp ins)
  define t where "t = sys_step prof inp s"
  have inv: "sys_inv prof created t" unfolding t_def by (rule sys_inv_step [OF Cons.prems(1)])
  have "\<exists>k\<le>length ins. sy_active (run_inputs prof (take k ins) t) = None"
  proof (cases "sy_active t")
    case None
    then show ?thesis by (intro exI [of _ 0]) simp
  next
    case (Some op')
    have "op_rank op' \<le> length (filter is_advance ins)"
      using step_rank [OF Cons.prems(1,2) Some [unfolded t_def]] Cons.prems(3) by (simp split: if_splits)
    from Cons.IH [OF inv Some this] show ?thesis .
  qed
  then obtain k where k: "k \<le> length ins" "sy_active (run_inputs prof (take k ins) t) = None" by blast
  have "sy_active (run_inputs prof (take (Suc k) (inp # ins)) s) = None"
    using k(2) by (simp add: t_def del: sys_step.simps)
  then show ?case using k(1) by (intro exI [of _ "Suc k"]) (simp del: sys_step.simps)
qed

section \<open>Counting\<close>

lemma history_ok_prefix: "history_ok J (pre @ post) \<Longrightarrow> history_ok J pre"
  by (induction post rule: rev_induct) (simp_all flip: append_assoc)

lemma outstanding_snocD:
  assumes "outstanding (tr @ [x]) p"
  shows "x = Issued p \<or> (\<not> is_consumed x \<and> \<not> is_issued x \<and> outstanding tr p)"
proof -
  obtain a b where eq: "tr @ [x] = a @ Issued p # b" and b: "\<forall>x\<in>set b. \<not> is_consumed x \<and> \<not> is_issued x"
    using assms by (auto simp: outstanding_def)
  show ?thesis
  proof (cases b rule: rev_cases)
    case Nil
    then show ?thesis using eq by simp
  next
    case (snoc b' y)
    then have "tr = a @ Issued p # b'" "y = x" using eq by auto
    then show ?thesis using b snoc by (auto simp: outstanding_def)
  qed
qed

lemma consumed_issued:
  assumes "history_ok (justified prof created) tr"
  shows "length (filter is_consumed tr) \<le> length (filter is_issued tr) \<and>
     (\<forall>p. outstanding tr p \<longrightarrow> length (filter is_consumed tr) < length (filter is_issued tr))"
  using assms
proof (induction tr rule: rev_induct)
  case Nil
  then show ?case by (simp add: outstanding_def)
next
  case (snoc x tr)
  then have IH: "length (filter is_consumed tr) \<le> length (filter is_issued tr)"
      "\<And>p. outstanding tr p \<Longrightarrow> length (filter is_consumed tr) < length (filter is_issued tr)"
    and j: "justified prof created tr x" by auto
  show ?case
  proof (cases x)
    case (Issued q)
    then show ?thesis using IH(1) by simp
  next
    case (Consumed q start)
    then have "outstanding tr q" using j by simp
    then have "length (filter is_consumed tr) < length (filter is_issued tr)" by (rule IH(2))
    moreover have "\<not> outstanding (tr @ [x]) p" for p
      using outstanding_snocD [of tr x p] Consumed by auto
    ultimately show ?thesis using Consumed by simp
  qed (use IH outstanding_snocD [of tr x] in auto)
qed

lemma executed_consumed:
  assumes "history_ok (justified prof created) tr"
  shows "length (filter is_executed tr) \<le> length (filter is_consumed tr)"
  using assms
proof (induction tr rule: length_induct)
  case (1 tr)
  show ?case
  proof (cases tr rule: rev_cases)
    case Nil
    then show ?thesis by simp
  next
    case (snoc pre x)
    then have pre: "history_ok (justified prof created) pre" and j: "justified prof created pre x"
      using "1.prems" by simp_all
    show ?thesis
    proof (cases "is_executed x")
      case False
      then show ?thesis using "1.IH" pre snoc by (auto intro: le_trans)
    next
      case True
      then obtain p fresh where x: "x = Executed p fresh" by (cases x) auto
      then obtain pre' start t1 t2 where p': "pre = pre' @ [Consumed p start, Audited t1, Audited t2]"
        using j by (auto simp: admitted_now_def)
      have "history_ok (justified prof created) pre'" using history_ok_prefix pre p' by metis
      then have "length (filter is_executed pre') \<le> length (filter is_consumed pre')"
        using "1.IH" snoc p' by simp
      then show ?thesis using snoc p' x by simp
    qed
  qed
qed


section \<open>A sample run\<close>

text \<open>
  A profile without constraints on selections and samples, and the answers of an outside where everything
  succeeds: a review two minutes after the construction, its run three seconds later.
\<close>

definition sample_profile :: "(unit, string, nat, string) run_profile" where
  "sample_profile = \<lparr>rp_clock_ok = nano_time, rp_overlong = (\<lambda>_ _. False), rp_key_ok = (\<lambda>_. True),
     rp_key_of = (\<lambda>_. ()), rp_normalize = (\<lambda>s _ _. Inr s), rp_evidence_at = (\<lambda>_. \<lparr>wall = 123 * second, mono_at = None\<rparr>),
     rp_review_expires = (\<lambda>_. \<lparr>wall = 150 * second, mono_at = None\<rparr>),
     rp_route_fresh_until = (\<lambda>_. \<lparr>wall = 150 * second, mono_at = None\<rparr>),
     rp_same_selection = (=), rp_validate_sample = (\<lambda>m _ _ _ _ _ _. Inr (Some m)),
     rp_timeout_is_evidence = (\<lambda>_. False), rp_event = (\<lambda>_ _ _ ph. ph_State ph), rp_event_valid = (\<lambda>_. True)\<rparr>"

definition sample_created :: time where
  "sample_created = \<lparr>wall = second, mono_at = None\<rparr>"

definition sample_answers :: "int \<Rightarrow> (string, nat) answers" where
  "sample_answers n = \<lparr>an_now = \<lparr>wall = n * second, mono_at = None\<rparr>, an_ctx_err = None, an_preflight = Some ''sel'',
     an_ticket_bytes = Some [7], an_run_bytes = Some [9], an_audit_ok = True, an_execute = Some (3, None)\<rparr>"

definition sample_inputs :: "(unit, string, nat) input list" where
  "sample_inputs =
     CallPrepare () (sample_answers 120) # replicate 3 (Advance (sample_answers 120)) @
     CallRun (7 # replicate 31 0) True (sample_answers 123) # replicate 14 (Advance (sample_answers 123))"

definition sample_control :: "string control" where
  "sample_control = \<lparr>ct_hasPreflight = True, ct_hasExecutor = True, ct_hasAuditor = True, ct_pending = None,
     ct_busy = False, ct_closed = False, ct_fault = None, ct_lastWall = sample_created,
     ct_notBefore = time_add sample_created RunInterval, ct_activeCancel = False, ct_cancelled = False,
     ct_drained = False\<rparr>"

definition sample_start :: "(unit, string, nat, string) sys" where
  "sample_start = start_sys sample_control"

definition sample_state :: "(unit, string, nat, string) sys" where
  "sample_state = run_inputs sample_profile sample_inputs sample_start"

lemma run_inputs_reaches: "reaches prof s (run_inputs prof ins s)"
  by (induction ins rule: rev_induct) (simp_all add: run_inputs_def reaches.intros)


lemma sample_New: "New True True True sample_created = Inr sample_control"
  by (simp add: New_def sample_control_def sample_created_def nano_time_iff zero_wall_def fits_int64_def
      int64_min_def int64_max_def RunInterval_def duration_units strip_def)

lemma sample_reachable: "reachable sample_profile sample_created (run_inputs sample_profile ins sample_start)"
  unfolding reachable_def sample_start_def using sample_New run_inputs_reaches by blast

definition item_kind :: "('sel, 'smp, 'ev) item \<Rightarrow> nat" where
  "item_kind x = (case x of Issued _ \<Rightarrow> 0 | Consumed _ _ \<Rightarrow> 1 | Audited _ \<Rightarrow> 2 | Executed _ _ \<Rightarrow> 3 | Returned_item _ \<Rightarrow> 4)"

lemma sample_kinds: "map item_kind (sy_trace sample_state) = [0, 4, 1, 2, 2, 3, 2, 4]"
  by code_simp

lemma sample_trace_split:
  "\<exists>pre p fresh post. sy_trace sample_state = pre @ Executed p fresh # post \<and> length pre = 5"
proof -
  have "length (sy_trace sample_state) = 8" using arg_cong [OF sample_kinds, of length] by simp
  then have "sy_trace sample_state = take 5 (sy_trace sample_state) @ sy_trace sample_state ! 5 # drop 6 (sy_trace sample_state)"
    using id_take_nth_drop [of 5 "sy_trace sample_state"] by simp
  moreover have "item_kind (sy_trace sample_state ! 5) = 3"
    using arg_cong [OF sample_kinds, of "\<lambda>xs. xs ! 5"] \<open>length (sy_trace sample_state) = 8\<close> by simp
  then obtain p fresh where "sy_trace sample_state ! 5 = Executed p fresh"
    by (cases "sy_trace sample_state ! 5") (auto simp: item_kind_def)
  moreover have "length (take 5 (sy_trace sample_state)) = 5"
    using \<open>length (sy_trace sample_state) = 8\<close> by simp
  ultimately show ?thesis by metis
qed

section \<open>Properties\<close>

text \<open>
  C7: no execution without recorded consent.  Whatever the interleaving and the answers of the outside, an
  executor call is immediately preceded in the history by the durable authorization and the durable
  admission of one run, and these by the consumption of its review, which was live at that moment and the
  one issued last; the executed selection is the reviewed one, freshly revalidated.
\<close>

theorem execution_needs_audited_consent:
  assumes "reachable prof created s" and "sy_trace s = pre @ Executed p fresh # post"
  shows "\<exists>pre' start t1 t2. pre = pre' @ [Consumed p start,
       Audited (rp_event prof (pr_selection p) (pr_runID p) (strip t1) (phase_of Authorizing)),
       Audited (rp_event prof (pr_selection p) (pr_runID p) (strip t2) (phase_of (Admitting fresh)))] \<and>
     outstanding pre' p \<and> live p start \<and> rp_same_selection prof (pr_selection p) fresh"
proof -
  have ok: "history_ok (justified prof created) (sy_trace s)"
    using reachable_inv [OF assms(1)] by (simp add: sys_inv_def Let_def)
  have "justified prof created pre (Executed p fresh)"
    using history_okD [OF ok assms(2)] .
  then obtain pre' start t1 t2 where pre: "pre = pre' @ [Consumed p start, Audited (phase_event prof p t1 Authorizing),
      Audited (phase_event prof p t2 (Admitting fresh))]" and same: "rp_same_selection prof (pr_selection p) fresh"
    by (auto simp: admitted_now_def)
  have "justified prof created pre' (Consumed p start)"
    by (rule history_okD [OF ok]) (simp add: assms(2) pre)
  then show ?thesis using pre same by (auto simp: phase_event_def)
qed

theorem execution_needs_audited_consent_witness:
  "\<exists>pre p fresh post start. sy_trace sample_state = pre @ Executed p fresh # post \<and>
     reachable sample_profile sample_created sample_state \<and> live p start"
proof -
  obtain pre p fresh post where tr: "sy_trace sample_state = pre @ Executed p fresh # post"
    using sample_trace_split by blast
  have r: "reachable sample_profile sample_created sample_state"
    unfolding sample_state_def by (rule sample_reachable)
  show ?thesis using execution_needs_audited_consent [OF r tr] tr r by blast
qed



text \<open>
  C9: the cooldown.  A run starts no earlier than one minute after the start of the run before it, and the
  first one no earlier than one minute after the control was constructed.
\<close>

theorem runs_respect_cooldown:
  assumes "reachable prof created s" and "sy_trace s = pre @ Consumed p start # post"
  shows "\<not> before start (time_add (case last_start pre of None \<Rightarrow> created | Some previous \<Rightarrow> previous) RunInterval)"
proof -
  have "history_ok (justified prof created) (sy_trace s)"
    using reachable_inv [OF assms(1)] by (simp add: sys_inv_def Let_def)
  from history_okD [OF this assms(2)] show ?thesis by (simp add: cooldown_end_def)
qed

text \<open>
  C10: faults and closing are final.  Once the control has a fault (a clock that went back, an audit that could
  not be confirmed) or is closed, it stays so, and no review is issued or consumed any more.
\<close>

theorem lockout_is_permanent:
  assumes "reaches prof s t" and "ct_closed (sy_control s) \<or> ct_fault (sy_control s) \<noteq> None"
  shows "(ct_closed (sy_control t) \<or> ct_fault (sy_control t) \<noteq> None) \<and>
     (\<exists>ext. sy_trace t = sy_trace s @ ext \<and> (\<forall>x\<in>set ext. \<not> is_issued x \<and> \<not> is_consumed x))"
  using reaches_lock_kept [OF assms(1)] assms(2)
  by (auto simp: lock_kept_def locked_out_def is_admission_def)

text \<open>
  a drained control is silent.  When Shutdown can return success, no operation is in progress, and no
  later call can cause an execution, an audit event or a review.
\<close>

theorem drained_is_silent:
  assumes "reachable prof created s" and "shutdown_poll ctx (sy_control s) = Some (Inr ())" and "reaches prof s t"
  shows "sy_active t = None \<and> sy_trace t = sy_trace s \<and> shutdown_poll ctx (sy_control t) = Some (Inr ())"
proof -
  have inv: "sys_inv prof created s" by (rule reachable_inv [OF assms(1)])
  have drained: "ct_drained (sy_control s)"
    using assms(2) by (auto simp: shutdown_poll_def split: if_splits option.splits)
  have "sy_trace t = sy_trace s \<and> ct_drained (sy_control t) \<and> sys_inv prof created t"
    by (rule drained_reaches [OF assms(3) inv drained])
  then show ?thesis by (auto simp: sys_inv_def Let_def shutdown_poll_def)
qed


text \<open>The sample control, closed before it was ever used.\<close>

definition sample_closed :: "(unit, string, nat, string) sys" where
  "sample_closed = run_inputs sample_profile [CallClose] sample_start"

lemma sample_closed_state:
  "reachable sample_profile sample_created sample_closed" "ct_closed (sy_control sample_closed)"
  "shutdown_poll None (sy_control sample_closed) = Some (Inr ())"
  unfolding sample_closed_def
  by (rule sample_reachable)
     (simp_all add: sample_start_def start_sys_def sample_control_def Close_def shutdown_poll_def cancel_active_def)

theorem runs_respect_cooldown_witness:
  "\<exists>pre p start post. sy_trace sample_state = pre @ Consumed p start # post \<and>
     \<not> before start (time_add (case last_start pre of None \<Rightarrow> sample_created | Some previous \<Rightarrow> previous) RunInterval)"
proof -
  have r: "reachable sample_profile sample_created sample_state"
    unfolding sample_state_def by (rule sample_reachable)
  obtain pre p fresh post where tr: "sy_trace sample_state = pre @ Executed p fresh # post"
    using sample_trace_split by blast
  have "history_ok (justified sample_profile sample_created) (sy_trace sample_state)"
    using reachable_inv [OF r] by (simp add: sys_inv_def Let_def)
  from history_okD [OF this tr] obtain pre' start t1 t2
    where "pre = pre' @ [Consumed p start, Audited t1, Audited t2]" by (auto simp: admitted_now_def)
  then have "sy_trace sample_state = pre' @ Consumed p start # [Audited t1, Audited t2] @ Executed p fresh # post"
    using tr by simp
  from runs_respect_cooldown [OF r this] this show ?thesis by blast
qed

theorem lockout_is_permanent_witness:
  "locked_out (sy_control (sys_step sample_profile (CallRun [] True (sample_answers 200)) sample_closed))"
  unfolding locked_out_def
  using lockout_is_permanent [OF reaches.more [OF reaches.here]] sample_closed_state(2) by blast

theorem drained_is_silent_witness:
  "sy_trace (sys_step sample_profile (CallRun [] True (sample_answers 200)) sample_closed) = sy_trace sample_closed"
  using drained_is_silent [OF sample_closed_state(1) sample_closed_state(3) reaches.more [OF reaches.here]] by blast

text \<open>
  C11: termination.  Whatever the outside answers and whatever other goroutines call in between, an operation
  that holds the reservation has released it after at most fourteen of its own steps.
\<close>

theorem operation_terminates:
  assumes "reachable prof created s" and "14 \<le> length (filter is_advance ins)"
  shows "\<exists>k\<le>length ins. sy_active (run_inputs prof (take k ins) s) = None \<and>
     \<not> ct_busy (sy_control (run_inputs prof (take k ins) s))"
proof -
  have inv: "sys_inv prof created s" by (rule reachable_inv [OF assms(1)])
  have "\<exists>k\<le>length ins. sy_active (run_inputs prof (take k ins) s) = None"
  proof (cases "sy_active s")
    case None
    then show ?thesis by (intro exI [of _ 0]) simp
  next
    case (Some op)
    then show ?thesis using active_completes [OF inv Some] op_rank_bounds [of op] assms(2) by (meson le_trans)
  qed
  then obtain k where k: "k \<le> length ins" "sy_active (run_inputs prof (take k ins) s) = None" by blast
  have "sys_inv prof created (run_inputs prof (take k ins) s)"
    by (rule reaches_inv [OF run_inputs_reaches inv])
  then show ?thesis using k by (auto simp: sys_inv_def Let_def)
qed

theorem operation_terminates_witness:
  "\<exists>k\<le>14. \<not> ct_busy (sy_control (run_inputs sample_profile (take k (replicate 14 (Advance (sample_answers 123))))
      (run_inputs sample_profile (take 5 sample_inputs) sample_start)))"
proof -
  have "14 \<le> length (filter is_advance (replicate 14 (Advance (sample_answers 123))))"
    by (simp add: is_advance_def)
  from operation_terminates [OF sample_reachable this] show ?thesis by auto
qed

text \<open>
  C12: no result without a recorded end.  A run that returns a result returns it right after the terminal event
  with that run, outcome and sample has been recorded.
\<close>

theorem result_needs_recorded_end:
  assumes "reachable prof created s" and "sy_trace s = pre @ Returned_item (RunReturned (Some res) cause) # post"
  shows "\<exists>pre' (p :: _ pending_review) t reason. pr_runID p = rr_RunID res \<and>
     pre = pre' @ [Audited (rp_event prof (pr_selection p) (pr_runID p) (strip t)
        (phase_of (Finishing (rr_Outcome res) reason (rr_Sample res) cause)))] \<and>
     rp_event_valid prof (rp_event prof (pr_selection p) (pr_runID p) (strip t)
        (phase_of (Finishing (rr_Outcome res) reason (rr_Sample res) cause)))"
proof -
  have ok: "history_ok (justified prof created) (sy_trace s)"
    using reachable_inv [OF assms(1)] by (simp add: sys_inv_def Let_def)
  from history_okD [OF ok assms(2)] obtain pre' p t reason where id: "pr_runID p = rr_RunID res"
    and pre: "pre = pre' @ [Audited (phase_event prof p t (Finishing (rr_Outcome res) reason (rr_Sample res) cause))]"
    by (auto simp: confirmed_now_def)
  have "justified prof created pre' (Audited (phase_event prof p t (Finishing (rr_Outcome res) reason (rr_Sample res) cause)))"
    by (rule history_okD [OF ok]) (simp add: assms(2) pre)
  then show ?thesis
    using id pre by (intro exI [of _ pre'] exI [of _ p] exI [of _ t] exI [of _ reason]) (simp add: phase_event_def)
qed

lemma sample_last:
  "\<exists>pre res cause. sy_trace sample_state = pre @ [Returned_item (RunReturned (Some res) cause)] \<and>
     rr_Outcome res = ''completed''"
proof -
  have "case last (sy_trace sample_state) of
      Returned_item (RunReturned (Some res) cause) \<Rightarrow> rr_Outcome res = ''completed'' | _ \<Rightarrow> False"
    by code_simp
  then obtain res cause where "last (sy_trace sample_state) = Returned_item (RunReturned (Some res) cause)"
      "rr_Outcome res = ''completed''"
    by (auto split: item.splits returned.splits option.splits)
  moreover have "sy_trace sample_state \<noteq> []" using sample_kinds by auto
  ultimately show ?thesis by (metis append_butlast_last_id)
qed

theorem result_needs_recorded_end_witness:
  "\<exists>pre res cause (p :: _ pending_review) t reason. sy_trace sample_state = pre @ [Returned_item (RunReturned (Some res) cause)] \<and>
     rr_Outcome res = ''completed'' \<and> last pre = Audited (rp_event sample_profile (pr_selection p) (pr_runID p) (strip t)
        (phase_of (Finishing (rr_Outcome res) reason (rr_Sample res) cause)))"
proof -
  obtain pre res cause where tr: "sy_trace sample_state = pre @ [Returned_item (RunReturned (Some res) cause)]"
    and outcome: "rr_Outcome res = ''completed''"
    using sample_last by blast
  have r: "reachable sample_profile sample_created sample_state"
    unfolding sample_state_def by (rule sample_reachable)
  from result_needs_recorded_end [OF r tr] obtain pre' and p :: "string pending_review" and t reason
    where "pre = pre' @ [Audited (rp_event sample_profile (pr_selection p) (pr_runID p) (strip t)
        (phase_of (Finishing (rr_Outcome res) reason (rr_Sample res) cause)))]" by blast
  then have "last pre = Audited (rp_event sample_profile (pr_selection p) (pr_runID p) (strip t)
        (phase_of (Finishing (rr_Outcome res) reason (rr_Sample res) cause)))" by simp
  with tr outcome show ?thesis by blast
qed

end
