(* ===== verification/RunAudit.thy ===== *)
theory RunAudit
  imports RunControlProps
begin

text \<open>
  What a run control writes to its audit trail.  The locale \<open>audited_control\<close> states what an instance of the
  run control promises about its selections, samples and events; its lemmas show that the control then only
  ever offers valid events to the auditor, and that the events of one run form a trail: an authorization,
  perhaps an admission, perhaps an end, at times that do not decrease.
\<close>

section \<open>Wall clock\<close>

lemma clockLocked_wall:
  "clockLocked prof now c = (r, c') \<Longrightarrow> wall (ct_lastWall c) \<le> wall (ct_lastWall c')"
  by (cases "ct_fault c") (auto simp: clockLocked_def go_time split: if_splits)

lemma clockLocked_now:
  "clockLocked prof now c = (Inr t, c') \<Longrightarrow>
     t = now \<and> c' = c\<lparr>ct_lastWall := strip now\<rparr> \<and> rp_clock_ok prof now \<and> wall (ct_lastWall c) \<le> wall now"
  by (cases "ct_fault c") (auto simp: clockLocked_def go_time split: if_splits)

lemma signalDrained_wall [simp]: "ct_lastWall (signalDrainedLocked c) = ct_lastWall c"
  by (simp add: signalDrainedLocked_def)

lemma reserve_wall [simp]: "ct_lastWall (reserve c) = ct_lastWall c"
  by (simp add: reserve_def)

lemma other_sections_wall [simp]:
  "ct_lastWall (Close c) = ct_lastWall c" "ct_lastWall (Discard ticket c) = ct_lastWall c"
  "ct_lastWall (release c) = ct_lastWall c" "ct_lastWall (record_fault c) = ct_lastWall c"
  by (simp_all add: Close_def Discard_def release_def record_fault_def split: option.splits)

lemma prepare_reserve_wall:
  "prepare_reserve prof key an c = (r, c') \<Longrightarrow> wall (ct_lastWall c) \<le> wall (ct_lastWall c')"
  by (auto simp: prepare_reserve_def split: option.splits if_splits prod.splits sum.splits dest!: clockLocked_wall)

lemma run_reserve_wall:
  "run_reserve prof ticket consent an c = (r, c') \<Longrightarrow> wall (ct_lastWall c) \<le> wall (ct_lastWall c')"
  by (auto simp: run_reserve_def Let_def split: option.splits if_splits prod.splits sum.splits dest!: clockLocked_wall)

lemma clock_then_now:
  assumes "clock_then prof an c k = (c', op)"
  obtains (stop) e where "op = Releasing (RunReturned None (Some e))"
  | (go) now where "c' = c\<lparr>ct_lastWall := strip now\<rparr>" "op = k now c'" "rp_clock_ok prof now"
      "wall (ct_lastWall c) \<le> wall now"
  using assms by (auto simp: clock_then_def split: prod.splits sum.splits dest: clockLocked_now)

section \<open>The events of the current run\<close>

definition track :: "'sel pending_review option \<times> 'ev list \<Rightarrow> ('sel, 'smp, 'ev) item \<Rightarrow> 'sel pending_review option \<times> 'ev list" where
  "track cur x =
     (case x of Consumed p _ \<Rightarrow> (Some p, []) | Audited ev \<Rightarrow> (fst cur, snd cur @ [ev]) | _ \<Rightarrow> cur)"

definition current :: "('sel, 'smp, 'ev) item list \<Rightarrow> 'sel pending_review option \<times> 'ev list" where
  "current tr = foldl track (None, []) tr"

lemma current_Nil [simp]: "current [] = (None, [])"
  by (simp add: current_def)

lemma current_snoc [simp]: "current (tr @ [x]) = track (current tr) x"
  by (simp add: current_def)

lemma track_simps [simp]:
  "track cur (Consumed p start) = (Some p, [])" "track cur (Audited ev) = (fst cur, snd cur @ [ev])"
  "track cur (Issued p) = cur" "track cur (Executed p fresh) = cur" "track cur (Returned_item r) = cur"
  by (simp_all add: track_def)

text \<open>The events recorded in a stretch of the history.\<close>

definition events :: "('sel, 'smp, 'ev) item list \<Rightarrow> 'ev list" where
  "events tr = concat (map (\<lambda>x. case x of Audited ev \<Rightarrow> [ev] | _ \<Rightarrow> []) tr)"

lemma current_run:
  assumes "\<forall>x\<in>set mid. \<not> is_consumed x"
  shows "current (pre @ Consumed p start # mid) = (Some p, events mid)"
  using assms
proof (induction mid rule: rev_induct)
  case Nil
  then show ?case by (simp add: events_def)
next
  case (snoc x mid)
  have "current ((pre @ Consumed p start # mid) @ [x]) = track (Some p, events mid) x"
    unfolding current_snoc using snoc by simp
  then show ?case using snoc.prems by (cases x) (simp_all add: events_def)
qed

section \<open>Trails\<close>

definition stamp :: "time \<Rightarrow> bool" where
  "stamp t \<longleftrightarrow> nano_time t \<and> wall_only t"

definition review_ok :: "('sel \<Rightarrow> bool) \<Rightarrow> 'sel pending_review \<Rightarrow> bool" where
  "review_ok sel_ok p \<longleftrightarrow> sel_ok (pr_selection p) \<and> hex_match 32 (pr_runID p)"

definition recorded ::
  "('key, 'sel, 'smp, 'ev) run_profile \<Rightarrow> 'sel pending_review \<Rightarrow> time \<Rightarrow> 'smp phase_info \<Rightarrow> 'ev" where
  "recorded prof p t info = rp_event prof (pr_selection p) (pr_runID p) t info"

definition authorized_info :: "'smp phase_info" where
  "authorized_info = \<lparr>ph_State = ''authorized'', ph_Outcome = [], ph_Reason = [], ph_Sample = None\<rparr>"

definition admitted_info :: "'smp phase_info" where
  "admitted_info = \<lparr>ph_State = ''admitted'', ph_Outcome = [], ph_Reason = [], ph_Sample = None\<rparr>"

definition finished_info :: "string \<Rightarrow> string \<Rightarrow> 'smp option \<Rightarrow> 'smp phase_info" where
  "finished_info outcome reason m =
     \<lparr>ph_State = ''finished'', ph_Outcome = outcome, ph_Reason = reason, ph_Sample = m\<rparr>"

lemma phase_of_info:
  "phase_of Authorizing = authorized_info" "phase_of (Admitting fresh) = admitted_info"
  "phase_of (Finishing outcome reason m cause) = finished_info outcome reason m"
  by (simp_all add: authorized_info_def admitted_info_def finished_info_def)

text \<open>The ends that carry no sample, and those that close an execution whose sample was validated.\<close>

definition blank_ends :: "(string \<times> string) list" where
  "blank_ends = [(''blocked'', ''preflight-unavailable''), (''blocked'', ''selection-changed''),
     (''blocked'', ''review-expired''), (''canceled'', ''canceled''), (''failed'', ''measurement-invalid''),
     (''indeterminate'', ''execution-panic'')]"

definition closing ::
  "('key, 'sel, 'smp, 'ev) run_profile \<Rightarrow> run_error option \<Rightarrow> 'smp option \<Rightarrow> string \<Rightarrow> string \<Rightarrow> bool" where
  "closing prof err m outcome reason \<longleftrightarrow>
     outcome = ''canceled'' \<and> reason = ''canceled'' \<or>
     outcome = ''failed'' \<and> reason = ''execution-error'' \<and> err \<noteq> None \<or>
     outcome = ''completed'' \<and> reason = [] \<and>
       (err = None \<or> err = Some DeadlineExceeded \<and> rp_timeout_is_evidence prof m)"

definition fresh_ok ::
  "('key, 'sel, 'smp, 'ev) run_profile \<Rightarrow> ('sel \<Rightarrow> bool) \<Rightarrow> 'sel pending_review \<Rightarrow> 'sel \<Rightarrow> bool" where
  "fresh_ok prof sel_ok p fresh \<longleftrightarrow> sel_ok fresh \<and> rp_same_selection prof (pr_selection p) fresh"

definition validated ::
  "('key, 'sel, 'smp, 'ev) run_profile \<Rightarrow> ('sel \<Rightarrow> bool) \<Rightarrow> 'sel pending_review \<Rightarrow> time \<Rightarrow> time \<Rightarrow>
   string \<Rightarrow> string \<Rightarrow> 'smp option \<Rightarrow> bool" where
  "validated prof sel_ok p started ret outcome reason m \<longleftrightarrow>
     (\<exists>smp err fresh. fresh_ok prof sel_ok p fresh \<and> stamp started \<and> stamp ret \<and>
        rp_validate_sample prof smp err fresh (pr_runID p) started ret (pr_expiresAt p) = Inr m \<and>
        closing prof err m outcome reason)"

text \<open>The end of a run that was admitted at \<open>d\<close>, recorded not before the wall reading \<open>w\<close>.\<close>

definition run_end ::
  "('key, 'sel, 'smp, 'ev) run_profile \<Rightarrow> ('sel \<Rightarrow> bool) \<Rightarrow> 'sel pending_review \<Rightarrow> time \<Rightarrow> int \<Rightarrow>
   string \<Rightarrow> string \<Rightarrow> 'smp option \<Rightarrow> bool" where
  "run_end prof sel_ok p d w outcome reason m \<longleftrightarrow>
     m = None \<and> (outcome, reason) \<in> set blank_ends \<or>
     (\<exists>started ret. wall d \<le> wall started \<and> wall ret \<le> w \<and>
        validated prof sel_ok p started ret outcome reason m)"

definition authorized_trail where
  "authorized_trail prof p evs w \<longleftrightarrow>
     (\<exists>a. stamp a \<and> wall a \<le> w \<and> evs = [recorded prof p a authorized_info])"

definition admitted_trail where
  "admitted_trail prof p evs d \<longleftrightarrow>
     (\<exists>a. stamp a \<and> stamp d \<and> wall a \<le> wall d \<and>
        evs = [recorded prof p a authorized_info, recorded prof p d admitted_info])"

definition finished_trail where
  "finished_trail prof sel_ok p evs \<longleftrightarrow>
     (\<exists>early e outcome reason m. stamp e \<and> evs = early @ [recorded prof p e (finished_info outcome reason m)] \<and>
        (authorized_trail prof p early (wall e) \<and> m = None \<and> (outcome, reason) \<in> set blank_ends \<or>
         (\<exists>d. admitted_trail prof p early d \<and> wall d \<le> wall e \<and>
            run_end prof sel_ok p d (wall e) outcome reason m)))"

definition trail :: "('key, 'sel, 'smp, 'ev) run_profile \<Rightarrow> ('sel \<Rightarrow> bool) \<Rightarrow> 'sel pending_review \<Rightarrow> 'ev list \<Rightarrow> bool" where
  "trail prof sel_ok p evs \<longleftrightarrow> review_ok sel_ok p \<and>
     (evs = [] \<or> (\<exists>w. authorized_trail prof p evs w) \<or> (\<exists>d. admitted_trail prof p evs d) \<or>
      finished_trail prof sel_ok p evs)"

section \<open>The invariant\<close>

fun phase_trail where
  "phase_trail prof sel_ok p evs w Authorizing = (evs = [])"
| "phase_trail prof sel_ok p evs w (Admitting fresh) =
     (fresh_ok prof sel_ok p fresh \<and> authorized_trail prof p evs w)"
| "phase_trail prof sel_ok p evs w (Finishing outcome reason m cause) =
     (authorized_trail prof p evs w \<and> m = None \<and> (outcome, reason) \<in> set blank_ends \<or>
      (\<exists>d. admitted_trail prof p evs d \<and> wall d \<le> w \<and> run_end prof sel_ok p d w outcome reason m))"

fun op_trail where
  "op_trail prof sel_ok cur w (PreparePreflight key start) = True"
| "op_trail prof sel_ok cur w (PrepareCommit key start drawn) = (length (snd (snd drawn)) = 16)"
| "op_trail prof sel_ok cur w (RunStart p start) = (cur = (Some p, []) \<and> review_ok sel_ok p)"
| "op_trail prof sel_ok cur w (RecordClock p start ph) =
     (fst cur = Some p \<and> review_ok sel_ok p \<and> phase_trail prof sel_ok p (snd cur) w ph)"
| "op_trail prof sel_ok cur w (RecordAudit p start ph now) =
     (fst cur = Some p \<and> review_ok sel_ok p \<and> nano_time now \<and> wall now \<le> w \<and>
      phase_trail prof sel_ok p (snd cur) (wall now) ph)"
| "op_trail prof sel_ok cur w (RecordFault p start) = True"
| "op_trail prof sel_ok cur w (RunPreflight p start) =
     (fst cur = Some p \<and> review_ok sel_ok p \<and> authorized_trail prof p (snd cur) w)"
| "op_trail prof sel_ok cur w (RunRevalidate p start fresh) =
     (fst cur = Some p \<and> review_ok sel_ok p \<and> authorized_trail prof p (snd cur) w)"
| "op_trail prof sel_ok cur w (RunHandover p start fresh) =
     (fst cur = Some p \<and> review_ok sel_ok p \<and> fresh_ok prof sel_ok p fresh \<and>
      (\<exists>d. admitted_trail prof p (snd cur) d \<and> wall d \<le> w))"
| "op_trail prof sel_ok cur w (RunExecute p start fresh es) =
     (fst cur = Some p \<and> review_ok sel_ok p \<and> fresh_ok prof sel_ok p fresh \<and> stamp es \<and> wall es \<le> w \<and>
      (\<exists>d. admitted_trail prof p (snd cur) d \<and> wall d \<le> wall es))"
| "op_trail prof sel_ok cur w (RunValidate p start fresh es smp err) =
     (fst cur = Some p \<and> review_ok sel_ok p \<and> fresh_ok prof sel_ok p fresh \<and> stamp es \<and> wall es \<le> w \<and>
      (\<exists>d. admitted_trail prof p (snd cur) d \<and> wall d \<le> wall es))"
| "op_trail prof sel_ok cur w (Releasing r) = True"

definition current_ok where
  "current_ok prof sel_ok cur \<longleftrightarrow> (case cur of (None, evs) \<Rightarrow> evs = [] | (Some p, evs) \<Rightarrow> trail prof sel_ok p evs)"

definition audit_inv ::
  "('key, 'sel, 'smp, 'ev) run_profile \<Rightarrow> ('sel \<Rightarrow> bool) \<Rightarrow> ('key, 'sel, 'smp, 'ev) sys \<Rightarrow> bool" where
  "audit_inv prof sel_ok s \<longleftrightarrow>
     (\<forall>p. ct_pending (sy_control s) = Some p \<longrightarrow> review_ok sel_ok p) \<and>
     (\<forall>op. sy_active s = Some op \<longrightarrow>
        op_trail prof sel_ok (current (sy_trace s)) (wall (ct_lastWall (sy_control s))) op) \<and>
     history_ok (\<lambda>pre x. current_ok prof sel_ok (current (pre @ [x]))) (sy_trace s) \<and>
     current_ok prof sel_ok (current (sy_trace s))"

lemma authorized_trail_mono: "authorized_trail prof p evs w \<Longrightarrow> w \<le> w' \<Longrightarrow> authorized_trail prof p evs w'"
  by (force simp: authorized_trail_def)

lemma run_end_mono: "run_end prof sel_ok p d w o' r m \<Longrightarrow> w \<le> w' \<Longrightarrow> run_end prof sel_ok p d w' o' r m"
  by (force simp: run_end_def)

lemma phase_trail_mono:
  "phase_trail prof sel_ok p evs w ph \<Longrightarrow> w \<le> w' \<Longrightarrow> phase_trail prof sel_ok p evs w' ph"
proof (cases ph)
  case (Finishing outcome reason m cause)
  assume "phase_trail prof sel_ok p evs w ph" "w \<le> w'"
  then show ?thesis unfolding Finishing by (simp, meson authorized_trail_mono run_end_mono order_trans)
qed (auto intro: authorized_trail_mono)

lemma op_trail_mono:
  "op_trail prof sel_ok cur w op \<Longrightarrow> w \<le> w' \<Longrightarrow> op_trail prof sel_ok cur w' op"
  by (cases op) (auto intro: authorized_trail_mono phase_trail_mono order_trans)

lemma advance_items: "advance prof an c op = (c', op', items) \<Longrightarrow> length items \<le> 1"
  by (cases op) (auto simp: Let_def split: sum.splits option.splits prod.splits if_splits)

lemma byte_array_length [simp]: "length (byte_array n bs) = n"
  by (simp add: byte_array_def)

lemma audit_inv_frame:
  assumes "audit_inv prof sel_ok s" and "wall (ct_lastWall (sy_control s)) \<le> wall (ct_lastWall c')"
    and "ct_pending c' = ct_pending (sy_control s) \<or> ct_pending c' = None"
  shows "audit_inv prof sel_ok (s\<lparr>sy_control := c'\<rparr>)"
  using assms by (auto simp: audit_inv_def intro: op_trail_mono)

section \<open>The contract of an instance\<close>

locale audited_control =
  fixes prof :: "('key, 'sel, 'smp, 'ev) run_profile"
    and sel_ok :: "'sel \<Rightarrow> bool"
    and soon :: "time \<Rightarrow> time \<Rightarrow> bool"
  assumes normalized: "rp_normalize prof s key t = Inr s' \<Longrightarrow> sel_ok s'"
    and clock_nano: "rp_clock_ok prof now \<Longrightarrow> nano_time now"
    and authorized_valid: "review_ok sel_ok p \<Longrightarrow> stamp t \<Longrightarrow> rp_event_valid prof (recorded prof p t authorized_info)"
    and admitted_valid: "review_ok sel_ok p \<Longrightarrow> stamp t \<Longrightarrow> rp_event_valid prof (recorded prof p t admitted_info)"
    and blank_valid: "review_ok sel_ok p \<Longrightarrow> stamp t \<Longrightarrow> (outcome, reason) \<in> set blank_ends \<Longrightarrow>
      rp_event_valid prof (recorded prof p t (finished_info outcome reason None))"
    and validated_valid: "review_ok sel_ok p \<Longrightarrow> stamp t \<Longrightarrow> validated prof sel_ok p started ret outcome reason m \<Longrightarrow>
      wall ret \<le> wall t \<Longrightarrow> soon ret t \<Longrightarrow> rp_event_valid prof (recorded prof p t (finished_info outcome reason m))"
begin

lemma stamp_strip: "rp_clock_ok prof now \<Longrightarrow> stamp (strip now)"
  using clock_nano by (auto simp: stamp_def nano_time_iff)

lemma prepare_commit_review:
  assumes "prepare_commit prof key start drawn an c = (Inr p, c')" and "length (snd (snd drawn)) = 16"
  shows "review_ok sel_ok p"
  using assms hex_match_encode [of "snd (snd drawn)" 16]
  by (auto simp: prepare_commit_def review_ok_def Let_def normalized
      split: prod.splits sum.splits option.splits if_splits)

lemma run_revalidate_trail:
  assumes "review_ok sel_ok p" and "authorized_trail prof p evs (wall now)"
  shows "op_trail prof sel_ok (Some p, evs) (wall now) (run_revalidate prof p start fresh now)"
  using assms
  by (auto simp: run_revalidate_def finish_def blank_ends_def fresh_ok_def normalized split: sum.splits)

lemma run_handover_trail:
  assumes "review_ok sel_ok p" and "fresh_ok prof sel_ok p fresh" and "rp_clock_ok prof now"
    and "admitted_trail prof p evs d" and "wall d \<le> wall now"
  shows "op_trail prof sel_ok (Some p, evs) (wall now) (run_handover prof p start fresh now ctx)"
  using assms stamp_strip
  by (auto simp: run_handover_def finish_def blank_ends_def run_end_def split: option.splits)

lemma run_validate_trail:
  assumes "review_ok sel_ok p" and "fresh_ok prof sel_ok p fresh" and "rp_clock_ok prof now" and "stamp es"
    and "admitted_trail prof p evs d" and "wall d \<le> wall es" and "wall es \<le> wall now"
  shows "op_trail prof sel_ok (Some p, evs) (wall now) (run_validate prof p start fresh es smp err now ctx)"
proof (cases "rp_validate_sample prof smp err fresh (pr_runID p) es (strip now) (pr_expiresAt p)")
  case (Inl e)
  then show ?thesis
    using assms by (auto simp: run_validate_def finish_def run_end_def blank_ends_def intro!: exI [of _ d])
next
  case (Inr m)
  have "run_end prof sel_ok p d (wall now) outcome reason m" if "closing prof err m outcome reason" for outcome reason
  proof -
    have "validated prof sel_ok p es (strip now) outcome reason m"
      using assms that Inr stamp_strip unfolding validated_def by blast
    then show ?thesis
      using assms unfolding run_end_def by (intro disjI2 exI [of _ es] exI [of _ "strip now"]) simp
  qed
  then have fin: "op_trail prof sel_ok (Some p, evs) (wall now) (finish p start outcome reason m cause)"
    if "closing prof err m outcome reason" for outcome reason cause
    using assms that by (auto simp: finish_def intro!: exI [of _ d])
  show ?thesis
    using Inr by (auto simp: run_validate_def intro!: fin simp: closing_def split: option.splits)
qed

lemma record_trail:
  assumes "review_ok sel_ok p" and "nano_time now" and "phase_trail prof sel_ok p evs (wall now) ph"
  shows "trail prof sel_ok p (evs @ [recorded prof p (strip now) (phase_of ph)])"
    and "wall now \<le> w \<Longrightarrow>
      op_trail prof sel_ok (Some p, evs @ [recorded prof p (strip now) (phase_of ph)]) w (after_audit p start ph)"
proof -
  have st: "stamp (strip now)" using assms(2) by (simp add: stamp_def nano_time_iff)
  show "trail prof sel_ok p (evs @ [recorded prof p (strip now) (phase_of ph)])"
  proof (cases ph)
    case Authorizing
    then show ?thesis using assms st
      by (auto simp: trail_def authorized_trail_def phase_of_info simp del: phase_of.simps intro!: exI [of _ "strip now"])
  next
    case (Admitting fresh)
    then obtain a where "stamp a" "wall a \<le> wall now" "evs = [recorded prof p a authorized_info]"
      using assms by (auto simp: authorized_trail_def)
    then have "admitted_trail prof p (evs @ [recorded prof p (strip now) (phase_of ph)]) (strip now)"
      using st Admitting unfolding admitted_trail_def
      by (intro exI [of _ a]) (simp add: phase_of_info del: phase_of.simps)
    then show ?thesis using assms(1) by (auto simp: trail_def)
  next
    case (Finishing outcome reason m cause)
    then have "finished_trail prof sel_ok p (evs @ [recorded prof p (strip now) (phase_of ph)])"
      using assms st unfolding finished_trail_def
      by (intro exI [of _ evs] exI [of _ "strip now"] exI [of _ outcome] exI [of _ reason] exI [of _ m])
         (auto simp: phase_of_info simp del: phase_of.simps)
    then show ?thesis using assms(1) by (auto simp: trail_def)
  qed
  show "op_trail prof sel_ok (Some p, evs @ [recorded prof p (strip now) (phase_of ph)]) w (after_audit p start ph)"
    if "wall now \<le> w"
  proof (cases ph)
    case Authorizing
    then show ?thesis using assms st that
      by (auto simp: after_audit_def authorized_trail_def phase_of_info simp del: phase_of.simps intro!: exI [of _ "strip now"])
  next
    case (Admitting fresh)
    then obtain a where "stamp a" "wall a \<le> wall now" "evs = [recorded prof p a authorized_info]"
      using assms by (auto simp: authorized_trail_def)
    then have "admitted_trail prof p (evs @ [recorded prof p (strip now) (phase_of ph)]) (strip now)"
      using st Admitting unfolding admitted_trail_def
      by (intro exI [of _ a]) (simp add: phase_of_info del: phase_of.simps)
    then show ?thesis using assms that Admitting by (auto simp: after_audit_def intro!: exI [of _ "strip now"])
  qed (simp add: after_audit_def)
qed

text \<open>The event that is about to be offered to the auditor is valid, unless the clock jumped since the sample was validated.\<close>

lemma phase_event_valid:
  assumes "review_ok sel_ok p" and "nano_time now" and "phase_trail prof sel_ok p evs (wall now) ph"
    and "\<And>started ret outcome reason m cause. ph = Finishing outcome reason m cause \<Longrightarrow>
           validated prof sel_ok p started ret outcome reason m \<Longrightarrow> wall ret \<le> wall now \<Longrightarrow> soon ret (strip now)"
  shows "rp_event_valid prof (recorded prof p (strip now) (phase_of ph))"
proof -
  have st: "stamp (strip now)" using assms(2) by (simp add: stamp_def nano_time_iff)
  show ?thesis
  proof (cases ph)
    case (Finishing outcome reason m cause)
    then have "m = None \<and> (outcome, reason) \<in> set blank_ends \<or>
        (\<exists>started ret. wall ret \<le> wall now \<and> validated prof sel_ok p started ret outcome reason m)"
      using assms(3) by (auto simp: run_end_def)
    then show ?thesis
      using blank_valid [OF assms(1) st] validated_valid [OF assms(1) st] assms(4) [OF Finishing] Finishing
      by (auto simp: phase_of_info simp del: phase_of.simps)
  qed (use assms(1) st authorized_valid admitted_valid in \<open>simp_all add: phase_of_info del: phase_of.simps\<close>)
qed

lemma advance_trail:
  assumes adv: "advance prof an c op = (c', op', items)"
    and cur: "current_ok prof sel_ok cur" and pend: "\<forall>p. ct_pending c = Some p \<longrightarrow> review_ok sel_ok p"
    and op: "op_trail prof sel_ok cur (wall (ct_lastWall c)) op"
  shows "(\<forall>p. ct_pending c' = Some p \<longrightarrow> review_ok sel_ok p) \<and>
     (\<forall>o'. op' = Some o' \<longrightarrow> op_trail prof sel_ok (foldl track cur items) (wall (ct_lastWall c')) o') \<and>
     current_ok prof sel_ok (foldl track cur items)"
proof -
  have quiet: "\<forall>p. ct_pending c' = Some p \<longrightarrow> review_ok sel_ok p" if "quiet_change c c'" for c'
    using that pend by (auto simp: quiet_change_def)
  have clocked: ?thesis
    if k: "clock_then prof an c k = (c', o')" and o: "op' = Some o'" "items = []"
      and go: "\<And>now. rp_clock_ok prof now \<Longrightarrow> wall (ct_lastWall c) \<le> wall now \<Longrightarrow>
        op_trail prof sel_ok cur (wall now) (k now (c\<lparr>ct_lastWall := strip now\<rparr>))" for k o'
    using k
  proof (cases rule: clock_then_now)
    case (stop e)
    then show ?thesis using quiet [OF clock_then_quiet [OF k]] cur o by simp
  next
    case (go now)
    then show ?thesis using quiet [OF clock_then_quiet [OF k]] cur o that(4) by simp
  qed
  show ?thesis
  proof (cases op)
    case (PreparePreflight key start)
    then show ?thesis
      using adv cur pend by (auto simp: prepare_draw_def split: sum.splits option.splits if_splits)
  next
    case (PrepareCommit key start drawn)
    obtain r c0 where r: "prepare_commit prof key start drawn an c = (r, c0)" by fastforce
    from r show ?thesis
    proof (cases rule: prepare_commit_cases)
      case (err e)
      then show ?thesis using adv cur PrepareCommit r quiet by auto
    next
      case (ok p w)
      then show ?thesis using adv cur PrepareCommit r op prepare_commit_review [of key start drawn an c p c0] by auto
    qed
  next
    case (RunStart p start)
    then show ?thesis using adv cur pend op by (auto split: option.splits)
  next
    case (RecordClock p start ph)
    then obtain o' where k: "clock_then prof an c (\<lambda>now c. RecordAudit p start ph now) = (c', o')" "op' = Some o'" "items = []"
      using adv by (auto split: prod.splits)
    show ?thesis
      using op RecordClock by (intro clocked [OF k]) (auto intro: phase_trail_mono clock_nano)
  next
    case (RecordAudit p start ph now)
    then have "cur = (Some p, snd cur)" "review_ok sel_ok p" "nano_time now" "wall now \<le> wall (ct_lastWall c)"
      "phase_trail prof sel_ok p (snd cur) (wall now) ph"
      using op by (auto intro: prod_eqI)
    then show ?thesis
      using adv cur pend record_trail [of p now "snd cur" ph] RecordAudit
      by (auto simp: Let_def recorded_def [symmetric] current_ok_def split: if_splits)
  next
    case (RecordFault p start)
    then show ?thesis using adv cur quiet [OF record_fault_quiet] by auto
  next
    case (RunPreflight p start)
    then show ?thesis using adv cur pend op by (auto simp: finish_def blank_ends_def split: option.splits)
  next
    case (RunRevalidate p start fresh)
    then obtain o' where k: "clock_then prof an c (\<lambda>now c. run_revalidate prof p start fresh now) = (c', o')"
        "op' = Some o'" "items = []"
      using adv by (auto split: prod.splits)
    obtain evs where "cur = (Some p, evs)" "review_ok sel_ok p" "authorized_trail prof p evs (wall (ct_lastWall c))"
      using op RunRevalidate by (cases cur) auto
    then show ?thesis
      by (intro clocked [OF k]) (auto intro: authorized_trail_mono run_revalidate_trail)
  next
    case (RunHandover p start fresh)
    then obtain evs d where d: "cur = (Some p, evs)" "review_ok sel_ok p" "fresh_ok prof sel_ok p fresh"
        "admitted_trail prof p evs d" "wall d \<le> wall (ct_lastWall c)"
      using op by (cases cur) auto
    obtain o' where k: "clock_then prof an c (\<lambda>now c. run_handover prof p start fresh now (ctx_error an c)) = (c', o')"
        "op' = Some o'" "items = []"
      using adv RunHandover by (auto split: prod.splits)
    show ?thesis
      using d by (intro clocked [OF k]) (auto intro: run_handover_trail order_trans)
  next
    case (RunExecute p start fresh es)
    then obtain evs d where d: "cur = (Some p, evs)" "review_ok sel_ok p" "fresh_ok prof sel_ok p fresh" "stamp es"
        "wall es \<le> wall (ct_lastWall c)" "admitted_trail prof p evs d" "wall d \<le> wall es"
      using op by (cases cur) auto
    then have "phase_trail prof sel_ok p evs (wall (ct_lastWall c)) (Finishing ''indeterminate'' ''execution-panic'' None cause)" for cause
      by (auto simp: blank_ends_def run_end_def intro!: exI [of _ d])
    then show ?thesis
      using adv cur pend d RunExecute by (auto simp: finish_def simp del: phase_trail.simps split: option.splits)
  next
    case (RunValidate p start fresh es smp err)
    then obtain evs d where d: "cur = (Some p, evs)" "review_ok sel_ok p" "fresh_ok prof sel_ok p fresh" "stamp es"
        "wall es \<le> wall (ct_lastWall c)" "admitted_trail prof p evs d" "wall d \<le> wall es"
      using op by (cases cur) auto
    obtain o' where k: "clock_then prof an c
          (\<lambda>now c. run_validate prof p start fresh es smp err now (ctx_error an c)) = (c', o')"
        "op' = Some o'" "items = []"
      using adv RunValidate by (auto split: prod.splits)
    show ?thesis
      using d by (intro clocked [OF k]) (auto intro: run_validate_trail order_trans)
  next
    case (Releasing r)
    then show ?thesis using adv cur pend by (auto simp: release_def)
  qed
qed

lemma audit_inv_advance:
  assumes inv: "audit_inv prof sel_ok s" and act: "sy_active s = Some op"
  shows "audit_inv prof sel_ok (sys_step prof (Advance an) s)"
proof -
  obtain c' op' items where adv: "advance prof an (sy_control s) op = (c', op', items)"
    by (cases "advance prof an (sy_control s) op") auto
  have step: "(\<forall>p. ct_pending c' = Some p \<longrightarrow> review_ok sel_ok p) \<and>
     (\<forall>o'. op' = Some o' \<longrightarrow>
        op_trail prof sel_ok (foldl track (current (sy_trace s)) items) (wall (ct_lastWall c')) o') \<and>
     current_ok prof sel_ok (foldl track (current (sy_trace s)) items)"
    using inv act by (intro advance_trail [OF adv]) (auto simp: audit_inv_def)
  have eq: "current (sy_trace s @ items) = foldl track (current (sy_trace s)) items"
    by (simp add: current_def)
  have "items = [] \<or> (\<exists>x. items = [x])"
    using advance_items [OF adv] by (cases items) auto
  then show ?thesis
    using step inv act adv eq by (auto simp: audit_inv_def simp del: advance.simps)
qed

lemma audit_inv_prepare:
  assumes inv: "audit_inv prof sel_ok s"
  shows "audit_inv prof sel_ok (sys_step prof (CallPrepare key an) s)"
proof -
  obtain r c' where r: "prepare_reserve prof key an (sy_control s) = (r, c')" by fastforce
  note w = prepare_reserve_wall [OF r]
  from r show ?thesis
  proof (cases rule: prepare_reserve_cases)
    case (err e)
    then show ?thesis using r audit_inv_frame [OF inv w] by (simp add: quiet_change_def)
  next
    case (ok start w)
    then show ?thesis using r inv by (simp add: audit_inv_def)
  qed
qed

lemma audit_inv_run:
  assumes inv: "audit_inv prof sel_ok s"
  shows "audit_inv prof sel_ok (sys_step prof (CallRun ticket consent an) s)"
proof -
  obtain r c' where r: "run_reserve prof ticket consent an (sy_control s) = (r, c')" by fastforce
  note w = run_reserve_wall [OF r]
  from r show ?thesis
  proof (cases rule: run_reserve_cases)
    case (err e)
    then show ?thesis using r audit_inv_frame [OF inv w] by (simp add: quiet_change_def)
  next
    case (ok p start w)
    then show ?thesis using r inv by (simp add: audit_inv_def current_ok_def trail_def)
  qed
qed

lemma audit_inv_step:
  assumes inv: "audit_inv prof sel_ok s"
  shows "audit_inv prof sel_ok (sys_step prof inp s)"
proof (cases inp)
  case (Advance an)
  show ?thesis
  proof (cases "sy_active s")
    case None
    then show ?thesis using inv Advance by simp
  next
    case (Some op)
    then show ?thesis unfolding Advance by (rule audit_inv_advance [OF inv])
  qed
next
  case (CallPrepare key an)
  show ?thesis unfolding CallPrepare by (rule audit_inv_prepare [OF inv])
next
  case (CallRun ticket consent an)
  show ?thesis unfolding CallRun by (rule audit_inv_run [OF inv])
next
  case CallClose
  show ?thesis unfolding CallClose sys_step.simps by (rule audit_inv_frame [OF inv]) (simp_all add: Close_def)
next
  case (CallDiscard ticket)
  show ?thesis unfolding CallDiscard sys_step.simps
    by (rule audit_inv_frame [OF inv]) (auto simp: Discard_def split: option.splits)
qed

lemma reachable_audit_inv:
  assumes "reachable prof created s"
  shows "audit_inv prof sel_ok s"
proof -
  obtain a b d c where c: "New a b d created = Inr c" and r: "reaches prof (start_sys c) s"
    using assms by (auto simp: reachable_def)
  have start: "audit_inv prof sel_ok (start_sys c)"
    using c by (auto simp: New_def start_sys_def audit_inv_def current_ok_def)
  from r start show ?thesis by (induction rule: reaches.induct) (auto intro: audit_inv_step)
qed

text \<open>The two facts that clients use: the event that is offered is valid, and every run leaves a trail.\<close>

lemma offered_event_valid:
  assumes "reachable prof created s" and "sy_active s = Some (RecordAudit p start ph now)"
    and "\<And>started ret outcome reason m cause. ph = Finishing outcome reason m cause \<Longrightarrow>
           validated prof sel_ok p started ret outcome reason m \<Longrightarrow> wall ret \<le> wall now \<Longrightarrow> soon ret (strip now)"
  shows "rp_event_valid prof (recorded prof p (strip now) (phase_of ph))"
proof -
  have "op_trail prof sel_ok (current (sy_trace s)) (wall (ct_lastWall (sy_control s))) (RecordAudit p start ph now)"
    using reachable_audit_inv [OF assms(1)] assms(2) by (simp add: audit_inv_def)
  then show ?thesis using phase_event_valid assms(3) by auto
qed

lemma run_trail:
  assumes "reachable prof created s" and "sy_trace s = pre @ Consumed p start # mid @ post"
    and "\<forall>x\<in>set mid. \<not> is_consumed x"
  shows "trail prof sel_ok p (events mid)"
proof -
  have inv: "history_ok (\<lambda>pre x. current_ok prof sel_ok (current (pre @ [x]))) (sy_trace s)"
    using reachable_audit_inv [OF assms(1)] by (simp add: audit_inv_def)
  have "current_ok prof sel_ok (current (pre @ Consumed p start # mid))"
  proof (cases mid rule: rev_cases)
    case Nil
    then show ?thesis using history_okD [OF inv, of pre "Consumed p start" post] assms(2) by simp
  next
    case (snoc mid' x)
    then show ?thesis
      using history_okD [OF inv, of "pre @ Consumed p start # mid'" x post] assms(2) by (simp del: current_snoc)
  qed
  then show ?thesis using current_run [OF assms(3)] by (simp add: current_ok_def)
qed

end

end
