(* ===== verification/GatewayPlan.thy ===== *)
theory GatewayPlan
  imports Netip GoTime
begin

text \<open>
  \<open>networkquality/gateway_plan.go\<close>: the review artifact of one gateway check.  A plan names one private
  IPv4 host inside the enrolled prefixes, a short review lifetime and a fixed probe budget.  The lemmas
  characterise the loop over the enrolled prefixes, from which the properties of the accepted targets
  follow.
\<close>

section \<open>Data\<close>

datatype plan_error = ErrGatewayPlanTarget | ErrGatewayPlanBinding | ErrGatewayPlanClock | PlanPanic

text \<open>\<open>PlanPanic\<close> is the panic of \<open>netip.Addr.As4\<close> on an address that is not IPv4.\<close>

definition GatewayReviewLifetime :: duration where
  "GatewayReviewLifetime = 30 * second"

definition is_scope_char :: "char \<Rightarrow> bool" where
  "is_scope_char c \<longleftrightarrow> is_lower c \<or> is_digit c \<or> c \<in> {CHR ''.'', CHR ''_'', CHR '':'', CHR ''-''}"

definition gatewayScopePattern :: "string \<Rightarrow> bool" where
  "gatewayScopePattern = head_tail_match is_lower is_scope_char (Some 127)"

definition is_interface_tail :: "char \<Rightarrow> bool" where
  "is_interface_tail c \<longleftrightarrow> is_alnum c \<or> c \<in> {CHR ''_'', CHR ''.'', CHR '':'', CHR ''-''}"

definition gatewayInterfacePattern :: "string \<Rightarrow> bool" where
  "gatewayInterfacePattern = head_tail_match is_alnum is_interface_tail (Some 63)"

record gateway_binding =
  gb_ScopeID :: string
  gb_InterfaceName :: string
  gb_InterfaceIndex :: int
  gb_Prefixes :: "string list"

record probe_budget =
  pb_MaxAttempts :: int
  pb_MinInterval :: duration
  pb_AttemptTimeout :: duration
  pb_TotalTimeout :: duration
  pb_PayloadBytes :: int
  pb_MaxICMPRequestBytes :: int
  pb_MaxConcurrentRuns :: int
  pb_MinRunInterval :: duration

record gateway_plan =
  gp_Binding :: gateway_binding
  gp_Target :: addr
  gp_CreatedAt :: time
  gp_ReviewExpiresAt :: time
  gp_Budget :: probe_budget

section \<open>Operations\<close>

definition ValidateGatewayPreviewTarget :: "string \<Rightarrow> (plan_error, unit) result" where
  "ValidateGatewayPreviewTarget raw =
     guard (length raw > 15) ErrGatewayPlanTarget
     (case ParseAddr raw of
        None \<Rightarrow> Inl ErrGatewayPlanTarget
      | Some address \<Rightarrow>
          guard (\<not> Is4 address \<or> \<not> IsPrivate address \<or> addr_string address \<noteq> raw)
            ErrGatewayPlanTarget (Inr ()))"

text \<open>\<open>Addr.As4\<close> also accepts an IPv4-mapped address.\<close>

definition addr_bytes4 :: "addr \<Rightarrow> byte list option" where
  "addr_bytes4 a = (case Unmap a of Addr4 w \<Rightarrow> Some (As4 w) | _ \<Rightarrow> None)"

text \<open>The loop sets the host bits of the address one by one, from bit \<open>Bits()\<close> to bit 31.\<close>

definition set_host_bit :: "byte list \<Rightarrow> nat \<Rightarrow> byte list" where
  "set_host_bit bytes n = bytes[n div 8 := (bytes ! (n div 8)) OR push_bit (7 - n mod 8) 1]"

definition gatewayLastIPv4 :: "prefix \<Rightarrow> addr option" where
  "gatewayLastIPv4 p =
     map_option (\<lambda>bytes. AddrFrom4 (foldl set_host_bit bytes [p_Bits p..<32])) (addr_bytes4 (p_Addr p))"

text \<open>One enrolled prefix in its canonical form.\<close>

definition canonical_prefix :: "string \<Rightarrow> (plan_error, prefix) result" where
  "canonical_prefix raw =
     guard (length raw > 64) ErrGatewayPlanBinding
     (case ParsePrefix raw of
        None \<Rightarrow> Inl ErrGatewayPlanBinding
      | Some p \<Rightarrow>
          guard (p \<noteq> Masked p \<or> Is4In6 (p_Addr p) \<or> IsUnspecified (p_Addr p) \<or> IsLoopback (p_Addr p) \<or>
                 IsMulticast (p_Addr p)) ErrGatewayPlanBinding (Inr p))"

text \<open>The veto of a prefix that contains the target.\<close>

definition check_containing :: "prefix \<Rightarrow> addr \<Rightarrow> (plan_error, unit) result" where
  "check_containing p address =
     guard (p_Bits p > 30 \<or> \<not> IsPrivate (p_Addr p)) ErrGatewayPlanTarget
     (case gatewayLastIPv4 p of
        None \<Rightarrow> Inl PlanPanic
      | Some last_addr \<Rightarrow>
          guard (\<not> IsPrivate last_addr \<or> address = p_Addr p \<or> address = last_addr)
            ErrGatewayPlanTarget (Inr ()))"

fun scan_prefixes ::
  "addr \<Rightarrow> prefix set \<Rightarrow> string list \<Rightarrow> bool \<Rightarrow> string list \<Rightarrow> (plan_error, string list \<times> bool) result" where
  "scan_prefixes address seen prefixes matched [] = Inr (prefixes, matched)"
| "scan_prefixes address seen prefixes matched (raw # raws) =
     bind_result (canonical_prefix raw) (\<lambda>p.
     guard (p \<in> seen) ErrGatewayPlanBinding
     (if \<not> Contains p address then
        scan_prefixes address (insert p seen) (prefixes @ [prefix_string p]) matched raws
      else
        bind_result (check_containing p address) (\<lambda>_.
        scan_prefixes address (insert p seen) (prefixes @ [prefix_string p]) True raws)))"

definition gateway_budget :: probe_budget where
  "gateway_budget =
     \<lparr>pb_MaxAttempts = 3, pb_MinInterval = second, pb_AttemptTimeout = second,
      pb_TotalTimeout = 5 * second, pb_PayloadBytes = 32, pb_MaxICMPRequestBytes = 3 * (8 + 32),
      pb_MaxConcurrentRuns = 1, pb_MinRunInterval = minute\<rparr>"

definition PreviewGatewayCheck :: "gateway_binding \<Rightarrow> string \<Rightarrow> time \<Rightarrow> (plan_error, gateway_plan) result" where
  "PreviewGatewayCheck binding target now =
     bind_result (ValidateGatewayPreviewTarget target) (\<lambda>_.
     guard (\<not> gatewayScopePattern (gb_ScopeID binding) \<or>
            \<not> gatewayInterfacePattern (gb_InterfaceName binding) \<or> gb_InterfaceIndex binding < 1 \<or>
            gb_InterfaceIndex binding > 2147483647 \<or> gb_Prefixes binding = [] \<or>
            length (gb_Prefixes binding) > 32) ErrGatewayPlanBinding
     (let created = strip now in
      guard (is_zero created \<or> year_under_1 created \<or> year_over_9999 created \<or>
             year_over_9999 (time_add created GatewayReviewLifetime)) ErrGatewayPlanClock
      (let address = (case ParseAddr target of None \<Rightarrow> AddrNone | Some a \<Rightarrow> a) in
       bind_result (scan_prefixes address {} [] False (gb_Prefixes binding)) (\<lambda>(prefixes, matched).
       guard (\<not> matched) ErrGatewayPlanTarget
       (Inr \<lparr>gp_Binding = binding\<lparr>gb_Prefixes := sort prefixes\<rparr>, gp_Target = address,
             gp_CreatedAt = created, gp_ReviewExpiresAt = time_add created GatewayReviewLifetime,
             gp_Budget = gateway_budget\<rparr>)))))"

section \<open>Broadcast addresses\<close>

lemma length_As4 [simp]: "length (As4 w) = 4"
  by (simp add: As4_def)

lemma set_host_bit_As4:
  assumes "n < 32"
  shows "set_host_bit (As4 w) n = As4 (set_bit (31 - n) w)"
proof (rule nth_equalityI)
  show "length (set_host_bit (As4 w) n) = length (As4 (set_bit (31 - n) w))"
    by (simp add: set_host_bit_def)
next
  fix i
  assume "i < length (set_host_bit (As4 w) n)"
  then have i: "i < 4" by (simp add: set_host_bit_def)
  have nth: "As4 v ! i = octet4 v i" for v
    using i by (auto simp: As4_def less_Suc_eq numeral_eq_Suc)
  have "bit (set_host_bit (As4 w) n ! i) m = bit (As4 (set_bit (31 - n) w) ! i) m" if m: "m < 8" for m
  proof -
    have eq: "31 - n = 8 * (3 - i) + m \<longleftrightarrow> i = n div 8 \<and> m = 7 - n mod 8"
    proof -
      define q r where "q = n div 8" and "r = n mod 8"
      have n: "n = 8 * q + r" and b: "q < 4" "r < 8"
        using assms by (auto simp: q_def r_def)
      have "8 * (3 - q) + (7 - r) = 8 * (3 - i) + m \<longleftrightarrow> i = q \<and> m = 7 - r"
        using i m b by (cases i q rule: linorder_cases) auto
      moreover have "31 - n = 8 * (3 - q) + (7 - r)" using n b by auto
      ultimately show ?thesis by (simp add: q_def [symmetric] r_def [symmetric])
    qed
    have low: "8 * (3 - i) + m < 32" using i m by auto
    have "n div 8 < length (As4 w)" using assms by simp
    then have "set_host_bit (As4 w) n ! i = (if i = n div 8 then octet4 w i OR push_bit (7 - n mod 8) 1 else octet4 w i)"
      using nth [of w] by (cases "i = n div 8") (simp_all add: set_host_bit_def nth_list_update)
    then show ?thesis
      using m eq assms i low by (auto simp: nth octet4_def bit_simps)
  qed
  then show "set_host_bit (As4 w) n ! i = As4 (set_bit (31 - n) w) ! i"
    by (intro bit_word_eqI) simp
qed

lemma foldl_set_host_bit:
  "\<forall>n\<in>set ns. n < 32 \<Longrightarrow> foldl set_host_bit (As4 w) ns = As4 (foldl (\<lambda>w n. set_bit (31 - n) w) w ns)"
  by (induction ns arbitrary: w) (simp_all add: set_host_bit_As4)

lemma bit_foldl_set_bit:
  fixes w :: "32 word"
  shows "m < 32 \<Longrightarrow> bit (foldl (\<lambda>w n. set_bit (31 - n) w) w ns) m \<longleftrightarrow> bit w m \<or> (\<exists>n\<in>set ns. 31 - n = m)"
  by (induction ns arbitrary: w) (auto simp: bit_simps)

lemma host_bits:
  assumes "n \<le> 32"
  shows "foldl (\<lambda>w n. set_bit (31 - n) w) w [n..<32] = w OR NOT (mask4 n)"
proof (rule bit_word_eqI)
  fix m
  assume "m < LENGTH(32)"
  then have m: "m < 32" by simp
  have "(\<exists>k\<in>set [n..<32]. 31 - k = m) \<longleftrightarrow> m < 32 - n"
  proof
    assume "m < 32 - n"
    then show "\<exists>k\<in>set [n..<32]. 31 - k = m"
      by (intro bexI [of _ "31 - m"]) auto
  qed auto
  then show "bit (foldl (\<lambda>w n. set_bit (31 - n) w) w [n..<32]) m = bit (w OR NOT (mask4 n)) m"
    using m by (auto simp: bit_foldl_set_bit mask4_def bit_simps)
qed

text \<open>The last address of an IPv4 prefix: its address with every host bit set.\<close>

lemma gatewayLastIPv4_broadcast:
  assumes "p_Addr p = Addr4 w" and "p_Bits p \<le> 32"
  shows "gatewayLastIPv4 p = Some (Addr4 (w OR NOT (mask4 (p_Bits p))))"
  using assms
  by (simp add: gatewayLastIPv4_def addr_bytes4_def Unmap_def foldl_set_host_bit addr_from_as4 host_bits)

lemma Contains_4:
  assumes "p_Addr p = Addr4 v" and "p_Bits p \<le> 32"
  shows "Contains p (Addr4 w) \<longleftrightarrow> w AND mask4 (p_Bits p) = v AND mask4 (p_Bits p)"
proof -
  have "drop_bit (32 - n) (w XOR v) = 0 \<longleftrightarrow> w AND mask4 n = v AND mask4 n" if "n \<le> 32" for n
  proof
    assume l: "drop_bit (32 - n) (w XOR v) = 0"
    have "bit w m = bit v m" if "m < 32" "32 - n \<le> m" for m
    proof -
      have "bit (drop_bit (32 - n) (w XOR v)) (m - (32 - n)) = False" using l by simp
      then show ?thesis using that by (simp add: bit_simps)
    qed
    then show "w AND mask4 n = v AND mask4 n"
      by (intro bit_word_eqI) (auto simp: mask4_def bit_simps)
  next
    assume r: "w AND mask4 n = v AND mask4 n"
    have eq: "bit w m = bit v m" if "m < 32" "32 - n \<le> m" for m
    proof -
      have "bit (w AND mask4 n) m = bit (v AND mask4 n) m" using r by simp
      then show ?thesis using that by (simp add: mask4_def bit_simps)
    qed
    show "drop_bit (32 - n) (w XOR v) = 0"
    proof (rule bit_word_eqI)
      fix m
      have high: "\<not> bit u k" if "\<not> k < 32" for u :: "32 word" and k
        using that bit_imp_le_length [of u k] by auto
      have "bit w (m + (32 - n)) = bit v (m + (32 - n))"
        using eq [of "m + (32 - n)"] high by (cases "m + (32 - n) < 32") simp_all
      then show "bit (drop_bit (32 - n) (w XOR v)) m = bit (0 :: 32 word) m"
        by (simp add: bit_simps add.commute)
    qed
  qed
  with assms show ?thesis by (simp add: Contains_def)
qed

lemma Contains_Addr4D: "Contains p (Addr4 w) \<Longrightarrow> \<exists>v. p_Addr p = Addr4 v"
  by (auto simp: Contains_def split: addr.splits)


section \<open>The loop over the enrolled prefixes\<close>

definition parsed :: "string \<Rightarrow> prefix" where
  "parsed raw = (case canonical_prefix raw of Inr p \<Rightarrow> p | Inl _ \<Rightarrow> \<lparr>p_Addr = AddrNone, p_Bits = 0\<rparr>)"

definition prefix_accepted :: "addr \<Rightarrow> string \<Rightarrow> bool" where
  "prefix_accepted address raw \<longleftrightarrow> is_ok (canonical_prefix raw) \<and>
     (Contains (parsed raw) address \<longrightarrow> check_containing (parsed raw) address = Inr ())"

lemma scan_prefixes_Inr:
  "scan_prefixes address seen prefixes matched raws = Inr (out, matched') \<longleftrightarrow>
     (\<forall>raw\<in>set raws. prefix_accepted address raw \<and> parsed raw \<notin> seen) \<and> distinct (map parsed raws) \<and>
     out = prefixes @ map (prefix_string \<circ> parsed) raws \<and>
     matched' = (matched \<or> (\<exists>raw\<in>set raws. Contains (parsed raw) address))"
proof (induction raws arbitrary: seen prefixes matched)
  case Nil
  then show ?case by auto
next
  case (Cons raw raws)
  show ?case
  proof (cases "canonical_prefix raw")
    case (Inl e)
    then show ?thesis by (simp add: prefix_accepted_def)
  next
    case (Inr p)
    then have p: "parsed raw = p" by (simp add: parsed_def)
    have ok: "prefix_accepted address raw \<longleftrightarrow> (Contains p address \<longrightarrow> check_containing p address = Inr ())"
      using Inr p by (simp add: prefix_accepted_def)
    have seen: "(\<forall>x\<in>set raws. prefix_accepted address x \<and> parsed x \<notin> insert p seen) \<longleftrightarrow>
        (\<forall>x\<in>set raws. prefix_accepted address x \<and> parsed x \<notin> seen) \<and> p \<notin> parsed ` set raws"
      by auto
    show ?thesis
      by (cases "Contains p address"; cases "check_containing p address") (auto simp: Inr p ok Cons.IH seen)
  qed
qed

lemma canonical_prefix_Inr:
  "canonical_prefix raw = Inr p \<Longrightarrow> ParsePrefix raw = Some p \<and> Masked p = p \<and> p_Bits p \<le> max_bits (p_Addr p)"
  by (auto simp: canonical_prefix_def ParsePrefix_def Let_def split: option.splits if_splits)

lemma check_containing_4:
  assumes "p_Addr p = Addr4 v" and "p_Bits p \<le> 32"
  shows "check_containing p (Addr4 w) = Inr () \<longleftrightarrow>
     p_Bits p \<le> 30 \<and> IsPrivate (Addr4 v) \<and> IsPrivate (Addr4 (v OR NOT (mask4 (p_Bits p)))) \<and>
     w \<noteq> v \<and> w \<noteq> v OR NOT (mask4 (p_Bits p))"
  using assms by (auto simp: check_containing_def gatewayLastIPv4_broadcast)

lemma check_containing_no_panic:
  assumes "Contains p (Addr4 w)" and "p_Bits p \<le> max_bits (p_Addr p)"
  shows "check_containing p (Addr4 w) \<noteq> Inl PlanPanic"
proof -
  obtain v where v: "p_Addr p = Addr4 v" using Contains_Addr4D [OF assms(1)] by blast
  then have "p_Bits p \<le> 32" using assms(2) by (simp add: max_bits_def)
  then show ?thesis by (auto simp: check_containing_def gatewayLastIPv4_broadcast [OF v] guard_def)
qed

lemma scan_prefixes_no_panic:
  "scan_prefixes (Addr4 w) seen prefixes matched raws \<noteq> Inl PlanPanic"
proof (induction raws arbitrary: seen prefixes matched)
  case Nil
  then show ?case by simp
next
  case (Cons raw raws)
  have step: "canonical_prefix raw = Inr p \<Longrightarrow> Contains p (Addr4 w) \<Longrightarrow> check_containing p (Addr4 w) \<noteq> Inl PlanPanic" for p
    using canonical_prefix_Inr check_containing_no_panic by blast
  have first: "canonical_prefix raw \<noteq> Inl PlanPanic"
    by (auto simp: canonical_prefix_def guard_def split: option.splits)
  show ?case
    using Cons.IH step first by (auto simp: bind_result_def guard_def split: sum.splits)
qed

section \<open>Accepted targets\<close>

lemma ValidateGatewayPreviewTarget_ok:
  "ValidateGatewayPreviewTarget raw = Inr () \<longleftrightarrow> (\<exists>w. raw = string4 w \<and> IsPrivate (Addr4 w))"
proof
  assume "ValidateGatewayPreviewTarget raw = Inr ()"
  then show "\<exists>w. raw = string4 w \<and> IsPrivate (Addr4 w)"
    by (auto simp: ValidateGatewayPreviewTarget_def Is4_def addr_string_def split: option.splits addr.splits)
next
  assume "\<exists>w. raw = string4 w \<and> IsPrivate (Addr4 w)"
  then show "ValidateGatewayPreviewTarget raw = Inr ()"
    using string4_length
    by (auto simp: ValidateGatewayPreviewTarget_def parse_string4 Is4_def addr_string_def not_less)
qed

definition binding_ok :: "gateway_binding \<Rightarrow> bool" where
  "binding_ok b \<longleftrightarrow> gatewayScopePattern (gb_ScopeID b) \<and> gatewayInterfacePattern (gb_InterfaceName b) \<and>
     1 \<le> gb_InterfaceIndex b \<and> gb_InterfaceIndex b \<le> 2147483647 \<and>
     gb_Prefixes b \<noteq> [] \<and> length (gb_Prefixes b) \<le> 32"

definition plan_clock_ok :: "time \<Rightarrow> bool" where
  "plan_clock_ok now \<longleftrightarrow> \<not> is_zero now \<and> \<not> year_under_1 now \<and> \<not> year_over_9999 now \<and>
     \<not> year_over_9999 (time_add now GatewayReviewLifetime)"

text \<open>Everything that a successful preview established, and its result.\<close>

lemma PreviewGatewayCheck_Inr:
  "PreviewGatewayCheck b target now = Inr plan \<longleftrightarrow>
     (\<exists>w. target = string4 w \<and> IsPrivate (Addr4 w) \<and> binding_ok b \<and> plan_clock_ok (strip now) \<and>
        (\<forall>raw\<in>set (gb_Prefixes b). prefix_accepted (Addr4 w) raw) \<and> distinct (map parsed (gb_Prefixes b)) \<and>
        (\<exists>raw\<in>set (gb_Prefixes b). Contains (parsed raw) (Addr4 w)) \<and>
        plan = \<lparr>gp_Binding = b\<lparr>gb_Prefixes := sort (map (prefix_string \<circ> parsed) (gb_Prefixes b))\<rparr>,
          gp_Target = Addr4 w, gp_CreatedAt = strip now,
          gp_ReviewExpiresAt = time_add (strip now) GatewayReviewLifetime, gp_Budget = gateway_budget\<rparr>)"
proof (cases "ValidateGatewayPreviewTarget target")
  case (Inl e)
  then show ?thesis
    using ValidateGatewayPreviewTarget_ok [of target] by (auto simp: PreviewGatewayCheck_def)
next
  case (Inr u)
  then obtain w where w: "target = string4 w" "IsPrivate (Addr4 w)"
    using ValidateGatewayPreviewTarget_ok [of target] by auto
  show ?thesis
    using Inr w
    by (auto simp: PreviewGatewayCheck_def Let_def parse_string4 scan_prefixes_Inr binding_ok_def
        plan_clock_ok_def string4_inj not_less)
qed


section \<open>A sample binding\<close>

definition sample_binding :: gateway_binding where
  "sample_binding = \<lparr>gb_ScopeID = ''home'', gb_InterfaceName = ''en0'', gb_InterfaceIndex = 4,
     gb_Prefixes = [''192.168.1.0/24'', ''10.0.0.0/8'']\<rparr>"

definition sample_now :: time where
  "sample_now = \<lparr>wall = 1000 * second, mono_at = None\<rparr>"

lemma sample_canonical:
  "canonical_prefix ''192.168.1.0/24'' = Inr \<lparr>p_Addr = Addr4 3232235776, p_Bits = 24\<rparr>"
  "canonical_prefix ''10.0.0.0/8'' = Inr \<lparr>p_Addr = Addr4 167772160, p_Bits = 8\<rparr>"
  by code_simp+

lemma sample_target: "string4 3232235777 = ''192.168.1.1''"
  by code_simp

lemma sample_preview: "\<exists>plan. PreviewGatewayCheck sample_binding ''192.168.1.1'' sample_now = Inr plan"
proof -
  have "is_ok (PreviewGatewayCheck sample_binding ''192.168.1.1'' sample_now)" by code_simp
  then show ?thesis by (simp add: is_ok_iff)
qed

section \<open>Properties\<close>

text \<open>
  C6: which target a plan can name.  A plan's target is a private IPv4 host that lies in an enrolled
  prefix, and no enrolled IPv4 prefix that contains it, however broad or narrow, has it as its network
  or broadcast address or reaches outside the private space; the budget is the fixed one and the review
  lasts thirty seconds.
\<close>

theorem preview_target_safe:
  assumes "PreviewGatewayCheck b target now = Inr plan"
  shows "\<exists>w. gp_Target plan = Addr4 w \<and> target = string4 w \<and> IsPrivate (Addr4 w) \<and>
     (\<exists>raw\<in>set (gb_Prefixes b). \<exists>v n. ParsePrefix raw = Some \<lparr>p_Addr = Addr4 v, p_Bits = n\<rparr> \<and> w AND mask4 n = v) \<and>
     (\<forall>raw\<in>set (gb_Prefixes b). \<forall>v n. ParsePrefix raw = Some \<lparr>p_Addr = Addr4 v, p_Bits = n\<rparr> \<longrightarrow>
        w AND mask4 n = v \<longrightarrow> n \<le> 30 \<and> w \<noteq> v \<and> w \<noteq> v OR NOT (mask4 n) \<and> IsPrivate (Addr4 v) \<and>
        IsPrivate (Addr4 (v OR NOT (mask4 n)))) \<and>
     gp_Budget plan = gateway_budget \<and>
     wall (gp_ReviewExpiresAt plan) = wall now + 30 * second"
proof -
  obtain w where w: "target = string4 w" "IsPrivate (Addr4 w)"
    and acc: "\<forall>raw\<in>set (gb_Prefixes b). prefix_accepted (Addr4 w) raw"
    and some: "\<exists>raw\<in>set (gb_Prefixes b). Contains (parsed raw) (Addr4 w)"
    and plan: "gp_Target plan = Addr4 w" "gp_Budget plan = gateway_budget"
      "wall (gp_ReviewExpiresAt plan) = wall now + 30 * second"
    using assms unfolding PreviewGatewayCheck_Inr by (elim exE conjE) (rule that, simp_all add: GatewayReviewLifetime_def)
  have canon: "ParsePrefix raw = Some (parsed raw) \<and> Masked (parsed raw) = parsed raw \<and>
      p_Bits (parsed raw) \<le> max_bits (p_Addr (parsed raw))" if "raw \<in> set (gb_Prefixes b)" for raw
    using acc that canonical_prefix_Inr [of raw] by (auto simp: prefix_accepted_def parsed_def is_ok_iff)
  have inside: "Contains (parsed raw) (Addr4 w) \<longleftrightarrow> w AND mask4 n = v"
    if "raw \<in> set (gb_Prefixes b)" "parsed raw = \<lparr>p_Addr = Addr4 v, p_Bits = n\<rparr>" for raw v n
    using canon [OF that(1)] that(2) by (simp add: Contains_4 max_bits_def Masked_def)
  obtain raw v where raw: "raw \<in> set (gb_Prefixes b)" "Contains (parsed raw) (Addr4 w)" "p_Addr (parsed raw) = Addr4 v"
    using some Contains_Addr4D by blast
  then have "parsed raw = \<lparr>p_Addr = Addr4 v, p_Bits = p_Bits (parsed raw)\<rparr>" by simp
  then have one: "\<exists>raw\<in>set (gb_Prefixes b). \<exists>v n. ParsePrefix raw = Some \<lparr>p_Addr = Addr4 v, p_Bits = n\<rparr> \<and> w AND mask4 n = v"
    using raw canon inside by metis
  have veto: "n \<le> 30 \<and> w \<noteq> v \<and> w \<noteq> v OR NOT (mask4 n) \<and> IsPrivate (Addr4 v) \<and> IsPrivate (Addr4 (v OR NOT (mask4 n)))"
    if "raw \<in> set (gb_Prefixes b)" "ParsePrefix raw = Some \<lparr>p_Addr = Addr4 v, p_Bits = n\<rparr>" "w AND mask4 n = v" for raw v n
  proof -
    have p: "parsed raw = \<lparr>p_Addr = Addr4 v, p_Bits = n\<rparr>"
      using canon [OF that(1)] that(2) by simp
    then have "n \<le> 32" using canon [OF that(1)] by (simp add: max_bits_def)
    have "check_containing (parsed raw) (Addr4 w) = Inr ()"
      using acc inside that p by (auto simp: prefix_accepted_def)
    then show ?thesis using p \<open>n \<le> 32\<close> by (auto simp: check_containing_4)
  qed
  show ?thesis using w plan one veto by blast
qed

theorem preview_target_safe_witness:
  "\<exists>plan w. PreviewGatewayCheck sample_binding ''192.168.1.1'' sample_now = Inr plan \<and>
     gp_Target plan = Addr4 w \<and> IsPrivate (Addr4 w) \<and> gp_Budget plan = gateway_budget"
proof -
  obtain plan where plan: "PreviewGatewayCheck sample_binding ''192.168.1.1'' sample_now = Inr plan"
    using sample_preview by blast
  show ?thesis using preview_target_safe [OF plan] plan by blast
qed

text \<open>
  no panic.  The conversion of a prefix address to four bytes is only reached for IPv4 prefixes, so a
  preview always returns a plan or one of its three errors.
\<close>

theorem preview_never_panics: "PreviewGatewayCheck b target now \<noteq> Inl PlanPanic"
proof (cases "ValidateGatewayPreviewTarget target")
  case (Inl e)
  then have "e = ErrGatewayPlanTarget"
    by (auto simp: ValidateGatewayPreviewTarget_def guard_def split: option.splits if_splits)
  then show ?thesis using Inl by (simp add: PreviewGatewayCheck_def)
next
  case (Inr u)
  then obtain w where "target = string4 w"
    using ValidateGatewayPreviewTarget_ok [of target] by auto
  then show ?thesis
    using Inr scan_prefixes_no_panic [of w "{}" "[]" False "gb_Prefixes b"]
    by (auto simp: PreviewGatewayCheck_def parse_string4 bind_result_def guard_def Let_def
        split: sum.splits prod.splits if_splits)
qed

text \<open>
  the enrolled prefixes are a set.  Their order changes neither whether a preview succeeds nor the
  plan it returns, whose prefixes are printed canonically and sorted.
\<close>

theorem preview_order_independent:
  assumes "mset raws = mset (gb_Prefixes b)" and "PreviewGatewayCheck b target now = Inr plan"
  shows "PreviewGatewayCheck (b\<lparr>gb_Prefixes := raws\<rparr>) target now = Inr plan \<and> sorted (gb_Prefixes (gp_Binding plan))"
proof -
  have set: "set raws = set (gb_Prefixes b)" and len: "length raws = length (gb_Prefixes b)"
    using assms(1) by (metis set_mset_mset, metis size_mset)
  have ne: "raws = [] \<longleftrightarrow> gb_Prefixes b = []" using assms(1) by auto
  have "mset (map (prefix_string \<circ> parsed) raws) = mset (map (prefix_string \<circ> parsed) (gb_Prefixes b))"
    using assms(1) by simp
  then have "sort (map (prefix_string \<circ> parsed) raws) = sort (map (prefix_string \<circ> parsed) (gb_Prefixes b))"
    by (metis properties_for_sort mset_sort sorted_sort)
  then show ?thesis
    using assms(2)
    by (auto simp: PreviewGatewayCheck_Inr set ne len binding_ok_def distinct_map_mset [OF assms(1)])
qed

theorem preview_order_independent_witness:
  "\<exists>plan. PreviewGatewayCheck sample_binding ''192.168.1.1'' sample_now = Inr plan \<and>
     PreviewGatewayCheck (sample_binding\<lparr>gb_Prefixes := [''10.0.0.0/8'', ''192.168.1.0/24'']\<rparr>)
       ''192.168.1.1'' sample_now = Inr plan"
proof -
  obtain plan where plan: "PreviewGatewayCheck sample_binding ''192.168.1.1'' sample_now = Inr plan"
    using sample_preview by blast
  have "mset [''10.0.0.0/8'', ''192.168.1.0/24''] = mset (gb_Prefixes sample_binding)"
    by (simp add: sample_binding_def)
  from preview_order_independent [OF this plan] plan show ?thesis by blast
qed

end
