(* ===== verification/GatewayRun.thy ===== *)
theory GatewayRun
  imports RunAudit GatewayPlan
begin

text \<open>
  \<open>gatewayrun/model.go\<close>, \<open>measurement.go\<close> and \<open>history.go\<close>, with \<open>gatewayicmp.Sample\<close>: the selections,
  samples and audit events of the gateway check, and \<open>gateway_profile\<close>, the instance of the run control for
  them.  The digest of a selection is the SHA-256 of its JSON text.  Durations are the signed nanosecond
  counts of Go; the \<open>int\<close> counters of a sample are compared against small bounds before the code adds or
  subtracts them.
\<close>

section \<open>Data\<close>

record gateway_sample =
  gs_ScopeID :: string
  gs_InterfaceName :: string
  gs_InterfaceIndex :: int
  gs_Target :: addr
  gs_Source :: addr
  gs_StartedAt :: time
  gs_CompletedAt :: time
  gs_SendCalls :: int
  gs_AcceptedRequests :: int
  gs_Replies :: int
  gs_Timeouts :: int
  gs_Complete :: bool
  gs_MeanRTT :: "duration option"

definition zero_sample :: gateway_sample where
  "zero_sample = \<lparr>gs_ScopeID = [], gs_InterfaceName = [], gs_InterfaceIndex = 0, gs_Target = AddrNone,
     gs_Source = AddrNone, gs_StartedAt = zero_time, gs_CompletedAt = zero_time, gs_SendCalls = 0,
     gs_AcceptedRequests = 0, gs_Replies = 0, gs_Timeouts = 0, gs_Complete = False, gs_MeanRTT = None\<rparr>"

record gateway_selection =
  se_Plan :: gateway_plan
  se_Source :: addr
  se_RouteObservedAt :: time
  se_RouteFreshUntil :: time

record gateway_measurement =
  gm_StartedAt :: time
  gm_CompletedAt :: "time option"
  gm_SendCalls :: int
  gm_AcceptedRequests :: int
  gm_Replies :: int
  gm_Timeouts :: int
  gm_Complete :: bool
  gm_MeanRTTNanoseconds :: "int option"

record gateway_audit_event =
  ge_SchemaVersion :: int
  ge_Measurement :: "gateway_measurement option"
  ge_RunID :: string
  ge_State :: string
  ge_Outcome :: string
  ge_Reason :: string
  ge_At :: time
  ge_Profile :: string
  ge_SelectionDigest :: string
  ge_ScopeID :: string
  ge_InterfaceName :: string
  ge_InterfaceIndex :: int
  ge_Target :: string
  ge_Source :: string

definition Profile :: string where "Profile = ''gateway-icmp-v1''"
definition EventSchemaVersion :: int where "EventSchemaVersion = 2"

definition hexID :: "string \<Rightarrow> bool" where "hexID = hex_match 32"
definition hexDigest :: "string \<Rightarrow> bool" where "hexDigest = hex_match 64"

section \<open>Measurements\<close>

definition auditMeasurement :: "gateway_sample \<Rightarrow> gateway_measurement" where
  "auditMeasurement s =
     \<lparr>gm_StartedAt = strip (gs_StartedAt s),
      gm_CompletedAt = (if is_zero (gs_CompletedAt s) then None else Some (strip (gs_CompletedAt s))),
      gm_SendCalls = gs_SendCalls s, gm_AcceptedRequests = gs_AcceptedRequests s, gm_Replies = gs_Replies s,
      gm_Timeouts = gs_Timeouts s, gm_Complete = gs_Complete s, gm_MeanRTTNanoseconds = gs_MeanRTT s\<rparr>"

definition measurement_end :: "gateway_measurement \<Rightarrow> time \<Rightarrow> time" where
  "measurement_end m at_time = (case gm_CompletedAt m of None \<Rightarrow> at_time | Some e \<Rightarrow> e)"

definition minimum_span :: "gateway_measurement \<Rightarrow> duration" where
  "minimum_span m = max (max 0 (gm_SendCalls m - 1) * second) (gm_Timeouts m * second)"

definition validateMeasurement :: "gateway_measurement \<Rightarrow> time \<Rightarrow> (run_error, unit) result" where
  "validateMeasurement m at_time =
     guard (\<not> nano_time at_time \<or> \<not> nano_time (gm_StartedAt m) \<or> after (gm_StartedAt m) at_time \<or>
            gm_SendCalls m < 0 \<or> gm_SendCalls m > 3 \<or> gm_AcceptedRequests m < 0 \<or>
            gm_AcceptedRequests m > gm_SendCalls m \<or> gm_SendCalls m - gm_AcceptedRequests m > 1 \<or>
            gm_Replies m < 0 \<or> gm_Replies m > 3 \<or> gm_Timeouts m < 0 \<or> gm_Timeouts m > 3) ErrExecution
     (let finished = gm_Replies m + gm_Timeouts m in
      guard (finished > gm_AcceptedRequests m \<or> gm_AcceptedRequests m - finished > 1 \<or>
             gm_SendCalls m > gm_AcceptedRequests m \<and> finished \<noteq> gm_AcceptedRequests m) ErrExecution
      (guard (gm_Complete m \<and> (gm_SendCalls m \<noteq> 3 \<or> gm_AcceptedRequests m \<noteq> 3 \<or> finished \<noteq> 3 \<or>
              gm_CompletedAt m = None)) ErrExecution
      (let ended = measurement_end m at_time in
       guard (case gm_CompletedAt m of
                None \<Rightarrow> False
              | Some _ \<Rightarrow> \<not> nano_time ended \<or> before ended (gm_StartedAt m) \<or> after ended at_time \<or>
                  finished \<noteq> 3 \<or> time_sub ended (gm_StartedAt m) \<ge> OperationTimeout) ErrExecution
       (guard (time_sub ended (gm_StartedAt m) < minimum_span m) ErrExecution
       (guard (if \<not> gm_Complete m then gm_MeanRTTNanoseconds m \<noteq> None
               else (gm_MeanRTTNanoseconds m \<noteq> None) \<noteq> (gm_Replies m > 0)) ErrExecution
       (guard (case gm_MeanRTTNanoseconds m of
                 None \<Rightarrow> False
               | Some ns \<Rightarrow> ns < 0 \<or> ns \<ge> second \<or> ns > time_sub ended (gm_StartedAt m)) ErrExecution
       (Inr ())))))))"

definition validateSample ::
  "gateway_sample \<Rightarrow> run_error option \<Rightarrow> gateway_selection \<Rightarrow> time \<Rightarrow> time \<Rightarrow> time \<Rightarrow>
   (run_error, gateway_sample option) result" where
  "validateSample s executionErr selection started returned expires =
     (if s = zero_sample then (if executionErr \<noteq> None then Inr None else Inl ErrExecution)
      else
        (let b = gp_Binding (se_Plan selection) in
         guard (gs_ScopeID s \<noteq> gb_ScopeID b \<or> gs_InterfaceName s \<noteq> gb_InterfaceName b \<or>
                gs_InterfaceIndex s \<noteq> gb_InterfaceIndex b \<or> gs_Target s \<noteq> gp_Target (se_Plan selection) \<or>
                gs_Source s \<noteq> se_Source selection \<or> before (gs_StartedAt s) started \<or>
                before (gs_StartedAt s) (se_RouteObservedAt selection) \<or> \<not> before (gs_StartedAt s) expires \<or>
                \<not> is_zero (gs_CompletedAt s) \<and> \<not> before (gs_CompletedAt s) expires \<or>
                gs_Complete s \<noteq> (executionErr = None) \<or>
                validateMeasurement (auditMeasurement s) returned \<noteq> Inr ()) ErrExecution
         (Inr (Some s))))"

section \<open>Events\<close>

definition gateway_header_ok :: "gateway_audit_event \<Rightarrow> bool" where
  "gateway_header_ok e \<longleftrightarrow>
     (ge_SchemaVersion e = 1 \<or> ge_SchemaVersion e = EventSchemaVersion) \<and> hexID (ge_RunID e) \<and>
     hexDigest (ge_SelectionDigest e) \<and> ge_Profile e = Profile \<and> nano_time (ge_At e) \<and>
     gatewayScopePattern (ge_ScopeID e) \<and> gatewayInterfacePattern (ge_InterfaceName e) \<and>
     1 \<le> ge_InterfaceIndex e \<and> ge_InterfaceIndex e \<le> 2147483647 \<and>
     ValidateGatewayPreviewTarget (ge_Target e) = Inr () \<and>
     ValidateGatewayPreviewTarget (ge_Source e) = Inr () \<and> ge_Source e \<noteq> ge_Target e"

definition gateway_attachment_ok :: "gateway_audit_event \<Rightarrow> bool" where
  "gateway_attachment_ok e \<longleftrightarrow>
     (case ge_Measurement e of
        None \<Rightarrow> True
      | Some m \<Rightarrow>
          ge_State e = ''finished'' \<and> ge_Outcome e \<in> {''completed'', ''failed'', ''canceled''} \<and>
          validateMeasurement m (ge_At e) = Inr () \<and> \<not> (ge_Outcome e = ''failed'' \<and> gm_Complete m))"

definition gateway_phase_ok :: "gateway_audit_event \<Rightarrow> bool" where
  "gateway_phase_ok e \<longleftrightarrow>
     (if ge_State e = ''authorized'' \<or> ge_State e = ''admitted'' then ge_Outcome e = [] \<and> ge_Reason e = []
      else if ge_State e = ''finished'' then
        (if ge_Outcome e = ''completed'' then ge_Reason e = []
         else if ge_Outcome e = ''blocked'' then
           ge_Reason e \<in> {''preflight-unavailable'', ''selection-changed'', ''review-expired'', ''clock-invalid''}
         else if ge_Outcome e = ''canceled'' then ge_Reason e = ''canceled''
         else if ge_Outcome e = ''failed'' then
           ge_Reason e = ''execution-error'' \<or>
           ge_SchemaVersion e = EventSchemaVersion \<and> ge_Reason e = ''measurement-invalid'' \<and>
             ge_Measurement e = None
         else ge_Outcome e = ''indeterminate'' \<and> ge_Reason e = ''execution-panic'')
      else False)"

definition ValidateEvent :: "gateway_audit_event \<Rightarrow> (run_error, unit) result" where
  "ValidateEvent e =
     guard (\<not> gateway_header_ok e) ErrAudit
     (guard (ge_SchemaVersion e = 1 \<and> ge_Measurement e \<noteq> None) ErrAudit
     (guard (\<not> gateway_attachment_ok e) ErrAudit
     (guard (ge_SchemaVersion e = EventSchemaVersion \<and> ge_State e = ''finished'' \<and> ge_Outcome e = ''completed'' \<and>
             (case ge_Measurement e of None \<Rightarrow> True | Some m \<Rightarrow> \<not> gm_Complete m)) ErrAudit
     (guard (\<not> gateway_phase_ok e) ErrAudit (Inr ())))))"

section \<open>Selections\<close>

definition normalize :: "gateway_selection \<Rightarrow> addr \<Rightarrow> time \<Rightarrow> (run_error, gateway_selection) result" where
  "normalize s target now =
     guard (\<not> nano_time now \<or> \<not> nano_time (gp_CreatedAt (se_Plan s)) \<or> \<not> nano_time (se_RouteObservedAt s) \<or>
            gp_Target (se_Plan s) \<noteq> target \<or> after (gp_CreatedAt (se_Plan s)) now \<or>
            before (se_RouteObservedAt s) (gp_CreatedAt (se_Plan s)) \<or> after (se_RouteObservedAt s) now \<or>
            \<not> time_eq (se_RouteFreshUntil s) (time_add (se_RouteObservedAt s) GatewayReviewLifetime) \<or>
            \<not> after (se_RouteFreshUntil s) now \<or> se_Source s = target) ErrPreflight
     (case PreviewGatewayCheck (gp_Binding (se_Plan s)) (addr_string target) (gp_CreatedAt (se_Plan s)) of
        Inl _ \<Rightarrow> Inl ErrPreflight
      | Inr plan \<Rightarrow>
          guard (gp_Budget (se_Plan s) \<noteq> gp_Budget plan \<or>
                 \<not> time_eq (gp_ReviewExpiresAt (se_Plan s)) (gp_ReviewExpiresAt plan) \<or>
                 \<not> after (gp_ReviewExpiresAt plan) now) ErrPreflight
          (case PreviewGatewayCheck (gp_Binding plan) (addr_string (se_Source s)) now of
             Inl _ \<Rightarrow> Inl ErrPreflight
           | Inr _ \<Rightarrow> Inr (s\<lparr>se_Plan := plan\<rparr>)))"

definition sameSelection :: "gateway_selection \<Rightarrow> gateway_selection \<Rightarrow> bool" where
  "sameSelection a b \<longleftrightarrow>
     (let x = gp_Binding (se_Plan a); y = gp_Binding (se_Plan b) in
      gb_ScopeID x = gb_ScopeID y \<and> gb_InterfaceName x = gb_InterfaceName y \<and>
      gb_InterfaceIndex x = gb_InterfaceIndex y \<and> gb_Prefixes x = gb_Prefixes y \<and>
      gp_Target (se_Plan a) = gp_Target (se_Plan b) \<and> se_Source a = se_Source b \<and>
      gp_Budget (se_Plan a) = gp_Budget (se_Plan b))"

definition binding_json :: "gateway_binding \<Rightarrow> string" where
  "binding_json b = json_object
     [(''ScopeID'', json_string (gb_ScopeID b)), (''InterfaceName'', json_string (gb_InterfaceName b)),
      (''InterfaceIndex'', show_int (gb_InterfaceIndex b)),
      (''Prefixes'', json_array (map json_string (gb_Prefixes b)))]"

definition budget_json :: "probe_budget \<Rightarrow> string" where
  "budget_json b = json_object
     [(''MaxAttempts'', show_int (pb_MaxAttempts b)), (''MinInterval'', show_int (pb_MinInterval b)),
      (''AttemptTimeout'', show_int (pb_AttemptTimeout b)), (''TotalTimeout'', show_int (pb_TotalTimeout b)),
      (''PayloadBytes'', show_int (pb_PayloadBytes b)),
      (''MaxICMPRequestBytes'', show_int (pb_MaxICMPRequestBytes b)),
      (''MaxConcurrentRuns'', show_int (pb_MaxConcurrentRuns b)),
      (''MinRunInterval'', show_int (pb_MinRunInterval b))]"

definition selection_json :: "gateway_selection \<Rightarrow> string" where
  "selection_json s = json_object
     [(''Binding'', binding_json (gp_Binding (se_Plan s))),
      (''Target'', json_string (addr_string (gp_Target (se_Plan s)))),
      (''Source'', json_string (addr_string (se_Source s))),
      (''Budget'', budget_json (gp_Budget (se_Plan s))), (''Profile'', json_string Profile)]"

definition selectionDigest :: "gateway_selection \<Rightarrow> string" where
  "selectionDigest s = hex_encode (sha256 (bytes_of (selection_json s)))"

section \<open>The gateway instance of the run control\<close>

definition overlong :: "time \<Rightarrow> time \<Rightarrow> bool" where
  "overlong start now \<longleftrightarrow>
     time_sub now start > OperationTimeout \<or> time_sub (strip now) (strip start) > OperationTimeout"

definition gateway_event :: "gateway_selection \<Rightarrow> string \<Rightarrow> time \<Rightarrow> gateway_sample phase_info \<Rightarrow> gateway_audit_event" where
  "gateway_event s runID now ph =
     \<lparr>ge_SchemaVersion = EventSchemaVersion, ge_Measurement = map_option auditMeasurement (ph_Sample ph),
      ge_RunID = runID, ge_State = ph_State ph, ge_Outcome = ph_Outcome ph, ge_Reason = ph_Reason ph,
      ge_At = now, ge_Profile = Profile, ge_SelectionDigest = selectionDigest s,
      ge_ScopeID = gb_ScopeID (gp_Binding (se_Plan s)),
      ge_InterfaceName = gb_InterfaceName (gp_Binding (se_Plan s)),
      ge_InterfaceIndex = gb_InterfaceIndex (gp_Binding (se_Plan s)),
      ge_Target = addr_string (gp_Target (se_Plan s)), ge_Source = addr_string (se_Source s)\<rparr>"

definition gateway_profile :: "(addr, gateway_selection, gateway_sample, gateway_audit_event) run_profile" where
  "gateway_profile =
     \<lparr>rp_clock_ok = nano_time, rp_overlong = overlong, rp_key_ok = (\<lambda>target. Is4 target \<and> IsPrivate target),
      rp_key_of = (\<lambda>s. gp_Target (se_Plan s)), rp_normalize = normalize,
      rp_evidence_at = (\<lambda>s. gp_CreatedAt (se_Plan s)),
      rp_review_expires = (\<lambda>s. gp_ReviewExpiresAt (se_Plan s)), rp_route_fresh_until = se_RouteFreshUntil,
      rp_same_selection = sameSelection,
      rp_validate_sample = (\<lambda>s err selection runID started returned expires.
         validateSample s err selection started returned expires),
      rp_timeout_is_evidence = (\<lambda>_. False), rp_event = gateway_event,
      rp_event_valid = (\<lambda>e. ValidateEvent e = Inr ())\<rparr>"

end
