(* ===== verification/GatewayContract.thy ===== *)
theory GatewayContract
  imports GatewayRun
begin

text \<open>
  What the gateway instance promises to the run control, and the properties of its audit events.
\<close>

section \<open>Normalized selections\<close>

definition selection_ok :: "gateway_selection \<Rightarrow> bool" where
  "selection_ok s \<longleftrightarrow> binding_ok (gp_Binding (se_Plan s)) \<and>
     (\<exists>w v. gp_Target (se_Plan s) = Addr4 w \<and> se_Source s = Addr4 v \<and> v \<noteq> w \<and> IsPrivate (Addr4 w) \<and>
        IsPrivate (Addr4 v))"

lemma normalize_ok:
  assumes "normalize s target now = Inr s'"
  shows "selection_ok s'"
proof -
  obtain plan other where plan: "PreviewGatewayCheck (gp_Binding (se_Plan s)) (addr_string target) (gp_CreatedAt (se_Plan s)) = Inr plan"
    and other: "PreviewGatewayCheck (gp_Binding plan) (addr_string (se_Source s)) now = Inr other"
    and s': "s' = s\<lparr>se_Plan := plan\<rparr>" and ne: "se_Source s \<noteq> target"
    using assms by (auto simp: normalize_def split: sum.splits)
  obtain w where w: "addr_string target = string4 w" "IsPrivate (Addr4 w)" "gp_Target plan = Addr4 w"
    using plan by (auto simp: PreviewGatewayCheck_Inr)
  obtain v where v: "addr_string (se_Source s) = string4 v" "IsPrivate (Addr4 v)" and b: "binding_ok (gp_Binding plan)"
    using other by (auto simp: PreviewGatewayCheck_Inr)
  have "target = Addr4 w" "se_Source s = Addr4 v" using w(1) v(1) by (simp_all add: addr_string_string4)
  then show ?thesis using w v b ne s' by (auto simp: selection_ok_def)
qed

lemma selectionDigest_hex: "hexDigest (selectionDigest s)"
  using hex_match_encode [of "sha256 (bytes_of (selection_json s))" 32]
  by (simp add: hexDigest_def selectionDigest_def)

lemma gateway_event_header:
  assumes "selection_ok s" and "hex_match 32 run" and "stamp t"
  shows "gateway_header_ok (gateway_event s run t info)"
  using assms ValidateGatewayPreviewTarget_ok selectionDigest_hex
  by (auto simp: gateway_header_ok_def gateway_event_def selection_ok_def binding_ok_def hexID_def stamp_def
      addr_string_def string4_inj)

section \<open>Measurements stay valid\<close>

lemma int64_clamp_mono: "x \<le> y \<Longrightarrow> int64_clamp x \<le> int64_clamp y"
  by (auto simp: int64_clamp_def)

lemma validateMeasurement_later:
  assumes "validateMeasurement m ret = Inr ()" and "stamp ret" and "stamp t" and "wall ret \<le> wall t"
  shows "validateMeasurement m t = Inr ()"
proof (cases "gm_CompletedAt m")
  case None
  have "int64_clamp (wall ret - wall (gm_StartedAt m)) \<le> int64_clamp (wall t - wall (gm_StartedAt m))"
    using assms(4) by (intro int64_clamp_mono) simp
  then show ?thesis
    using assms None
    by (auto simp: validateMeasurement_def Let_def measurement_end_def stamp_def go_time split: option.splits if_splits)
next
  case (Some e)
  then show ?thesis
    using assms
    by (auto simp: validateMeasurement_def Let_def measurement_end_def stamp_def go_time split: option.splits if_splits)
qed

lemma validateSample_Inr:
  "validateSample smp err selection started ret expires = Inr m \<longleftrightarrow>
     (smp = zero_sample \<and> err \<noteq> None \<and> m = None \<or>
      smp \<noteq> zero_sample \<and> m = Some smp \<and> gs_Complete smp = (err = None) \<and>
      gs_ScopeID smp = gb_ScopeID (gp_Binding (se_Plan selection)) \<and>
      gs_InterfaceName smp = gb_InterfaceName (gp_Binding (se_Plan selection)) \<and>
      gs_InterfaceIndex smp = gb_InterfaceIndex (gp_Binding (se_Plan selection)) \<and>
      gs_Target smp = gp_Target (se_Plan selection) \<and> gs_Source smp = se_Source selection \<and>
      \<not> before (gs_StartedAt smp) started \<and> \<not> before (gs_StartedAt smp) (se_RouteObservedAt selection) \<and>
      before (gs_StartedAt smp) expires \<and> (is_zero (gs_CompletedAt smp) \<or> before (gs_CompletedAt smp) expires) \<and>
      validateMeasurement (auditMeasurement smp) ret = Inr ())"
  by (auto simp: validateSample_def Let_def split: if_splits)

section \<open>The contract\<close>

lemma gateway_event_fields [simp]:
  "ge_SchemaVersion (gateway_event s run t info) = EventSchemaVersion"
  "ge_Measurement (gateway_event s run t info) = map_option auditMeasurement (ph_Sample info)"
  "ge_State (gateway_event s run t info) = ph_State info" "ge_Outcome (gateway_event s run t info) = ph_Outcome info"
  "ge_Reason (gateway_event s run t info) = ph_Reason info" "ge_At (gateway_event s run t info) = t"
  by (simp_all add: gateway_event_def)

lemma gateway_event_valid:
  assumes "selection_ok s" and "hex_match 32 run" and "stamp t"
  shows "ValidateEvent (gateway_event s run t info) = Inr () \<longleftrightarrow>
     gateway_attachment_ok (gateway_event s run t info) \<and> gateway_phase_ok (gateway_event s run t info) \<and>
     (ph_State info = ''finished'' \<and> ph_Outcome info = ''completed'' \<longrightarrow>
        (\<exists>m. ph_Sample info = Some m \<and> gs_Complete m))"
  using gateway_event_header [OF assms, of info]
  by (cases "ph_Sample info") (auto simp: ValidateEvent_def EventSchemaVersion_def auditMeasurement_def)

lemmas event_checks =
  gateway_attachment_ok_def gateway_phase_ok_def authorized_info_def admitted_info_def finished_info_def
  EventSchemaVersion_def

lemma gateway_validated_event:
  assumes "selection_ok s" and "hex_match 32 run" and "stamp t" and "stamp ret" and "wall ret \<le> wall t"
    and "validateSample smp err fresh started ret expires = Inr m"
    and "closing gateway_profile err m outcome reason"
  shows "ValidateEvent (gateway_event s run t (finished_info outcome reason m)) = Inr ()"
proof -
  have later: "validateMeasurement (auditMeasurement smp) t = Inr ()" if "m = Some smp"
    using assms that by (auto simp: validateSample_Inr intro: validateMeasurement_later)
  have "m = None \<and> err \<noteq> None \<or> m = Some smp \<and> gs_Complete smp = (err = None)"
    using assms(6) by (auto simp: validateSample_Inr)
  moreover have "outcome = ''canceled'' \<and> reason = ''canceled'' \<or>
      outcome = ''failed'' \<and> reason = ''execution-error'' \<and> err \<noteq> None \<or>
      outcome = ''completed'' \<and> reason = [] \<and> err = None"
    using assms(7) by (auto simp: closing_def gateway_profile_def)
  moreover have "gm_Complete (auditMeasurement smp) = gs_Complete smp" by (simp add: auditMeasurement_def)
  ultimately show ?thesis
    using later unfolding gateway_event_valid [OF assms(1-3)]
    by (elim disjE conjE) (simp_all add: event_checks)
qed

interpretation gateway: audited_control gateway_profile selection_ok "\<lambda>_ _. True"
proof (unfold_locales, goal_cases)
  case (1 s key t s')
  then show ?case by (auto simp: gateway_profile_def intro: normalize_ok)
next
  case (2 now)
  then show ?case by (simp add: gateway_profile_def)
next
  case (3 p t)
  then show ?case
    by (simp add: gateway_profile_def recorded_def review_ok_def gateway_event_valid event_checks)
next
  case (4 p t)
  then show ?case
    by (simp add: gateway_profile_def recorded_def review_ok_def gateway_event_valid event_checks)
next
  case (5 p t outcome reason)
  then show ?case
    by (auto simp: gateway_profile_def recorded_def review_ok_def gateway_event_valid event_checks blank_ends_def)
next
  case (6 p t started ret outcome reason m)
  then obtain smp err fresh where v: "validateSample smp err fresh started ret (pr_expiresAt p) = Inr m" "stamp ret"
      "closing gateway_profile err m outcome reason"
    by (auto simp: validated_def) (auto simp: gateway_profile_def)
  then show ?case
    using 6 gateway_validated_event [of "pr_selection p" "pr_runID p" t ret smp err fresh started "pr_expiresAt p" m outcome reason]
    by (simp add: recorded_def review_ok_def) (simp add: gateway_profile_def)
qed

end
