(* ===== verification/GatewayHistory.thy ===== *)
theory GatewayHistory
  imports GatewayContract Complex_Main
begin

text \<open>
  \<open>gatewayrun/history.go\<close>: what the retained audit events of one run say about it later.  The decoder of the
  stored JSON is not modelled; the model starts from decoded events.  The reply loss is kept as the exact
  quotient.
\<close>

section \<open>Data\<close>

datatype history_error = ErrHistory

record historical_assessment =
  ha_State :: string
  ha_Confidence :: string
  ha_Summary :: string
  ha_NextStep :: string
  ha_ReplyLossPercent :: "rat option"

record retained_run =
  rt_RunID :: string
  rt_ScopeID :: string
  rt_Profile :: string
  rt_InterfaceName :: string
  rt_Target :: string
  rt_Source :: string
  rt_InterfaceIndex :: int
  rt_SchemaVersion :: int
  rt_LastAuditAt :: time
  rt_AuthorizationRetained :: bool
  rt_AdmissionRetained :: bool
  rt_TerminalRetained :: bool
  rt_Outcome :: string
  rt_Reason :: string
  rt_Measurement :: "gateway_measurement option"
  rt_Assessment :: historical_assessment

definition ValidRunID :: "string \<Rightarrow> bool" where
  "ValidRunID i = hexID i"

section \<open>Operations\<close>

definition unknown_assessment :: historical_assessment where
  "unknown_assessment = \<lparr>ha_State = ''unknown'', ha_Confidence = ''unknown'',
     ha_Summary = ''No terminal audit is retained for this run; its outcome is unknown.'',
     ha_NextStep = ''Inspect retained evidence later without repeating traffic. A missing record does not prove that nothing was sent.'',
     ha_ReplyLossPercent = None\<rparr>"

definition describeHistoricalSample :: "bool \<Rightarrow> int \<Rightarrow> gateway_measurement option \<Rightarrow> historical_assessment" where
  "describeHistoricalSample terminalRetained schemaVersion measurement =
     (let a = unknown_assessment in
      if \<not> terminalRetained then a
      else if schemaVersion = 1 then
        a\<lparr>ha_Summary := ''This legacy audit records execution only, not a connectivity measurement.'',
          ha_NextStep := ''Do not interpret an execution-only completion as a reply or a successful network check.''\<rparr>
      else (case measurement of
        None \<Rightarrow>
          a\<lparr>ha_Summary := ''This terminal audit contains no usable connectivity measurement.'',
            ha_NextStep := ''Review the recorded execution outcome; missing evidence cannot establish connectivity or an outage.''\<rparr>
      | Some m \<Rightarrow>
          if \<not> gm_Complete m then
            a\<lparr>ha_State := ''incomplete'',
              ha_Summary := ''The retained sample is incomplete; partial counts do not establish reply loss or latency.'',
              ha_NextStep := ''Unsent requests are not timeouts. Review the execution outcome before considering a separately authorized check.''\<rparr>
          else
            (let a = a\<lparr>ha_Confidence := ''limited'',
                 ha_ReplyLossPercent := Some (100 * of_int (gm_Timeouts m) / of_int (gm_AcceptedRequests m)),
                 ha_NextStep := ''Compare other evidence from the same time. This historical ICMP sample proves neither current connectivity, gateway identity, an internet outage, nor security posture.''\<rparr>
             in if gm_Replies m = 3 then
                  a\<lparr>ha_State := ''all-replied'',
                    ha_Summary := ''The selected target answered all three requests during this recorded sample.''\<rparr>
                else if gm_Replies m = 0 then
                  a\<lparr>ha_State := ''no-replies'',
                    ha_Summary := ''The selected target did not answer this recorded sample; ICMP filtering or target behavior may explain it.''\<rparr>
                else
                  a\<lparr>ha_State := ''some-replies'',
                    ha_Summary := ''The selected target answered some requests during this recorded sample.''\<rparr>)))"

definition same_run :: "gateway_audit_event \<Rightarrow> gateway_audit_event \<Rightarrow> bool" where
  "same_run first e \<longleftrightarrow> ge_RunID e = ge_RunID first \<and> ge_ScopeID e = ge_ScopeID first \<and>
     ge_SchemaVersion e = ge_SchemaVersion first \<and> ge_Profile e = ge_Profile first \<and>
     ge_SelectionDigest e = ge_SelectionDigest first \<and> ge_InterfaceName e = ge_InterfaceName first \<and>
     ge_InterfaceIndex e = ge_InterfaceIndex first \<and> ge_Source e = ge_Source first \<and> ge_Target e = ge_Target first"

fun scan_events ::
  "gateway_audit_event \<Rightarrow> time \<Rightarrow> (string \<rightharpoonup> gateway_audit_event) \<Rightarrow> time \<Rightarrow> gateway_audit_event list \<Rightarrow>
   (history_error, (string \<rightharpoonup> gateway_audit_event) \<times> time) result" where
  "scan_events first asOf phases latest_at [] = Inr (phases, latest_at)"
| "scan_events first asOf phases latest_at (e # es) =
     guard (ValidateEvent e \<noteq> Inr () \<or> after (ge_At e) asOf \<or> \<not> same_run first e) ErrHistory
     (guard (phases (ge_State e) \<noteq> None) ErrHistory
     (scan_events first asOf (phases(ge_State e \<mapsto> e)) (if after (ge_At e) latest_at then ge_At e else latest_at) es))"

fun phases_ordered :: "(string \<rightharpoonup> gateway_audit_event) \<Rightarrow> time \<Rightarrow> string list \<Rightarrow> bool" where
  "phases_ordered phases previous [] = True"
| "phases_ordered phases previous (name # names) =
     (case phases name of
        None \<Rightarrow> phases_ordered phases previous names
      | Some e \<Rightarrow>
          \<not> (\<not> is_zero previous \<and> before (ge_At e) previous) \<and> phases_ordered phases (ge_At e) names)"

definition starts_before :: "(string \<rightharpoonup> gateway_audit_event) \<Rightarrow> string \<Rightarrow> gateway_measurement \<Rightarrow> bool" where
  "starts_before phases name m \<longleftrightarrow>
     (case phases name of None \<Rightarrow> False | Some e \<Rightarrow> before (gm_StartedAt m) (ge_At e))"

definition terminal_measurement :: "(string \<rightharpoonup> gateway_audit_event) \<Rightarrow> gateway_measurement option" where
  "terminal_measurement phases =
     (case phases ''finished'' of None \<Rightarrow> None | Some terminal \<Rightarrow> ge_Measurement terminal)"

definition describe_phases :: "gateway_audit_event \<Rightarrow> (string \<rightharpoonup> gateway_audit_event) \<Rightarrow> time \<Rightarrow> retained_run" where
  "describe_phases first phases latest_at =
     \<lparr>rt_RunID = ge_RunID first, rt_ScopeID = ge_ScopeID first, rt_Profile = ge_Profile first,
      rt_InterfaceName = ge_InterfaceName first, rt_Target = ge_Target first, rt_Source = ge_Source first,
      rt_InterfaceIndex = ge_InterfaceIndex first, rt_SchemaVersion = ge_SchemaVersion first,
      rt_LastAuditAt = strip latest_at, rt_AuthorizationRetained = (phases ''authorized'' \<noteq> None),
      rt_AdmissionRetained = (phases ''admitted'' \<noteq> None), rt_TerminalRetained = (phases ''finished'' \<noteq> None),
      rt_Outcome = (case phases ''finished'' of None \<Rightarrow> ''unknown'' | Some terminal \<Rightarrow> ge_Outcome terminal),
      rt_Reason = (case phases ''finished'' of None \<Rightarrow> [] | Some terminal \<Rightarrow> ge_Reason terminal),
      rt_Measurement = terminal_measurement phases,
      rt_Assessment = describeHistoricalSample (phases ''finished'' \<noteq> None) (ge_SchemaVersion first)
        (terminal_measurement phases)\<rparr>"

definition DescribeRetainedRun :: "gateway_audit_event list \<Rightarrow> time \<Rightarrow> (history_error, retained_run) result" where
  "DescribeRetainedRun evs asOf =
     guard (length evs < 1 \<or> length evs > 3 \<or> \<not> nano_time asOf) ErrHistory
     (let first = hd evs in
      bind_result (scan_events first asOf Map.empty (ge_At first) evs) (\<lambda>(phases, latest_at).
      guard (\<not> phases_ordered phases zero_time [''authorized'', ''admitted'', ''finished'']) ErrHistory
      (guard (case terminal_measurement phases of
                None \<Rightarrow> False
              | Some m \<Rightarrow> starts_before phases ''admitted'' m \<or> starts_before phases ''authorized'' m) ErrHistory
      (Inr (describe_phases first phases latest_at)))))"

section \<open>The loop\<close>

definition latest_of :: "time \<Rightarrow> gateway_audit_event list \<Rightarrow> time" where
  "latest_of t es = foldl (\<lambda>t e. if after (ge_At e) t then ge_At e else t) t es"

lemma scan_events_Inr:
  "scan_events first asOf phases latest_at es = Inr (phases', latest') \<longleftrightarrow>
     (\<forall>e\<in>set es. ValidateEvent e = Inr () \<and> \<not> after (ge_At e) asOf \<and> same_run first e \<and> phases (ge_State e) = None) \<and>
     distinct (map ge_State es) \<and> phases' = phases ++ map_by ge_State es \<and> latest' = latest_of latest_at es"
proof (induction es arbitrary: phases latest_at)
  case Nil
  then show ?case by (auto simp: latest_of_def)
next
  case (Cons e es)
  have app: "phases(ge_State e \<mapsto> e) ++ map_by ge_State es = phases ++ map_by ge_State (e # es)"
    if "distinct (map ge_State (e # es))"
  proof -
    have "map_by ge_State es (ge_State e) = None" using that by (auto simp: map_by_None)
    then show ?thesis by (auto simp: map_add_def fun_eq_iff split: option.splits)
  qed
  have seen: "(\<forall>x\<in>set es. ValidateEvent x = Inr () \<and> \<not> after (ge_At x) asOf \<and> same_run first x \<and>
      (phases(ge_State e \<mapsto> e)) (ge_State x) = None) \<longleftrightarrow>
    (\<forall>x\<in>set es. ValidateEvent x = Inr () \<and> \<not> after (ge_At x) asOf \<and> same_run first x \<and> phases (ge_State x) = None) \<and>
      ge_State e \<notin> ge_State ` set es" by (auto simp: image_iff)
  have step: "scan_events first asOf phases latest_at (e # es) = Inr (phases', latest') \<longleftrightarrow>
      (ValidateEvent e = Inr () \<and> \<not> after (ge_At e) asOf \<and> same_run first e \<and> phases (ge_State e) = None) \<and>
      scan_events first asOf (phases(ge_State e \<mapsto> e)) (if after (ge_At e) latest_at then ge_At e else latest_at) es =
        Inr (phases', latest')"
    by auto
  have late: "latest_of latest_at (e # es) = latest_of (if after (ge_At e) latest_at then ge_At e else latest_at) es"
    by (simp add: latest_of_def)
  show ?case
  proof (cases "distinct (map ge_State (e # es))")
    case True
    then show ?thesis unfolding step Cons.IH seen late by (simp add: app [OF True] del: map_by_Cons)
  next
    case False
    then show ?thesis unfolding step Cons.IH seen late by auto
  qed
qed

text \<open>Everything a successful description established.\<close>

lemma DescribeRetainedRun_Inr:
  "DescribeRetainedRun evs asOf = Inr r \<longleftrightarrow>
     evs \<noteq> [] \<and> length evs \<le> 3 \<and> nano_time asOf \<and>
     (\<forall>e\<in>set evs. ValidateEvent e = Inr () \<and> \<not> after (ge_At e) asOf \<and> same_run (hd evs) e) \<and>
     distinct (map ge_State evs) \<and>
     phases_ordered (map_by ge_State evs) zero_time [''authorized'', ''admitted'', ''finished''] \<and>
     (\<forall>m. terminal_measurement (map_by ge_State evs) = Some m \<longrightarrow>
        \<not> starts_before (map_by ge_State evs) ''admitted'' m \<and> \<not> starts_before (map_by ge_State evs) ''authorized'' m) \<and>
     r = describe_phases (hd evs) (map_by ge_State evs) (latest_of (ge_At (hd evs)) evs)"
  by (auto simp: DescribeRetainedRun_def Let_def scan_events_Inr Suc_le_eq not_less split: option.splits)

section \<open>Valid events\<close>

lemma same_run_trans: "same_run a b \<Longrightarrow> same_run a c \<Longrightarrow> same_run b c"
  by (simp add: same_run_def)

lemma ValidateEvent_state:
  "ValidateEvent e = Inr () \<Longrightarrow> ge_State e \<in> {''authorized'', ''admitted'', ''finished''}"
  by (auto simp: ValidateEvent_def gateway_phase_ok_def split: if_splits)

lemma ValidateEvent_complete:
  assumes "ValidateEvent e = Inr ()" and "ge_Measurement e = Some m" and "gm_Complete m"
  shows "gm_AcceptedRequests m = 3 \<and> gm_Replies m + gm_Timeouts m = 3 \<and> 0 \<le> gm_Replies m \<and> 0 \<le> gm_Timeouts m"
proof -
  have "validateMeasurement m (ge_At e) = Inr ()"
    using assms by (simp add: ValidateEvent_def gateway_attachment_ok_def)
  then show ?thesis using assms(3) by (auto simp: validateMeasurement_def Let_def)
qed

text \<open>The latest audit time of wall readings is their maximum, in whatever order the events come.\<close>

lemma latest_of_max:
  assumes "wall_only t" and "\<forall>e\<in>set es. wall_only (ge_At e)"
  shows "wall_only (latest_of t es) \<and> wall (latest_of t es) = Max (insert (wall t) (wall ` ge_At ` set es))"
  using assms
proof (induction es arbitrary: t)
  case Nil
  then show ?case by (simp add: latest_of_def)
next
  case (Cons e es)
  let ?t = "if after (ge_At e) t then ge_At e else t"
  have "latest_of t (e # es) = latest_of ?t es" by (simp add: latest_of_def)
  moreover have "wall_only ?t" "wall ?t = max (wall t) (wall (ge_At e))"
    using Cons.prems by (auto simp: go_time)
  moreover have "Max (insert (max a b) S) = Max (insert a (insert b S))" if "finite S" for a b :: int and S
    using that by (cases "S = {}") (auto simp: max.assoc)
  ultimately show ?case using Cons.IH [of ?t] Cons.prems by (simp add: insert_commute)
qed

lemma latest_of_perm:
  assumes "mset es = mset es'" and "es \<noteq> []" and "\<forall>e\<in>set es. wall_only (ge_At e)"
  shows "latest_of (ge_At (hd es)) es = latest_of (ge_At (hd es')) es'"
proof -
  have set: "set es = set es'" using assms(1) by (metis set_mset_mset)
  have ne: "es' \<noteq> []" using assms(1,2) by auto
  have one: "wall_only (latest_of (ge_At (hd xs)) xs) \<and>
      wall (latest_of (ge_At (hd xs)) xs) = Max (wall ` ge_At ` set es)" if "set xs = set es" "xs \<noteq> []" for xs
  proof -
    have hd: "hd xs \<in> set es" using hd_in_set [OF that(2)] that(1) by simp
    then have "insert (wall (ge_At (hd xs))) (wall ` ge_At ` set xs) = wall ` ge_At ` set es"
      unfolding that(1) by (intro insert_absorb imageI)
    moreover have "wall_only (ge_At (hd xs))" "\<forall>e\<in>set xs. wall_only (ge_At e)" using assms(3) hd that(1) by simp_all
    ultimately show ?thesis using latest_of_max [of "ge_At (hd xs)" xs] by simp
  qed
  note a = one [OF refl assms(2)] and b = one [OF set [symmetric] ne]
  show ?thesis
    by (rule wall_only_eqI) (use a b in simp_all)
qed

section \<open>Written trails can be read back\<close>

lemma gateway_recorded: "recorded gateway_profile p t info = gateway_event (pr_selection p) (pr_runID p) t info"
  by (simp add: recorded_def gateway_profile_def)

lemma gateway_event_same_run:
  "same_run (gateway_event s run t info) (gateway_event s run t' info')"
  by (simp add: same_run_def gateway_event_def)

text \<open>The phases of a part of a trail: at most one event each, in the order of the trail.\<close>

lemma trail_shape:
  assumes "trail gateway_profile selection_ok p evs"
  shows "\<exists>a d e outcome reason m. stamp a \<and> stamp d \<and> stamp e \<and> wall a \<le> wall d \<and> wall d \<le> wall e \<and>
     (\<forall>smp. m = Some smp \<longrightarrow> wall d \<le> wall (gs_StartedAt smp)) \<and> distinct (map ge_State evs) \<and> length evs \<le> 3 \<and>
     set evs \<subseteq> {recorded gateway_profile p a authorized_info, recorded gateway_profile p d admitted_info,
       recorded gateway_profile p e (finished_info outcome reason m)}"
proof -
  have some: "stamp \<lparr>wall = 0, mono_at = None\<rparr>"
    by (simp add: stamp_def nano_time_iff zero_wall_def fits_int64_def int64_min_def int64_max_def)
  consider "evs = []" | w where "authorized_trail gateway_profile p evs w" | d where "admitted_trail gateway_profile p evs d"
    | "finished_trail gateway_profile selection_ok p evs"
    using assms by (auto simp: trail_def)
  then show ?thesis
  proof cases
    case 1
    then show ?thesis using some by (auto intro!: exI [of _ None])
  next
    case 2
    then obtain a where "stamp a" "evs = [recorded gateway_profile p a authorized_info]"
      by (auto simp: authorized_trail_def)
    then show ?thesis by (intro exI [of _ a] exI [of _ "[]"] exI [of _ None]) simp
  next
    case 3
    then obtain a where "stamp a" "stamp d" "wall a \<le> wall d"
      "evs = [recorded gateway_profile p a authorized_info, recorded gateway_profile p d admitted_info]"
      by (auto simp: admitted_trail_def)
    then show ?thesis
      by (intro exI [of _ a] exI [of _ d] exI [of _ "[]"] exI [of _ None])
         (simp add: gateway_recorded authorized_info_def admitted_info_def)
  next
    case 4
    then obtain early e outcome reason m where e: "stamp e"
        "evs = early @ [recorded gateway_profile p e (finished_info outcome reason m)]"
        "authorized_trail gateway_profile p early (wall e) \<and> m = None \<or>
         (\<exists>d. admitted_trail gateway_profile p early d \<and> wall d \<le> wall e \<and>
            run_end gateway_profile selection_ok p d (wall e) outcome reason m)"
      unfolding finished_trail_def by blast
    from e(3) show ?thesis
    proof (elim disjE exE conjE)
      assume "authorized_trail gateway_profile p early (wall e)" and m: "m = None"
      then obtain a where "stamp a" "wall a \<le> wall e" "early = [recorded gateway_profile p a authorized_info]"
        by (auto simp: authorized_trail_def)
      then show ?thesis
        using e m by (intro exI [of _ a] exI [of _ e] exI [of _ outcome] exI [of _ reason] exI [of _ m])
           (simp add: gateway_recorded authorized_info_def finished_info_def)
    next
      fix d
      assume "admitted_trail gateway_profile p early d" and d: "wall d \<le> wall e"
        and fin: "run_end gateway_profile selection_ok p d (wall e) outcome reason m"
      then obtain a where a: "stamp a" "stamp d" "wall a \<le> wall d"
        "early = [recorded gateway_profile p a authorized_info, recorded gateway_profile p d admitted_info]"
        by (auto simp: admitted_trail_def)
      have "wall d \<le> wall (gs_StartedAt smp)" if "m = Some smp" for smp
        using fin that
        by (auto simp: run_end_def validated_def gateway_profile_def validateSample_Inr stamp_def go_time)
      then show ?thesis
        using e a d by (intro exI [of _ a] exI [of _ d] exI [of _ e] exI [of _ outcome] exI [of _ reason] exI [of _ m])
           (simp add: gateway_recorded authorized_info_def admitted_info_def finished_info_def)
    qed
  qed
qed

lemma trail_part_ordered:
  assumes "trail gateway_profile selection_ok p evs0" and "set evs \<subseteq> set evs0"
  shows "phases_ordered (map_by ge_State evs) zero_time [''authorized'', ''admitted'', ''finished''] \<and>
     (\<forall>m. terminal_measurement (map_by ge_State evs) = Some m \<longrightarrow>
        \<not> starts_before (map_by ge_State evs) ''admitted'' m \<and> \<not> starts_before (map_by ge_State evs) ''authorized'' m)"
proof -
  obtain a d e outcome reason m where t: "stamp a" "stamp d" "stamp e" "wall a \<le> wall d" "wall d \<le> wall e"
      "\<forall>smp. m = Some smp \<longrightarrow> wall d \<le> wall (gs_StartedAt smp)"
    and set: "set evs0 \<subseteq> {recorded gateway_profile p a authorized_info, recorded gateway_profile p d admitted_info,
       recorded gateway_profile p e (finished_info outcome reason m)}"
    using trail_shape [OF assms(1)] by blast
  let ?ph = "map_by ge_State evs"
  have ph: "?ph ''authorized'' = Some x \<Longrightarrow> x = recorded gateway_profile p a authorized_info"
    "?ph ''admitted'' = Some x \<Longrightarrow> x = recorded gateway_profile p d admitted_info"
    "?ph ''finished'' = Some x \<Longrightarrow> x = recorded gateway_profile p e (finished_info outcome reason m)" for x
    using assms(2) set
    by (auto dest!: map_by_SomeD subsetD simp: gateway_recorded authorized_info_def admitted_info_def finished_info_def)
  have at: "?ph ''authorized'' = Some x \<Longrightarrow> ge_At x = a" "?ph ''admitted'' = Some x \<Longrightarrow> ge_At x = d"
    "?ph ''finished'' = Some x \<Longrightarrow> ge_At x = e \<and> ge_Measurement x = map_option auditMeasurement m" for x
    by (auto dest!: ph simp: gateway_recorded finished_info_def)
  have wo: "wall_only a" "wall_only d" "wall_only e" using t by (auto simp: stamp_def)
  have "phases_ordered ?ph zero_time [''authorized'', ''admitted'', ''finished'']"
    using t wo by (auto simp: go_time is_zero_def zero_time_def split: option.splits dest!: at)
  moreover have "\<not> starts_before ?ph ''admitted'' k \<and> \<not> starts_before ?ph ''authorized'' k"
    if tm: "terminal_measurement ?ph = Some k" for k
  proof -
    obtain x where "?ph ''finished'' = Some x" "ge_Measurement x = Some k"
      using tm by (auto simp: terminal_measurement_def split: option.splits)
    then obtain smp where "m = Some smp" "k = auditMeasurement smp"
      using at(3) [of x] by auto
    then have "wall d \<le> wall (gm_StartedAt k)" "wall a \<le> wall (gm_StartedAt k)"
      using t by (auto simp: auditMeasurement_def)
    then show ?thesis using wo by (auto simp: starts_before_def go_time split: option.splits dest!: at)
  qed
  ultimately show ?thesis by blast
qed

section \<open>A sample gateway run\<close>

definition sample_source :: addr where "sample_source = Addr4 3232235778"

definition sample_time :: "int \<Rightarrow> time" where "sample_time n = \<lparr>wall = n * second, mono_at = None\<rparr>"

definition gateway_sample_plan :: "int \<Rightarrow> gateway_plan" where
  "gateway_sample_plan n =
     \<lparr>gp_Binding = sample_binding\<lparr>gb_Prefixes := [''192.168.1.0/24'']\<rparr>, gp_Target = Addr4 3232235777, gp_CreatedAt = sample_time n,
      gp_ReviewExpiresAt = time_add (sample_time n) GatewayReviewLifetime, gp_Budget = gateway_budget\<rparr>"

definition gateway_sample_selection :: "int \<Rightarrow> gateway_selection" where
  "gateway_sample_selection n =
     \<lparr>se_Plan = gateway_sample_plan n, se_Source = sample_source, se_RouteObservedAt = sample_time n,
      se_RouteFreshUntil = time_add (sample_time n) GatewayReviewLifetime\<rparr>"

definition gateway_answers :: "int \<Rightarrow> (gateway_selection, gateway_sample) answers" where
  "gateway_answers n = \<lparr>an_now = sample_time n, an_ctx_err = None, an_preflight = Some (gateway_sample_selection n),
     an_ticket_bytes = Some [7], an_run_bytes = Some [9], an_audit_ok = True, an_execute = None\<rparr>"

definition gateway_inputs :: "(addr, gateway_selection, gateway_sample) input list" where
  "gateway_inputs =
     CallPrepare (Addr4 3232235777) (gateway_answers 120) # replicate 3 (Advance (gateway_answers 120)) @
     CallRun (7 # replicate 31 0) True (gateway_answers 123) # replicate 2 (Advance (gateway_answers 123))"

definition gateway_control :: "gateway_selection control" where
  "gateway_control = \<lparr>ct_hasPreflight = True, ct_hasExecutor = True, ct_hasAuditor = True, ct_pending = None,
     ct_busy = False, ct_closed = False, ct_fault = None, ct_lastWall = sample_time 1,
     ct_notBefore = time_add (sample_time 1) RunInterval, ct_activeCancel = False, ct_cancelled = False,
     ct_drained = False\<rparr>"

definition gateway_sample_state :: "(addr, gateway_selection, gateway_sample, gateway_audit_event) sys" where
  "gateway_sample_state = run_inputs gateway_profile gateway_inputs (start_sys gateway_control)"

lemma gateway_New: "New True True True (sample_time 1) = Inr gateway_control"
  by (simp add: New_def gateway_control_def sample_time_def nano_time_iff zero_wall_def fits_int64_def
      int64_min_def int64_max_def RunInterval_def duration_units strip_def)

lemma gateway_reachable: "reachable gateway_profile (sample_time 1) (run_inputs gateway_profile ins (start_sys gateway_control))"
  unfolding reachable_def using gateway_New run_inputs_reaches by blast

fun op_kind :: "('key, 'sel, 'smp) op \<Rightarrow> nat" where
  "op_kind (RecordAudit _ _ Authorizing _) = 1"
| "op_kind _ = 0"

definition summary :: "('key, 'sel, 'smp, 'ev) sys \<Rightarrow> nat option \<times> nat list \<times> bool" where
  "summary s = (map_option op_kind (sy_active s), map item_kind (sy_trace s), ct_cancelled (sy_control s))"

lemma gateway_sample_summary: "summary gateway_sample_state = (Some 1, [0, 4, 1], False)"
  by code_simp

lemma gateway_sample_reachable: "reachable gateway_profile (sample_time 1) gateway_sample_state"
  unfolding gateway_sample_state_def by (rule gateway_reachable)

lemma gateway_sample_offer:
  "\<exists>i r p start now. sy_trace gateway_sample_state = [i, r, Consumed p start] \<and>
     sy_active gateway_sample_state = Some (RecordAudit p start Authorizing now)"
proof -
  obtain i r x where tr: "sy_trace gateway_sample_state = [i, r, x]" "item_kind x = 1"
    using gateway_sample_summary by (auto simp: summary_def)
  obtain q start where x: "x = Consumed q start" using tr(2) by (cases x) (auto simp: item_kind_def)
  obtain op where op: "sy_active gateway_sample_state = Some op" "op_kind op = 1"
    using gateway_sample_summary by (auto simp: summary_def)
  obtain p st now where o: "op = RecordAudit p st Authorizing now"
    using op(2) by (cases op rule: op_kind.cases) auto
  have "consumed_now p st (sy_trace gateway_sample_state)"
    using reachable_inv [OF gateway_sample_reachable] op o by (simp add: sys_inv_def Let_def)
  then have "q = p" "start = st" using tr(1) x by (auto simp: consumed_now_def append_eq_Cons_conv)
  then show ?thesis using tr(1) x op o by simp
qed

lemma distinct_part:
  assumes "distinct (map f xs)" and "mset ys \<subseteq># mset xs"
  shows "distinct (map f ys)"
proof -
  obtain zs where "mset xs = mset ys + mset zs" using assms(2) by (metis ex_mset mset_subset_eq_exists_conv)
  then have "mset (map f xs) = mset (map f ys @ map f zs)" by simp
  then have "distinct (map f ys @ map f zs)" using assms(1) mset_eq_imp_distinct_iff by metis
  then show ?thesis by simp
qed

lemma recorded_events_valid:
  assumes "reachable gateway_profile created s" and "sy_trace s = pre @ x # mid @ post" and "e \<in> set (events mid)"
  shows "ValidateEvent e = Inr ()"
proof -
  have "Audited e \<in> set mid" using assms(3) by (auto simp: events_def split: item.splits)
  then obtain a b where "mid = a @ Audited e # b" by (meson split_list)
  then have tr: "sy_trace s = (pre @ x # a) @ Audited e # (b @ post)" using assms(2) by simp
  have hist: "history_ok (justified gateway_profile created) (sy_trace s)"
    using reachable_inv [OF assms(1)] by (simp add: sys_inv_def Let_def)
  have "justified gateway_profile created (pre @ x # a) (Audited e)" by (rule history_okD [OF hist tr])
  then show ?thesis by (simp add: gateway_profile_def)
qed

lemma reachable_step: "reachable prof created s \<Longrightarrow> reachable prof created (sys_step prof inp s)"
  unfolding reachable_def by (blast intro: reaches.more)

text \<open>The step of an accepted authorization event.\<close>

lemma gateway_audit_step:
  assumes "reachable gateway_profile created s" and "sy_active s = Some (RecordAudit p start Authorizing now)"
    and "an_audit_ok an" and "ctx_error an (sy_control s) = None"
  shows "ValidateEvent (gateway_event (pr_selection p) (pr_runID p) (strip now) authorized_info) = Inr () \<and>
     sy_trace (sys_step gateway_profile (Advance an) s) =
       sy_trace s @ [Audited (gateway_event (pr_selection p) (pr_runID p) (strip now) authorized_info)]"
proof -
  have "rp_event_valid gateway_profile (recorded gateway_profile p (strip now) (phase_of (Authorizing :: (gateway_selection, gateway_sample) phase)))"
    by (rule gateway.offered_event_valid [OF assms(1,2)]) simp
  then have valid: "ValidateEvent (gateway_event (pr_selection p) (pr_runID p) (strip now) authorized_info) = Inr ()"
    by (simp only: phase_of_info gateway_recorded) (simp add: gateway_profile_def)
  have "rp_event gateway_profile = gateway_event" "rp_event_valid gateway_profile e \<longleftrightarrow> ValidateEvent e = Inr ()" for e
    by (simp_all add: gateway_profile_def)
  then show ?thesis
    using valid assms(2-4) by (simp add: Let_def audit_ctx_error_def phase_of_info del: phase_of.simps)
qed

lemma gateway_sample_live: "ctx_error (gateway_answers 123) (sy_control gateway_sample_state) = None"
  using gateway_sample_summary by (auto simp: summary_def ctx_error_def gateway_answers_def)

section \<open>Properties\<close>

text \<open>
  C20: the control never writes an invalid event.  In every reachable state of the gateway run control, the
  event it is about to offer to the auditor passes \<open>ValidateEvent\<close>; so if the auditor accepts it and the
  context is alive the run goes on, and the control cannot lock itself out through an event of its own
  making.
\<close>

theorem gateway_offers_valid_events:
  assumes "reachable gateway_profile created s" and "sy_active s = Some (RecordAudit p start ph now)"
  shows "ValidateEvent (gateway_event (pr_selection p) (pr_runID p) (strip now) (phase_of ph)) = Inr () \<and>
    (an_audit_ok an \<and> audit_ctx_error ph an (sy_control s) = None \<longrightarrow>
     sys_step gateway_profile (Advance an) s =
       s\<lparr>sy_active := Some (after_audit p start ph),
         sy_trace := sy_trace s @ [Audited (gateway_event (pr_selection p) (pr_runID p) (strip now) (phase_of ph))]\<rparr>)"
proof -
  have "rp_event_valid gateway_profile (recorded gateway_profile p (strip now) (phase_of ph))"
    by (rule gateway.offered_event_valid [OF assms]) simp
  then have valid: "ValidateEvent (gateway_event (pr_selection p) (pr_runID p) (strip now) (phase_of ph)) = Inr ()"
    by (simp add: gateway_recorded) (simp add: gateway_profile_def)
  have "rp_event gateway_profile = gateway_event" "rp_event_valid gateway_profile e \<longleftrightarrow> ValidateEvent e = Inr ()" for e
    by (simp_all add: gateway_profile_def)
  then show ?thesis using valid assms(2) by (auto simp: Let_def)
qed

theorem gateway_offers_valid_events_witness:
  "\<exists>p start now. sy_active gateway_sample_state = Some (RecordAudit p start Authorizing now) \<and>
     ValidateEvent (gateway_event (pr_selection p) (pr_runID p) (strip now) authorized_info) = Inr ()"
proof -
  obtain p start now where act: "sy_active gateway_sample_state = Some (RecordAudit p start Authorizing now)"
    using gateway_sample_offer by blast
  show ?thesis
    using gateway_offers_valid_events [OF gateway_sample_reachable act] act
    by (auto simp: phase_of_info simp del: phase_of.simps)
qed

text \<open>
  C21: what the control writes can be read back.  Take the events that one run left in the audit trail of any
  reachable state of the gateway run control, any non-empty part of them in any order, and any later time:
  \<open>DescribeRetainedRun\<close> accepts them, and the description names that run and says which phases were retained.
\<close>

theorem gateway_history_readable:
  assumes "reachable gateway_profile created s" and "sy_trace s = pre @ Consumed p start # mid @ post"
    and "\<forall>x\<in>set mid. \<not> is_consumed x" and "mset evs \<subseteq># mset (events mid)" and "evs \<noteq> []"
    and "nano_time asOf" and "\<forall>e\<in>set evs. \<not> after (ge_At e) asOf"
  shows "\<exists>r. DescribeRetainedRun evs asOf = Inr r \<and> rt_RunID r = pr_runID p \<and>
     rt_Target r = addr_string (gp_Target (se_Plan (pr_selection p))) \<and>
     (rt_AuthorizationRetained r \<longleftrightarrow> ''authorized'' \<in> ge_State ` set evs) \<and>
     (rt_AdmissionRetained r \<longleftrightarrow> ''admitted'' \<in> ge_State ` set evs) \<and>
     (rt_TerminalRetained r \<longleftrightarrow> ''finished'' \<in> ge_State ` set evs)"
proof -
  have trail: "trail gateway_profile selection_ok p (events mid)"
    using gateway.run_trail [OF assms(1-3)] .
  obtain a d e outcome reason m where shape: "distinct (map ge_State (events mid))" "length (events mid) \<le> 3"
      "set (events mid) \<subseteq> {recorded gateway_profile p a authorized_info, recorded gateway_profile p d admitted_info,
         recorded gateway_profile p e (finished_info outcome reason m)}"
    using trail_shape [OF trail] by blast
  have sub: "set evs \<subseteq> set (events mid)" using assms(4) by (metis set_mset_mono set_mset_mset)
  have len: "length evs \<le> 3" using size_mset_mono [OF assms(4)] shape(2) by simp
  have dist: "distinct (map ge_State evs)" by (rule distinct_part [OF shape(1) assms(4)])
  have valid: "ValidateEvent x = Inr ()" if "x \<in> set evs" for x
    by (rule recorded_events_valid [OF assms(1,2)]) (use that sub in blast)
  have all: "\<exists>t info. x = gateway_event (pr_selection p) (pr_runID p) t info" if "x \<in> set evs" for x
    using that sub shape(3) unfolding gateway_recorded by blast
  have same: "same_run (hd evs) x" if "x \<in> set evs" for x
    using all [OF that] all [of "hd evs"] assms(5) gateway_event_same_run by auto
  obtain t0 info0 where hd: "hd evs = gateway_event (pr_selection p) (pr_runID p) t0 info0"
    using all [of "hd evs"] assms(5) by auto
  show ?thesis
    unfolding DescribeRetainedRun_Inr
    using assms(5-7) len dist valid same trail_part_ordered [OF trail sub]
    by (auto simp: describe_phases_def hd gateway_event_def map_by_None image_iff simp del: phases_ordered.simps)
qed

theorem gateway_history_readable_witness:
  "\<exists>(p :: gateway_selection pending_review) ev r. reachable gateway_profile (sample_time 1) (sys_step gateway_profile (Advance (gateway_answers 123)) gateway_sample_state) \<and>
     DescribeRetainedRun [ev] (ge_At ev) = Inr r \<and> rt_RunID r = pr_runID p \<and> rt_AuthorizationRetained r \<and>
     \<not> rt_TerminalRetained r"
proof -
  obtain i r p start now where tr: "sy_trace gateway_sample_state = [i, r, Consumed p start]"
      and act: "sy_active gateway_sample_state = Some (RecordAudit p start Authorizing now)"
    using gateway_sample_offer by blast
  let ?s = "sys_step gateway_profile (Advance (gateway_answers 123)) gateway_sample_state"
  let ?ev = "gateway_event (pr_selection p) (pr_runID p) (strip now) authorized_info"
  have next_state: "ValidateEvent ?ev = Inr ()" "sy_trace ?s = [i, r] @ Consumed p start # [Audited ?ev]"
    using gateway_audit_step [OF gateway_sample_reachable act, of "gateway_answers 123"] tr gateway_sample_live
    by (simp_all add: gateway_answers_def)
  have reach: "reachable gateway_profile (sample_time 1) ?s"
    using gateway_sample_reachable by (rule reachable_step)
  have nano: "nano_time (ge_At ?ev)" using next_state(1) by (auto simp: ValidateEvent_def gateway_header_ok_def)
  have state: "ge_State ?ev = ''authorized''" by (simp add: authorized_info_def)
  have tr': "sy_trace ?s = [i, r] @ Consumed p start # [Audited ?ev] @ []" using next_state(2) by simp
  have "\<exists>d. DescribeRetainedRun [?ev] (ge_At ?ev) = Inr d \<and> rt_RunID d = pr_runID p \<and>
     rt_Target d = addr_string (gp_Target (se_Plan (pr_selection p))) \<and>
     (rt_AuthorizationRetained d \<longleftrightarrow> ''authorized'' \<in> ge_State ` set [?ev]) \<and>
     (rt_AdmissionRetained d \<longleftrightarrow> ''admitted'' \<in> ge_State ` set [?ev]) \<and>
     (rt_TerminalRetained d \<longleftrightarrow> ''finished'' \<in> ge_State ` set [?ev])"
    by (rule gateway_history_readable [OF reach tr']) (use nano in \<open>simp_all add: events_def after_def\<close>)
  then obtain d where d: "DescribeRetainedRun [?ev] (ge_At ?ev) = Inr d" "rt_RunID d = pr_runID p"
      "rt_AuthorizationRetained d" "\<not> rt_TerminalRetained d"
    using state by auto
  show ?thesis using reach d by (intro exI [of _ p] exI [of _ ?ev] exI [of _ d] conjI)
qed


definition sample_finished_event :: gateway_audit_event where
  "sample_finished_event =
     \<lparr>ge_SchemaVersion = 2,
      ge_Measurement = Some \<lparr>gm_StartedAt = sample_time 100, gm_CompletedAt = Some (sample_time 103), gm_SendCalls = 3,
        gm_AcceptedRequests = 3, gm_Replies = 2, gm_Timeouts = 1, gm_Complete = True,
        gm_MeanRTTNanoseconds = Some 5000000\<rparr>,
      ge_RunID = replicate 32 (CHR ''a''), ge_State = ''finished'', ge_Outcome = ''completed'', ge_Reason = [],
      ge_At = sample_time 104, ge_Profile = ''gateway-icmp-v1'', ge_SelectionDigest = replicate 64 (CHR ''b''),
      ge_ScopeID = ''home'', ge_InterfaceName = ''en0'', ge_InterfaceIndex = 4, ge_Target = ''192.168.1.1'',
      ge_Source = ''192.168.1.2''\<rparr>"

definition sample_admitted_event :: gateway_audit_event where
  "sample_admitted_event = sample_finished_event\<lparr>ge_Measurement := None, ge_State := ''admitted'', ge_Outcome := [],
     ge_At := sample_time 99\<rparr>"

lemma sample_history: "\<exists>r. DescribeRetainedRun [sample_finished_event, sample_admitted_event] (sample_time 200) = Inr r"
proof -
  have "is_ok (DescribeRetainedRun [sample_finished_event, sample_admitted_event] (sample_time 200))" by code_simp
  then show ?thesis by (simp add: is_ok_iff)
qed

lemma sample_history_loss:
  "DescribeRetainedRun [sample_finished_event, sample_admitted_event] (sample_time 200) = Inr r \<Longrightarrow>
     ha_ReplyLossPercent (rt_Assessment r) = Some (100 / 3)"
  unfolding DescribeRetainedRun_Inr
  by (elim conjE) (simp add: describe_phases_def terminal_measurement_def sample_finished_event_def
      sample_admitted_event_def describeHistoricalSample_def unknown_assessment_def Let_def)

lemma describe_complete:
  assumes "gm_Complete m" and "v \<noteq> 1"
  shows "ha_ReplyLossPercent (describeHistoricalSample True v (Some m)) =
      Some (100 * of_int (gm_Timeouts m) / of_int (gm_AcceptedRequests m))"
    "ha_Confidence (describeHistoricalSample True v (Some m)) = ''limited''"
    "ha_State (describeHistoricalSample True v (Some m)) = ''all-replied'' \<longleftrightarrow> gm_Replies m = 3"
    "ha_State (describeHistoricalSample True v (Some m)) = ''no-replies'' \<longleftrightarrow> gm_Replies m = 0"
  using assms by (simp_all add: describeHistoricalSample_def unknown_assessment_def Let_def)

lemma third_share:
  assumes "0 \<le> n" and "n \<le> 3"
  shows "100 * of_int n / 3 = (100 :: rat) \<longleftrightarrow> n = 3" "100 * of_int n / 3 = (0 :: rat) \<longleftrightarrow> n = 0"
    "100 * of_int n / 3 \<le> (100 :: rat)" "0 \<le> 100 * of_int n / (3 :: rat)"
proof -
  have "n = 0 \<or> n = 1 \<or> n = 2 \<or> n = 3" using assms by auto
  then show "100 * of_int n / 3 = (100 :: rat) \<longleftrightarrow> n = 3" "100 * of_int n / 3 = (0 :: rat) \<longleftrightarrow> n = 0"
    "100 * of_int n / 3 \<le> (100 :: rat)" "0 \<le> 100 * of_int n / (3 :: rat)" by auto
qed

lemma describe_no_sample:
  assumes "\<not> (terminal \<and> v \<noteq> 1 \<and> (\<exists>m. mo = Some m \<and> gm_Complete m))"
  shows "ha_ReplyLossPercent (describeHistoricalSample terminal v mo) = None"
    "ha_State (describeHistoricalSample terminal v mo) \<in> {''unknown'', ''incomplete''}"
    "ha_Confidence (describeHistoricalSample terminal v mo) = ''unknown''"
  using assms by (auto simp: describeHistoricalSample_def unknown_assessment_def Let_def split: option.splits)

text \<open>
  storage order does not matter.  The events of a run come back from storage without a monotonic clock
  reading; in whatever order they come, the description is the same.
\<close>

theorem history_order_independent:
  assumes "DescribeRetainedRun evs asOf = Inr r" and "mset evs' = mset evs" and "\<forall>e\<in>set evs. wall_only (ge_At e)"
  shows "DescribeRetainedRun evs' asOf = Inr r"
proof -
  note ok = assms(1) [unfolded DescribeRetainedRun_Inr]
  have set: "set evs' = set evs" and len: "length evs' = length evs"
    using assms(2) by (metis set_mset_mset, metis size_mset)
  have ne: "evs' \<noteq> []" using ok assms(2) by auto
  have hd: "hd evs' \<in> set evs" using hd_in_set [OF ne] set by simp
  have phases: "map_by ge_State evs' = map_by ge_State evs"
    using map_by_perm [of ge_State evs evs'] ok assms(2) by simp
  have same: "same_run (hd evs) (hd evs')" using ok hd by blast
  have late: "latest_of (ge_At (hd evs')) evs' = latest_of (ge_At (hd evs)) evs"
    using latest_of_perm [OF assms(2) ne] assms(3) set by simp
  have desc: "describe_phases (hd evs') ph l = describe_phases (hd evs) ph l" for ph l
    using same by (simp add: describe_phases_def same_run_def)
  have "same_run (hd evs') e" if "e \<in> set evs" for e
    using ok that same_run_trans [OF same] by blast
  then show ?thesis
    unfolding DescribeRetainedRun_Inr phases late desc set len distinct_map_mset [OF assms(2)]
    using ok ne by blast
qed

theorem history_order_independent_witness:
  "\<exists>r. DescribeRetainedRun [sample_finished_event, sample_admitted_event] (sample_time 200) = Inr r \<and>
     DescribeRetainedRun [sample_admitted_event, sample_finished_event] (sample_time 200) = Inr r"
proof -
  obtain r where r: "DescribeRetainedRun [sample_finished_event, sample_admitted_event] (sample_time 200) = Inr r"
    using sample_history by blast
  have "DescribeRetainedRun [sample_admitted_event, sample_finished_event] (sample_time 200) = Inr r"
    by (rule history_order_independent [OF r])
       (simp_all add: sample_finished_event_def sample_admitted_event_def sample_time_def)
  with r show ?thesis by blast
qed

text \<open>
  a history never overstates.  A reply loss is reported only from the retained terminal event of a
  complete, schema-2 measurement; it is the share of the three accepted requests that timed out, between 0
  and 100; the state word agrees with it.  Without that evidence the state is unknown or incomplete and the
  confidence unknown.
\<close>

theorem history_loss_sound:
  assumes "DescribeRetainedRun evs asOf = Inr r"
  shows "case ha_ReplyLossPercent (rt_Assessment r) of
      None \<Rightarrow> ha_State (rt_Assessment r) \<in> {''unknown'', ''incomplete''} \<and> ha_Confidence (rt_Assessment r) = ''unknown''
    | Some x \<Rightarrow> 0 \<le> x \<and> x \<le> 100 \<and> rt_SchemaVersion r \<noteq> 1 \<and> ha_Confidence (rt_Assessment r) = ''limited'' \<and>
        (\<exists>e\<in>set evs. \<exists>m. ge_State e = ''finished'' \<and> ge_Measurement e = Some m \<and> gm_Complete m \<and>
           x = 100 * of_int (gm_Timeouts m) / 3) \<and>
        (ha_State (rt_Assessment r) = ''all-replied'' \<longleftrightarrow> x = 0) \<and>
        (ha_State (rt_Assessment r) = ''no-replies'' \<longleftrightarrow> x = 100)"
proof -
  let ?ph = "map_by ge_State evs"
  have r: "r = describe_phases (hd evs) ?ph (latest_of (ge_At (hd evs)) evs)"
    and valid: "e \<in> set evs \<Longrightarrow> ValidateEvent e = Inr ()" for e
    using assms unfolding DescribeRetainedRun_Inr by blast+
  have assessed: "rt_Assessment r =
      describeHistoricalSample (?ph ''finished'' \<noteq> None) (rt_SchemaVersion r) (terminal_measurement ?ph)"
    unfolding r by (simp add: describe_phases_def)
  show ?thesis
  proof (cases "?ph ''finished'' \<noteq> None \<and> rt_SchemaVersion r \<noteq> 1 \<and> (\<exists>m. terminal_measurement ?ph = Some m \<and> gm_Complete m)")
    case False
    from describe_no_sample [OF this] show ?thesis unfolding assessed by simp
  next
    case True
    then obtain e m where e: "?ph ''finished'' = Some e" "ge_Measurement e = Some m" "gm_Complete m"
      by (auto simp: terminal_measurement_def)
    have mem: "e \<in> set evs" "ge_State e = ''finished''" using map_by_SomeD [OF e(1)] by simp_all
    from ValidateEvent_complete [OF valid [OF mem(1)] e(2,3)]
    have m: "gm_AcceptedRequests m = 3" "gm_Replies m = 3 - gm_Timeouts m" "0 \<le> gm_Timeouts m" "gm_Timeouts m \<le> 3"
      by auto
    have eq: "rt_Assessment r = describeHistoricalSample True (rt_SchemaVersion r) (Some m)"
      using assessed e by (simp add: terminal_measurement_def)
    note third_share [OF m(3,4)]
    moreover have v: "rt_SchemaVersion r \<noteq> 1" using True by blast
    moreover note describe_complete [OF e(3) v]
    moreover have "\<exists>e\<in>set evs. \<exists>k. ge_State e = ''finished'' \<and> ge_Measurement e = Some k \<and> gm_Complete k \<and>
        100 * of_int (gm_Timeouts m) / 3 = 100 * of_int (gm_Timeouts k) / (3 :: rat)"
      using e mem by blast
    ultimately show ?thesis using m unfolding eq by simp
  qed
qed

theorem history_loss_sound_witness:
  "\<exists>r. DescribeRetainedRun [sample_finished_event, sample_admitted_event] (sample_time 200) = Inr r \<and>
     ha_ReplyLossPercent (rt_Assessment r) = Some (100 / 3) \<and> ha_State (rt_Assessment r) \<noteq> ''all-replied'' \<and>
     ha_Confidence (rt_Assessment r) = ''limited''"
proof -
  obtain r where r: "DescribeRetainedRun [sample_finished_event, sample_admitted_event] (sample_time 200) = Inr r"
    using sample_history by blast
  note loss = sample_history_loss [OF r]
  show ?thesis using history_loss_sound [OF r] r loss by auto
qed

text \<open>
  C22: what a validated sample is.  A sample that \<open>validateSample\<close> returns is the sender's, for the admitted
  scope, interface, target and source; its counters are those of at most three requests sent one after the
  other, each answered or timed out before the next is accepted; it started inside the execution and inside
  the review; a complete one lasted at least the two seconds of pacing and less than the operation timeout,
  and carries a mean round trip exactly when a reply arrived.
\<close>

theorem validated_sample_bounds:
  assumes "validateSample smp err sel started returned expires = Inr (Some m)" and "wall_only started"
    and "wall_only expires" and "wall_only returned"
  shows "m = smp \<and> gs_Target m = gp_Target (se_Plan sel) \<and> gs_Source m = se_Source sel \<and>
     gs_ScopeID m = gb_ScopeID (gp_Binding (se_Plan sel)) \<and>
     wall started \<le> wall (gs_StartedAt m) \<and> wall (gs_StartedAt m) < wall expires \<and>
     wall (gs_StartedAt m) \<le> wall returned \<and>
     0 \<le> gs_Replies m \<and> 0 \<le> gs_Timeouts m \<and> gs_Replies m + gs_Timeouts m \<le> gs_AcceptedRequests m \<and>
     gs_AcceptedRequests m \<le> gs_Replies m + gs_Timeouts m + 1 \<and>
     gs_AcceptedRequests m \<le> gs_SendCalls m \<and> gs_SendCalls m \<le> gs_AcceptedRequests m + 1 \<and> gs_SendCalls m \<le> 3 \<and>
     (gs_Complete m \<longleftrightarrow> err = None) \<and>
     (gs_Complete m \<longrightarrow> gs_Replies m + gs_Timeouts m = 3 \<and>
        2 * second \<le> wall (gs_CompletedAt m) - wall (gs_StartedAt m) \<and>
        wall (gs_CompletedAt m) - wall (gs_StartedAt m) < 5 * second \<and>
        wall (gs_CompletedAt m) < wall expires \<and> wall (gs_CompletedAt m) \<le> wall returned \<and>
        (gs_MeanRTT m \<noteq> None \<longleftrightarrow> 0 < gs_Replies m)) \<and>
     (\<forall>d. gs_MeanRTT m = Some d \<longrightarrow> gs_Complete m \<and> 0 \<le> d \<and> d < second)"
proof -
  note ok = assms(1) [unfolded validateSample_Inr]
  then have v: "validateMeasurement (auditMeasurement m) returned = Inr ()" and m: "m = smp" by auto
  have times: "wall started \<le> wall (gs_StartedAt m)" "wall (gs_StartedAt m) < wall expires"
    "is_zero (gs_CompletedAt m) \<or> wall (gs_CompletedAt m) < wall expires" "gs_Complete m \<longleftrightarrow> err = None"
    using ok m assms(2,3) by (auto simp: go_time)
  have head: "wall (gs_StartedAt m) \<le> wall returned" "0 \<le> gs_Replies m" "0 \<le> gs_Timeouts m"
    "gs_Replies m + gs_Timeouts m \<le> gs_AcceptedRequests m" "gs_AcceptedRequests m \<le> gs_Replies m + gs_Timeouts m + 1"
    "gs_AcceptedRequests m \<le> gs_SendCalls m" "gs_SendCalls m \<le> gs_AcceptedRequests m + 1" "gs_SendCalls m \<le> 3"
    using v assms(4) by (auto simp: validateMeasurement_def auditMeasurement_def Let_def go_time)
  have mean: "gs_Complete m \<and> 0 \<le> d \<and> d < second" if "gs_MeanRTT m = Some d" for d
    using v that by (auto simp: validateMeasurement_def auditMeasurement_def Let_def split: if_splits)
  have complete: "gs_Replies m + gs_Timeouts m = 3 \<and> 2 * second \<le> wall (gs_CompletedAt m) - wall (gs_StartedAt m) \<and>
      wall (gs_CompletedAt m) - wall (gs_StartedAt m) < 5 * second \<and> wall (gs_CompletedAt m) < wall expires \<and>
      wall (gs_CompletedAt m) \<le> wall returned \<and> (gs_MeanRTT m \<noteq> None \<longleftrightarrow> 0 < gs_Replies m)" if "gs_Complete m"
  proof -
    have c: "gs_SendCalls m = 3" "gs_Replies m + gs_Timeouts m = 3" "\<not> is_zero (gs_CompletedAt m)"
      "int64_clamp (wall (gs_CompletedAt m) - wall (gs_StartedAt m)) < OperationTimeout"
      "minimum_span (auditMeasurement m) \<le> int64_clamp (wall (gs_CompletedAt m) - wall (gs_StartedAt m))"
      "gs_MeanRTT m \<noteq> None \<longleftrightarrow> 0 < gs_Replies m" "wall (gs_CompletedAt m) \<le> wall returned"
      using v that assms(4)
      by (auto simp: validateMeasurement_def auditMeasurement_def Let_def measurement_end_def go_time split: if_splits)
    moreover have "2 * second \<le> minimum_span (auditMeasurement m)"
      using c(1) by (simp add: minimum_span_def auditMeasurement_def second_def)
    ultimately show ?thesis
      using times by (auto simp: OperationTimeout_def int64_clamp_def int64_min_def int64_max_def second_def)
  qed
  show ?thesis using ok m times head mean complete by blast
qed

definition sample_measured :: gateway_sample where
  "sample_measured = \<lparr>gs_ScopeID = ''home'', gs_InterfaceName = ''en0'', gs_InterfaceIndex = 4,
     gs_Target = Addr4 3232235777, gs_Source = sample_source, gs_StartedAt = sample_time 124,
     gs_CompletedAt = sample_time 127, gs_SendCalls = 3, gs_AcceptedRequests = 3, gs_Replies = 2, gs_Timeouts = 1,
     gs_Complete = True, gs_MeanRTT = Some 5000000\<rparr>"

theorem validated_sample_bounds_witness:
  "validateSample sample_measured None (gateway_sample_selection 120) (sample_time 123) (sample_time 128) (sample_time 150) =
     Inr (Some sample_measured) \<and> wall (sample_time 123) \<le> wall (gs_StartedAt sample_measured)"
proof -
  have v: "validateSample sample_measured None (gateway_sample_selection 120) (sample_time 123) (sample_time 128) (sample_time 150) =
     Inr (Some sample_measured)" by code_simp
  show ?thesis using validated_sample_bounds [OF v] v by (simp add: sample_time_def)
qed

end
