(* ===== verification/CheckBinding.thy ===== *)
theory CheckBinding
  imports GatewayPlan
begin

text \<open>
  \<open>checkbinding/binding.go\<close>: which source and target a resolver or HTTPS check may use with a set of enrolled
  prefixes, for IPv4 and IPv6.  The first section adds the address classes and the overlap test of
  \<open>net/netip\<close> that only this package needs.
\<close>

unbundle bit_operations_syntax

section \<open>More of net/netip\<close>

definition IsValid :: "addr \<Rightarrow> bool" where
  "IsValid a \<longleftrightarrow> a \<noteq> AddrNone"

definition Zone :: "addr \<Rightarrow> string" where
  "Zone a = (case a of Addr6 _ zone \<Rightarrow> zone | _ \<Rightarrow> [])"

definition IsGlobalUnicast :: "addr \<Rightarrow> bool" where
  "IsGlobalUnicast a \<longleftrightarrow> a \<noteq> AddrNone \<and>
     (let b = Unmap a in
      b \<noteq> Addr4 0 \<and> b \<noteq> Addr4 0xffffffff \<and> b \<noteq> Addr6 0 [] \<and> \<not> IsLoopback b \<and> \<not> IsMulticast b \<and>
      \<not> IsLinkLocalUnicast b)"

definition As16 :: "128 word \<Rightarrow> byte list" where
  "As16 w = map (octet6 w) [0..<16]"

definition masked_to :: "nat \<Rightarrow> prefix \<Rightarrow> addr" where
  "masked_to n p = p_Addr (Masked (p\<lparr>p_Bits := n\<rparr>))"

definition Overlaps :: "prefix \<Rightarrow> prefix \<Rightarrow> bool" where
  "Overlaps p q \<longleftrightarrow>
     p = q \<or>
     Is4 (p_Addr p) = Is4 (p_Addr q) \<and>
       (let minBits = min (p_Bits p) (p_Bits q) in
        minBits = 0 \<or> masked_to minBits p = masked_to minBits q)"

section \<open>Operations\<close>

datatype binding_error = ErrBinding

definition EligibleHost :: "addr \<Rightarrow> bool" where
  "EligibleHost a \<longleftrightarrow>
     (case a of Addr4 w \<Rightarrow> \<not> (octet4 w 0 = 0 \<or> octet4 w 0 \<ge> 224) | _ \<Rightarrow> True) \<and>
     IsValid a \<and> IsGlobalUnicast a \<and> \<not> IsLoopback a \<and> \<not> Is4In6 a \<and> Zone a = [] \<and> \<not> IsLinkLocalUnicast a"

definition excluded_ranges :: "string list" where
  "excluded_ranges = [''0.0.0.0/8'', ''127.0.0.0/8'', ''169.254.0.0/16'', ''224.0.0.0/3'', ''::/128'', ''::1/128'',
     ''::ffff:0:0/96'', ''fe80::/10'', ''ff00::/8'']"

definition MustParsePrefix :: "string \<Rightarrow> prefix" where
  "MustParsePrefix raw = the (ParsePrefix raw)"

definition excludedRange :: "prefix \<Rightarrow> bool" where
  "excludedRange p \<longleftrightarrow> list_ex (\<lambda>raw. Overlaps p (MustParsePrefix raw)) excluded_ranges"

definition lastAddress :: "prefix \<Rightarrow> addr" where
  "lastAddress p =
     (case p_Addr p of
        Addr4 w \<Rightarrow> AddrFrom4 (foldl set_host_bit (As4 w) [p_Bits p..<32])
      | Addr6 w _ \<Rightarrow> AddrFrom16 (foldl set_host_bit (As16 w) [p_Bits p..<128]) []
      | AddrNone \<Rightarrow> AddrFrom16 (foldl set_host_bit (replicate 16 0) [p_Bits p..<128]) [])"

definition subnetHost :: "prefix \<Rightarrow> addr \<Rightarrow> bool" where
  "subnetHost p a \<longleftrightarrow>
     (if Is6 a then p_Bits p = 128 \<or> a \<noteq> p_Addr p
      else if p_Bits p \<ge> 31 then True
      else a \<noteq> p_Addr p \<and> a \<noteq> lastAddress p)"

definition enrolled_prefix :: "prefix set \<Rightarrow> string \<Rightarrow> (binding_error, prefix) result" where
  "enrolled_prefix seen raw =
     guard (length raw > 64) ErrBinding
     (case ParsePrefix raw of
        None \<Rightarrow> Inl ErrBinding
      | Some p \<Rightarrow>
          guard (p \<noteq> Masked p \<or> prefix_string p \<noteq> raw \<or> \<not> EligibleHost (p_Addr p) \<or> p \<in> seen) ErrBinding
          (guard (\<not> EligibleHost (lastAddress p) \<or> excludedRange p) ErrBinding (Inr p)))"

definition selected_ok :: "prefix \<Rightarrow> addr \<Rightarrow> bool" where
  "selected_ok p a \<longleftrightarrow> (Contains p a \<longrightarrow> subnetHost p a)"

fun scan_enrolled ::
  "addr \<Rightarrow> addr \<Rightarrow> prefix set \<Rightarrow> string list \<Rightarrow> bool \<Rightarrow> bool \<Rightarrow> string list \<Rightarrow>
   (binding_error, string list \<times> bool \<times> bool) result" where
  "scan_enrolled source target seen prefixes sourceMember targetMember [] =
     Inr (prefixes, sourceMember, targetMember)"
| "scan_enrolled source target seen prefixes sourceMember targetMember (raw # raws) =
     bind_result (enrolled_prefix seen raw) (\<lambda>p.
     guard (\<not> selected_ok p source) ErrBinding
     (guard (\<not> selected_ok p target) ErrBinding
     (scan_enrolled source target (insert p seen) (prefixes @ [raw]) (sourceMember \<or> Contains p source)
        (targetMember \<or> Contains p target) raws)))"

definition Validate :: "addr \<Rightarrow> addr \<Rightarrow> string list \<Rightarrow> (binding_error, string list \<times> bool) result" where
  "Validate source target enrolled =
     guard (\<not> EligibleHost target) ErrBinding
     (guard (\<not> EligibleHost source \<or> Is4 source \<noteq> Is4 target \<or> source = target \<or> enrolled = [] \<or>
             length enrolled > 32) ErrBinding
     (bind_result (scan_enrolled source target {} [] False False enrolled) (\<lambda>(prefixes, sourceMember, targetMember).
      guard (\<not> sourceMember) ErrBinding (Inr (sort prefixes, targetMember)))))"

section \<open>The loop over the enrolled prefixes\<close>

definition enrolled_ok :: "addr \<Rightarrow> addr \<Rightarrow> string \<Rightarrow> bool" where
  "enrolled_ok source target raw \<longleftrightarrow>
     (\<exists>p. enrolled_prefix {} raw = Inr p \<and> selected_ok p source \<and> selected_ok p target)"

definition enrolled :: "string \<Rightarrow> prefix" where
  "enrolled raw = (case enrolled_prefix {} raw of Inr p \<Rightarrow> p | Inl _ \<Rightarrow> \<lparr>p_Addr = AddrNone, p_Bits = 0\<rparr>)"

lemma enrolled_prefix_seen:
  "enrolled_prefix seen raw = Inr p \<longleftrightarrow> enrolled_prefix {} raw = Inr p \<and> p \<notin> seen"
  by (auto simp: enrolled_prefix_def split: option.splits)

lemma enrolled_prefix_text: "enrolled_prefix seen raw = Inr p \<Longrightarrow> ParsePrefix raw = Some p \<and> prefix_string p = raw"
  by (auto simp: enrolled_prefix_def split: option.splits)

lemma scan_enrolled_Inr:
  "scan_enrolled source target seen prefixes sm tm raws = Inr (out, sm', tm') \<longleftrightarrow>
     (\<forall>raw\<in>set raws. enrolled_ok source target raw \<and> enrolled raw \<notin> seen) \<and> distinct (map enrolled raws) \<and>
     out = prefixes @ raws \<and> sm' = (sm \<or> (\<exists>raw\<in>set raws. Contains (enrolled raw) source)) \<and>
     tm' = (tm \<or> (\<exists>raw\<in>set raws. Contains (enrolled raw) target))"
proof (induction raws arbitrary: seen prefixes sm tm)
  case Nil
  then show ?case by auto
next
  case (Cons raw raws)
  show ?case
  proof (cases "enrolled_prefix {} raw")
    case (Inl e)
    then have "\<nexists>p. enrolled_prefix seen raw = Inr p" by (simp add: enrolled_prefix_seen [of seen])
    then show ?thesis using Inl by (simp add: enrolled_ok_def)
  next
    case (Inr p)
    then have p: "enrolled raw = p" and ok: "enrolled_ok source target raw \<longleftrightarrow> selected_ok p source \<and> selected_ok p target"
      by (simp_all add: enrolled_def enrolled_ok_def)
    have seen: "(\<forall>x\<in>set raws. enrolled_ok source target x \<and> enrolled x \<notin> insert p seen) \<longleftrightarrow>
        (\<forall>x\<in>set raws. enrolled_ok source target x \<and> enrolled x \<notin> seen) \<and> p \<notin> enrolled ` set raws"
      by auto
    have step: "scan_enrolled source target seen prefixes sm tm (raw # raws) = Inr (out, sm', tm') \<longleftrightarrow>
        (p \<notin> seen \<and> selected_ok p source \<and> selected_ok p target) \<and>
        scan_enrolled source target (insert p seen) (prefixes @ [raw]) (sm \<or> Contains p source) (tm \<or> Contains p target)
          raws = Inr (out, sm', tm')"
      using Inr by (auto simp: enrolled_prefix_seen [of seen])
    show ?thesis unfolding step Cons.IH seen by (auto simp: p ok)
  qed
qed

text \<open>Everything that a successful validation established, and its result.\<close>

lemma Validate_Inr:
  "Validate source target raws = Inr (prefixes, member) \<longleftrightarrow>
     EligibleHost target \<and> EligibleHost source \<and> Is4 source = Is4 target \<and> source \<noteq> target \<and> raws \<noteq> [] \<and>
     length raws \<le> 32 \<and> (\<forall>raw\<in>set raws. enrolled_ok source target raw) \<and> distinct (map enrolled raws) \<and>
     (\<exists>raw\<in>set raws. Contains (enrolled raw) source) \<and> prefixes = sort raws \<and>
     member = (\<exists>raw\<in>set raws. Contains (enrolled raw) target)"
  by (auto simp: Validate_def scan_enrolled_Inr not_less)

section \<open>Prefixes that share an address overlap\<close>

lemma bit_masks:
  "bit (mask4 n) i \<longleftrightarrow> 32 - n \<le> i \<and> i < 32" "bit (mask6 n) i \<longleftrightarrow> 128 - n \<le> i \<and> i < 128"
  by (auto simp: mask4_def mask6_def bit_simps)

lemma mask4_agree: "w AND mask4 n = v AND mask4 n \<Longrightarrow> m \<le> n \<Longrightarrow> v AND mask4 m = w AND mask4 m"
proof (rule bit_word_eqI)
  fix i assume "w AND mask4 n = v AND mask4 n" "m \<le> n"
  then have "bit (w AND mask4 n) i = bit (v AND mask4 n) i" by simp
  then show "bit (v AND mask4 m) i = bit (w AND mask4 m) i" using \<open>m \<le> n\<close> by (auto simp: bit_simps bit_masks)
qed

lemma mask6_agree: "(w XOR v) AND mask6 n = 0 \<Longrightarrow> m \<le> n \<Longrightarrow> v AND mask6 m = w AND mask6 m"
proof (rule bit_word_eqI)
  fix i assume "(w XOR v) AND mask6 n = 0" "m \<le> n"
  then have "bit ((w XOR v) AND mask6 n) i = bit (0 :: 128 word) i" by simp
  then show "bit (v AND mask6 m) i = bit (w AND mask6 m) i" using \<open>m \<le> n\<close> by (auto simp: bit_simps bit_masks)
qed

lemma common_address_overlaps:
  assumes "Contains p a" and "Contains q a" and "p_Bits p \<le> max_bits (p_Addr p)" and "p_Bits q \<le> max_bits (p_Addr q)"
  shows "Overlaps p q"
proof (cases a)
  case (Addr4 w)
  obtain v u where v: "p_Addr p = Addr4 v" "p_Addr q = Addr4 u"
    using assms(1,2) Contains_Addr4D unfolding Addr4 by blast
  then have "w AND mask4 (p_Bits p) = v AND mask4 (p_Bits p)" "w AND mask4 (p_Bits q) = u AND mask4 (p_Bits q)"
    using assms Addr4 by (simp_all add: Contains_4 max_bits_def)
  then have "v AND mask4 m = w AND mask4 m" "u AND mask4 m = w AND mask4 m" if "m = min (p_Bits p) (p_Bits q)" for m
    using that mask4_agree [of w "p_Bits p" v m] mask4_agree [of w "p_Bits q" u m] by simp_all
  then show ?thesis using v by (simp add: Overlaps_def masked_to_def Masked_def Is4_def Let_def)
next
  case (Addr6 w zone)
  obtain v vz u uz where v: "p_Addr p = Addr6 v vz" "p_Addr q = Addr6 u uz"
    using assms(1,2) Addr6 by (auto simp: Contains_def split: addr.splits)
  then have "(w XOR v) AND mask6 (p_Bits p) = 0" "(w XOR u) AND mask6 (p_Bits q) = 0"
    using assms(1,2) Addr6 by (simp_all add: Contains_def)
  then have "v AND mask6 m = w AND mask6 m" "u AND mask6 m = w AND mask6 m" if "m = min (p_Bits p) (p_Bits q)" for m
    using that mask6_agree [of w v "p_Bits p" m] mask6_agree [of w u "p_Bits q" m] by simp_all
  then show ?thesis using v by (simp add: Overlaps_def masked_to_def Masked_def Is4_def Let_def)
qed (use assms in \<open>simp add: Contains_def split: addr.splits\<close>)

section \<open>The excluded ranges\<close>

lemma top_octet4: "drop_bit 24 w = ucast (octet4 w 0)" for w :: "32 word"
  by (rule bit_word_eqI) (auto simp: octet4_def bit_simps dest: bit_imp_le_length)

lemma top_octets4: "drop_bit 16 w = push_bit 8 (ucast (octet4 w 0)) OR ucast (octet4 w 1)" for w :: "32 word"
  by (rule bit_word_eqI) (auto simp: octet4_def bit_simps dest: bit_imp_le_length)

lemma top_octet6: "drop_bit 120 w = ucast (octet6 w 0)" for w :: "128 word"
  by (rule bit_word_eqI) (auto simp: octet6_def bit_simps dest: bit_imp_le_length)

lemma top_octets6: "drop_bit 112 w = push_bit 8 (ucast (octet6 w 0)) OR ucast (octet6 w 1)" for w :: "128 word"
  by (rule bit_word_eqI) (auto simp: octet6_def bit_simps dest: bit_imp_le_length)

lemma replicates: "replicate 14 x = [x, x, x, x, x, x, x, x, x, x, x, x, x, x]"
  "replicate 10 x = [x, x, x, x, x, x, x, x, x, x]"
  by (simp_all add: numeral_eq_Suc)

lemmas parse6_simps = ParsePrefix_def ParseAddr_def parseIPv6_def split_zone_def has_prefix_def Let_def hex_value_def
  is_digit_def less_eq_char_def parse_bits_def digit_value_def expand_ellipsis_def AddrFrom16_def max_bits_def replicates

lemma excluded_parsed:
  "ParsePrefix ''127.0.0.0/8'' = Some \<lparr>p_Addr = Addr4 0x7f000000, p_Bits = 8\<rparr>"
  "ParsePrefix ''169.254.0.0/16'' = Some \<lparr>p_Addr = Addr4 0xa9fe0000, p_Bits = 16\<rparr>"
  "ParsePrefix ''224.0.0.0/3'' = Some \<lparr>p_Addr = Addr4 0xe0000000, p_Bits = 3\<rparr>"
  "ParsePrefix ''::1/128'' = Some \<lparr>p_Addr = Addr6 1 [], p_Bits = 128\<rparr>"
  "ParsePrefix ''fe80::/10'' = Some \<lparr>p_Addr = Addr6 0xfe800000000000000000000000000000 [], p_Bits = 10\<rparr>"
  "ParsePrefix ''0.0.0.0/8'' = Some \<lparr>p_Addr = Addr4 0, p_Bits = 8\<rparr>"
  "ParsePrefix ''::/128'' = Some \<lparr>p_Addr = Addr6 0 [], p_Bits = 128\<rparr>"
  "ParsePrefix ''::ffff:0:0/96'' = Some \<lparr>p_Addr = Addr6 0xffff00000000 [], p_Bits = 96\<rparr>"
  "ParsePrefix ''ff00::/8'' = Some \<lparr>p_Addr = Addr6 0xff000000000000000000000000000000 [], p_Bits = 8\<rparr>"
  by (code_simp, code_simp, code_simp, simp add: parse6_simps, simp add: parse6_simps, code_simp, code_simp,
      simp_all add: parse6_simps)

lemma excludedRange_avoids:
  assumes "\<not> excludedRange p" and "raw \<in> set excluded_ranges" and "ParsePrefix raw = Some q"
    and "p_Bits p \<le> max_bits (p_Addr p)" and "Contains p a"
  shows "\<not> Contains q a"
proof
  assume "Contains q a"
  moreover have "p_Bits q \<le> max_bits (p_Addr q)"
    using assms(3) by (auto simp: ParsePrefix_def Let_def split: option.splits if_splits)
  ultimately have "Overlaps p q" using common_address_overlaps assms(4,5) by blast
  then show False using assms(1-3) by (auto simp: excludedRange_def list_ex_iff MustParsePrefix_def)
qed

lemma ranges_member:
  "''127.0.0.0/8'' \<in> set excluded_ranges" "''169.254.0.0/16'' \<in> set excluded_ranges"
  "''224.0.0.0/3'' \<in> set excluded_ranges" "''::1/128'' \<in> set excluded_ranges"
  "''fe80::/10'' \<in> set excluded_ranges" "''ff00::/8'' \<in> set excluded_ranges"
  by (simp_all add: excluded_ranges_def)

lemma high_bits6: "x AND mask6 n = 0 \<longleftrightarrow> drop_bit (128 - n) x = 0" for x :: "128 word"
proof
  assume "x AND mask6 n = 0"
  then have "bit (x AND mask6 n) i = bit (0 :: 128 word) i" for i by simp
  then have low: "\<not> bit x i" if "128 - n \<le> i" for i
    using that bit_imp_le_length [of x i] by (auto simp: bit_simps bit_masks)
  show "drop_bit (128 - n) x = 0" by (rule bit_word_eqI) (simp add: bit_simps low)
next
  assume zero: "drop_bit (128 - n) x = 0"
  have "\<not> bit x i" if "128 - n \<le> i" for i
  proof -
    have "bit (drop_bit (128 - n) x) (i - (128 - n)) = bit (0 :: 128 word) (i - (128 - n))" using zero by simp
    then show ?thesis using that by (simp add: bit_simps)
  qed
  then show "x AND mask6 n = 0" by (intro bit_word_eqI) (auto simp: bit_simps bit_masks)
qed

lemma high_octet_and:
  "b AND 0xf0 = 0xe0 \<Longrightarrow> drop_bit 5 b = 7" "b AND 0xc0 = 0x80 \<Longrightarrow> drop_bit 6 b = 2" for b :: byte
proof -
  have "drop_bit 5 b = drop_bit 5 (b AND 0xf0)"
  proof (rule bit_word_eqI)
    fix i assume "i < LENGTH(8)"
    then have "i = 0 \<or> i = 1 \<or> i = 2 \<or> 3 \<le> i" by auto
    then show "bit (drop_bit 5 b) i = bit (drop_bit 5 (b AND 0xf0)) i"
      using bit_imp_le_length [of b "5 + i"] by (auto simp: bit_simps bit_numeral_rec)
  qed
  then show "drop_bit 5 b = 7" if "b AND 0xf0 = 0xe0" using that by simp
  have "drop_bit 6 b = drop_bit 6 (b AND 0xc0)"
  proof (rule bit_word_eqI)
    fix i assume "i < LENGTH(8)"
    then have "i = 0 \<or> i = 1 \<or> 2 \<le> i" by auto
    then show "bit (drop_bit 6 b) i = bit (drop_bit 6 (b AND 0xc0)) i"
      using bit_imp_le_length [of b "6 + i"] by (auto simp: bit_simps bit_numeral_rec)
  qed
  then show "drop_bit 6 b = 2" if "b AND 0xc0 = 0x80" using that by simp
qed

lemma top_three4: "drop_bit 29 w = ucast (drop_bit 5 (octet4 w 0))" for w :: "32 word"
  by (rule bit_word_eqI) (auto simp: octet4_def bit_simps dest: bit_imp_le_length)

lemma top_ten6: "drop_bit 118 w = push_bit 2 (ucast (octet6 w 0)) OR ucast (drop_bit 6 (octet6 w 1))" for w :: "128 word"
  by (rule bit_word_eqI) (auto simp: octet6_def bit_simps dest: bit_imp_le_length)

lemma class_ranges4:
  "IsLoopback (Addr4 w) \<Longrightarrow> Contains \<lparr>p_Addr = Addr4 0x7f000000, p_Bits = 8\<rparr> (Addr4 w)"
  "IsLinkLocalUnicast (Addr4 w) \<Longrightarrow> Contains \<lparr>p_Addr = Addr4 0xa9fe0000, p_Bits = 16\<rparr> (Addr4 w)"
  using top_octet4 [of w] top_octets4 [of w]
  by (auto simp: IsLoopback_def IsLinkLocalUnicast_def Unmap_def Contains_def)

lemma class_range_multicast4:
  assumes "IsMulticast (Addr4 w)"
  shows "Contains \<lparr>p_Addr = Addr4 0xe0000000, p_Bits = 3\<rparr> (Addr4 w)"
proof -
  have "drop_bit 5 (octet4 w 0) = 7"
    using assms high_octet_and(1) by (simp add: IsMulticast_def Unmap_def)
  then have "drop_bit 29 w = 7"
    by (simp add: top_three4)
  then show ?thesis by (simp add: Contains_def)
qed

lemma class_ranges6:
  "IsLoopback (Addr6 w []) \<Longrightarrow> \<not> Is4In6 (Addr6 w []) \<Longrightarrow> Contains \<lparr>p_Addr = Addr6 1 [], p_Bits = 128\<rparr> (Addr6 w [])"
  "IsMulticast (Addr6 w []) \<Longrightarrow> \<not> Is4In6 (Addr6 w []) \<Longrightarrow>
     Contains \<lparr>p_Addr = Addr6 0xff000000000000000000000000000000 [], p_Bits = 8\<rparr> (Addr6 w [])"
  using top_octet6 [of w]
  by (auto simp: IsLoopback_def IsMulticast_def Unmap_def Contains_def high_bits6)

lemma class_range_linklocal6:
  assumes "IsLinkLocalUnicast (Addr6 w [])" and "\<not> Is4In6 (Addr6 w [])"
  shows "Contains \<lparr>p_Addr = Addr6 0xfe800000000000000000000000000000 [], p_Bits = 10\<rparr> (Addr6 w [])"
proof -
  have o: "octet6 w 0 = 0xfe" "drop_bit 6 (octet6 w 1) = 2"
    using assms high_octet_and(2) by (simp_all add: IsLinkLocalUnicast_def Unmap_def)
  then show ?thesis by (simp add: Contains_def high_bits6 top_ten6)
qed

text \<open>Every address of an enrolled prefix is a unicast address outside the loopback and link-local ranges.\<close>

definition plain_unicast :: "addr \<Rightarrow> bool" where
  "plain_unicast a \<longleftrightarrow> \<not> IsLoopback a \<and> \<not> IsLinkLocalUnicast a \<and> \<not> IsMulticast a"

lemma enrolled_plain:
  assumes "enrolled_prefix seen raw = Inr p" and "Contains p a" and "\<not> Is4In6 a"
  shows "plain_unicast a"
proof -
  have ex: "\<not> excludedRange p" using assms(1) by (auto simp: enrolled_prefix_def split: option.splits)
  have bits: "p_Bits p \<le> max_bits (p_Addr p)"
    using enrolled_prefix_text [OF assms(1)] by (auto simp: ParsePrefix_def Let_def split: option.splits if_splits)
  note avoid = excludedRange_avoids [OF ex _ _ bits assms(2)]
  show ?thesis
  proof (cases a)
    case (Addr4 w)
    then show ?thesis
      using avoid [OF ranges_member(1) excluded_parsed(1)] avoid [OF ranges_member(2) excluded_parsed(2)]
        avoid [OF ranges_member(3) excluded_parsed(3)] class_ranges4 [of w] class_range_multicast4 [of w]
      by (auto simp: plain_unicast_def)
  next
    case (Addr6 w zone)
    then have "zone = []" using assms(2) by (auto simp: Contains_def split: addr.splits)
    then show ?thesis
      using Addr6 assms(3) avoid [OF ranges_member(4) excluded_parsed(4)] avoid [OF ranges_member(5) excluded_parsed(5)]
        avoid [OF ranges_member(6) excluded_parsed(9)] class_ranges6 [of w] class_range_linklocal6 [of w]
      by (auto simp: plain_unicast_def)
  qed (use assms(2) in \<open>simp add: Contains_def split: addr.splits\<close>)
qed

section \<open>Properties\<close>

text \<open>
  C27: what an accepted binding guarantees.  Source and target are distinct eligible hosts of one family; the
  source lies in an enrolled prefix, and the returned flag says whether the target does; in no enrolled
  prefix that contains it is either of them the network address or the IPv4 broadcast address; and no
  address of an enrolled prefix, however broad the prefix, is loopback, link-local or multicast.
\<close>

theorem accepted_binding_safe:
  assumes "Validate source target raws = Inr (prefixes, member)"
  shows "EligibleHost source \<and> EligibleHost target \<and> source \<noteq> target \<and> Is4 source = Is4 target \<and>
     (\<exists>raw\<in>set raws. \<exists>p. ParsePrefix raw = Some p \<and> Contains p source) \<and>
     (member \<longleftrightarrow> (\<exists>raw\<in>set raws. \<exists>p. ParsePrefix raw = Some p \<and> Contains p target)) \<and>
     (\<forall>raw\<in>set raws. \<forall>p. ParsePrefix raw = Some p \<longrightarrow>
        (\<forall>a. Contains p a \<and> \<not> Is4In6 a \<longrightarrow> plain_unicast a) \<and>
        (\<forall>a\<in>{source, target}. Contains p a \<longrightarrow>
           (p_Bits p < (if Is6 a then 128 else 31) \<longrightarrow> a \<noteq> p_Addr p \<and> (Is4 a \<longrightarrow> a \<noteq> lastAddress p))))"
proof -
  note ok = assms [unfolded Validate_Inr]
  have parsed: "ParsePrefix raw = Some (enrolled raw) \<and> enrolled_prefix {} raw = Inr (enrolled raw) \<and>
      selected_ok (enrolled raw) source \<and> selected_ok (enrolled raw) target" if "raw \<in> set raws" for raw
    using ok that enrolled_prefix_text [of "{}" raw] by (auto simp: enrolled_ok_def enrolled_def)
  have host: "a \<noteq> p_Addr p \<and> (Is4 a \<longrightarrow> a \<noteq> lastAddress p)"
    if "selected_ok p a" "Contains p a" "p_Bits p < (if Is6 a then 128 else 31)" for p a
    using that by (auto simp: selected_ok_def subnetHost_def Is4_def Is6_def split: if_splits addr.splits)
  have each: "(\<forall>a. Contains p a \<and> \<not> Is4In6 a \<longrightarrow> plain_unicast a) \<and>
      (\<forall>a\<in>{source, target}. Contains p a \<longrightarrow>
         (p_Bits p < (if Is6 a then 128 else 31) \<longrightarrow> a \<noteq> p_Addr p \<and> (Is4 a \<longrightarrow> a \<noteq> lastAddress p)))"
    if "raw \<in> set raws" "ParsePrefix raw = Some p" for raw p
  proof -
    have p: "p = enrolled raw" using parsed [OF that(1)] that(2) by simp
    have "enrolled_prefix {} raw = Inr p" "selected_ok p source" "selected_ok p target"
      using parsed [OF that(1)] unfolding p by blast+
    then show ?thesis using enrolled_plain host by blast
  qed
  have member: "(\<exists>raw\<in>set raws. Contains (enrolled raw) a) \<longleftrightarrow> (\<exists>raw\<in>set raws. \<exists>p. ParsePrefix raw = Some p \<and> Contains p a)" for a
    by (rule bex_cong [OF refl]) (use parsed in simp)
  show ?thesis
    unfolding member [symmetric] using ok by (intro conjI ballI allI impI each [rule_format]) simp_all
qed

lemma sample_enrolled: "enrolled_prefix {} ''192.168.1.0/24'' = Inr \<lparr>p_Addr = Addr4 3232235776, p_Bits = 24\<rparr>"
proof -
  let ?p = "\<lparr>p_Addr = Addr4 3232235776, p_Bits = 24\<rparr>"
  have parse: "ParsePrefix ''192.168.1.0/24'' = Some ?p" by code_simp
  have head: "Masked ?p = ?p \<and> prefix_string ?p = ''192.168.1.0/24'' \<and> EligibleHost (p_Addr ?p) \<and> EligibleHost (lastAddress ?p)"
    by code_simp
  have "\<not> Overlaps ?p \<lparr>p_Addr = Addr4 0, p_Bits = 8\<rparr> \<and> \<not> Overlaps ?p \<lparr>p_Addr = Addr4 0x7f000000, p_Bits = 8\<rparr> \<and>
      \<not> Overlaps ?p \<lparr>p_Addr = Addr4 0xa9fe0000, p_Bits = 16\<rparr> \<and> \<not> Overlaps ?p \<lparr>p_Addr = Addr4 0xe0000000, p_Bits = 3\<rparr>"
    by code_simp
  moreover have "\<not> Overlaps ?p \<lparr>p_Addr = Addr6 v zone, p_Bits = n\<rparr>" for v zone n
    by (simp add: Overlaps_def Is4_def)
  ultimately have "\<not> excludedRange ?p"
    by (simp add: excludedRange_def excluded_ranges_def MustParsePrefix_def excluded_parsed)
  then show ?thesis using parse head by (simp add: enrolled_prefix_def)
qed

lemma sample_binding_valid:
  "Validate (Addr4 3232235778) (Addr4 3232235777) [''192.168.1.0/24''] = Inr ([''192.168.1.0/24''], True)"
proof -
  let ?p = "\<lparr>p_Addr = Addr4 3232235776, p_Bits = 24\<rparr>"
  have "EligibleHost (Addr4 3232235777) \<and> EligibleHost (Addr4 3232235778) \<and> selected_ok ?p (Addr4 3232235777) \<and>
      selected_ok ?p (Addr4 3232235778) \<and> Contains ?p (Addr4 3232235777) \<and> Contains ?p (Addr4 3232235778)"
    by code_simp
  then show ?thesis
    by (simp add: Validate_def sample_enrolled Is4_def del: enrolled_prefix_seen)
qed

theorem accepted_binding_safe_witness:
  "Validate (Addr4 3232235778) (Addr4 3232235777) [''192.168.1.0/24''] = Inr ([''192.168.1.0/24''], True) \<and>
     EligibleHost (Addr4 3232235778)"
  using accepted_binding_safe [OF sample_binding_valid] sample_binding_valid by blast

lemma Validate_accept_mset:
  assumes "mset raws' = mset raws"
  shows "Validate source target raws' = Inr (prefixes, member) \<longleftrightarrow>
      Validate source target raws = Inr (prefixes, member)"
proof -
  have set: "set raws' = set raws" and len: "length raws' = length raws"
    using assms by (metis set_mset_mset, metis size_mset)
  have ne: "raws' = [] \<longleftrightarrow> raws = []" using assms by auto
  have sorted: "sort raws' = sort raws" using assms by (metis properties_for_sort mset_sort sorted_sort)
  show ?thesis by (simp add: Validate_Inr set len ne sorted distinct_map_mset [OF assms])
qed

lemma Validate_canonical:
  assumes "Validate source target raws = Inr (prefixes, member)"
  shows "Validate source target prefixes = Inr (prefixes, member)"
proof -
  have "mset prefixes = mset raws" using assms by (simp add: Validate_Inr)
  then show ?thesis using assms Validate_accept_mset by blast
qed

text \<open>
  the enrolled prefixes are a set.  Their order changes nothing in the answer, whether it is the sorted
  list with the membership of the target or the error.
\<close>

theorem binding_order_independent:
  assumes "mset raws' = mset raws"
  shows "Validate source target raws' = Validate source target raws"
proof -
  have err: "(\<exists>prefixes member. Validate source target rs = Inr (prefixes, member)) \<or>
      Validate source target rs = Inl ErrBinding" for rs
    by (cases "Validate source target rs") (auto intro: binding_error.exhaust)
  show ?thesis
    using Validate_accept_mset [OF assms, of source target] err [of raws] err [of raws'] by (elim disjE exE) auto
qed

theorem binding_order_independent_witness:
  "Validate (Addr4 3232235778) (Addr4 3232235777) [''192.168.1.0/24'', ''10.0.0.0/8''] =
     Validate (Addr4 3232235778) (Addr4 3232235777) [''10.0.0.0/8'', ''192.168.1.0/24'']"
  by (rule binding_order_independent) simp

end
