(* ===== verification/ResolverWire.thy ===== *)
theory ResolverWire
  imports ResolverQuality CheckBinding
begin

text \<open>
  \<open>resolverwire/framing.go\<close>, \<open>classify.go\<close> and \<open>query.go\<close>: the question of one DNS exchange, the framing
  checks on a reply, the matching of a reply with its question and the classification of its answer.  Index
  reads and slices of Go that could be out of range are the failure \<open>WirePanic\<close>.  The codec of
  \<open>golang.org/x/net/dns/dnsmessage\<close> is not part of the repository: what the sources ask of it is the record
  \<open>dns_codec\<close>, an argument of the functions that use it.  Record types are the numbers of the DNS registry.
  The Unicode part of \<open>strings.ToLower\<close> is an argument too.
\<close>

unbundle bit_operations_syntax

section \<open>Data\<close>

datatype wire_error = ErrQuestion | ErrResponse | WirePanic

definition MaxReplyBytes :: nat where "MaxReplyBytes = 512"
definition MaxRecords :: nat where "MaxRecords = 32"
definition MaxAliases :: nat where "MaxAliases = 8"

abbreviation "TypeA \<equiv> 1 :: nat"
abbreviation "TypeNS \<equiv> 2 :: nat"
abbreviation "TypeCNAME \<equiv> 5 :: nat"
abbreviation "TypeSOA \<equiv> 6 :: nat"
abbreviation "TypeAAAA \<equiv> 28 :: nat"
abbreviation "TypeOPT \<equiv> 41 :: nat"
abbreviation "ClassINET \<equiv> 1 :: nat"

record addr_port =
  ap_Addr :: addr
  ap_Port :: nat

text \<open>A resource record: its header, and the target when its body is a \<open>CNAMEResource\<close>.\<close>

record dns_resource =
  rr_Name :: string
  rr_Type :: nat
  rr_Class :: nat
  rr_CNAME :: "string option"

record dns_question =
  dq_Name :: string
  dq_Type :: nat
  dq_Class :: nat

text \<open>
  The codec: \<open>NewName\<close> accepts a name, \<open>Pack\<close> of a message with one question and recursion desired,
  \<open>Parser.Start\<close> (response code and truncation), the questions that the parser reads, and its three sections;
  \<^const>\<open>None\<close> where it reports an error other than the end of a section.
\<close>

record dns_codec =
  dc_NewName :: "string \<Rightarrow> bool"
  dc_Pack :: "nat \<Rightarrow> string \<Rightarrow> nat \<Rightarrow> byte list option"
  dc_Start :: "byte list \<Rightarrow> (int \<times> bool) option"
  dc_Questions :: "byte list \<Rightarrow> dns_question list option"
  dc_Sections :: "byte list \<Rightarrow> (dns_resource list \<times> dns_resource list \<times> dns_resource list) option"

record query =
  qy_endpoint :: addr_port
  qy_name :: string
  qy_kind :: nat
  qy_id :: nat
  qy_packet :: "byte list"

section \<open>Names\<close>

definition is_ascii :: "char \<Rightarrow> bool" where
  "is_ascii c \<longleftrightarrow> c < CHR 0x80"

definition strings_ToLower :: "(string \<Rightarrow> string) \<Rightarrow> string \<Rightarrow> string" where
  "strings_ToLower unicode_lower s = (if list_all is_ascii s then to_lower s else unicode_lower s)"

definition is_label_char :: "char \<Rightarrow> bool" where
  "is_label_char c \<longleftrightarrow> is_alnum c \<or> c = CHR ''-''"

definition valid_label :: "string \<Rightarrow> bool" where
  "valid_label l \<longleftrightarrow> 1 \<le> length l \<and> length l \<le> 63 \<and> hd l \<noteq> CHR ''-'' \<and> last l \<noteq> CHR ''-'' \<and>
     list_all is_label_char l"

definition validHostname :: "string \<Rightarrow> bool" where
  "validHostname name \<longleftrightarrow> 2 \<le> length name \<and> length name \<le> 254 \<and> has_suffix name ''.'' \<and>
     list_all valid_label (split_on CHR ''.'' (butlast name))"

section \<open>Queries\<close>

definition NewQuery ::
  "dns_codec \<Rightarrow> addr_port \<Rightarrow> string \<Rightarrow> dns_query_type \<Rightarrow> nat \<Rightarrow> (wire_error, query) result" where
  "NewQuery codec endpoint name kind i =
     (let a = ap_Addr endpoint in
      guard (\<not> IsValid a \<or> ap_Port endpoint \<noteq> 53 \<or> IsUnspecified a \<or> IsMulticast a \<or> Is4In6 a \<or> Zone a \<noteq> [] \<or>
             IsLinkLocalUnicast a \<or> \<not> validHostname name) ErrQuestion
      (bind_result
         (case kind of DNSQueryA \<Rightarrow> Inr TypeA | DNSQueryAAAA \<Rightarrow> Inr TypeAAAA | _ \<Rightarrow> Inl ErrQuestion)
         (\<lambda>typ.
          let n = to_lower name in
          guard (\<not> dc_NewName codec n) ErrQuestion
          (case dc_Pack codec i n typ of
             None \<Rightarrow> Inl ErrQuestion
           | Some packet \<Rightarrow>
               guard (length packet > MaxReplyBytes) ErrQuestion
               (Inr \<lparr>qy_endpoint = endpoint, qy_name = n, qy_kind = typ, qy_id = i, qy_packet = packet\<rparr>)))))"

section \<open>Framing\<close>

definition byte_at :: "byte list \<Rightarrow> nat \<Rightarrow> (wire_error, nat) result" where
  "byte_at packet i = (if i < length packet then Inr (unat (packet ! i)) else Inl WirePanic)"

definition uint16_at :: "byte list \<Rightarrow> nat \<Rightarrow> (wire_error, nat) result" where
  "uint16_at packet i =
     bind_result (byte_at packet i) (\<lambda>hi. bind_result (byte_at packet (Suc i)) (\<lambda>lo. Inr (256 * hi + lo)))"

text \<open>
  The walk over the encoded part of one name.  The map \<open>names\<close> of the code is the set of its keys; after an
  error no caller looks at it again.
\<close>

function nameEnd ::
  "byte list \<Rightarrow> nat \<Rightarrow> nat \<Rightarrow> nat set \<Rightarrow> (wire_error, nat \<times> nat set) result" where
  "nameEnd packet offset end_at names =
     (if \<not> offset < end_at then Inl ErrResponse
      else bind_result (byte_at packet offset) (\<lambda>len.
        if len div 64 = 0 then
          (if len = 0 then Inr (Suc offset, insert offset names)
           else if Suc offset + len > end_at then Inl ErrResponse
           else nameEnd packet (Suc offset + len) end_at (insert offset names))
        else if len div 64 = 3 then
          (if Suc offset \<ge> end_at then Inl ErrResponse
           else bind_result (byte_at packet (Suc offset)) (\<lambda>low.
             let target = 256 * (len mod 64) + low in
             if target \<ge> offset \<or> target \<notin> names then Inl ErrResponse
             else Inr (offset + 2, insert offset names)))
        else Inl ErrResponse))"
  by pat_completeness auto
termination
  by (relation "measure (\<lambda>(packet, offset, end_at, names). end_at - offset)") auto

declare nameEnd.simps [simp del]

text \<open>The checks on the data of one record.\<close>

definition record_data ::
  "byte list \<Rightarrow> nat \<Rightarrow> nat \<Rightarrow> nat \<Rightarrow> nat \<Rightarrow> nat set \<Rightarrow> (wire_error, nat set) result" where
  "record_data packet kind len offset end_at names =
     (if kind = TypeA then guard (len \<noteq> 4) ErrResponse (Inr names)
      else if kind = TypeAAAA then guard (len \<noteq> 16) ErrResponse (Inr names)
      else if kind = TypeCNAME \<or> kind = TypeNS then
        bind_result (nameEnd packet offset end_at names) (\<lambda>(stop, names).
        guard (stop \<noteq> end_at) ErrResponse (Inr names))
      else if kind = TypeSOA then
        bind_result (nameEnd packet offset end_at names) (\<lambda>(stop, names).
        bind_result (nameEnd packet stop end_at names) (\<lambda>(stop, names).
        guard (stop + 20 \<noteq> end_at) ErrResponse (Inr names)))
      else if kind = TypeOPT then Inl ErrResponse
      else Inr names)"

fun frame_records :: "byte list \<Rightarrow> nat \<Rightarrow> nat \<Rightarrow> nat set \<Rightarrow> (wire_error, nat) result" where
  "frame_records packet 0 offset names = Inr offset"
| "frame_records packet (Suc n) offset names =
     bind_result (nameEnd packet offset (length packet) names) (\<lambda>(offset, names).
     guard (offset + 10 > length packet) ErrResponse
     (bind_result (uint16_at packet offset) (\<lambda>kind.
      bind_result (uint16_at packet (offset + 8)) (\<lambda>len.
      guard (offset + 10 + len > length packet) ErrResponse
      (bind_result (record_data packet kind len (offset + 10) (offset + 10 + len) names) (\<lambda>names.
       frame_records packet n (offset + 10 + len) names))))))"

definition validateFraming :: "byte list \<Rightarrow> nat \<Rightarrow> (wire_error, unit) result" where
  "validateFraming packet n =
     bind_result (nameEnd packet 12 (length packet) {}) (\<lambda>(offset, names).
     guard (offset + 4 > length packet) ErrResponse
     (bind_result (frame_records packet n (offset + 4) names) (\<lambda>offset.
      guard (offset \<noteq> length packet) ErrResponse (Inr ()))))"

section \<open>Classification\<close>

text \<open>
  One pass over the answers for the current owner: whether a record of the queried type was found and the
  alias target (empty for none); \<^const>\<open>None\<close> for two different targets.
\<close>

fun owner_scan ::
  "(string \<Rightarrow> string) \<Rightarrow> nat \<Rightarrow> string \<Rightarrow> string \<Rightarrow> bool \<Rightarrow> dns_resource list \<Rightarrow> (string \<times> bool) option" where
  "owner_scan lower kind current target found [] = Some (target, found)"
| "owner_scan lower kind current target found (rr # rrs) =
     (if lower (rr_Name rr) \<noteq> current then owner_scan lower kind current target found rrs
      else
        (let found = (found \<or> rr_Type rr = kind) in
         case rr_CNAME rr of
           None \<Rightarrow> owner_scan lower kind current target found rrs
         | Some al \<Rightarrow>
             (let nxt = lower al in
              if target \<noteq> [] \<and> target \<noteq> nxt then None
              else owner_scan lower kind current nxt found rrs)))"

datatype walk = Classified dns_answer_kind | ChainEnd string "string set" nat

function walk_aliases ::
  "(string \<Rightarrow> string) \<Rightarrow> nat \<Rightarrow> dns_resource list \<Rightarrow> string \<Rightarrow> string set \<Rightarrow> nat \<Rightarrow> walk" where
  "walk_aliases lower kind answers current visited aliases =
     (if current \<in> visited then Classified DNSAnswerUnclassified
      else
        (let visited = insert current visited in
         case owner_scan lower kind current [] False answers of
           None \<Rightarrow> Classified DNSAnswerUnclassified
         | Some (target, found) \<Rightarrow>
             if found then
               Classified (if target \<noteq> [] then DNSAnswerUnclassified else DNSAnswerPresent)
             else if target = [] then ChainEnd current visited aliases
             else if Suc aliases > MaxAliases then Classified DNSAnswerUnclassified
             else walk_aliases lower kind answers target visited (Suc aliases)))"
  by pat_completeness auto
termination
  by (relation "measure (\<lambda>(lower, kind, answers, current, visited, aliases). MaxAliases - aliases)") auto

declare walk_aliases.simps [simp del]

definition inZone :: "string \<Rightarrow> string \<Rightarrow> bool" where
  "inZone name zone \<longleftrightarrow> zone = ''.'' \<or> name = zone \<or> has_suffix name (''.'' @ zone)"

definition negative_answer ::
  "(string \<Rightarrow> string) \<Rightarrow> dns_resource list \<Rightarrow> dns_resource list \<Rightarrow> string \<Rightarrow> string set \<Rightarrow> nat \<Rightarrow> dns_answer_kind" where
  "negative_answer lower answers authorities current visited aliases =
     (if list_ex (\<lambda>rr. rr_Type rr \<noteq> TypeCNAME \<or> lower (rr_Name rr) \<notin> visited) answers then DNSAnswerUnclassified
      else
        (let relevant = (\<lambda>rr. inZone current (lower (rr_Name rr)));
             anySOA = list_ex (\<lambda>rr. rr_Type rr = TypeSOA) authorities;
             soa = list_ex (\<lambda>rr. rr_Type rr = TypeSOA \<and> relevant rr) authorities;
             anyNS = list_ex (\<lambda>rr. rr_Type rr = TypeNS) authorities;
             ns = list_ex (\<lambda>rr. rr_Type rr = TypeNS \<and> relevant rr) authorities
         in if soa then DNSAnswerNoData
            else if anySOA then DNSAnswerUnclassified
            else if ns then DNSAnswerReferral
            else if anyNS \<or> aliases > 0 then DNSAnswerUnclassified
            else DNSAnswerNoData))"

definition classify ::
  "(string \<Rightarrow> string) \<Rightarrow> query \<Rightarrow> dns_resource list \<Rightarrow> dns_resource list \<Rightarrow> dns_answer_kind" where
  "classify lower q answers authorities =
     (case walk_aliases lower (qy_kind q) answers (lower (qy_name q)) {} 0 of
        Classified k \<Rightarrow> k
      | ChainEnd current visited aliases \<Rightarrow> negative_answer lower answers authorities current visited aliases)"

section \<open>Replies\<close>

definition resource_ok :: "dns_resource \<Rightarrow> bool" where
  "resource_ok rr \<longleftrightarrow> rr_Class rr = ClassINET \<and> rr_Type rr \<noteq> TypeOPT"

definition header_ok :: "query \<Rightarrow> nat \<Rightarrow> nat \<Rightarrow> nat \<Rightarrow> bool" where
  "header_ok q i flags questions \<longleftrightarrow>
     i = qy_id q \<and> bit flags 15 \<and> \<not> bit flags 14 \<and> \<not> bit flags 13 \<and> \<not> bit flags 12 \<and> \<not> bit flags 11 \<and>
     \<not> bit flags 6 \<and> bit flags 8 \<and> questions = 1"

definition match_sections ::
  "dns_codec \<Rightarrow> (string \<Rightarrow> string) \<Rightarrow> query \<Rightarrow> byte list \<Rightarrow> nat \<Rightarrow> int \<Rightarrow> (wire_error, dns_reply) result" where
  "match_sections codec lower q packet n rcode =
     bind_result (validateFraming packet n) (\<lambda>_.
     case dc_Sections codec packet of
       None \<Rightarrow> Inl ErrResponse
     | Some (answers, authorities, additionals) \<Rightarrow>
         guard (\<not> list_all resource_ok (answers @ authorities @ additionals)) ErrResponse
         (Inr \<lparr>dr_RCode = rcode, dr_Truncated = False,
               dr_Answer = (if rcode = 0 then classify lower q answers authorities else DNSAnswerNone)\<rparr>))"

definition match_question ::
  "dns_codec \<Rightarrow> (string \<Rightarrow> string) \<Rightarrow> (string \<Rightarrow> string \<Rightarrow> bool) \<Rightarrow> query \<Rightarrow> byte list \<Rightarrow> nat \<Rightarrow>
   (wire_error, dns_reply) result" where
  "match_question codec lower equal_fold q packet n =
     bind_result (nameEnd packet 12 (length packet) {}) (\<lambda>(questionEnd, _).
     guard (questionEnd + 4 > length packet) ErrResponse
     (case dc_Start codec packet of
        None \<Rightarrow> Inl ErrResponse
      | Some (rcode, truncated) \<Rightarrow>
     (case dc_Questions codec packet of
        Some [question] \<Rightarrow>
          guard (dq_Type question \<noteq> qy_kind q \<or> dq_Class question \<noteq> ClassINET \<or>
                 \<not> equal_fold (dq_Name question) (qy_name q)) ErrResponse
          (if truncated then Inr \<lparr>dr_RCode = rcode, dr_Truncated = True, dr_Answer = DNSAnswerNone\<rparr>
           else match_sections codec lower q packet n rcode)
      | _ \<Rightarrow> Inl ErrResponse)))"

definition MatchResponse ::
  "dns_codec \<Rightarrow> (string \<Rightarrow> string) \<Rightarrow> (string \<Rightarrow> string \<Rightarrow> bool) \<Rightarrow> query \<Rightarrow> addr_port \<Rightarrow> byte list \<Rightarrow>
   (wire_error, dns_reply) result" where
  "MatchResponse codec lower equal_fold q peer packet =
     guard (qy_packet q = [] \<or> peer \<noteq> qy_endpoint q \<or> length packet < 12 \<or> length packet > MaxReplyBytes) ErrResponse
     (bind_result (uint16_at packet 2) (\<lambda>flags.
      bind_result (uint16_at packet 0) (\<lambda>i.
      bind_result (uint16_at packet 4) (\<lambda>questions.
      guard (\<not> header_ok q i flags questions) ErrResponse
      (bind_result (uint16_at packet 6) (\<lambda>an.
       bind_result (uint16_at packet 8) (\<lambda>ns.
       bind_result (uint16_at packet 10) (\<lambda>ar.
       guard (an + ns + ar > MaxRecords) ErrResponse
       (match_question codec lower equal_fold q packet (an + ns + ar))))))))))"

section \<open>Framing stays inside the packet\<close>

lemma byte_at_ok: "i < length packet \<Longrightarrow> byte_at packet i = Inr (unat (packet ! i))"
  by (simp add: byte_at_def)

lemma uint16_at_ok: "Suc i < length packet \<Longrightarrow> \<exists>n. uint16_at packet i = Inr n"
  by (simp add: uint16_at_def byte_at_def)

lemma nameEnd_no_panic:
  "end_at \<le> length packet \<Longrightarrow> nameEnd packet offset end_at names \<noteq> Inl WirePanic"
proof (induction packet offset end_at names rule: nameEnd.induct)
  case (1 packet offset end_at names)
  show ?case
  proof (cases "offset < end_at")
    case True
    then have b: "byte_at packet offset = Inr (unat (packet ! offset))" using 1 by (simp add: byte_at_ok)
    have lo: "Suc offset < end_at \<Longrightarrow> byte_at packet (Suc offset) = Inr (unat (packet ! Suc offset))"
      using 1 by (simp add: byte_at_ok)
    show ?thesis
      using True b lo 1 by (subst nameEnd.simps) (auto simp: Let_def not_le)
  qed (simp add: nameEnd.simps)
qed

lemma nameEnd_bounds:
  "nameEnd packet offset end_at names = Inr (stop, names') \<Longrightarrow>
     offset < stop \<and> stop \<le> end_at \<and> names \<subseteq> names' \<and> offset \<in> names' \<and> (\<forall>n\<in>names' - names. offset \<le> n \<and> n < stop)"
proof (induction packet offset end_at names arbitrary: stop names' rule: nameEnd.induct)
  case (1 packet offset end_at names)
  have lt: "offset < end_at" using 1 by (subst (asm) (2) nameEnd.simps) (auto split: if_splits)
  obtain len where b: "byte_at packet offset = Inr len"
    using 1(2) lt by (subst (asm) nameEnd.simps) auto
  show ?case
  proof (cases "len div 64 = 0 \<and> len \<noteq> 0 \<and> \<not> Suc offset + len > end_at")
    case True
    then have "nameEnd packet (Suc offset + len) end_at (insert offset names) = Inr (stop, names')"
      using 1(2) lt b by (subst (asm) nameEnd.simps) simp
    from 1(1) [OF _ _ _ _ this] b lt True
    have rest: "Suc offset + len < stop \<and> stop \<le> end_at \<and> insert offset names \<subseteq> names' \<and>
        (\<forall>n\<in>names' - insert offset names. Suc offset + len \<le> n \<and> n < stop)"
      by (auto simp: is_ok_iff)
    have "offset \<le> n \<and> n < stop" if "n \<in> names' - names" for n
    proof (cases "n = offset")
      case False
      then have "Suc offset + len \<le> n \<and> n < stop" using rest that by blast
      then show ?thesis by simp
    qed (use rest in simp)
    then show ?thesis using rest by auto
  next
    case False
    then show ?thesis
      using 1(2) lt b by (subst (asm) nameEnd.simps) (auto simp: Let_def split: if_splits)
  qed
qed

lemma record_data_no_panic:
  "end_at \<le> length packet \<Longrightarrow> record_data packet kind len offset end_at names \<noteq> Inl WirePanic"
  using nameEnd_no_panic [of end_at packet]
  by (auto simp: record_data_def bind_result_def guard_def split: sum.splits)

lemma frame_records_no_panic: "frame_records packet n offset names \<noteq> Inl WirePanic"
proof (induction n arbitrary: offset names)
  case 0
  then show ?case by simp
next
  case (Suc n)
  have kind: "uint16_at packet i \<noteq> Inl WirePanic" if "Suc i < length packet" for i
    using uint16_at_ok [OF that] by auto
  show ?case
    using Suc.IH nameEnd_no_panic [of "length packet" packet] record_data_no_panic kind
    by (auto simp: bind_result_def guard_def split: sum.splits)
qed

lemma validateFraming_no_panic: "validateFraming packet n \<noteq> Inl WirePanic"
  using nameEnd_no_panic [of "length packet" packet] frame_records_no_panic [of packet n]
  by (auto simp: validateFraming_def bind_result_def guard_def split: sum.splits)

section \<open>What the classification sees\<close>

text \<open>The alias targets and the matching records of one owner, as sets.\<close>

definition targets_of :: "(string \<Rightarrow> string) \<Rightarrow> dns_resource list \<Rightarrow> string \<Rightarrow> string set" where
  "targets_of lower answers owner =
     {lower al | rr al. rr \<in> set answers \<and> lower (rr_Name rr) = owner \<and> rr_CNAME rr = Some al}"

definition answered :: "(string \<Rightarrow> string) \<Rightarrow> nat \<Rightarrow> dns_resource list \<Rightarrow> string \<Rightarrow> bool" where
  "answered lower kind answers owner \<longleftrightarrow>
     (\<exists>rr\<in>set answers. lower (rr_Name rr) = owner \<and> rr_Type rr = kind)"

definition named_aliases :: "(string \<Rightarrow> string) \<Rightarrow> dns_resource list \<Rightarrow> bool" where
  "named_aliases lower answers \<longleftrightarrow> (\<forall>rr\<in>set answers. \<forall>al. rr_CNAME rr = Some al \<longrightarrow> lower al \<noteq> [])"

lemma targets_of_Cons:
  "targets_of lower (rr # rrs) owner =
     (if lower (rr_Name rr) = owner then set_option (map_option lower (rr_CNAME rr)) else {}) \<union> targets_of lower rrs owner"
  by (auto simp: targets_of_def)

lemma answered_Cons:
  "answered lower kind (rr # rrs) owner \<longleftrightarrow>
     (lower (rr_Name rr) = owner \<and> rr_Type rr = kind) \<or> answered lower kind rrs owner"
  by (auto simp: answered_def)

lemma owner_scan_Some:
  assumes "named_aliases lower answers"
  shows "owner_scan lower kind owner target found answers = Some (target', found') \<longleftrightarrow>
     found' = (found \<or> answered lower kind answers owner) \<and>
     (if target = [] then
        (if targets_of lower answers owner = {} then target' = [] else targets_of lower answers owner = {target'})
      else target' = target \<and> targets_of lower answers owner \<subseteq> {target})"
  using assms
proof (induction answers arbitrary: target found)
  case Nil
  then show ?case by (auto simp: answered_def targets_of_def)
next
  case (Cons rr rrs)
  have rest: "named_aliases lower rrs" using Cons.prems by (simp add: named_aliases_def)
  have ne: "lower al \<noteq> []" if "rr_CNAME rr = Some al" for al
    using Cons.prems that by (simp add: named_aliases_def)
  show ?case
  proof (cases "lower (rr_Name rr) = owner")
    case False
    then show ?thesis using Cons.IH [OF rest] by (simp add: targets_of_Cons answered_Cons)
  next
    case True
    show ?thesis
    proof (cases "rr_CNAME rr")
      case None
      then show ?thesis using True Cons.IH [OF rest] by (auto simp: targets_of_Cons answered_Cons)
    next
      case (Some al)
      then show ?thesis
        using True Cons.IH [OF rest] ne [OF Some] by (auto simp: targets_of_Cons answered_Cons Let_def)
    qed
  qed
qed

lemma targets_named: "named_aliases lower answers \<Longrightarrow> [] \<notin> targets_of lower answers owner"
  by (auto simp: targets_of_def named_aliases_def)

lemma owner_scan_set:
  assumes "set answers' = set answers" and "named_aliases lower answers"
  shows "owner_scan lower kind owner target found answers' = owner_scan lower kind owner target found answers"
proof -
  have named: "named_aliases lower answers'" using assms by (simp add: named_aliases_def)
  have "targets_of lower answers' = targets_of lower answers" "answered lower kind answers' = answered lower kind answers"
    using assms(1) by (auto simp: targets_of_def answered_def fun_eq_iff)
  then have "owner_scan lower kind owner target found answers' = Some (t, f) \<longleftrightarrow>
      owner_scan lower kind owner target found answers = Some (t, f)" for t f
    by (simp add: owner_scan_Some [OF named] owner_scan_Some [OF assms(2)])
  then show ?thesis by (metis option.exhaust surj_pair)
qed

lemma walk_aliases_set:
  assumes "set answers' = set answers" and "named_aliases lower answers"
  shows "walk_aliases lower kind answers' current visited aliases = walk_aliases lower kind answers current visited aliases"
  using assms
proof (induction lower kind answers current visited aliases rule: walk_aliases.induct)
  case (1 lower kind answers current visited aliases)
  show ?case
    using 1 owner_scan_set [OF 1(2,3), of kind current]
    by (subst (1 2) walk_aliases.simps) (auto simp: Let_def split: option.splits)
qed

text \<open>A chain of aliases in the answers, each the only one of its owner.\<close>

inductive alias_path :: "(string \<Rightarrow> string) \<Rightarrow> dns_resource list \<Rightarrow> string \<Rightarrow> nat \<Rightarrow> string \<Rightarrow> bool"
  for lower answers where
  arrive: "alias_path lower answers x 0 x"
| hop: "targets_of lower answers x = {y} \<Longrightarrow> alias_path lower answers y n z \<Longrightarrow> alias_path lower answers x (Suc n) z"

lemma walk_aliases_path:
  assumes "named_aliases lower answers" and "aliases \<le> MaxAliases"
  shows "case walk_aliases lower kind answers current visited aliases of
      Classified k \<Rightarrow> k \<noteq> DNSAnswerUnclassified \<longrightarrow> k = DNSAnswerPresent \<and>
        (\<exists>n owner. aliases + n \<le> MaxAliases \<and> alias_path lower answers current n owner \<and>
           answered lower kind answers owner \<and> targets_of lower answers owner = {})
    | ChainEnd owner visited' aliases' \<Rightarrow>
        (\<exists>n. aliases' = aliases + n \<and> aliases' \<le> MaxAliases \<and> alias_path lower answers current n owner \<and>
           \<not> answered lower kind answers owner \<and> targets_of lower answers owner = {})"
  using assms
proof (induction lower kind answers current visited aliases rule: walk_aliases.induct)
  case (1 lower kind answers current visited aliases)
  note bound = 1(3)
  show ?case
  proof (cases "current \<in> visited \<or> owner_scan lower kind current [] False answers = None")
    case True
    then show ?thesis by (subst walk_aliases.simps) (auto simp: Let_def)
  next
    case False
    then obtain target found where sc: "owner_scan lower kind current [] False answers = Some (target, found)" by auto
    then have f: "found = answered lower kind answers current"
      "if targets_of lower answers current = {} then target = [] else targets_of lower answers current = {target}"
      using owner_scan_Some [OF 1(2), of kind current "[]" False target found] by auto
    show ?thesis
    proof (cases "\<not> found \<and> target \<noteq> [] \<and> Suc aliases \<le> MaxAliases")
      case go: True
      then have "targets_of lower answers current = {target}" using f(2) by (auto split: if_splits)
      then have hop: "alias_path lower answers target n owner \<Longrightarrow> alias_path lower answers current (Suc n) owner" for n owner
        by (rule alias_path.hop)
      have eq: "walk_aliases lower kind answers current visited aliases =
          walk_aliases lower kind answers target (insert current visited) (Suc aliases)"
        using False sc go by (subst walk_aliases.simps) (simp add: Let_def)
      have ih: "case walk_aliases lower kind answers target (insert current visited) (Suc aliases) of
          Classified k \<Rightarrow> k \<noteq> DNSAnswerUnclassified \<longrightarrow> k = DNSAnswerPresent \<and>
            (\<exists>n owner. Suc aliases + n \<le> MaxAliases \<and> alias_path lower answers target n owner \<and>
               answered lower kind answers owner \<and> targets_of lower answers owner = {})
        | ChainEnd owner visited' aliases' \<Rightarrow>
            (\<exists>n. aliases' = Suc aliases + n \<and> aliases' \<le> MaxAliases \<and> alias_path lower answers target n owner \<and>
               \<not> answered lower kind answers owner \<and> targets_of lower answers owner = {})"
        using 1(1) [OF _ refl sc refl] False go 1(2) by simp
      show ?thesis
      proof (cases "walk_aliases lower kind answers target (insert current visited) (Suc aliases)")
        case (Classified k)
        show ?thesis
          unfolding eq Classified walk.case
        proof
          assume "k \<noteq> DNSAnswerUnclassified"
          then obtain n owner where "k = DNSAnswerPresent" "Suc aliases + n \<le> MaxAliases"
              "alias_path lower answers target n owner" "answered lower kind answers owner" "targets_of lower answers owner = {}"
            using ih unfolding Classified walk.case by blast
          then show "k = DNSAnswerPresent \<and> (\<exists>n owner. aliases + n \<le> MaxAliases \<and> alias_path lower answers current n owner \<and>
              answered lower kind answers owner \<and> targets_of lower answers owner = {})"
            by (intro conjI exI [of _ "Suc n"] exI [of _ owner] hop) simp_all
        qed
      next
        case (ChainEnd owner visited' aliases')
        then obtain n where "aliases' = Suc aliases + n" "aliases' \<le> MaxAliases"
            "alias_path lower answers target n owner" "\<not> answered lower kind answers owner" "targets_of lower answers owner = {}"
          using ih unfolding ChainEnd walk.case by blast
        then show ?thesis
          unfolding eq ChainEnd walk.case by (intro exI [of _ "Suc n"] conjI hop) simp_all
      qed
    next
      case stop: False
      have here: "alias_path lower answers current 0 current" by (rule alias_path.arrive)
      have eq: "walk_aliases lower kind answers current visited aliases =
          (if found then Classified (if target \<noteq> [] then DNSAnswerUnclassified else DNSAnswerPresent)
           else if target = [] then ChainEnd current (insert current visited) aliases
           else Classified DNSAnswerUnclassified)"
        using False sc stop by (subst walk_aliases.simps) (auto simp: Let_def)
      have none: "target = [] \<Longrightarrow> targets_of lower answers current = {}"
        using f(2) targets_named [OF 1(2), of current] by (auto split: if_splits)
      consider "found" "target = []" | "\<not> found" "target = []" | "target \<noteq> []" by blast
      then show ?thesis
      proof cases
        case 1
        then show ?thesis
          using here none f(1) bound unfolding eq by (simp, intro exI [of _ 0]) auto
      next
        case 2
        then show ?thesis
          using here none f(1) bound unfolding eq by simp
      next
        case 3
        then show ?thesis unfolding eq by simp
      qed
    qed
  qed
qed

section \<open>A sample reply\<close>

definition sample_query :: query where
  "sample_query = \<lparr>qy_endpoint = \<lparr>ap_Addr = Addr4 3221225525, ap_Port = 53\<rparr>, qy_name = ''a.example.'', qy_kind = TypeA,
     qy_id = 7, qy_packet = [0]\<rparr>"

definition sample_answers_section :: "dns_resource list" where
  "sample_answers_section =
     [\<lparr>rr_Name = ''A.example.'', rr_Type = TypeCNAME, rr_Class = ClassINET, rr_CNAME = Some ''B.example.''\<rparr>,
      \<lparr>rr_Name = ''b.example.'', rr_Type = TypeA, rr_Class = ClassINET, rr_CNAME = None\<rparr>]"

lemma sample_named: "named_aliases to_lower sample_answers_section"
  by (auto simp: named_aliases_def sample_answers_section_def to_lower_def)

lemma sample_classified: "classify to_lower sample_query sample_answers_section [] = DNSAnswerPresent"
  by code_simp

section \<open>Properties\<close>

text \<open>
  C28: no reply can crash the matcher.  Whatever bytes arrive and whatever the codec makes of them, every
  index and slice of the framing checks lies inside the packet: matching ends with a reply or with
  \<open>ErrResponse\<close>.
\<close>

theorem matching_never_panics: "MatchResponse codec lower equal_fold q peer packet \<noteq> Inl WirePanic"
proof -
  have word: "uint16_at packet i \<noteq> Inl WirePanic" if "12 \<le> length packet" "i \<le> 10" for i
    using uint16_at_ok [of i packet] that by auto
  have "match_question codec lower equal_fold q packet n \<noteq> Inl WirePanic" for n
    using nameEnd_no_panic [of "length packet" packet] validateFraming_no_panic [of packet n]
    by (auto simp: match_question_def match_sections_def bind_result_def guard_def
        split: sum.splits option.splits list.splits prod.splits)
  then show ?thesis
    using word by (auto simp: MatchResponse_def bind_result_def guard_def not_less split: sum.splits)
qed

text \<open>
  names are read inside their bounds.  A name that is accepted ends strictly after its start and not
  after the given end; the recorded label starts only grow, and the new ones lie in the bytes just read.
\<close>

theorem accepted_name_bounds:
  assumes "nameEnd packet offset end_at names = Inr (stop, names')"
  shows "offset < stop \<and> stop \<le> end_at \<and> names \<subseteq> names' \<and> (\<forall>n\<in>names' - names. offset \<le> n \<and> n < stop)"
  using nameEnd_bounds [OF assms] by blast

theorem accepted_name_bounds_witness:
  "nameEnd [1, 97, 0, 0xc0, 0] 3 5 {0, 2} = Inr (5, {0, 2, 3}) \<and> (3 :: nat) < 5"
proof -
  have e: "nameEnd [1, 97, 0, 0xc0, 0] 3 5 {0, 2} = Inr (5, {0, 2, 3})"
    by (subst nameEnd.simps) (auto simp: byte_at_def Let_def)
  show ?thesis using accepted_name_bounds [OF e] e by blast
qed

text \<open>
  C29: what a classification means.  An answer is present only if a chain of at most eight aliases, each the
  only alias of its owner, leads from the question to an owner with a record of the queried type and no
  alias.  A negative or referral answer is given only at the end of such a chain, where no record of the
  queried type exists and every answer is an alias; a referral needs a name server of an enclosing zone and
  no start-of-authority record at all.
\<close>

theorem classification_sound:
  assumes "named_aliases lower answers" and "classify lower q answers authorities = k" and "k \<noteq> DNSAnswerUnclassified"
  shows "\<exists>n owner. n \<le> 8 \<and> alias_path lower answers (lower (qy_name q)) n owner \<and> targets_of lower answers owner = {} \<and>
     (k = DNSAnswerPresent \<and> answered lower (qy_kind q) answers owner \<or>
      (k = DNSAnswerNoData \<or> k = DNSAnswerReferral) \<and> \<not> answered lower (qy_kind q) answers owner \<and>
        (\<forall>rr\<in>set answers. rr_Type rr = TypeCNAME) \<and>
        (k = DNSAnswerReferral \<longrightarrow> (\<forall>rr\<in>set authorities. rr_Type rr \<noteq> TypeSOA) \<and>
           (\<exists>rr\<in>set authorities. rr_Type rr = TypeNS \<and> inZone owner (lower (rr_Name rr)))))"
proof -
  note path = walk_aliases_path [OF assms(1) le0, where kind = "qy_kind q" and current = "lower (qy_name q)" and visited = "{}"]
  show ?thesis
  proof (cases "walk_aliases lower (qy_kind q) answers (lower (qy_name q)) {} 0")
    case (Classified c)
    then have "c = k" using assms(2) by (simp add: classify_def)
    then show ?thesis using path Classified assms(3) by (auto simp: MaxAliases_def)
  next
    case (ChainEnd owner visited aliases)
    then obtain n where n: "n \<le> 8" "alias_path lower answers (lower (qy_name q)) n owner"
        "\<not> answered lower (qy_kind q) answers owner" "targets_of lower answers owner = {}"
      using path by (auto simp: MaxAliases_def)
    have k: "negative_answer lower answers authorities owner visited aliases = k"
      using assms(2) ChainEnd by (simp add: classify_def)
    have "(k = DNSAnswerNoData \<or> k = DNSAnswerReferral) \<and> (\<forall>rr\<in>set answers. rr_Type rr = TypeCNAME) \<and>
        (k = DNSAnswerReferral \<longrightarrow> (\<forall>rr\<in>set authorities. rr_Type rr \<noteq> TypeSOA) \<and>
           (\<exists>rr\<in>set authorities. rr_Type rr = TypeNS \<and> inZone owner (lower (rr_Name rr))))"
      using k assms(3) by (auto simp: negative_answer_def Let_def list_ex_iff split: if_splits)
    then show ?thesis using n by blast
  qed
qed

theorem classification_sound_witness:
  "\<exists>n owner. n \<le> 8 \<and> alias_path to_lower sample_answers_section (to_lower (qy_name sample_query)) n owner \<and>
     answered to_lower (qy_kind sample_query) sample_answers_section owner"
  using classification_sound [OF sample_named sample_classified] by auto

text \<open>
  the order of the records does not matter.  Reordering or repeating the records of the answer and the
  authority sections leaves the classification unchanged.
\<close>

theorem classification_order_independent:
  assumes "named_aliases lower answers" and "set answers' = set answers" and "set authorities' = set authorities"
  shows "classify lower q answers' authorities' = classify lower q answers authorities"
proof -
  have neg: "negative_answer lower answers' authorities' = negative_answer lower answers authorities"
    using assms(2,3) by (simp add: negative_answer_def list_ex_iff fun_eq_iff)
  show ?thesis unfolding classify_def walk_aliases_set [OF assms(2,1)] neg ..
qed

theorem classification_order_independent_witness:
  "classify to_lower sample_query (rev sample_answers_section) [] = DNSAnswerPresent"
  using classification_order_independent [OF sample_named, of "rev sample_answers_section" "[]" "[]" sample_query]
    sample_classified by simp

end
