(* ===== verification/ResolverPlan.thy ===== *)
theory ResolverPlan
  imports ResolverWire
begin

text \<open>
  \<open>resolverplan/plan.go\<close>: the immutable review plan of one DNS exchange, made from an enrolled binding and an
  explicit configuration.  A plan is its disclosure; \<open>Disclosure()\<close> returns a copy of it.  The codec of the
  DNS packets is an argument, as in the theory of the wire format.
\<close>

section \<open>Data\<close>

datatype resolver_plan_error = ReviewErrConfiguration | ReviewErrBinding | ReviewErrClock

definition Profile :: string where "Profile = ''resolver-udp-v1''"
definition ReviewLifetime :: duration where "ReviewLifetime = 30 * second"
definition EnrolledPrefix :: string where "EnrolledPrefix = ''enrolled-prefix''"
definition ExactEndpoint :: string where "ExactEndpoint = ''exact-endpoint''"

record check_binding =
  cb_Observer :: observer
  cb_Prefixes :: "string list"
  cb_Source :: addr

record resolver_configuration =
  rc_Selection :: resolver_selection
  rc_Endpoint :: addr_port
  rc_Name :: string
  rc_DestinationScope :: string

record resolver_budget =
  bu_MaxSendCalls :: nat
  bu_MaxRequestBytes :: nat
  bu_MaxReplyBytes :: nat
  bu_MaxReceivedDatagrams :: nat
  bu_MaxReceiveCalls :: nat
  bu_ExchangeTimeout :: duration
  bu_TotalTimeout :: duration
  bu_MaxConcurrentRuns :: nat
  bu_MinRunInterval :: duration

record resolver_plan =
  di_Profile :: string
  di_Binding :: check_binding
  di_Configuration :: resolver_configuration
  di_OutsideEnrolledPrefixes :: bool
  di_MayForwardUpstream :: bool
  di_Budget :: resolver_budget
  di_CreatedAt :: time
  di_ExpiresAt :: time

section \<open>Operations\<close>

definition ValidateConfiguration ::
  "dns_codec \<Rightarrow> resolver_configuration \<Rightarrow> (resolver_plan_error, unit) result" where
  "ValidateConfiguration codec config =
     guard (ValidateResolverSelection (rc_Selection config) \<noteq> Inr () \<or>
            rs_Transport (rc_Selection config) \<noteq> DNSUDP \<or>
            rc_DestinationScope config \<noteq> EnrolledPrefix \<and> rc_DestinationScope config \<noteq> ExactEndpoint)
       ReviewErrConfiguration
     (case NewQuery codec (rc_Endpoint config) (rc_Name config) (rs_QueryType (rc_Selection config)) 0 of
        Inl _ \<Rightarrow> Inl ReviewErrConfiguration
      | Inr _ \<Rightarrow>
          (let target = ap_Addr (rc_Endpoint config) in
           guard (\<not> EligibleHost target \<or>
                  Is4 target \<and> rs_Family (rc_Selection config) \<noteq> FamilyIPv4 \<or>
                  Is6 target \<and> rs_Family (rc_Selection config) \<noteq> FamilyIPv6) ReviewErrConfiguration
           (Inr ())))"

text \<open>The length of \<open>query.Bytes()\<close>; the error of \<open>NewQuery\<close> is ignored there and leaves an empty query.\<close>

definition request_length :: "dns_codec \<Rightarrow> resolver_configuration \<Rightarrow> nat" where
  "request_length codec config =
     (case NewQuery codec (rc_Endpoint config) (rc_Name config) (rs_QueryType (rc_Selection config)) 0 of
        Inl _ \<Rightarrow> 0
      | Inr q \<Rightarrow> length (qy_packet q))"

definition review_budget :: "nat \<Rightarrow> resolver_budget" where
  "review_budget request =
     \<lparr>bu_MaxSendCalls = 1, bu_MaxRequestBytes = request, bu_MaxReplyBytes = MaxReplyBytes,
      bu_MaxReceivedDatagrams = 16, bu_MaxReceiveCalls = 512, bu_ExchangeTimeout = 2 * second,
      bu_TotalTimeout = 5 * second, bu_MaxConcurrentRuns = 1, bu_MinRunInterval = minute\<rparr>"

definition New ::
  "dns_codec \<Rightarrow> check_binding \<Rightarrow> resolver_configuration \<Rightarrow> time \<Rightarrow> (resolver_plan_error, resolver_plan) result" where
  "New codec binding config now0 =
     (let now = strip now0 in
      guard (\<not> nano_time now \<or> \<not> nano_time (time_add now ReviewLifetime)) ReviewErrClock
      (bind_result (ValidateConfiguration codec config) (\<lambda>_.
       guard (ValidateResolverSnapshot
                \<lparr>rn_Observer = cb_Observer binding, rn_AsOf = now, rn_WindowStart = now, rn_Freshness = second,
                 rn_Selections = [], rn_Measurements = []\<rparr> \<noteq> Inr ()) ReviewErrBinding
       (case Validate (cb_Source binding) (ap_Addr (rc_Endpoint config)) (cb_Prefixes binding) of
          Inl _ \<Rightarrow> Inl ReviewErrBinding
        | Inr (prefixes, targetMember) \<Rightarrow>
            guard (rc_DestinationScope config = EnrolledPrefix \<and> \<not> targetMember) ReviewErrBinding
            (Inr \<lparr>di_Profile = Profile, di_Binding = binding\<lparr>cb_Prefixes := prefixes\<rparr>,
                  di_Configuration = config\<lparr>rc_Name := to_lower (rc_Name config)\<rparr>,
                  di_OutsideEnrolledPrefixes = \<not> targetMember, di_MayForwardUpstream = True,
                  di_Budget = review_budget (request_length codec config),
                  di_CreatedAt = now, di_ExpiresAt = time_add now ReviewLifetime\<rparr>)))))"

definition Current :: "resolver_plan \<Rightarrow> time \<Rightarrow> bool" where
  "Current p now \<longleftrightarrow>
     di_Profile p = Profile \<and> nano_time now \<and> \<not> before now (di_CreatedAt p) \<and> before now (di_ExpiresAt p)"

definition SameSelection :: "resolver_plan \<Rightarrow> resolver_plan \<Rightarrow> bool" where
  "SameSelection a b \<longleftrightarrow>
     (if di_Profile a \<noteq> Profile \<or> di_Profile b \<noteq> Profile then False
      else di_Profile a = di_Profile b \<and> di_Configuration a = di_Configuration b \<and>
        cb_Observer (di_Binding a) = cb_Observer (di_Binding b) \<and>
        cb_Source (di_Binding a) = cb_Source (di_Binding b) \<and>
        cb_Prefixes (di_Binding a) = cb_Prefixes (di_Binding b) \<and> di_Budget a = di_Budget b \<and>
        di_OutsideEnrolledPrefixes a = di_OutsideEnrolledPrefixes b \<and>
        di_MayForwardUpstream a = di_MayForwardUpstream b)"

section \<open>What a plan is\<close>

lemma resolverTime_nano: "resolverTime t \<longleftrightarrow> nano_time t"
  by (simp add: resolverTime_def nano_time_def)

lemma NewQuery_Inr:
  "NewQuery codec endpoint name kind i = Inr q \<longleftrightarrow>
     IsValid (ap_Addr endpoint) \<and> ap_Port endpoint = 53 \<and> \<not> IsUnspecified (ap_Addr endpoint) \<and>
     \<not> IsMulticast (ap_Addr endpoint) \<and> \<not> Is4In6 (ap_Addr endpoint) \<and> Zone (ap_Addr endpoint) = [] \<and>
     \<not> IsLinkLocalUnicast (ap_Addr endpoint) \<and> validHostname name \<and>
     (kind = DNSQueryA \<or> kind = DNSQueryAAAA) \<and> dc_NewName codec (to_lower name) \<and>
     (\<exists>packet. dc_Pack codec i (to_lower name) (if kind = DNSQueryA then TypeA else TypeAAAA) = Some packet \<and>
        length packet \<le> MaxReplyBytes \<and>
        q = \<lparr>qy_endpoint = endpoint, qy_name = to_lower name,
             qy_kind = (if kind = DNSQueryA then TypeA else TypeAAAA), qy_id = i, qy_packet = packet\<rparr>)"
  by (cases kind) (auto simp: NewQuery_def Let_def not_less split: option.splits)

lemma resolver_ValidateConfiguration_Inr:
  "ValidateConfiguration codec config = Inr () \<longleftrightarrow>
     validResolverSelection (rc_Selection config) \<and> rs_Transport (rc_Selection config) = DNSUDP \<and>
     (rc_DestinationScope config = EnrolledPrefix \<or> rc_DestinationScope config = ExactEndpoint) \<and>
     (\<exists>q. NewQuery codec (rc_Endpoint config) (rc_Name config) (rs_QueryType (rc_Selection config)) 0 = Inr q) \<and>
     EligibleHost (ap_Addr (rc_Endpoint config)) \<and>
     (Is4 (ap_Addr (rc_Endpoint config)) \<longrightarrow> rs_Family (rc_Selection config) = FamilyIPv4) \<and>
     (Is6 (ap_Addr (rc_Endpoint config)) \<longrightarrow> rs_Family (rc_Selection config) = FamilyIPv6)"
  by (auto simp: ValidateConfiguration_def ValidateResolverSelection_def guard_def Let_def split: sum.splits if_splits)

lemma resolver_New_Inr:
  "New codec binding config now = Inr p \<longleftrightarrow>
     nano_time (strip now) \<and> nano_time (time_add (strip now) ReviewLifetime) \<and>
     ValidateConfiguration codec config = Inr () \<and>
     ValidateResolverSnapshot
       \<lparr>rn_Observer = cb_Observer binding, rn_AsOf = strip now, rn_WindowStart = strip now, rn_Freshness = second,
        rn_Selections = [], rn_Measurements = []\<rparr> = Inr () \<and>
     (\<exists>prefixes member.
        Validate (cb_Source binding) (ap_Addr (rc_Endpoint config)) (cb_Prefixes binding) = Inr (prefixes, member) \<and>
        (rc_DestinationScope config = EnrolledPrefix \<longrightarrow> member) \<and>
        p = \<lparr>di_Profile = Profile, di_Binding = binding\<lparr>cb_Prefixes := prefixes\<rparr>,
             di_Configuration = config\<lparr>rc_Name := to_lower (rc_Name config)\<rparr>,
             di_OutsideEnrolledPrefixes = \<not> member, di_MayForwardUpstream = True,
             di_Budget = review_budget (request_length codec config),
             di_CreatedAt = strip now, di_ExpiresAt = time_add (strip now) ReviewLifetime\<rparr>)"
  by (auto simp: New_def Let_def split: sum.splits)

lemma request_length_bound: "request_length codec config \<le> MaxReplyBytes"
  by (auto simp: request_length_def NewQuery_Inr split: sum.splits)

section \<open>Lower-case names\<close>

lemma lower_char_upper: "is_upper c \<Longrightarrow> is_lower (lower_char c)"
  by (simp add: is_upper_def is_lower_def lower_char_def less_eq_char_def of_char_of)

lemma lower_char_other: "\<not> is_upper c \<Longrightarrow> lower_char c = c"
  by (simp add: lower_char_def)

lemma lower_not_upper: "is_lower c \<Longrightarrow> \<not> is_upper c"
  by (simp add: is_lower_def is_upper_def less_eq_char_def)

lemma lower_char_class: "lower_char c = c \<or> is_lower (lower_char c) \<and> is_upper c"
  using lower_char_upper lower_char_other by blast

lemma lower_char_no_upper [simp]: "\<not> is_upper (lower_char c)"
  using lower_char_upper lower_not_upper lower_char_other by (cases "is_upper c") auto

lemma lower_char_idem [simp]: "lower_char (lower_char c) = lower_char c"
  by (simp add: lower_char_other)

lemma to_lower_idem [simp]: "to_lower (to_lower s) = to_lower s"
  by (simp add: to_lower_def)

lemma length_to_lower [simp]: "length (to_lower s) = length s"
  by (simp add: to_lower_def)

lemma lower_char_mark:
  assumes "\<not> is_upper m" and "\<not> is_lower m"
  shows "lower_char c = m \<longleftrightarrow> c = m"
  using assms lower_char_class [of c] lower_char_other [of m] by metis

lemma marks_caseless [simp]:
  "lower_char c = CHR ''-'' \<longleftrightarrow> c = CHR ''-''" "lower_char c = CHR ''.'' \<longleftrightarrow> c = CHR ''.''"
  by (rule lower_char_mark; code_simp)+

lemma split_on_lower: "split_on CHR ''.'' (to_lower s) = map to_lower (split_on CHR ''.'' s)"
  by (induction s) (auto simp: to_lower_def split: list.splits)

lemma is_label_char_lower: "is_label_char c \<Longrightarrow> is_label_char (lower_char c)"
  using lower_char_upper [of c] lower_char_other [of c] by (cases "is_upper c") (auto simp: is_label_char_def is_alnum_def)

lemma valid_label_lower: "valid_label l \<Longrightarrow> valid_label (to_lower l)"
  by (cases "l = []")
     (auto simp: valid_label_def to_lower_def hd_map last_map list_all_iff is_label_char_lower)

lemma has_suffix_dot_lower: "has_suffix s ''.'' \<Longrightarrow> has_suffix (to_lower s) ''.''"
  using has_suffixD [of s "''.''"] has_suffix_append [of "to_lower _" "''.''"]
  by (auto simp: to_lower_def has_suffix_def drop_map)

lemma validHostname_lower:
  assumes "validHostname name"
  shows "validHostname (to_lower name)"
proof -
  have "butlast (to_lower name) = to_lower (butlast name)" by (simp add: to_lower_def map_butlast)
  then show ?thesis
    using assms by (auto simp: validHostname_def has_suffix_dot_lower split_on_lower list_all_iff valid_label_lower)
qed

lemma NewQuery_lower:
  assumes "NewQuery codec endpoint name kind i = Inr q"
  shows "NewQuery codec endpoint (to_lower name) kind i = Inr q"
  using assms by (simp add: NewQuery_Inr validHostname_lower)

section \<open>Properties\<close>

lemma request_length_lower:
  assumes "ValidateConfiguration codec config = Inr ()"
  shows "request_length codec (config\<lparr>rc_Name := to_lower (rc_Name config)\<rparr>) = request_length codec config"
  using assms NewQuery_lower by (auto simp: resolver_ValidateConfiguration_Inr request_length_def)

lemma ValidateConfiguration_lower:
  assumes "ValidateConfiguration codec config = Inr ()"
  shows "ValidateConfiguration codec (config\<lparr>rc_Name := to_lower (rc_Name config)\<rparr>) = Inr ()"
  using assms NewQuery_lower by (auto simp: resolver_ValidateConfiguration_Inr)

lemma New_canonical:
  assumes "New codec binding config now = Inr p"
  shows "New codec (di_Binding p) (di_Configuration p) (di_CreatedAt p) = Inr p"
proof -
  obtain prefixes member where
    v: "Validate (cb_Source binding) (ap_Addr (rc_Endpoint config)) (cb_Prefixes binding) = Inr (prefixes, member)"
    using assms by (auto simp: resolver_New_Inr)
  have "Validate (cb_Source binding) (ap_Addr (rc_Endpoint config)) prefixes = Inr (prefixes, member)"
    using v by (rule Validate_canonical)
  then show ?thesis
    using assms v
    by (auto simp: resolver_New_Inr ValidateConfiguration_lower request_length_lower)
qed


lemma resolver_Current_window:
  assumes "New codec binding config now = Inr p"
  shows "Current p t \<longleftrightarrow> nano_time t \<and> wall now \<le> wall t \<and> wall t < wall now + 30 * second"
proof -
  have "di_Profile p = Profile" "di_CreatedAt p = strip now" "di_ExpiresAt p = time_add (strip now) ReviewLifetime"
    using assms by (auto simp: resolver_New_Inr)
  then show ?thesis
    by (auto simp: Current_def before_def time_add_def ReviewLifetime_def split: option.splits)
qed

text \<open>
  C30: what a resolver review discloses.  The endpoint is one eligible host at port 53 of the selected family,
  different from the source and of its family; the question is a valid lower-case host name; the sorted
  prefixes are the enrolled ones; the destination lies outside them only under the exact-endpoint policy; one
  packet of at most 512 bytes is sent; and the review is current for exactly the thirty seconds, half open,
  after its creation.
\<close>

theorem resolver_plan_safe:
  assumes "New codec binding config now = Inr p"
  shows "EligibleHost (ap_Addr (rc_Endpoint (di_Configuration p))) \<and> ap_Port (rc_Endpoint (di_Configuration p)) = 53 \<and>
     (if Is4 (ap_Addr (rc_Endpoint config)) then rs_Family (rc_Selection config) = FamilyIPv4
      else rs_Family (rc_Selection config) = FamilyIPv6) \<and>
     cb_Source binding \<noteq> ap_Addr (rc_Endpoint config) \<and> Is4 (cb_Source binding) = Is4 (ap_Addr (rc_Endpoint config)) \<and>
     validHostname (rc_Name (di_Configuration p)) \<and> list_all (\<lambda>c. \<not> is_upper c) (rc_Name (di_Configuration p)) \<and>
     sorted (cb_Prefixes (di_Binding p)) \<and> mset (cb_Prefixes (di_Binding p)) = mset (cb_Prefixes binding) \<and>
     (di_OutsideEnrolledPrefixes p \<longleftrightarrow>
        (\<forall>raw\<in>set (cb_Prefixes binding). \<not> Contains (enrolled raw) (ap_Addr (rc_Endpoint config)))) \<and>
     (di_OutsideEnrolledPrefixes p \<longrightarrow> rc_DestinationScope config = ExactEndpoint) \<and>
     bu_MaxSendCalls (di_Budget p) = 1 \<and> bu_MaxRequestBytes (di_Budget p) \<le> 512 \<and>
     (\<forall>t. Current p t \<longleftrightarrow> nano_time t \<and> wall now \<le> wall t \<and> wall t < wall now + 30 * second)"
proof -
  let ?e = "ap_Addr (rc_Endpoint config)"
  from assms obtain prefixes member where
    cfg: "ValidateConfiguration codec config = Inr ()" and
    v: "Validate (cb_Source binding) ?e (cb_Prefixes binding) = Inr (prefixes, member)" and
    scope: "rc_DestinationScope config = EnrolledPrefix \<longrightarrow> member" and
    p: "di_Binding p = binding\<lparr>cb_Prefixes := prefixes\<rparr>"
      "di_Configuration p = config\<lparr>rc_Name := to_lower (rc_Name config)\<rparr>"
      "di_OutsideEnrolledPrefixes p = (\<not> member)" "di_Budget p = review_budget (request_length codec config)"
    unfolding resolver_New_Inr by auto
  have family: "Is4 ?e \<or> Is6 ?e" using cfg by (auto simp: resolver_ValidateConfiguration_Inr EligibleHost_def Is4_def Is6_def IsValid_def split: addr.splits)
  have low: "list_all (\<lambda>c. \<not> is_upper c) (to_lower (rc_Name config))" by (simp add: to_lower_def list_all_iff)
  have host: "validHostname (to_lower (rc_Name config))" "ap_Port (rc_Endpoint config) = 53"
    using cfg by (auto simp: resolver_ValidateConfiguration_Inr NewQuery_Inr validHostname_lower)
  have bind: "prefixes = sort (cb_Prefixes binding)" "cb_Source binding \<noteq> ?e" "Is4 (cb_Source binding) = Is4 ?e"
      "member \<longleftrightarrow> (\<exists>raw\<in>set (cb_Prefixes binding). Contains (enrolled raw) ?e)"
    using v by (simp_all add: Validate_Inr)
  have "bu_MaxSendCalls (di_Budget p) = 1 \<and> bu_MaxRequestBytes (di_Budget p) \<le> 512"
    using request_length_bound [of codec config] by (simp add: p review_budget_def MaxReplyBytes_def)
  moreover have "di_OutsideEnrolledPrefixes p \<longrightarrow> rc_DestinationScope config = ExactEndpoint"
    using scope cfg by (auto simp: p resolver_ValidateConfiguration_Inr)
  moreover have "EligibleHost ?e \<and> (if Is4 ?e then rs_Family (rc_Selection config) = FamilyIPv4
      else rs_Family (rc_Selection config) = FamilyIPv6)"
    using cfg family by (auto simp: resolver_ValidateConfiguration_Inr)
  ultimately show ?thesis
    using resolver_Current_window [OF assms] bind host low unfolding p by simp
qed

text \<open>
  reviews compare by content.  A plan rebuilt from what it discloses is the same plan; and two plans have
  the same selection exactly when they were made for the same observer and source, the same enrolled prefixes
  in any order and the same configuration up to the case of the queried name.
\<close>

theorem resolver_same_selection:
  assumes "New codec binding config now = Inr p" and "New codec binding' config' now' = Inr p'"
  shows "New codec (di_Binding p) (di_Configuration p) (di_CreatedAt p) = Inr p \<and>
     (SameSelection p p' \<longleftrightarrow>
        cb_Observer binding = cb_Observer binding' \<and> cb_Source binding = cb_Source binding' \<and>
        mset (cb_Prefixes binding) = mset (cb_Prefixes binding') \<and>
        config\<lparr>rc_Name := to_lower (rc_Name config)\<rparr> = config'\<lparr>rc_Name := to_lower (rc_Name config')\<rparr>)"
proof -
  have sorted: "sort xs = sort ys \<longleftrightarrow> mset xs = mset ys" for xs ys :: "string list"
    by (metis mset_sort properties_for_sort sorted_sort)
  have len: "request_length codec config = request_length codec config'"
    if "config\<lparr>rc_Name := to_lower (rc_Name config)\<rparr> = config'\<lparr>rc_Name := to_lower (rc_Name config')\<rparr>"
    using request_length_lower [of codec config] request_length_lower [of codec config'] assms that
    by (simp add: resolver_New_Inr)
  have endpoint: "rc_Endpoint config = rc_Endpoint config'"
    if "config\<lparr>rc_Name := to_lower (rc_Name config)\<rparr> = config'\<lparr>rc_Name := to_lower (rc_Name config')\<rparr>"
    using arg_cong [OF that, of rc_Endpoint] by simp
  from assms obtain m m' where
    p: "di_Profile p = Profile" "di_Binding p = binding\<lparr>cb_Prefixes := sort (cb_Prefixes binding)\<rparr>"
      "di_Configuration p = config\<lparr>rc_Name := to_lower (rc_Name config)\<rparr>"
      "di_OutsideEnrolledPrefixes p = (\<not> m)" "di_Budget p = review_budget (request_length codec config)"
      "di_MayForwardUpstream p" "m \<longleftrightarrow> (\<exists>raw\<in>set (cb_Prefixes binding). Contains (enrolled raw) (ap_Addr (rc_Endpoint config)))" and
    p': "di_Profile p' = Profile" "di_Binding p' = binding'\<lparr>cb_Prefixes := sort (cb_Prefixes binding')\<rparr>"
      "di_Configuration p' = config'\<lparr>rc_Name := to_lower (rc_Name config')\<rparr>"
      "di_OutsideEnrolledPrefixes p' = (\<not> m')" "di_Budget p' = review_budget (request_length codec config')"
      "di_MayForwardUpstream p'" "m' \<longleftrightarrow> (\<exists>raw\<in>set (cb_Prefixes binding'). Contains (enrolled raw) (ap_Addr (rc_Endpoint config')))"
    unfolding resolver_New_Inr Validate_Inr by auto
  have "SameSelection p p' \<longleftrightarrow>
        cb_Observer binding = cb_Observer binding' \<and> cb_Source binding = cb_Source binding' \<and>
        mset (cb_Prefixes binding) = mset (cb_Prefixes binding') \<and>
        config\<lparr>rc_Name := to_lower (rc_Name config)\<rparr> = config'\<lparr>rc_Name := to_lower (rc_Name config')\<rparr>"
    using len endpoint mset_eq_setD [of "cb_Prefixes binding" "cb_Prefixes binding'"]
    by (auto simp: SameSelection_def p p' sorted)
  then show ?thesis using New_canonical [OF assms(1)] by blast
qed

section \<open>A sample review\<close>

definition sample_codec :: dns_codec where
  "sample_codec = \<lparr>dc_NewName = (\<lambda>_. True), dc_Pack = (\<lambda>_ _ _. Some (replicate 29 0)), dc_Start = (\<lambda>_. None),
     dc_Questions = (\<lambda>_. None), dc_Sections = (\<lambda>_. None)\<rparr>"

definition sample_check_binding :: check_binding where
  "sample_check_binding = \<lparr>cb_Observer = \<lparr>o_ScopeID = ''home'', o_SensorID = ''sensor'', o_InterfaceName = ''eth0'', o_InterfaceIndex = 2\<rparr>,
     cb_Prefixes = [''192.168.1.0/24''], cb_Source = Addr4 3232235778\<rparr>"

definition sample_configuration :: resolver_configuration where
  "sample_configuration = \<lparr>rc_Selection = \<lparr>rs_ID = ''dns'', rs_ResolverID = ''r1'', rs_QueryID = ''q1'', rs_Family = FamilyIPv4,
       rs_Transport = DNSUDP, rs_QueryType = DNSQueryA, rs_Expect = DNSExpectAnswer\<rparr>,
     rc_Endpoint = \<lparr>ap_Addr = Addr4 3232235777, ap_Port = 53\<rparr>, rc_Name = ''Example.org.'', rc_DestinationScope = EnrolledPrefix\<rparr>"

definition sample_review_time :: time where
  "sample_review_time = \<lparr>wall = 1700000000000000000, mono_at = Some 5\<rparr>"

definition sample_plan :: resolver_plan where
  "sample_plan = \<lparr>di_Profile = Profile, di_Binding = sample_check_binding,
     di_Configuration = sample_configuration\<lparr>rc_Name := ''example.org.''\<rparr>, di_OutsideEnrolledPrefixes = False,
     di_MayForwardUpstream = True, di_Budget = review_budget 29, di_CreatedAt = strip sample_review_time,
     di_ExpiresAt = time_add (strip sample_review_time) ReviewLifetime\<rparr>"


lemma sample_configuration_valid: "ValidateConfiguration sample_codec sample_configuration = Inr ()"
  by code_simp

lemma sample_request_length: "request_length sample_codec sample_configuration = 29"
  by code_simp

lemma sample_review: "New sample_codec sample_check_binding sample_configuration sample_review_time = Inr sample_plan"
proof -
  have t: "nano_time (strip sample_review_time) \<and> nano_time (time_add (strip sample_review_time) ReviewLifetime)"
    by code_simp
  have s: "ValidateResolverSnapshot \<lparr>rn_Observer = cb_Observer sample_check_binding, rn_AsOf = strip sample_review_time,
      rn_WindowStart = strip sample_review_time, rn_Freshness = second, rn_Selections = [], rn_Measurements = []\<rparr> = Inr ()"
    by code_simp
  have n: "to_lower (rc_Name sample_configuration) = ''example.org.''" by code_simp
  have v: "Validate (cb_Source sample_check_binding) (ap_Addr (rc_Endpoint sample_configuration)) (cb_Prefixes sample_check_binding) =
      Inr (cb_Prefixes sample_check_binding, True)"
    using sample_binding_valid by (simp add: sample_check_binding_def sample_configuration_def)
  show ?thesis
    unfolding resolver_New_Inr using t s v n
    by (auto simp: sample_plan_def sample_configuration_valid sample_request_length)
qed

theorem resolver_plan_safe_witness:
  "EligibleHost (ap_Addr (rc_Endpoint (di_Configuration sample_plan))) \<and> bu_MaxRequestBytes (di_Budget sample_plan) \<le> 512"
  using resolver_plan_safe [OF sample_review] by blast

theorem resolver_same_selection_witness: "SameSelection sample_plan sample_plan"
  using resolver_same_selection [OF sample_review sample_review] by blast

end
