(* ===== verification/ReviewedRun.thy ===== *)
theory ReviewedRun
  imports RunAudit QualityAssess
begin

text \<open>
  What the resolver and the HTTPS runs share beside the run control: the collection of the retained events
  of one run by their phase and the check of the phase order, which both \<open>DescribeRetainedRun\<close> functions
  write out.  The locale \<open>retained_phases\<close> is the contract of an event type with its reader.
\<close>

section \<open>Collecting retained phases\<close>

text \<open>
  The loop over the events: every event is acceptable, no phase occurs twice; the result is the map from
  phases to events and the latest audit time.
\<close>

fun collect_phases ::
  "('e \<Rightarrow> bool) \<Rightarrow> ('e \<Rightarrow> string) \<Rightarrow> ('e \<Rightarrow> time) \<Rightarrow> (string \<rightharpoonup> 'e) \<Rightarrow> time \<Rightarrow> 'e list \<Rightarrow>
   ((string \<rightharpoonup> 'e) \<times> time) option" where
  "collect_phases acceptable phase_name at_of phases latest_at [] = Some (phases, latest_at)"
| "collect_phases acceptable phase_name at_of phases latest_at (e # es) =
     (if \<not> acceptable e then None
      else if phases (phase_name e) \<noteq> None then None
      else collect_phases acceptable phase_name at_of (phases(phase_name e \<mapsto> e))
             (if after (at_of e) latest_at then at_of e else latest_at) es)"

fun in_phase_order :: "('e \<Rightarrow> time) \<Rightarrow> (string \<rightharpoonup> 'e) \<Rightarrow> time \<Rightarrow> string list \<Rightarrow> bool" where
  "in_phase_order at_of phases previous [] = True"
| "in_phase_order at_of phases previous (name # names) =
     (case phases name of
        None \<Rightarrow> in_phase_order at_of phases previous names
      | Some e \<Rightarrow> \<not> (\<not> is_zero previous \<and> before (at_of e) previous) \<and> in_phase_order at_of phases (at_of e) names)"

definition starts_before :: "('e \<Rightarrow> time) \<Rightarrow> (string \<rightharpoonup> 'e) \<Rightarrow> string \<Rightarrow> time \<Rightarrow> bool" where
  "starts_before at_of phases name start \<longleftrightarrow>
     (case phases name of None \<Rightarrow> False | Some e \<Rightarrow> before start (at_of e))"

definition latest_audit :: "('e \<Rightarrow> time) \<Rightarrow> time \<Rightarrow> 'e list \<Rightarrow> time" where
  "latest_audit at_of t es = foldl (\<lambda>t e. if after (at_of e) t then at_of e else t) t es"

lemma collect_phases_Some:
  "collect_phases acceptable phase_name at_of phases latest_at es = Some (phases', latest') \<longleftrightarrow>
     (\<forall>e\<in>set es. acceptable e \<and> phases (phase_name e) = None) \<and> distinct (map phase_name es) \<and>
     phases' = phases ++ map_by phase_name es \<and> latest' = latest_audit at_of latest_at es"
proof (induction es arbitrary: phases latest_at)
  case Nil
  then show ?case by (auto simp: latest_audit_def)
next
  case (Cons e es)
  have app: "phases(phase_name e \<mapsto> e) ++ map_by phase_name es = phases ++ map_by phase_name (e # es)"
    if "distinct (map phase_name (e # es))"
  proof -
    have "map_by phase_name es (phase_name e) = None" using that by (auto simp: map_by_None)
    then show ?thesis by (auto simp: map_add_def fun_eq_iff split: option.splits)
  qed
  have seen: "(\<forall>x\<in>set es. acceptable x \<and> (phases(phase_name e \<mapsto> e)) (phase_name x) = None) \<longleftrightarrow>
    (\<forall>x\<in>set es. acceptable x \<and> phases (phase_name x) = None) \<and> phase_name e \<notin> phase_name ` set es"
    by (auto simp: image_iff)
  have step: "collect_phases acceptable phase_name at_of phases latest_at (e # es) = Some (phases', latest') \<longleftrightarrow>
      (acceptable e \<and> phases (phase_name e) = None) \<and>
      collect_phases acceptable phase_name at_of (phases(phase_name e \<mapsto> e))
        (if after (at_of e) latest_at then at_of e else latest_at) es = Some (phases', latest')"
    by auto
  have late: "latest_audit at_of latest_at (e # es) =
      latest_audit at_of (if after (at_of e) latest_at then at_of e else latest_at) es"
    by (simp add: latest_audit_def)
  show ?case
  proof (cases "distinct (map phase_name (e # es))")
    case True
    then show ?thesis unfolding step Cons.IH seen late by (simp add: app [OF True] del: map_by_Cons)
  next
    case False
    then show ?thesis unfolding step Cons.IH seen late by auto
  qed
qed

lemma collect_phases_None:
  assumes "\<not> ((\<forall>e\<in>set es. acceptable e) \<and> distinct (map phase_name es))"
  shows "collect_phases acceptable phase_name at_of Map.empty latest_at es = None"
proof (cases "collect_phases acceptable phase_name at_of Map.empty latest_at es")
  case (Some r)
  obtain phases latest' where "r = (phases, latest')" by (cases r)
  then have "(\<forall>e\<in>set es. acceptable e) \<and> distinct (map phase_name es)"
    using Some by (simp add: collect_phases_Some)
  then show ?thesis using assms by blast
qed

lemma collect_phases_all:
  assumes "\<forall>e\<in>set es. acceptable e" and "distinct (map phase_name es)"
  shows "collect_phases acceptable phase_name at_of Map.empty latest_at es =
     Some (map_by phase_name es, latest_audit at_of latest_at es)"
  using assms by (simp add: collect_phases_Some)

declare in_phase_order.simps [simp del]

section \<open>The text of confidences\<close>

fun confidence_text :: "confidence \<Rightarrow> string" where
  "confidence_text ConfidenceUnknown = ''unknown''"
| "confidence_text ConfidenceLimited = ''limited''"

section \<open>Run identifiers are tokens\<close>

lemma lower_hex_alnum: "is_lower_hex c \<Longrightarrow> is_lower_alnum c"
  by (auto simp: is_lower_hex_def is_lower_alnum_def is_lower_def less_eq_char_def)

lemma hex_match_token: "hex_match 32 s \<Longrightarrow> validToken s"
  using token_from_word [of s False] lower_hex_alnum
  by (auto simp: hex_match_def validToken_def tokenPattern_def list_all_iff)

lemmas phase_infos = authorized_info_def admitted_info_def finished_info_def

lemma info_sample [simp]:
  "ph_Sample authorized_info = None" "ph_Sample admitted_info = None" "ph_Sample (finished_info o' r m) = m"
  by (simp_all add: phase_infos)

section \<open>Clock readings with room for the run interval\<close>

lemma roomy_nano_time:
  assumes "nano_time t" and "nano_time (time_add t RunInterval)" and "0 \<le> d" and "d \<le> minute"
  shows "nano_time (time_add t d)"
  using assms
  by (auto simp: nano_time_iff time_add_def RunInterval_def fits_int64_def zero_wall_def int64_min_def int64_max_def)

section \<open>Event order\<close>

text \<open>The conditions on the times of a list of events, whatever its order.\<close>

definition phases_in_time :: "('e \<Rightarrow> string) \<Rightarrow> ('e \<Rightarrow> time) \<Rightarrow> 'e list \<Rightarrow> bool" where
  "phases_in_time phase_name at_of es \<longleftrightarrow>
     (\<forall>a\<in>set es. \<forall>b\<in>set es. (phase_name a, phase_name b) \<in> {(''authorized'', ''admitted''),
        (''admitted'', ''finished''), (''authorized'', ''finished'')} \<longrightarrow> wall (at_of a) \<le> wall (at_of b))"

definition starts_in_time ::
  "('e \<Rightarrow> string) \<Rightarrow> ('e \<Rightarrow> time) \<Rightarrow> ('e \<Rightarrow> 'w option) \<Rightarrow> ('w \<Rightarrow> time) \<Rightarrow> 'e list \<Rightarrow> bool" where
  "starts_in_time phase_name at_of measurement_of start_of es \<longleftrightarrow>
     (\<forall>a\<in>set es. \<forall>b\<in>set es. \<forall>w. measurement_of b = Some w \<and> phase_name a \<noteq> ''finished'' \<longrightarrow>
        wall (at_of a) \<le> wall (start_of w))"

lemma starts_in_time_unmeasured:
  "\<forall>e\<in>set es. measurement_of e = None \<Longrightarrow> starts_in_time phase_name at_of measurement_of start_of es"
  by (simp add: starts_in_time_def)

lemma map_by_Some_iff:
  assumes "distinct (map key es)"
  shows "map_by key es k = Some e \<longleftrightarrow> e \<in> set es \<and> key e = k"
  using map_by_SomeD [of key es k e] map_by_member [OF assms, of e] by auto

locale retained_phases =
  fixes phase_name :: "'e \<Rightarrow> string" and at_of :: "'e \<Rightarrow> time" and valid :: "'e \<Rightarrow> bool"
  assumes valid_state: "valid e \<Longrightarrow> phase_name e \<in> {''authorized'', ''admitted'', ''finished''}"
    and valid_at: "valid e \<Longrightarrow> nano_time (at_of e)"
begin

text \<open>Valid events that come in the order of their phases and of their times pass the order check.\<close>

lemma not_before_zero: "valid e \<Longrightarrow> \<not> is_zero (at_of e)"
  using valid_at by (auto simp: nano_time_def)

lemma at_most_three:
  assumes "\<forall>e\<in>set es. valid e" and "distinct (map phase_name es)"
  shows "length es \<le> 3"
proof -
  have "set (map phase_name es) \<subseteq> {''authorized'', ''admitted'', ''finished''}"
    using assms(1) valid_state by auto
  then have "card (set (map phase_name es)) \<le> card {''authorized'', ''admitted'', ''finished''}"
    by (intro card_mono) simp_all
  then show ?thesis using distinct_card [OF assms(2)] by simp
qed

lemma phase_order:
  assumes "\<And>k e. phases k = Some e \<Longrightarrow> valid e \<and> wall_only (at_of e)"
  shows "in_phase_order at_of phases zero_time [''authorized'', ''admitted'', ''finished''] \<longleftrightarrow>
     (\<forall>a b. phases ''authorized'' = Some a \<and> phases ''admitted'' = Some b \<longrightarrow> wall (at_of a) \<le> wall (at_of b)) \<and>
     (\<forall>a b. phases ''admitted'' = Some a \<and> phases ''finished'' = Some b \<longrightarrow> wall (at_of a) \<le> wall (at_of b)) \<and>
     (\<forall>a b. phases ''authorized'' = Some a \<and> phases ''finished'' = Some b \<longrightarrow> wall (at_of a) \<le> wall (at_of b))"
proof -
  have late: "is_zero (at_of a) \<or> \<not> before (at_of b) (at_of a) \<longleftrightarrow> wall (at_of a) \<le> wall (at_of b)"
    if "phases j = Some a" "phases k = Some b" for a b j k
    using assms [OF that(1)] assms [OF that(2)] not_before_zero [of a] by (auto simp: go_time)
  have zero: "is_zero zero_time" by (simp add: is_zero_def zero_time_def)
  show ?thesis
    by (cases "phases ''authorized''"; cases "phases ''admitted''"; cases "phases ''finished''")
       (simp_all add: zero late in_phase_order.simps, (force dest: order_trans)?)
qed

lemma ordered_iff:
  assumes "\<forall>e\<in>set es. valid e \<and> wall_only (at_of e)" and "distinct (map phase_name es)"
  shows "in_phase_order at_of (map_by phase_name es) zero_time [''authorized'', ''admitted'', ''finished''] \<longleftrightarrow>
     phases_in_time phase_name at_of es"
proof -
  note some = map_by_Some_iff [OF assms(2)]
  have ok: "valid e \<and> wall_only (at_of e)" if "map_by phase_name es k = Some e" for k e
    using assms(1) that by (simp add: some)
  show ?thesis
    unfolding phases_in_time_def by (subst phase_order, erule ok) (unfold some, auto)
qed

lemma early_iff:
  assumes "distinct (map phase_name es)" and "wall_only start"
  shows "starts_before at_of (map_by phase_name es) k start \<longleftrightarrow> (\<exists>a\<in>set es. phase_name a = k \<and> wall start < wall (at_of a))"
proof (cases "map_by phase_name es k")
  case None
  then have "k \<notin> phase_name ` set es" by (simp add: map_by_None)
  then show ?thesis using None by (auto simp: starts_before_def)
next
  case (Some a)
  have "a' \<in> set es \<and> phase_name a' = k \<longleftrightarrow> a' = a" for a'
    using Some map_by_Some_iff [OF assms(1), of k a'] by auto
  then have "(\<exists>a\<in>set es. phase_name a = k \<and> wall start < wall (at_of a)) \<longleftrightarrow> wall start < wall (at_of a)"
    by (simp add: Bex_def flip: conj_assoc)
  then show ?thesis using Some assms(2) by (simp add: starts_before_def go_time)
qed

end

text \<open>Events that may carry a measurement, and only in their last phase.\<close>

locale measured_phases = retained_phases phase_name at_of valid
  for phase_name :: "'e \<Rightarrow> string" and at_of :: "'e \<Rightarrow> time" and valid :: "'e \<Rightarrow> bool" +
  fixes measurement_of :: "'e \<Rightarrow> 'w option" and start_of :: "'w \<Rightarrow> time"
  assumes measured_finished: "valid e \<Longrightarrow> measurement_of e = Some w \<Longrightarrow> phase_name e = ''finished''"
begin

lemma terminal_event:
  assumes "\<forall>e\<in>set es. valid e" and "distinct (map phase_name es)" and "b \<in> set es" and "measurement_of b = Some w"
  shows "map_by phase_name es ''finished'' = Some b"
  using assms measured_finished [of b w] map_by_Some_iff [OF assms(2)] by simp

lemma terminal_unique:
  assumes "\<forall>e\<in>set es. valid e" and "distinct (map phase_name es)" and "b \<in> set es" and "measurement_of b = Some w"
    and "e \<in> set es" and "measurement_of e = Some w'"
  shows "e = b"
  using terminal_event [OF assms(1-4)] terminal_event [OF assms(1,2,5,6)] by simp

lemma starts_in_time_iff:
  assumes "\<forall>e\<in>set es. valid e" and "distinct (map phase_name es)" and "b \<in> set es" and "measurement_of b = Some w"
    and "wall_only (start_of w)"
  shows "starts_in_time phase_name at_of measurement_of start_of es \<longleftrightarrow>
     \<not> (starts_before at_of (map_by phase_name es) ''authorized'' (start_of w) \<or>
        starts_before at_of (map_by phase_name es) ''admitted'' (start_of w))"
proof -
  have state: "phase_name a \<noteq> ''finished'' \<longleftrightarrow> phase_name a = ''authorized'' \<or> phase_name a = ''admitted''" if "a \<in> set es" for a
    using that assms(1) valid_state [of a] by auto
  have one: "measurement_of e = Some w' \<longleftrightarrow> e = b \<and> w' = w" if "e \<in> set es" for e w'
    using terminal_unique [OF assms(1-4) that, of w'] assms(4) by auto
  have "starts_in_time phase_name at_of measurement_of start_of es \<longleftrightarrow>
      (\<forall>a\<in>set es. phase_name a \<noteq> ''finished'' \<longrightarrow> wall (at_of a) \<le> wall (start_of w))"
    using assms(3) by (auto simp: starts_in_time_def one)
  also have "\<dots> \<longleftrightarrow> (\<forall>a\<in>set es. phase_name a = ''authorized'' \<or> phase_name a = ''admitted'' \<longrightarrow> wall (at_of a) \<le> wall (start_of w))"
    by (rule ball_cong [OF refl]) (simp only: state)
  also have "\<dots> \<longleftrightarrow> \<not> (\<exists>a\<in>set es. (phase_name a = ''authorized'' \<or> phase_name a = ''admitted'') \<and> wall (start_of w) < wall (at_of a))"
    unfolding bex_simps(8) [symmetric] not_less [symmetric] by blast
  finally show ?thesis
    by (simp only: early_iff [OF assms(2,5)] conj_disj_distribR bex_disj_distrib)
qed

end

end
