(* ===== verification/ResolverRun.thy ===== *)
theory ResolverRun
  imports ResolverPlan ReviewedRun
begin

text \<open>
  \<open>resolverrun/model.go\<close>, \<open>measurement.go\<close>, \<open>control.go\<close> and \<open>history.go\<close>: selections, samples and audit
  events of the resolver check, the instance \<open>resolver_profile\<close> of the run control for them, and the
  description of a retained run.  The decoder of the stored JSON is not modelled.
\<close>

section \<open>Data\<close>

definition EventSchemaVersion :: int where "EventSchemaVersion = 1"

record resolver_run_selection =
  rl_Plan :: resolver_plan
  rl_RouteObservedAt :: time
  rl_RouteFreshUntil :: time

record resolver_run_measurement =
  rq_StartedAt :: time
  rq_CompletedAt :: time
  rq_Exchange :: dns_exchange_state
  rq_Request :: dns_request_state
  rq_Gap :: gap_reason
  rq_Reply :: "dns_reply option"
  rq_ResponseTimeNanoseconds :: "int option"

record resolver_audit_event =
  re_SchemaVersion :: int
  re_RunID :: string
  re_State :: string
  re_Outcome :: string
  re_Reason :: string
  re_At :: time
  re_Profile :: string
  re_Selection :: resolver_selection
  re_Observer :: observer
  re_Measurement :: "resolver_run_measurement option"

definition validID :: "string \<Rightarrow> bool" where
  "validID s \<longleftrightarrow> length s > 0 \<and> length s \<le> 128 \<and> tokenPattern s"

definition zero_resolver_measurement :: resolver_measurement where
  "zero_resolver_measurement =
     \<lparr>rm_ID = [], rm_Selection = \<lparr>rs_ID = [], rs_ResolverID = [], rs_QueryID = [], rs_Family = FamilyNone,
        rs_Transport = DNSTransportOther [], rs_QueryType = DNSQueryOther [], rs_Expect = DNSExpectOther []\<rparr>,
      rm_Observer = \<lparr>o_ScopeID = [], o_SensorID = [], o_InterfaceName = [], o_InterfaceIndex = 0\<rparr>,
      rm_StartedAt = zero_time, rm_CompletedAt = zero_time, rm_Exchange = DNSExchangeOther [],
      rm_Request = DNSRequestOther [], rm_Gap = GapNone, rm_Reply = None, rm_ResponseTime = None\<rparr>"

section \<open>Measurements\<close>

definition auditMeasurement :: "resolver_measurement \<Rightarrow> resolver_run_measurement" where
  "auditMeasurement s =
     \<lparr>rq_StartedAt = strip (rm_StartedAt s), rq_CompletedAt = strip (rm_CompletedAt s), rq_Exchange = rm_Exchange s,
      rq_Request = rm_Request s, rq_Gap = rm_Gap s, rq_Reply = rm_Reply s,
      rq_ResponseTimeNanoseconds = rm_ResponseTime s\<rparr>"

definition resolver_sample ::
  "resolver_run_measurement \<Rightarrow> string \<Rightarrow> resolver_selection \<Rightarrow> observer \<Rightarrow> resolver_measurement" where
  "resolver_sample m i s ob =
     \<lparr>rm_ID = i, rm_Selection = s, rm_Observer = ob, rm_StartedAt = rq_StartedAt m, rm_CompletedAt = rq_CompletedAt m,
      rm_Exchange = rq_Exchange m, rm_Request = rq_Request m, rm_Gap = rq_Gap m, rm_Reply = rq_Reply m,
      rm_ResponseTime = rq_ResponseTimeNanoseconds m\<rparr>"

definition complete :: "resolver_measurement \<Rightarrow> bool" where
  "complete m \<longleftrightarrow> rm_Exchange m = DNSResponseReceived \<or> rm_Exchange m = DNSTimeout"

text \<open>The snapshot that the code builds around one measurement, or around none.\<close>

definition one_snapshot ::
  "observer \<Rightarrow> resolver_selection \<Rightarrow> time \<Rightarrow> time \<Rightarrow> resolver_measurement list \<Rightarrow> resolver_snapshot" where
  "one_snapshot ob s asOf start ms =
     \<lparr>rn_Observer = ob, rn_AsOf = asOf, rn_WindowStart = start, rn_Freshness = second, rn_Selections = [s],
      rn_Measurements = ms\<rparr>"

definition validateMeasurement :: "resolver_measurement \<Rightarrow> time \<Rightarrow> (run_error, unit) result" where
  "validateMeasurement m now =
     guard (\<not> nano_time (rm_StartedAt m) \<or> \<not> nano_time (rm_CompletedAt m) \<or>
            time_sub (rm_CompletedAt m) (rm_StartedAt m) \<ge> OperationTimeout \<or>
            rs_Transport (rm_Selection m) \<noteq> DNSUDP) ErrExecution
     (guard (case rm_Reply m of None \<Rightarrow> False | Some r \<Rightarrow> dr_RCode r > 15) ErrExecution
     (guard (rm_Exchange m = DNSTimeout \<and> time_sub (rm_CompletedAt m) (rm_StartedAt m) < 2 * second) ErrExecution
     (guard (rm_Exchange m = DNSResponseReceived \<and>
             (case rm_ResponseTime m of None \<Rightarrow> True | Some d \<Rightarrow> d \<ge> 2 * second)) ErrExecution
     (guard (ValidateResolverSnapshot
               (one_snapshot (rm_Observer m) (rm_Selection m) now (rm_StartedAt m) [m]) \<noteq> Inr ()) ErrExecution
     (Inr ())))))"

definition validateSample ::
  "resolver_measurement \<Rightarrow> run_error option \<Rightarrow> resolver_run_selection \<Rightarrow> string \<Rightarrow> time \<Rightarrow> time \<Rightarrow> time \<Rightarrow>
   (run_error, resolver_measurement option) result" where
  "validateSample s executionErr selection i started returned expires =
     (if s = zero_resolver_measurement then (if executionErr \<noteq> None then Inr None else Inl ErrExecution)
      else
        (let d = rl_Plan selection in
         guard (rm_ID s \<noteq> i \<or> rm_Selection s \<noteq> rc_Selection (di_Configuration d) \<or>
                rm_Observer s \<noteq> cb_Observer (di_Binding d) \<or> before (rm_StartedAt s) started \<or>
                before (rm_StartedAt s) (rl_RouteObservedAt selection) \<or> \<not> before (rm_StartedAt s) expires \<or>
                complete s \<and> \<not> before (rm_CompletedAt s) expires \<or>
                executionErr = None \<and> \<not> complete s \<or> validateMeasurement s returned \<noteq> Inr ()) ErrExecution
         (Inr (Some s))))"

section \<open>Events\<close>

definition phase_ok :: "resolver_audit_event \<Rightarrow> bool" where
  "phase_ok e \<longleftrightarrow>
     (if re_State e = ''authorized'' \<or> re_State e = ''admitted'' then
        re_Outcome e = [] \<and> re_Reason e = [] \<and> re_Measurement e = None
      else if re_State e = ''finished'' then
        (if re_Outcome e = ''completed'' then re_Reason e = [] \<and> re_Measurement e \<noteq> None
         else if re_Outcome e = ''blocked'' then re_Measurement e = None \<and>
           (re_Reason e = ''preflight-unavailable'' \<or> re_Reason e = ''selection-changed'' \<or> re_Reason e = ''review-expired'')
         else if re_Outcome e = ''canceled'' then re_Reason e = ''canceled''
         else if re_Outcome e = ''failed'' then
           re_Reason e = ''execution-error'' \<or> re_Reason e = ''measurement-invalid'' \<and> re_Measurement e = None
         else re_Outcome e = ''indeterminate'' \<and> re_Reason e = ''execution-panic'' \<and> re_Measurement e = None)
      else False)"

definition attachment_bad :: "resolver_audit_event \<Rightarrow> resolver_measurement \<Rightarrow> bool" where
  "attachment_bad e m \<longleftrightarrow>
     re_State e \<noteq> ''finished'' \<or>
     re_Outcome e \<noteq> ''completed'' \<and> re_Outcome e \<noteq> ''failed'' \<and> re_Outcome e \<noteq> ''canceled'' \<or>
     validateMeasurement m (re_At e) \<noteq> Inr () \<or> re_Outcome e = ''completed'' \<and> \<not> complete m"

definition ValidateEvent :: "resolver_audit_event \<Rightarrow> (run_error, unit) result" where
  "ValidateEvent e =
     guard (re_SchemaVersion e \<noteq> EventSchemaVersion \<or> \<not> hex_match 32 (re_RunID e) \<or> re_Profile e \<noteq> Profile \<or>
            \<not> nano_time (re_At e) \<or> rs_Transport (re_Selection e) \<noteq> DNSUDP) ErrAudit
     (bind_result
        (case re_Measurement e of
           None \<Rightarrow> Inr (one_snapshot (re_Observer e) (re_Selection e) (re_At e) (re_At e) [])
         | Some w \<Rightarrow>
             (let m = resolver_sample w (re_RunID e) (re_Selection e) (re_Observer e) in
              guard (attachment_bad e m) ErrAudit
              (Inr (one_snapshot (re_Observer e) (re_Selection e) (re_At e) (rm_StartedAt m) [m]))))
        (\<lambda>snapshot.
           guard (ValidateResolverSnapshot snapshot \<noteq> Inr ()) ErrAudit
           (guard (\<not> phase_ok e) ErrAudit (Inr ()))))"

definition normalize ::
  "resolver_run_selection \<Rightarrow> string \<Rightarrow> time \<Rightarrow> (run_error, resolver_run_selection) result" where
  "normalize s i now =
     guard (\<not> Current (rl_Plan s) now \<or> rs_ID (rc_Selection (di_Configuration (rl_Plan s))) \<noteq> i \<or>
            \<not> nano_time (rl_RouteObservedAt s) \<or> after (rl_RouteObservedAt s) (di_CreatedAt (rl_Plan s)) \<or>
            \<not> time_eq (rl_RouteFreshUntil s) (time_add (rl_RouteObservedAt s) ReviewLifetime) \<or>
            \<not> after (rl_RouteFreshUntil s) now) ErrPreflight
     (Inr s)"

section \<open>The resolver instance of the run control\<close>

definition overlong :: "time \<Rightarrow> time \<Rightarrow> bool" where
  "overlong start now \<longleftrightarrow>
     time_sub now start \<ge> OperationTimeout \<or> time_sub (strip now) (strip start) \<ge> OperationTimeout"

definition resolver_event ::
  "resolver_run_selection \<Rightarrow> string \<Rightarrow> time \<Rightarrow> resolver_measurement phase_info \<Rightarrow> resolver_audit_event" where
  "resolver_event s runID now ph =
     \<lparr>re_SchemaVersion = EventSchemaVersion, re_RunID = runID, re_State = ph_State ph, re_Outcome = ph_Outcome ph,
      re_Reason = ph_Reason ph, re_At = now, re_Profile = Profile,
      re_Selection = rc_Selection (di_Configuration (rl_Plan s)), re_Observer = cb_Observer (di_Binding (rl_Plan s)),
      re_Measurement = map_option auditMeasurement (ph_Sample ph)\<rparr>"

definition resolver_profile ::
  "(string, resolver_run_selection, resolver_measurement, resolver_audit_event) run_profile" where
  "resolver_profile =
     \<lparr>rp_clock_ok = (\<lambda>now. nano_time now \<and> nano_time (time_add now RunInterval)), rp_overlong = overlong,
      rp_key_ok = validID, rp_key_of = (\<lambda>s. rs_ID (rc_Selection (di_Configuration (rl_Plan s)))),
      rp_normalize = normalize, rp_evidence_at = rl_RouteObservedAt,
      rp_review_expires = (\<lambda>s. di_ExpiresAt (rl_Plan s)), rp_route_fresh_until = rl_RouteFreshUntil,
      rp_same_selection = (\<lambda>a b. SameSelection (rl_Plan a) (rl_Plan b)), rp_validate_sample = validateSample,
      rp_timeout_is_evidence = (\<lambda>_. False), rp_event = resolver_event,
      rp_event_valid = (\<lambda>e. ValidateEvent e = Inr ())\<rparr>"

text \<open>The sections of \<open>resolverrun/control.go\<close>: those of the shared control at this profile.\<close>

definition resolver_clockLocked ::
  "time \<Rightarrow> resolver_run_selection control \<Rightarrow> (run_error, time) result \<times> resolver_run_selection control" where
  "resolver_clockLocked now c = clockLocked resolver_profile now c"

definition resolver_prepare_reserve ::
  "string \<Rightarrow> (resolver_run_selection, resolver_measurement) answers \<Rightarrow> resolver_run_selection control \<Rightarrow> (run_error, time) result \<times> resolver_run_selection control" where
  "resolver_prepare_reserve key an c = prepare_reserve resolver_profile key an c"

definition resolver_prepare_commit ::
  "string \<Rightarrow> time \<Rightarrow> resolver_run_selection \<times> ticket \<times> byte list \<Rightarrow> (resolver_run_selection, resolver_measurement) answers \<Rightarrow>
   resolver_run_selection control \<Rightarrow> (run_error, resolver_run_selection pending_review) result \<times> resolver_run_selection control" where
  "resolver_prepare_commit key start drawn an c = prepare_commit resolver_profile key start drawn an c"

definition resolver_run_reserve ::
  "ticket \<Rightarrow> bool \<Rightarrow> (resolver_run_selection, resolver_measurement) answers \<Rightarrow> resolver_run_selection control \<Rightarrow>
   (run_error, resolver_run_selection pending_review \<times> time) result \<times> resolver_run_selection control" where
  "resolver_run_reserve ticket consent an c = run_reserve resolver_profile ticket consent an c"

definition resolver_run_revalidate ::
  "resolver_run_selection pending_review \<Rightarrow> time \<Rightarrow> resolver_run_selection \<Rightarrow> time \<Rightarrow>
   (string, resolver_run_selection, resolver_measurement) op" where
  "resolver_run_revalidate approved start fresh now = run_revalidate resolver_profile approved start fresh now"

definition resolver_run_handover ::
  "resolver_run_selection pending_review \<Rightarrow> time \<Rightarrow> resolver_run_selection \<Rightarrow> time \<Rightarrow>
   run_error option \<Rightarrow> (string, resolver_run_selection, resolver_measurement) op" where
  "resolver_run_handover approved start fresh now ctx = run_handover resolver_profile approved start fresh now ctx"

definition resolver_run_validate ::
  "resolver_run_selection pending_review \<Rightarrow> time \<Rightarrow> resolver_run_selection \<Rightarrow> time \<Rightarrow> resolver_measurement \<Rightarrow>
   run_error option \<Rightarrow> time \<Rightarrow> run_error option \<Rightarrow> (string, resolver_run_selection, resolver_measurement) op" where
  "resolver_run_validate approved start fresh executionStarted sample err now ctx = run_validate resolver_profile approved start fresh executionStarted sample err now ctx"

definition resolver_advance ::
  "(resolver_run_selection, resolver_measurement) answers \<Rightarrow> resolver_run_selection control \<Rightarrow> (string, resolver_run_selection, resolver_measurement) op \<Rightarrow>
   resolver_run_selection control \<times> (string, resolver_run_selection, resolver_measurement) op option \<times> (resolver_run_selection, resolver_measurement, resolver_audit_event) item list" where
  "resolver_advance an c opn = advance resolver_profile an c opn"

section \<open>Retained runs\<close>

datatype resolver_history_error = ErrHistory | HistoryPanic

record historical_assessment =
  ht_State :: string
  ht_Confidence :: string
  ht_Summary :: string
  ht_NextStep :: string
  ht_ExpectationMatched :: "bool option"

record resolver_retained_run =
  rt_RunID :: string
  rt_Profile :: string
  rt_SchemaVersion :: int
  rt_Selection :: resolver_selection
  rt_Observer :: observer
  rt_LastAuditAt :: time
  rt_AuthorizationRetained :: bool
  rt_AdmissionRetained :: bool
  rt_TerminalRetained :: bool
  rt_Outcome :: string
  rt_Reason :: string
  rt_Measurement :: "resolver_run_measurement option"
  rt_Assessment :: historical_assessment

fun resolver_result_text :: "resolver_result \<Rightarrow> string" where
  "resolver_result_text ResolverUnknown = ''unknown''"
| "resolver_result_text ResolverNotMeasured = ''not-measured''"
| "resolver_result_text ResolverIncomplete = ''incomplete''"
| "resolver_result_text ResolverTimeout = ''timeout''"
| "resolver_result_text ResolverTransportFailure = ''transport-failure''"
| "resolver_result_text ResolverAnswer = ''answer''"
| "resolver_result_text ResolverNXDOMAIN = ''nxdomain''"
| "resolver_result_text ResolverNoData = ''no-data''"
| "resolver_result_text ResolverRefused = ''refused''"
| "resolver_result_text ResolverServerFailure = ''server-failure''"
| "resolver_result_text ResolverFormatError = ''format-error''"
| "resolver_result_text ResolverNotImplemented = ''not-implemented''"
| "resolver_result_text ResolverOtherError = ''other-response-error''"
| "resolver_result_text ResolverReferral = ''referral''"
| "resolver_result_text ResolverTruncated = ''truncated''"
| "resolver_result_text ResolverUnclassified = ''unclassified-response''"

definition unknown_assessment :: historical_assessment where
  "unknown_assessment = \<lparr>ht_State = ''unknown'', ht_Confidence = ''unknown'',
     ht_Summary = ''No terminal audit is retained for this run; its outcome is unknown.'',
     ht_NextStep = ''Inspect retained evidence without repeating traffic. Missing records do not prove that nothing was sent.'',
     ht_ExpectationMatched = None\<rparr>"

definition acceptable_event :: "resolver_audit_event \<Rightarrow> time \<Rightarrow> resolver_audit_event \<Rightarrow> bool" where
  "acceptable_event first asOf e \<longleftrightarrow>
     ValidateEvent e = Inr () \<and> \<not> after (re_At e) asOf \<and> re_RunID e = re_RunID first \<and>
     re_SchemaVersion e = re_SchemaVersion first \<and> re_Profile e = re_Profile first \<and>
     re_Selection e = re_Selection first \<and> re_Observer e = re_Observer first"

text \<open>The measurement of the terminal event; an error when it starts before a retained earlier phase.\<close>

definition retained_sample ::
  "resolver_audit_event \<Rightarrow> (string \<rightharpoonup> resolver_audit_event) \<Rightarrow> (resolver_history_error, resolver_run_measurement option) result" where
  "retained_sample first phases =
     (case phases ''finished'' of
        None \<Rightarrow> Inr None
      | Some terminal \<Rightarrow>
          (case re_Measurement terminal of
             None \<Rightarrow> Inr None
           | Some w \<Rightarrow>
               (let m = resolver_sample w (re_RunID first) (re_Selection first) (re_Observer first) in
                guard (starts_before re_At phases ''authorized'' (rm_StartedAt m) \<or>
                       starts_before re_At phases ''admitted'' (rm_StartedAt m)) ErrHistory
                (Inr (Some (auditMeasurement m))))))"

definition assess_retained ::
  "resolver_audit_event \<Rightarrow> resolver_run_measurement \<Rightarrow> (resolver_history_error, historical_assessment) result" where
  "assess_retained first w =
     (let m = resolver_sample w (re_RunID first) (re_Selection first) (re_Observer first) in
      case AssessResolvers (one_snapshot (rm_Observer m) (rm_Selection m) (rm_CompletedAt m) (rm_StartedAt m) [m]) of
        Inl NilPanic \<Rightarrow> Inl HistoryPanic
      | Inl (Returned _) \<Rightarrow> Inl ErrHistory
      | Inr rep \<Rightarrow>
          (case rr_Checks rep of
             [c] \<Rightarrow>
               Inr \<lparr>ht_State = resolver_result_text (ra_Result c), ht_Confidence = confidence_text (ra_Confidence c),
                    ht_Summary = ''Recorded sample: '' @ ra_Summary c,
                    ht_NextStep = ''Compare evidence from the same time; this does not establish current connectivity or security. '' @ ra_NextStep c,
                    ht_ExpectationMatched =
                      (if ra_Result c = ResolverAnswer \<or> ra_Result c = ResolverNXDOMAIN \<or> ra_Result c = ResolverNoData
                       then Some (ra_State c = StateSucceeded) else None)\<rparr>
           | _ \<Rightarrow> Inl ErrHistory))"

definition retained_assessment ::
  "resolver_audit_event \<Rightarrow> bool \<Rightarrow> resolver_run_measurement option \<Rightarrow> (resolver_history_error, historical_assessment) result" where
  "retained_assessment first finished measurement =
     (if \<not> finished then Inr unknown_assessment
      else (case measurement of
        None \<Rightarrow> Inr (unknown_assessment\<lparr>ht_Summary := ''The retained terminal audit contains no usable DNS measurement.''\<rparr>)
      | Some w \<Rightarrow> assess_retained first w))"

definition describe_retained ::
  "resolver_audit_event \<Rightarrow> (string \<rightharpoonup> resolver_audit_event) \<Rightarrow> time \<Rightarrow> resolver_run_measurement option \<Rightarrow> historical_assessment \<Rightarrow>
   resolver_retained_run" where
  "describe_retained first phases latest_at measurement assessment =
     \<lparr>rt_RunID = re_RunID first, rt_Profile = re_Profile first, rt_SchemaVersion = re_SchemaVersion first,
      rt_Selection = re_Selection first, rt_Observer = re_Observer first, rt_LastAuditAt = strip latest_at,
      rt_AuthorizationRetained = (phases ''authorized'' \<noteq> None),
      rt_AdmissionRetained = (phases ''admitted'' \<noteq> None),
      rt_TerminalRetained = (phases ''finished'' \<noteq> None),
      rt_Outcome = (case phases ''finished'' of None \<Rightarrow> ''unknown'' | Some terminal \<Rightarrow> re_Outcome terminal),
      rt_Reason = (case phases ''finished'' of None \<Rightarrow> [] | Some terminal \<Rightarrow> re_Reason terminal),
      rt_Measurement = measurement, rt_Assessment = assessment\<rparr>"

definition DescribeRetainedRun ::
  "resolver_audit_event list \<Rightarrow> time \<Rightarrow> (resolver_history_error, resolver_retained_run) result" where
  "DescribeRetainedRun evs asOf =
     guard (length evs < 1 \<or> length evs > 3 \<or> \<not> nano_time asOf) ErrHistory
     (let first = hd evs in
      case collect_phases (acceptable_event first asOf) re_State re_At Map.empty (re_At first) evs of
        None \<Rightarrow> Inl ErrHistory
      | Some (phases, latest_at) \<Rightarrow>
          guard (\<not> in_phase_order re_At phases zero_time [''authorized'', ''admitted'', ''finished'']) ErrHistory
          (bind_result (retained_sample first phases) (\<lambda>measurement.
           bind_result (retained_assessment first (phases ''finished'' \<noteq> None) measurement) (\<lambda>assessment.
           Inr (describe_retained first phases latest_at measurement assessment)))))"


section \<open>Snapshots of one run\<close>

definition context_ok :: "observer \<Rightarrow> resolver_selection \<Rightarrow> bool" where
  "context_ok ob s \<longleftrightarrow> validObserver ob \<and> o_InterfaceIndex ob \<le> 2147483647 \<and> validResolverSelection s"

lemma resolver_empty_snapshot_valid:
  assumes "wall_only t"
  shows "valid_resolver_snapshot (one_snapshot ob s t t []) \<longleftrightarrow>
     context_ok ob s \<and> nano_time t \<and> nano_time (time_add t second)"
  using assms
  by (auto simp: ValidateResolverSnapshot_iff resolver_context_ok_def one_snapshot_def context_ok_def resolverTime_nano
      go_time quality_limits duration_units int64_clamp_def int64_min_def int64_max_def)

lemma resolver_sample_snapshot_valid:
  "valid_resolver_snapshot (one_snapshot (rm_Observer m) (rm_Selection m) t (rm_StartedAt m) [m]) \<longleftrightarrow>
     context_ok (rm_Observer m) (rm_Selection m) \<and> nano_time t \<and> nano_time (time_add t second) \<and>
     nano_time (rm_StartedAt m) \<and> nano_time (rm_CompletedAt m) \<and> \<not> after (rm_StartedAt m) t \<and>
     time_sub t (rm_StartedAt m) \<le> MaxWindow \<and> validToken (rm_ID m) \<and>
     \<not> before (rm_CompletedAt m) (rm_StartedAt m) \<and> \<not> after (rm_CompletedAt m) t \<and> resolver_evidence_ok m"
proof -
  have refl: "\<not> before t t" for t by (simp add: before_def split: option.splits)
  show ?thesis
    by (auto simp: ValidateResolverSnapshot_iff resolver_context_ok_def one_snapshot_def context_ok_def resolverTime_nano
        resolver_allowed_def resolver_stamps_def refl quality_limits duration_units)
qed

lemma resolver_validateMeasurement_Inr:
  "validateMeasurement m t = Inr () \<longleftrightarrow>
     nano_time (rm_StartedAt m) \<and> nano_time (rm_CompletedAt m) \<and>
     time_sub (rm_CompletedAt m) (rm_StartedAt m) < OperationTimeout \<and> rs_Transport (rm_Selection m) = DNSUDP \<and>
     (\<forall>r. rm_Reply m = Some r \<longrightarrow> dr_RCode r \<le> 15) \<and>
     (rm_Exchange m = DNSTimeout \<longrightarrow> 2 * second \<le> time_sub (rm_CompletedAt m) (rm_StartedAt m)) \<and>
     (rm_Exchange m = DNSResponseReceived \<longrightarrow> (\<exists>d. rm_ResponseTime m = Some d \<and> d < 2 * second)) \<and>
     valid_resolver_snapshot (one_snapshot (rm_Observer m) (rm_Selection m) t (rm_StartedAt m) [m])"
  by (auto simp: validateMeasurement_def not_le not_less split: option.splits)

text \<open>A validated measurement stays valid until a day after its start.\<close>

lemma resolver_validateMeasurement_later:
  assumes "validateMeasurement m ret = Inr ()" and "wall_only (rm_StartedAt m)" and "wall_only (rm_CompletedAt m)"
    and "wall_only t" and "wall ret \<le> wall t" and "nano_time t" and "nano_time (time_add t second)"
    and "wall t - wall (rm_StartedAt m) \<le> MaxWindow"
  shows "validateMeasurement m t = Inr ()"
proof -
  have "time_sub t (rm_StartedAt m) \<le> MaxWindow"
    using assms(2,4,8) by (simp add: go_time int64_clamp_def MaxWindow_def duration_units int64_min_def)
  then show ?thesis
    using assms(1-7) unfolding resolver_validateMeasurement_Inr resolver_sample_snapshot_valid by (simp add: go_time)
qed

lemma resolver_validateSample_Inr:
  "validateSample smp err selection i started returned expires = Inr m \<longleftrightarrow>
     (smp = zero_resolver_measurement \<and> err \<noteq> None \<and> m = None \<or>
      smp \<noteq> zero_resolver_measurement \<and> m = Some smp \<and> rm_ID smp = i \<and>
      rm_Selection smp = rc_Selection (di_Configuration (rl_Plan selection)) \<and>
      rm_Observer smp = cb_Observer (di_Binding (rl_Plan selection)) \<and> \<not> before (rm_StartedAt smp) started \<and>
      \<not> before (rm_StartedAt smp) (rl_RouteObservedAt selection) \<and> before (rm_StartedAt smp) expires \<and>
      (complete smp \<longrightarrow> before (rm_CompletedAt smp) expires) \<and> (err = None \<longrightarrow> complete smp) \<and>
      validateMeasurement smp returned = Inr ())"
  by (auto simp: validateSample_def Let_def split: if_splits)

section \<open>Events of a run are valid\<close>

lemma resolver_plan_context:
  assumes "ResolverPlan.New codec binding config now = Inr p"
  shows "context_ok (cb_Observer (di_Binding p)) (rc_Selection (di_Configuration p)) \<and>
     rs_Transport (rc_Selection (di_Configuration p)) = DNSUDP"
  using assms
  by (auto simp: resolver_New_Inr resolver_ValidateConfiguration_Inr context_ok_def ValidateResolverSnapshot_iff resolver_context_ok_def)

lemma resolver_event_fields [simp]:
  "re_SchemaVersion (resolver_event s run t info) = EventSchemaVersion" "re_RunID (resolver_event s run t info) = run"
  "re_State (resolver_event s run t info) = ph_State info" "re_Outcome (resolver_event s run t info) = ph_Outcome info"
  "re_Reason (resolver_event s run t info) = ph_Reason info" "re_At (resolver_event s run t info) = t"
  "re_Profile (resolver_event s run t info) = Profile"
  "re_Selection (resolver_event s run t info) = rc_Selection (di_Configuration (rl_Plan s))"
  "re_Observer (resolver_event s run t info) = cb_Observer (di_Binding (rl_Plan s))"
  "re_Measurement (resolver_event s run t info) = map_option auditMeasurement (ph_Sample info)"
  by (simp_all add: resolver_event_def)

lemma resolver_blank_event_valid:
  assumes "context_ok (cb_Observer (di_Binding (rl_Plan s))) (rc_Selection (di_Configuration (rl_Plan s)))"
    and "rs_Transport (rc_Selection (di_Configuration (rl_Plan s))) = DNSUDP" and "hex_match 32 run"
    and "wall_only t" and "nano_time t" and "nano_time (time_add t second)" and "ph_Sample info = None"
    and "phase_ok (resolver_event s run t info)"
  shows "ValidateEvent (resolver_event s run t info) = Inr ()"
  using assms by (simp add: ValidateEvent_def resolver_empty_snapshot_valid)

lemma resolver_sample_audit:
  assumes "wall_only (rm_StartedAt m)" and "wall_only (rm_CompletedAt m)"
  shows "resolver_sample (auditMeasurement m) (rm_ID m) (rm_Selection m) (rm_Observer m) = m"
  using assms by (simp add: resolver_sample_def auditMeasurement_def strip_id)

lemma resolver_measured_event_valid:
  assumes "rm_Selection m = rc_Selection (di_Configuration (rl_Plan s))"
    and "rm_Observer m = cb_Observer (di_Binding (rl_Plan s))" and "rm_ID m = run" and "hex_match 32 run"
    and "wall_only (rm_StartedAt m)" and "wall_only (rm_CompletedAt m)" and "validateMeasurement m t = Inr ()"
    and "ph_Sample info = Some m" and "ph_State info = ''finished''"
    and "ph_Outcome info = ''completed'' \<and> complete m \<or> ph_Outcome info = ''failed'' \<or> ph_Outcome info = ''canceled''"
    and "phase_ok (resolver_event s run t info)"
  shows "ValidateEvent (resolver_event s run t info) = Inr ()"
proof -
  have m: "resolver_sample (auditMeasurement m) run (rc_Selection (di_Configuration (rl_Plan s)))
      (cb_Observer (di_Binding (rl_Plan s))) = m"
    using resolver_sample_audit [OF assms(5,6)] assms(1-3) by simp
  have "\<not> attachment_bad (resolver_event s run t info) m"
    using assms(7,9,10) by (auto simp: attachment_bad_def)
  moreover have "nano_time t" "rs_Transport (rm_Selection m) = DNSUDP"
      "valid_resolver_snapshot (one_snapshot (rm_Observer m) (rm_Selection m) t (rm_StartedAt m) [m])"
    using assms(7) by (simp_all add: resolver_validateMeasurement_Inr resolver_sample_snapshot_valid)
  ultimately show ?thesis
    using assms(1,2,4,8,11) by (simp add: ValidateEvent_def Let_def m)
qed



section \<open>Retained runs\<close>

lemma resolver_ValidateEvent_facts:
  assumes "ValidateEvent e = Inr ()"
  shows "re_State e \<in> {''authorized'', ''admitted'', ''finished''} \<and> nano_time (re_At e) \<and>
     (\<forall>w. re_Measurement e = Some w \<longrightarrow> re_State e = ''finished'' \<and>
        validateMeasurement (resolver_sample w (re_RunID e) (re_Selection e) (re_Observer e)) (re_At e) = Inr ())"
  using assms
  by (auto simp: ValidateEvent_def phase_ok_def attachment_bad_def Let_def split: option.splits if_splits)

lemma resolver_measured_finished:
  assumes "ValidateEvent e = Inr ()" and "re_Measurement e = Some w"
  shows "re_State e = ''finished''"
    and "validateMeasurement (resolver_sample w (re_RunID e) (re_Selection e) (re_Observer e)) (re_At e) = Inr ()"
  using resolver_ValidateEvent_facts [OF assms(1)] assms(2) by blast+

interpretation resolver_phases: measured_phases re_State re_At "\<lambda>e. ValidateEvent e = Inr ()" re_Measurement rq_StartedAt
  by unfold_locales (use resolver_ValidateEvent_facts in blast)+


definition wall_only_event :: "resolver_audit_event \<Rightarrow> bool" where
  "wall_only_event e \<longleftrightarrow> wall_only (re_At e) \<and>
     (\<forall>w. re_Measurement e = Some w \<longrightarrow> wall_only (rq_StartedAt w) \<and> wall_only (rq_CompletedAt w))"

text \<open>The retained measurement passes validation once more at its own end.\<close>

lemma resolver_retained_snapshot_valid:
  assumes "validateMeasurement m t = Inr ()" and "wall_only (rm_StartedAt m)" and "wall_only (rm_CompletedAt m)"
    and "wall_only t"
  shows "valid_resolver_snapshot (one_snapshot (rm_Observer m) (rm_Selection m) (rm_CompletedAt m) (rm_StartedAt m) [m])"
proof -
  have v: "nano_time (rm_CompletedAt m)" "wall (rm_CompletedAt m) \<le> wall t" "nano_time (time_add t second)"
      "time_sub (rm_CompletedAt m) (rm_StartedAt m) < OperationTimeout"
    using assms by (auto simp: resolver_validateMeasurement_Inr resolver_sample_snapshot_valid go_time)
  have "nano_time (time_add (rm_CompletedAt m) second)"
    using v(1-3) by (auto simp: nano_time_iff time_add_def fits_int64_def zero_wall_def int64_min_def second_def)
  moreover have "time_sub (rm_CompletedAt m) (rm_StartedAt m) \<le> MaxWindow"
    using v(4) by (simp add: OperationTimeout_def MaxWindow_def duration_units)
  ultimately show ?thesis
    using assms by (simp add: resolver_validateMeasurement_Inr resolver_sample_snapshot_valid go_time)
qed

lemma resolver_retained_check:
  assumes "valid_resolver_snapshot (one_snapshot (rm_Observer m) (rm_Selection m) (rm_CompletedAt m) (rm_StartedAt m) [m])"
  shows "\<exists>rep. AssessResolvers (one_snapshot (rm_Observer m) (rm_Selection m) (rm_CompletedAt m) (rm_StartedAt m) [m]) = Inr rep \<and>
     rr_Checks rep = [assess_resolver_result m (rm_CompletedAt m) second (the (resolverResult m))]"
  using AssessResolvers_valid [OF assms] by (simp add: one_snapshot_def resolver_check_of_def)

lemma resolver_assess_retained_Inr:
  assumes "validateMeasurement (resolver_sample w (re_RunID first) (re_Selection first) (re_Observer first)) t = Inr ()"
    and "wall_only (rq_StartedAt w)" and "wall_only (rq_CompletedAt w)" and "wall_only t"
  shows "\<exists>a. assess_retained first w = Inr a \<and>
     (ht_ExpectationMatched a = Some True \<longleftrightarrow>
        (let m = resolver_sample w (re_RunID first) (re_Selection first) (re_Observer first)
         in expected_result m (the (resolverResult m))))"
proof -
  let ?m = "resolver_sample w (re_RunID first) (re_Selection first) (re_Observer first)"
  have wall: "wall_only (rm_StartedAt ?m)" "wall_only (rm_CompletedAt ?m)"
    using assms(2,3) by (simp_all add: resolver_sample_def)
  obtain rep where rep: "AssessResolvers (one_snapshot (rm_Observer ?m) (rm_Selection ?m) (rm_CompletedAt ?m) (rm_StartedAt ?m) [?m]) = Inr rep"
      "rr_Checks rep = [assess_resolver_result ?m (rm_CompletedAt ?m) second (the (resolverResult ?m))]"
    using resolver_retained_check [OF resolver_retained_snapshot_valid [OF assms(1) wall assms(4)]] by blast
  have exch: "rm_Exchange ?m \<noteq> DNSNotMeasured" if "expected_result ?m (the (resolverResult ?m))"
    using that by (auto simp: expected_result_def resolverResult_def)
  have "ra_State (assess_resolver_result ?m (rm_CompletedAt ?m) second (the (resolverResult ?m))) = StateSucceeded \<longleftrightarrow>
      expected_result ?m (the (resolverResult ?m))"
    unfolding assess_resolver_state [OF wall(2)] using exch
    by (auto simp: resolver_state_of_def fresh_at_def second_def)
  then show ?thesis
    using rep by (auto simp: assess_retained_def Let_def expected_result_def)
qed

lemma audit_resolver_sample:
  assumes "wall_only (rq_StartedAt w)" and "wall_only (rq_CompletedAt w)"
  shows "auditMeasurement (resolver_sample w i s ob) = w"
  using assms by (simp add: resolver_sample_def auditMeasurement_def strip_id)

lemma resolver_retained_sample_measured:
  assumes ok: "\<forall>e\<in>set evs. ValidateEvent e = Inr ()" and dist: "distinct (map re_State evs)"
    and b: "b \<in> set evs" "re_Measurement b = Some w" and wall: "wall_only (rq_StartedAt w)" "wall_only (rq_CompletedAt w)"
  shows "retained_sample first (map_by re_State evs) =
     (if starts_in_time re_State re_At re_Measurement rq_StartedAt evs then Inr (Some w) else Inl ErrHistory)"
  using resolver_phases.terminal_event [OF ok dist b] resolver_phases.starts_in_time_iff [OF ok dist b wall(1)] b(2)
    audit_resolver_sample [OF wall]
  by (simp add: retained_sample_def Let_def guard_def resolver_sample_def)

lemma resolver_retained_sample_unmeasured:
  "\<forall>e\<in>set evs. re_Measurement e = None \<Longrightarrow> retained_sample first (map_by re_State evs) = Inr None"
  by (auto simp: retained_sample_def dest: map_by_SomeD split: option.splits)

definition one_run :: "resolver_audit_event list \<Rightarrow> time \<Rightarrow> bool" where
  "one_run evs asOf \<longleftrightarrow> evs \<noteq> [] \<and> nano_time asOf \<and> (\<forall>e\<in>set evs. acceptable_event (hd evs) asOf e) \<and>
     distinct (map re_State evs)"

lemma resolver_describe_not_one_run: "\<not> one_run evs asOf \<Longrightarrow> DescribeRetainedRun evs asOf = Inl ErrHistory"
  by (cases "evs \<noteq> [] \<and> nano_time asOf") (auto simp: DescribeRetainedRun_def one_run_def Let_def guard_def collect_phases_None)

lemma resolver_one_runD:
  assumes "one_run evs asOf"
  shows "\<forall>e\<in>set evs. ValidateEvent e = Inr ()" and "distinct (map re_State evs)"
    and "e \<in> set evs \<Longrightarrow> re_RunID e = re_RunID (hd evs) \<and> re_Selection e = re_Selection (hd evs) \<and> re_Observer e = re_Observer (hd evs)"
  using assms unfolding one_run_def acceptable_event_def by blast+

lemma resolver_describe_one_run:
  assumes "one_run evs asOf" and "\<forall>e\<in>set evs. wall_only_event e"
  shows "DescribeRetainedRun evs asOf = guard (\<not> phases_in_time re_State re_At evs) ErrHistory
      (bind_result (retained_sample (hd evs) (map_by re_State evs)) (\<lambda>measurement.
       bind_result (retained_assessment (hd evs) (map_by re_State evs ''finished'' \<noteq> None) measurement) (\<lambda>assessment.
       Inr (describe_retained (hd evs) (map_by re_State evs) (latest_audit re_At (re_At (hd evs)) evs) measurement assessment))))"
proof -
  have order: "in_phase_order re_At (map_by re_State evs) zero_time [''authorized'', ''admitted'', ''finished''] \<longleftrightarrow>
      phases_in_time re_State re_At evs"
    by (rule resolver_phases.ordered_iff) (use resolver_one_runD [OF assms(1)] assms(2) in \<open>auto simp: wall_only_event_def\<close>)
  have "length evs \<le> 3" using resolver_one_runD [OF assms(1)] by (intro resolver_phases.at_most_three)
  then show ?thesis
    using assms(1) by (simp add: DescribeRetainedRun_def Let_def Suc_le_eq collect_phases_all one_run_def order)
qed

definition matching_reply :: "resolver_audit_event \<Rightarrow> bool" where
  "matching_reply e \<longleftrightarrow>
     (case re_Measurement e of
        None \<Rightarrow> False
      | Some w \<Rightarrow> (let m = resolver_sample w (re_RunID e) (re_Selection e) (re_Observer e)
                  in expected_result m (the (resolverResult m))))"

lemma resolver_retained_assessment_measured:
  assumes "one_run evs asOf" and "wall_only_event b" and "b \<in> set evs" "re_Measurement b = Some w"
  shows "\<exists>a. retained_assessment (hd evs) True (Some w) = Inr a \<and>
     (ht_ExpectationMatched a = Some True \<longleftrightarrow> (\<exists>e\<in>set evs. matching_reply e))"
proof -
  note run = resolver_one_runD [OF assms(1)]
  have fin: "validateMeasurement (resolver_sample w (re_RunID (hd evs)) (re_Selection (hd evs)) (re_Observer (hd evs))) (re_At b) = Inr ()"
    using run(1) assms(3,4) resolver_measured_finished(2) [of b w] run(3) [OF assms(3)] by simp
  have "wall_only (rq_StartedAt w)" "wall_only (rq_CompletedAt w)" "wall_only (re_At b)"
    using assms(2,4) by (auto simp: wall_only_event_def)
  from resolver_assess_retained_Inr [OF fin this] obtain a where a: "assess_retained (hd evs) w = Inr a"
      "ht_ExpectationMatched a = Some True \<longleftrightarrow> matching_reply b"
    using run(3) [OF assms(3)] assms(4) by (auto simp: matching_reply_def)
  have "matching_reply e \<longleftrightarrow> e = b \<and> matching_reply b" if "e \<in> set evs" for e
  proof (cases "re_Measurement e")
    case None
    then show ?thesis using assms(4) by (auto simp: matching_reply_def)
  next
    case (Some w')
    then have "e = b" using resolver_phases.terminal_unique [OF run(1,2) assms(3,4) that] by blast
    then show ?thesis by simp
  qed
  then have "(\<exists>e\<in>set evs. matching_reply e) \<longleftrightarrow> matching_reply b" using assms(3) by blast
  then show ?thesis using a by (simp add: retained_assessment_def)
qed

text \<open>
  C32: which retained events make a description.  For events with wall times the reader succeeds exactly on
  a non-empty list of valid events of one run, none of them after the reading time, with distinct phases in
  the order of time and no measurement that starts before its authorization or admission: assessing the
  retained measurement again never fails and never panics.  The expectation counts as matched exactly when
  the retained reply is the selected one.
\<close>

theorem resolver_history_total:
  assumes "\<forall>e\<in>set evs. wall_only_event e"
  shows "DescribeRetainedRun evs asOf \<noteq> Inl HistoryPanic \<and>
     ((\<exists>r. DescribeRetainedRun evs asOf = Inr r) \<longleftrightarrow>
        one_run evs asOf \<and> phases_in_time re_State re_At evs \<and>
        starts_in_time re_State re_At re_Measurement rq_StartedAt evs) \<and>
     (\<forall>r. DescribeRetainedRun evs asOf = Inr r \<longrightarrow>
        (ht_ExpectationMatched (rt_Assessment r) = Some True \<longleftrightarrow> (\<exists>e\<in>set evs. matching_reply e)))"
proof (cases "one_run evs asOf")
  case False
  then show ?thesis by (simp add: resolver_describe_not_one_run)
next
  case True
  note desc = resolver_describe_one_run [OF True assms]
  show ?thesis
  proof (cases "\<forall>e\<in>set evs. re_Measurement e = None")
    case unmeasured: True
    then show ?thesis
      using True resolver_retained_sample_unmeasured [OF unmeasured] starts_in_time_unmeasured [OF unmeasured]
      by (auto simp: desc guard_def retained_assessment_def unknown_assessment_def describe_retained_def matching_reply_def)
  next
    case False
    then obtain b w where b: "b \<in> set evs" "re_Measurement b = Some w" by auto
    have wall: "wall_only_event b" "wall_only (rq_StartedAt w)" "wall_only (rq_CompletedAt w)"
      using assms b by (auto simp: wall_only_event_def)
    note run = resolver_one_runD(1,2) [OF True]
    obtain a where "retained_assessment (hd evs) True (Some w) = Inr a"
        "ht_ExpectationMatched a = Some True \<longleftrightarrow> (\<exists>e\<in>set evs. matching_reply e)"
      using resolver_retained_assessment_measured [OF True wall(1) b] by blast
    then show ?thesis
      using True resolver_retained_sample_measured [OF run b wall(2,3), of "hd evs"] resolver_phases.terminal_event [OF run b]
      by (simp add: desc guard_def describe_retained_def)
  qed
qed


section \<open>A sample run\<close>

definition sample_run_selection :: resolver_run_selection where
  "sample_run_selection = \<lparr>rl_Plan = sample_plan, rl_RouteObservedAt = strip sample_review_time,
     rl_RouteFreshUntil = time_add (strip sample_review_time) ReviewLifetime\<rparr>"

definition sample_run_id :: string where
  "sample_run_id = ''00112233445566778899aabbccddeeff''"

definition sample_run_measurement :: resolver_run_measurement where
  "sample_run_measurement = \<lparr>rq_StartedAt = strip sample_review_time,
     rq_CompletedAt = time_add (strip sample_review_time) (20 * millisecond), rq_Exchange = DNSResponseReceived,
     rq_Request = DNSRequestAccepted, rq_Gap = GapNone,
     rq_Reply = Some \<lparr>dr_RCode = 0, dr_Truncated = False, dr_Answer = DNSAnswerPresent\<rparr>,
     rq_ResponseTimeNanoseconds = Some (15 * millisecond)\<rparr>"

definition sample_terminal :: resolver_audit_event where
  "sample_terminal = (resolver_event sample_run_selection sample_run_id (time_add (strip sample_review_time) second)
     (finished_info ''completed'' [] None))\<lparr>re_Measurement := Some sample_run_measurement\<rparr>"


theorem resolver_history_total_witness:
  "\<exists>r. DescribeRetainedRun [sample_terminal] (time_add (strip sample_review_time) minute) = Inr r \<and>
     ht_ExpectationMatched (rt_Assessment r) = Some True"
proof -
  have w: "\<forall>e\<in>set [sample_terminal]. wall_only_event e"
    by (simp add: wall_only_event_def sample_terminal_def resolver_event_def sample_run_measurement_def time_add_def)
  have v: "one_run [sample_terminal] (time_add (strip sample_review_time) minute)"
    unfolding one_run_def by code_simp
  have o: "phases_in_time re_State re_At [sample_terminal]"
      "starts_in_time re_State re_At re_Measurement rq_StartedAt [sample_terminal]"
    by (simp_all add: phases_in_time_def starts_in_time_def sample_terminal_def finished_info_def)
  have m: "matching_reply sample_terminal" by code_simp
  obtain r where "DescribeRetainedRun [sample_terminal] (time_add (strip sample_review_time) minute) = Inr r"
    using resolver_history_total [OF w] v o by blast
  then show ?thesis using resolver_history_total [OF w] m by auto
qed

end
