(* ===== verification/HttpsPlan.thy ===== *)
theory HttpsPlan
  imports ResolverPlan HttpsQuality
begin

text \<open>
  \<open>httpsplan/plan.go\<close>: the immutable review plan of one HTTPS exchange.  The request target goes through
  \<open>url.ParseRequestURI\<close>, \<open>url.PathUnescape\<close> and the HTTP/1.1 writer of the Go library; the first section
  models what these do with an origin-form target: percent escapes, the split at the first question mark and
  the request line with the fixed headers.
\<close>

section \<open>Percent escapes and request targets in Go\<close>

text \<open>\<open>unescape\<close> in the path modes: every percent sign takes two hexadecimal digits.\<close>

fun unescape :: "string \<Rightarrow> string option" where
  "unescape [] = Some []"
| "unescape (c # cs) =
     (if c = CHR ''%'' then
        (case cs of
           h # l # rest \<Rightarrow>
             (case (hex_value h, hex_value l) of
                (Some a, Some b) \<Rightarrow> map_option (Cons (char_of (16 * a + b))) (unescape rest)
              | _ \<Rightarrow> None)
         | _ \<Rightarrow> None)
      else map_option (Cons c) (unescape cs))"

definition path_should_escape :: "char \<Rightarrow> bool" where
  "path_should_escape c \<longleftrightarrow> \<not> (is_alnum c \<or> c \<in> set ''-_.~$&+,/:;=@'')"

definition upper_hex :: "nat \<Rightarrow> char" where
  "upper_hex n = ''0123456789ABCDEF'' ! n"

definition escape_path :: "string \<Rightarrow> string" where
  "escape_path s = concat (map (\<lambda>c.
     if path_should_escape c then [CHR ''%'', upper_hex (of_char c div 16), upper_hex (of_char c mod 16)] else [c]) s)"

definition validEncoded_path :: "string \<Rightarrow> bool" where
  "validEncoded_path s \<longleftrightarrow>
     list_all (\<lambda>c. c \<in> set ''!$&()*+,;=:@[]%'' \<or> c = CHR 0x27 \<or> \<not> path_should_escape c) s"

record request_uri =
  ru_Path :: string
  ru_RawPath :: string
  ru_RawQuery :: string
  ru_ForceQuery :: bool

text \<open>\<open>strings.Cut\<close> at the first question mark.\<close>

fun cut_query :: "string \<Rightarrow> string \<times> string" where
  "cut_query [] = ([], [])"
| "cut_query (c # cs) = (if c = CHR ''?'' then ([], cs) else (case cut_query cs of (p, q) \<Rightarrow> (c # p, q)))"

text \<open>
  \<open>ParseRequestURI\<close> of a target that starts with a slash and holds no control byte: no scheme and no authority
  can be read from it, so that only the query and the path remain.
\<close>

definition ParseRequestURI :: "string \<Rightarrow> request_uri option" where
  "ParseRequestURI raw =
     (let force = has_suffix raw ''?'' \<and> length (filter (\<lambda>c. c = CHR ''?'') raw) = 1;
          p = (if force then butlast raw else fst (cut_query raw));
          q = (if force then [] else snd (cut_query raw))
      in case unescape p of
           None \<Rightarrow> None
         | Some path \<Rightarrow>
             Some \<lparr>ru_Path = path, ru_RawPath = (if escape_path path = p then [] else p), ru_RawQuery = q,
                   ru_ForceQuery = force\<rparr>)"

definition EscapedPath :: "request_uri \<Rightarrow> string" where
  "EscapedPath u =
     (if ru_RawPath u \<noteq> [] \<and> validEncoded_path (ru_RawPath u) \<and> unescape (ru_RawPath u) = Some (ru_Path u)
      then ru_RawPath u
      else if ru_Path u = ''*'' then ''%2A''
      else escape_path (ru_Path u))"

definition RequestURI :: "request_uri \<Rightarrow> string" where
  "RequestURI u =
     (let result = (if EscapedPath u = [] then ''/'' else EscapedPath u) in
      if ru_ForceQuery u \<or> ru_RawQuery u \<noteq> [] then result @ ''?'' @ ru_RawQuery u else result)"

section \<open>Data\<close>

datatype https_plan_error = HttpsErrConfiguration | HttpsErrBinding | HttpsErrClock | HttpsErrPlan

definition Profile :: string where "Profile = ''selected-https-v1''"
definition ReviewLifetime :: duration where "ReviewLifetime = 30 * second"
definition MaxRequestTargetBytes :: nat where "MaxRequestTargetBytes = 1024"
definition ExactEndpoint :: string where "ExactEndpoint = ''exact-endpoint''"
definition UserAgent :: string where "UserAgent = ''CozySOC-Network-Check/1''"

record https_configuration =
  hc_Selection :: https_selection
  hc_Endpoint :: addr_port
  hc_ServerName :: string
  hc_RequestTarget :: string
  hc_DestinationPolicy :: string

record https_policy =
  po_ALPN :: string
  po_TrustStore :: string
  po_ClientAuthentication :: bool
  po_HTTPVersion :: string
  po_MinTLSVersion :: nat
  po_MaxTLSVersion :: nat
  po_VerifyServerIdentity :: bool
  po_FreshConnection :: bool
  po_SessionResumption :: bool
  po_EarlyData :: bool
  po_UseProxy :: bool
  po_ResolveNames :: bool
  po_FollowRedirects :: bool
  po_ReadResponseBody :: bool

record https_budget =
  hb_MaxConnections :: nat
  hb_MaxRequests :: nat
  hb_MaxRetries :: nat
  hb_MaxRequestBytes :: nat
  hb_MaxResponseHeaderBytes :: nat
  hb_MaxTransportReadBytes :: nat
  hb_MaxTransportWriteBytes :: nat
  hb_MaxTransportReadCalls :: nat
  hb_MaxTransportWriteCalls :: nat
  hb_ConnectTimeout :: duration
  hb_TLSHandshakeTimeout :: duration
  hb_ResponseHeaderTimeout :: duration
  hb_TotalTimeout :: duration
  hb_MaxConcurrentRuns :: nat
  hb_MinRunInterval :: duration

record https_plan =
  hd_Profile :: string
  hd_Binding :: check_binding
  hd_Configuration :: https_configuration
  hd_OutsideEnrolledPrefixes :: bool
  hd_Policy :: https_policy
  hd_Budget :: https_budget
  hd_CreatedAt :: time
  hd_ExpiresAt :: time
  hd_Privacy :: "string list"

section \<open>Operations\<close>

definition validServerName :: "string \<Rightarrow> bool" where
  "validServerName name \<longleftrightarrow>
     length name \<le> 253 \<and> CHR ''.'' \<in> set name \<and> ParseAddr name = None \<and>
     list_all valid_label (split_on CHR ''.'' name)"

definition is_target_char :: "char \<Rightarrow> bool" where
  "is_target_char c \<longleftrightarrow> is_alnum c \<or> c \<in> set ''-._~!$&()*+,;=:@/?%'' \<or> c = CHR 0x27"

definition decoded_ok :: "char \<Rightarrow> bool" where
  "decoded_ok c \<longleftrightarrow> \<not> (c < CHR 0x20 \<or> c = CHR 0x7F \<or> c = CHR 0x5C)"

definition validRequestTarget :: "string \<Rightarrow> bool" where
  "validRequestTarget target \<longleftrightarrow>
     0 < length target \<and> length target \<le> MaxRequestTargetBytes \<and> hd target = CHR ''/'' \<and>
     \<not> has_prefix target ''//'' \<and> list_all is_target_char target \<and>
     (case ParseRequestURI target of
        None \<Rightarrow> False
      | Some uri \<Rightarrow> RequestURI uri = target \<and>
          (case unescape target of None \<Rightarrow> False | Some decoded \<Rightarrow> list_all decoded_ok decoded))"

definition ValidateConfiguration :: "https_configuration \<Rightarrow> (https_plan_error, unit) result" where
  "ValidateConfiguration c =
     (let a = ap_Addr (hc_Endpoint c) in
      guard (ValidateHTTPSSelection (hc_Selection c) \<noteq> Inr () \<or> hc_DestinationPolicy c \<noteq> ExactEndpoint \<or>
             \<not> IsValid a \<or> ap_Port (hc_Endpoint c) \<noteq> 443 \<or> \<not> EligibleHost a \<or>
             Is4 a \<and> hs_Family (hc_Selection c) \<noteq> FamilyIPv4 \<or> Is6 a \<and> hs_Family (hc_Selection c) \<noteq> FamilyIPv6 \<or>
             \<not> validServerName (hc_ServerName c) \<or> \<not> validRequestTarget (hc_RequestTarget c))
        HttpsErrConfiguration (Inr ()))"

definition crlf :: string where "crlf = [CHR 0x0D, CHR 0x0A]"

text \<open>The headers that the writer puts after the host: the fixed ones, in its order.\<close>

definition fixed_headers :: string where
  "fixed_headers = ''User-Agent: '' @ UserAgent @ crlf @ ''Connection: close'' @ crlf @ ''Accept: */*'' @ crlf @
     ''Accept-Encoding: identity'' @ crlf @ ''Cache-Control: no-store'' @ crlf @ crlf"

definition requestBytes :: "https_configuration \<Rightarrow> (https_plan_error, string) result" where
  "requestBytes c =
     (case ParseRequestURI (hc_RequestTarget c) of
        None \<Rightarrow> Inl HttpsErrConfiguration
      | Some u \<Rightarrow>
          Inr (hs_Method (hc_Selection c) @ '' '' @ RequestURI u @ '' HTTP/1.1'' @ crlf @
               ''Host: '' @ hc_ServerName c @ crlf @ fixed_headers))"

definition https_policy_v1 :: https_policy where
  "https_policy_v1 =
     \<lparr>po_ALPN = ''http/1.1'', po_TrustStore = ''system'', po_ClientAuthentication = False, po_HTTPVersion = ''HTTP/1.1'',
      po_MinTLSVersion = 0x0303, po_MaxTLSVersion = 0x0304, po_VerifyServerIdentity = True, po_FreshConnection = True,
      po_SessionResumption = False, po_EarlyData = False, po_UseProxy = False, po_ResolveNames = False,
      po_FollowRedirects = False, po_ReadResponseBody = False\<rparr>"

definition https_budget_v1 :: "nat \<Rightarrow> https_budget" where
  "https_budget_v1 request =
     \<lparr>hb_MaxConnections = 1, hb_MaxRequests = 1, hb_MaxRetries = 0, hb_MaxRequestBytes = request,
      hb_MaxResponseHeaderBytes = 16384, hb_MaxTransportReadBytes = 131072, hb_MaxTransportWriteBytes = 32768,
      hb_MaxTransportReadCalls = 512, hb_MaxTransportWriteCalls = 64, hb_ConnectTimeout = 2 * second,
      hb_TLSHandshakeTimeout = 3 * second, hb_ResponseHeaderTimeout = 2 * second, hb_TotalTimeout = 8 * second,
      hb_MaxConcurrentRuns = 1, hb_MinRunInterval = minute\<rparr>"

definition privacy_copy :: "string list" where
  "privacy_copy =
     [''The selected operator can observe the connecting network address, timing, TLS identity and exact HTTP request. The TLS name may also be visible to network observers; encrypted ClientHello is not part of this profile.'',
      ''The fixed request discloses the CozySOC-Network-Check/1 user agent. No cookies, authorization headers, request body or device identifier are supplied.'',
      ''TLS-stream byte ceilings include handshake and buffered response data but exclude TCP retransmissions and IP/link overhead. A server may send body bytes even though this profile does not read a response body; these can consume network data.'',
      ''Prefix membership does not verify an external target, gateway, route or actual egress interface. A VPN, proxy interception, metered connection or changed network needs fresh binding review before separate one-shot consent.'']"

definition New ::
  "check_binding \<Rightarrow> https_configuration \<Rightarrow> time \<Rightarrow> (https_plan_error, https_plan) result" where
  "New binding c0 now0 =
     (let now = strip now0 in
      guard (\<not> nano_time now \<or> \<not> nano_time (time_add now ReviewLifetime)) HttpsErrClock
      (bind_result (ValidateConfiguration c0) (\<lambda>_.
       guard (ValidateHTTPSSnapshot
                \<lparr>hn_Observer = cb_Observer binding, hn_AsOf = now, hn_WindowStart = now, hn_Freshness = second,
                 hn_Selections = [], hn_Measurements = []\<rparr> \<noteq> Inr ()) HttpsErrBinding
       (case Validate (cb_Source binding) (ap_Addr (hc_Endpoint c0)) (cb_Prefixes binding) of
          Inl _ \<Rightarrow> Inl HttpsErrBinding
        | Inr (prefixes, member) \<Rightarrow>
            (let c = c0\<lparr>hc_ServerName := to_lower (hc_ServerName c0)\<rparr> in
             bind_result (requestBytes c) (\<lambda>request.
             Inr \<lparr>hd_Profile = Profile, hd_Binding = binding\<lparr>cb_Prefixes := prefixes\<rparr>, hd_Configuration = c,
                  hd_OutsideEnrolledPrefixes = \<not> member, hd_Policy = https_policy_v1,
                  hd_Budget = https_budget_v1 (length request), hd_CreatedAt = now,
                  hd_ExpiresAt = time_add now ReviewLifetime, hd_Privacy = privacy_copy\<rparr>))))))"

definition RequestBytes :: "https_plan \<Rightarrow> (https_plan_error, string) result" where
  "RequestBytes p = guard (hd_Profile p \<noteq> Profile) HttpsErrPlan (requestBytes (hd_Configuration p))"

definition Current :: "https_plan \<Rightarrow> time \<Rightarrow> bool" where
  "Current p now \<longleftrightarrow>
     hd_Profile p = Profile \<and> nano_time now \<and> \<not> before now (hd_CreatedAt p) \<and> before now (hd_ExpiresAt p)"

definition SameSelection :: "https_plan \<Rightarrow> https_plan \<Rightarrow> bool" where
  "SameSelection a b \<longleftrightarrow>
     (if hd_Profile a \<noteq> Profile \<or> hd_Profile b \<noteq> Profile then False
      else hd_Profile a = hd_Profile b \<and> hd_Configuration a = hd_Configuration b \<and>
        cb_Observer (hd_Binding a) = cb_Observer (hd_Binding b) \<and>
        cb_Source (hd_Binding a) = cb_Source (hd_Binding b) \<and>
        cb_Prefixes (hd_Binding a) = cb_Prefixes (hd_Binding b) \<and>
        hd_OutsideEnrolledPrefixes a = hd_OutsideEnrolledPrefixes b \<and> hd_Policy a = hd_Policy b \<and>
        hd_Budget a = hd_Budget b)"


section \<open>Request targets survive the library\<close>

lemma cut_query_parts:
  "fst (cut_query s) @ (if CHR ''?'' \<in> set s then ''?'' @ snd (cut_query s) else []) = s"
  "CHR ''?'' \<notin> set (fst (cut_query s))" "CHR ''?'' \<notin> set s \<Longrightarrow> snd (cut_query s) = []"
  by (induction s) (auto split: prod.splits)

lemma target_char_encoded:
  assumes "is_target_char c" and "c \<noteq> CHR ''?''"
  shows "c \<in> set ''!$&()*+,;=:@[]%'' \<or> c = CHR 0x27 \<or> \<not> path_should_escape c"
proof (cases "is_alnum c \<or> c = CHR 0x27")
  case True
  then show ?thesis by (auto simp: path_should_escape_def)
next
  case False
  then have "c \<in> set ''-._~!$&()*+,;=:@/?%''" using assms(1) by (simp only: is_target_char_def) blast
  then show ?thesis
    using assms(2) unfolding path_should_escape_def list.set insert_iff empty_iff by (elim disjE) simp_all
qed

lemma target_path_valid:
  assumes "list_all is_target_char p" and "CHR ''?'' \<notin> set p"
  shows "validEncoded_path p"
  unfolding validEncoded_path_def list_all_iff
proof
  fix c assume "c \<in> set p"
  then have "is_target_char c" "c \<noteq> CHR ''?''" using assms by (auto simp: list_all_iff)
  then show "c \<in> set ''!$&()*+,;=:@[]%'' \<or> c = CHR 0x27 \<or> \<not> path_should_escape c" by (rule target_char_encoded)
qed

lemma unescape_slash:
  assumes "unescape p = Some path" and "p \<noteq> []" and "hd p = CHR ''/''"
  shows "path \<noteq> [] \<and> hd path = CHR ''/''"
  using assms by (cases p) auto

lemma EscapedPath_parsed:
  assumes "unescape p = Some path" and "p \<noteq> []" and "hd p = CHR ''/''" and "list_all is_target_char p"
    and "CHR ''?'' \<notin> set p"
  shows "EscapedPath \<lparr>ru_Path = path, ru_RawPath = (if escape_path path = p then [] else p), ru_RawQuery = q,
     ru_ForceQuery = f\<rparr> = p"
  using assms target_path_valid [OF assms(4,5)] unescape_slash [OF assms(1-3)]
  by (auto simp: EscapedPath_def)

lemma single_mark_at_end:
  assumes "has_suffix s ''?''" and "length (filter (\<lambda>c. c = CHR ''?'') s) = 1"
  shows "s = butlast s @ ''?'' \<and> CHR ''?'' \<notin> set (butlast s)"
proof -
  obtain p where s: "s = p @ ''?''" using has_suffixD [OF assms(1)] by blast
  then have "filter (\<lambda>c. c = CHR ''?'') p = []" using assms(2) by simp
  then show ?thesis using s by (auto simp: filter_empty_conv)
qed

lemma mark_at_end:
  assumes "CHR ''?'' \<in> set s" and "snd (cut_query s) = []"
  shows "has_suffix s ''?'' \<and> length (filter (\<lambda>c. c = CHR ''?'') s) = 1"
proof -
  obtain p where p: "s = p @ ''?''" "CHR ''?'' \<notin> set p"
    using cut_query_parts(1,2) [of s] assms by (metis append_Nil2)
  then have "filter (\<lambda>c. c = CHR ''?'') p = []" by (auto simp: filter_empty_conv)
  then show ?thesis using p has_suffix_append [of p "''?''"] by simp
qed

lemma RequestURI_ParseRequestURI:
  assumes "ParseRequestURI target = Some u" and "target \<noteq> []" and "hd target = CHR ''/''"
    and "list_all is_target_char target"
  shows "RequestURI u = target"
proof (cases "has_suffix target ''?'' \<and> length (filter (\<lambda>c. c = CHR ''?'') target) = 1")
  case True
  then have s: "target = butlast target @ ''?''" "CHR ''?'' \<notin> set (butlast target)"
    using single_mark_at_end by blast+
  then obtain path where path: "unescape (butlast target) = Some path"
      "u = \<lparr>ru_Path = path, ru_RawPath = (if escape_path path = butlast target then [] else butlast target), ru_RawQuery = [], ru_ForceQuery = True\<rparr>"
    using assms(1) True by (auto simp: ParseRequestURI_def Let_def split: option.splits)
  have p: "butlast target \<noteq> []" "hd (butlast target) = CHR ''/''" "list_all is_target_char (butlast target)"
    using s assms(2-4) by (cases target; auto simp: list_all_iff dest: in_set_butlastD split: if_splits)+
  have "EscapedPath u = butlast target" unfolding path(2) by (rule EscapedPath_parsed [OF path(1) p s(2)])
  then show ?thesis using p(1) s(1) path(2) by (simp add: RequestURI_def)
next
  case False
  let ?p = "fst (cut_query target)" and ?q = "snd (cut_query target)"
  obtain path where path: "unescape ?p = Some path"
      "u = \<lparr>ru_Path = path, ru_RawPath = (if escape_path path = ?p then [] else ?p), ru_RawQuery = ?q, ru_ForceQuery = False\<rparr>"
    using assms(1) False by (auto simp: ParseRequestURI_def Let_def split: option.splits)
  have p: "?p \<noteq> []" "hd ?p = CHR ''/''" using assms(2,3) by (cases target; auto split: prod.splits)+
  have c: "list_all is_target_char ?p" using assms(4) cut_query_parts(1) [of target] by (metis list_all_append)
  have "EscapedPath u = ?p" unfolding path(2) by (rule EscapedPath_parsed [OF path(1) p c cut_query_parts(2)])
  then have "RequestURI u = (if ?q \<noteq> [] then ?p @ ''?'' @ ?q else ?p)"
    using p(1) path(2) by (simp add: RequestURI_def Let_def)
  also have "\<dots> = target"
  proof (cases "CHR ''?'' \<in> set target")
    case True
    then have "?q \<noteq> []" using mark_at_end False by blast
    then show ?thesis using True cut_query_parts(1) [of target] by simp
  next
    case False
    then show ?thesis using cut_query_parts(1,3) [of target] by simp
  qed
  finally show ?thesis .
qed

section \<open>What a plan is\<close>

lemma https_ValidateConfiguration_Inr:
  "ValidateConfiguration c = Inr () \<longleftrightarrow>
     ValidateHTTPSSelection (hc_Selection c) = Inr () \<and> hc_DestinationPolicy c = ExactEndpoint \<and>
     ap_Port (hc_Endpoint c) = 443 \<and> EligibleHost (ap_Addr (hc_Endpoint c)) \<and>
     (Is4 (ap_Addr (hc_Endpoint c)) \<longrightarrow> hs_Family (hc_Selection c) = FamilyIPv4) \<and>
     (Is6 (ap_Addr (hc_Endpoint c)) \<longrightarrow> hs_Family (hc_Selection c) = FamilyIPv6) \<and>
     validServerName (hc_ServerName c) \<and> validRequestTarget (hc_RequestTarget c)"
  by (auto simp: ValidateConfiguration_def Let_def guard_def EligibleHost_def)

lemma requestBytes_valid:
  assumes "validRequestTarget (hc_RequestTarget c)"
  shows "requestBytes c = Inr (hs_Method (hc_Selection c) @ '' '' @ hc_RequestTarget c @ '' HTTP/1.1'' @ crlf @
     ''Host: '' @ hc_ServerName c @ crlf @ fixed_headers)"
  using assms by (auto simp: requestBytes_def validRequestTarget_def split: option.splits)

lemma https_New_Inr:
  "New binding c now = Inr p \<longleftrightarrow>
     nano_time (strip now) \<and> nano_time (time_add (strip now) ReviewLifetime) \<and> ValidateConfiguration c = Inr () \<and>
     ValidateHTTPSSnapshot
       \<lparr>hn_Observer = cb_Observer binding, hn_AsOf = strip now, hn_WindowStart = strip now, hn_Freshness = second,
        hn_Selections = [], hn_Measurements = []\<rparr> = Inr () \<and>
     (\<exists>prefixes member request.
        Validate (cb_Source binding) (ap_Addr (hc_Endpoint c)) (cb_Prefixes binding) = Inr (prefixes, member) \<and>
        requestBytes (c\<lparr>hc_ServerName := to_lower (hc_ServerName c)\<rparr>) = Inr request \<and>
        p = \<lparr>hd_Profile = Profile, hd_Binding = binding\<lparr>cb_Prefixes := prefixes\<rparr>,
             hd_Configuration = c\<lparr>hc_ServerName := to_lower (hc_ServerName c)\<rparr>,
             hd_OutsideEnrolledPrefixes = \<not> member, hd_Policy = https_policy_v1,
             hd_Budget = https_budget_v1 (length request), hd_CreatedAt = strip now,
             hd_ExpiresAt = time_add (strip now) ReviewLifetime, hd_Privacy = privacy_copy\<rparr>)"
  by (auto simp: New_def Let_def split: sum.splits)

lemma https_Current_window:
  assumes "New binding c now = Inr p"
  shows "Current p t \<longleftrightarrow> nano_time t \<and> wall now \<le> wall t \<and> wall t < wall now + 30 * second"
proof -
  have "hd_Profile p = Profile" "hd_CreatedAt p = strip now" "hd_ExpiresAt p = time_add (strip now) ReviewLifetime"
    using assms by (auto simp: https_New_Inr)
  then show ?thesis
    by (auto simp: Current_def before_def time_add_def ReviewLifetime_def split: option.splits)
qed


lemma unescape_prefix:
  assumes "unescape (a @ b) = Some d" and "b \<noteq> [] \<Longrightarrow> hd b = CHR ''?''"
  shows "\<exists>d'. unescape a = Some d'"
  using assms
proof (induction a arbitrary: d rule: unescape.induct)
  case 1
  then show ?case by simp
next
  case (2 c cs)
  show ?case
  proof (cases "c = CHR ''%''")
    case False
    then show ?thesis using 2 by (fastforce split: if_splits)
  next
    case True
    have mark: "hex_value CHR ''?'' = None" by code_simp
    show ?thesis
    proof (cases cs)
      case Nil
      then show ?thesis
        using 2(3,4) True mark by (cases b) (auto split: list.splits option.splits)
    next
      case (Cons h hs)
      then show ?thesis
      proof (cases hs)
        case Nil
        then show ?thesis
          using 2(3,4) True mark Cons by (cases b) (auto split: list.splits option.splits)
      next
        case (Cons l rest)
        have cs: "cs = h # l # rest" using \<open>cs = h # hs\<close> Cons by simp
        obtain x y d' where v: "hex_value h = Some x" "hex_value l = Some y" "unescape (rest @ b) = Some d'"
          using 2(3) True cs by (auto split: option.splits)
        then have "\<exists>d'. unescape rest = Some d'"
          using 2(1) [OF True \<open>cs = h # hs\<close> Cons refl v(1,2) v(3)] 2(4) by blast
        then show ?thesis using True cs v by auto
      qed
    qed
  qed
qed

lemma ParseRequestURI_defined:
  assumes "unescape target = Some d"
  shows "\<exists>u. ParseRequestURI target = Some u"
proof -
  have cut: "\<exists>d'. unescape (fst (cut_query target)) = Some d'"
    using unescape_prefix [of "fst (cut_query target)" "if CHR ''?'' \<in> set target then ''?'' @ snd (cut_query target) else []"]
      assms cut_query_parts(1) [of target] by (simp split: if_splits)
  have "\<exists>d'. unescape (butlast target) = Some d'" if "has_suffix target ''?''"
    using unescape_prefix [of "butlast target" "''?''" d] has_suffixD [OF that] assms by auto
  then show ?thesis using cut by (auto simp: ParseRequestURI_def Let_def)
qed


section \<open>Properties\<close>

text \<open>
  which request targets are accepted.  The comparison of the parsed target with the original is always
  true for targets of the allowed characters: a target is accepted exactly when it has at most 1024 allowed
  characters, starts with a single slash and all its percent escapes, in path and query, decode to bytes
  other than control characters and backslashes.
\<close>

theorem request_target_accepted:
  "validRequestTarget target \<longleftrightarrow>
     0 < length target \<and> length target \<le> 1024 \<and> hd target = CHR ''/'' \<and> \<not> has_prefix target ''//'' \<and>
     list_all is_target_char target \<and> (\<exists>decoded. unescape target = Some decoded \<and> list_all decoded_ok decoded)"
  (is "_ \<longleftrightarrow> ?ok")
proof
  assume "validRequestTarget target"
  then show ?ok by (auto simp: validRequestTarget_def MaxRequestTargetBytes_def split: option.splits)
next
  assume ok: ?ok
  then obtain decoded where d: "unescape target = Some decoded" "list_all decoded_ok decoded" by blast
  obtain u where u: "ParseRequestURI target = Some u" using ParseRequestURI_defined [OF d(1)] by blast
  have "RequestURI u = target" by (rule RequestURI_ParseRequestURI [OF u]) (use ok in auto)
  then show "validRequestTarget target" using ok d u by (simp add: validRequestTarget_def MaxRequestTargetBytes_def)
qed

definition visible :: "char \<Rightarrow> bool" where
  "visible c \<longleftrightarrow> CHR 0x21 \<le> c \<and> c \<le> CHR 0x7E"

lemma alnum_visible: "is_alnum c \<Longrightarrow> visible c"
  by (auto simp: is_alnum_def is_lower_def is_upper_def is_digit_def visible_def less_eq_char_def)

lemma target_char_visible:
  assumes "is_target_char c"
  shows "visible c"
proof (cases "is_alnum c \<or> c = CHR 0x27")
  case True
  moreover have "visible CHR 0x27" by code_simp
  ultimately show ?thesis using alnum_visible by blast
next
  case False
  then have "c \<in> set ''-._~!$&()*+,;=:@/?%''" using assms by (simp only: is_target_char_def) blast
  moreover have "list_all visible ''-._~!$&()*+,;=:@/?%''" by code_simp
  ultimately show ?thesis by (simp only: list_all_iff)
qed

lemma split_on_chars: "c \<in> set s \<Longrightarrow> c = sep \<or> (\<exists>l\<in>set (split_on sep s). c \<in> set l)"
  by (induction s) (auto split: list.splits)

lemma server_name_visible:
  assumes "validServerName name" and "c \<in> set (to_lower name)"
  shows "visible c"
proof -
  obtain c' where c': "c' \<in> set name" "c = lower_char c'" using assms(2) by (auto simp: to_lower_def)
  have "c' = CHR ''.'' \<or> is_label_char c'"
    using split_on_chars [OF c'(1), of "CHR ''.''"] assms(1) by (auto simp: validServerName_def valid_label_def list_all_iff)
  moreover have "visible (lower_char CHR ''-'')" "visible (lower_char CHR ''.'')" by code_simp+
  ultimately show ?thesis
    using alnum_visible [of "lower_char c'"] is_label_char_lower [of c'] c'(2) by (auto simp: is_label_char_def)
qed

lemma method_cases: "ValidateHTTPSSelection s = Inr () \<Longrightarrow> hs_Method s \<in> {''GET'', ''HEAD''}"
  by (auto simp: ValidateHTTPSSelection_def)

text \<open>
  C33: the request that is reviewed is the request that is sent.  The bytes of a plan are the method, the
  selected target unchanged, the lower-case server name and the fixed headers; target and name consist of
  visible ASCII characters, so that no line break or blank can be smuggled in; and their number is the
  disclosed one, below the ceiling for written bytes.
\<close>

theorem https_request_exact:
  assumes "New binding c now = Inr p"
  shows "\<exists>bytes. RequestBytes p = Inr bytes \<and>
     bytes = hs_Method (hc_Selection c) @ '' '' @ hc_RequestTarget c @ '' HTTP/1.1'' @ crlf @
       ''Host: '' @ to_lower (hc_ServerName c) @ crlf @ fixed_headers \<and>
     hs_Method (hc_Selection c) \<in> {''GET'', ''HEAD''} \<and>
     list_all visible (hc_RequestTarget c @ to_lower (hc_ServerName c)) \<and>
     length bytes = hb_MaxRequestBytes (hd_Budget p) \<and> length bytes \<le> hb_MaxTransportWriteBytes (hd_Budget p)"
proof -
  let ?c = "c\<lparr>hc_ServerName := to_lower (hc_ServerName c)\<rparr>"
  from assms obtain request where v: "ValidateConfiguration c = Inr ()" and r: "requestBytes ?c = Inr request"
    and p: "hd_Profile p = Profile" "hd_Configuration p = ?c" "hd_Budget p = https_budget_v1 (length request)"
    unfolding https_New_Inr by auto
  have ok: "validRequestTarget (hc_RequestTarget c)" "validServerName (hc_ServerName c)"
      "ValidateHTTPSSelection (hc_Selection c) = Inr ()"
    using v by (simp_all add: https_ValidateConfiguration_Inr)
  note m = method_cases [OF ok(3)]
  have bytes: "request = hs_Method (hc_Selection c) @ '' '' @ hc_RequestTarget c @ '' HTTP/1.1'' @ crlf @
       ''Host: '' @ to_lower (hc_ServerName c) @ crlf @ fixed_headers"
    using requestBytes_valid [of ?c] ok(1) r by simp
  have "length fixed_headers = 123" by code_simp
  then have "length request \<le> 32768"
    using ok(1,2) m
    by (auto simp: bytes crlf_def validRequestTarget_def MaxRequestTargetBytes_def validServerName_def)
  moreover have "list_all visible (hc_RequestTarget c @ to_lower (hc_ServerName c))"
    using ok(1) target_char_visible server_name_visible [OF ok(2)]
    by (auto simp: validRequestTarget_def list_all_iff)
  ultimately show ?thesis
    using p r m bytes by (auto simp: RequestBytes_def https_budget_v1_def)
qed

text \<open>
  C34: what an HTTPS review discloses.  The endpoint is one eligible host at port 443 of the selected family,
  different from the source; certificates are verified, nothing is retried, followed or resolved; the review
  is current for exactly the thirty seconds, half open, after its creation; and two plans have the same
  selection exactly when they were made for the same observer, source, set of enrolled prefixes and
  configuration, up to the case of the server name.
\<close>

theorem https_plan_safe:
  assumes "New binding c now = Inr p" and "New binding' c' now' = Inr p'"
  shows "EligibleHost (ap_Addr (hc_Endpoint c)) \<and> ap_Port (hc_Endpoint c) = 443 \<and>
     (if Is4 (ap_Addr (hc_Endpoint c)) then hs_Family (hc_Selection c) = FamilyIPv4
      else hs_Family (hc_Selection c) = FamilyIPv6) \<and>
     cb_Source binding \<noteq> ap_Addr (hc_Endpoint c) \<and>
     po_VerifyServerIdentity (hd_Policy p) \<and> \<not> po_FollowRedirects (hd_Policy p) \<and> \<not> po_ResolveNames (hd_Policy p) \<and>
     hb_MaxRequests (hd_Budget p) = 1 \<and> hb_MaxRetries (hd_Budget p) = 0 \<and>
     (\<forall>t. Current p t \<longleftrightarrow> nano_time t \<and> wall now \<le> wall t \<and> wall t < wall now + 30 * second) \<and>
     (SameSelection p p' \<longleftrightarrow>
        cb_Observer binding = cb_Observer binding' \<and> cb_Source binding = cb_Source binding' \<and>
        mset (cb_Prefixes binding) = mset (cb_Prefixes binding') \<and>
        c\<lparr>hc_ServerName := to_lower (hc_ServerName c)\<rparr> = c'\<lparr>hc_ServerName := to_lower (hc_ServerName c')\<rparr>)"
proof -
  let ?l = "\<lambda>c. c\<lparr>hc_ServerName := to_lower (hc_ServerName c)\<rparr>"
  have sorted: "sort xs = sort ys \<longleftrightarrow> mset xs = mset ys" for xs ys :: "string list"
    by (metis mset_sort properties_for_sort sorted_sort)
  have endpoint: "hc_Endpoint c = hc_Endpoint c'" if "?l c = ?l c'"
    using arg_cong [OF that, of hc_Endpoint] by simp
  from assms(1) obtain m request where v: "ValidateConfiguration c = Inr ()" and ne: "cb_Source binding \<noteq> ap_Addr (hc_Endpoint c)"
    and r: "requestBytes (?l c) = Inr request" and
    p: "hd_Profile p = Profile" "hd_Binding p = binding\<lparr>cb_Prefixes := sort (cb_Prefixes binding)\<rparr>" "hd_Configuration p = ?l c"
      "hd_OutsideEnrolledPrefixes p = (\<not> m)" "hd_Policy p = https_policy_v1" "hd_Budget p = https_budget_v1 (length request)"
      "m \<longleftrightarrow> (\<exists>raw\<in>set (cb_Prefixes binding). Contains (enrolled raw) (ap_Addr (hc_Endpoint c)))"
    unfolding https_New_Inr Validate_Inr by auto
  from assms(2) obtain m' request' where r': "requestBytes (?l c') = Inr request'" and
    p': "hd_Profile p' = Profile" "hd_Binding p' = binding'\<lparr>cb_Prefixes := sort (cb_Prefixes binding')\<rparr>" "hd_Configuration p' = ?l c'"
      "hd_OutsideEnrolledPrefixes p' = (\<not> m')" "hd_Policy p' = https_policy_v1" "hd_Budget p' = https_budget_v1 (length request')"
      "m' \<longleftrightarrow> (\<exists>raw\<in>set (cb_Prefixes binding'). Contains (enrolled raw) (ap_Addr (hc_Endpoint c')))"
    unfolding https_New_Inr Validate_Inr by auto
  have "SameSelection p p' \<longleftrightarrow> cb_Observer binding = cb_Observer binding' \<and> cb_Source binding = cb_Source binding' \<and>
        mset (cb_Prefixes binding) = mset (cb_Prefixes binding') \<and> ?l c = ?l c'"
    using endpoint r r' mset_eq_setD [of "cb_Prefixes binding" "cb_Prefixes binding'"]
    by (auto simp: SameSelection_def p p' sorted)
  moreover have "Is4 (ap_Addr (hc_Endpoint c)) \<or> Is6 (ap_Addr (hc_Endpoint c))"
    using v by (auto simp: https_ValidateConfiguration_Inr EligibleHost_def Is4_def Is6_def IsValid_def split: addr.splits)
  ultimately show ?thesis
    using v ne https_Current_window [OF assms(1)] by (auto simp: https_ValidateConfiguration_Inr p https_policy_v1_def https_budget_v1_def)
qed


section \<open>A sample review\<close>

definition sample_https_configuration :: https_configuration where
  "sample_https_configuration = \<lparr>hc_Selection = \<lparr>hs_ID = ''https1'', hs_EndpointID = ''endpoint1'', hs_RequestID = ''request1'',
       hs_Family = FamilyIPv4, hs_Method = ''HEAD'', hs_ExpectedStatus = 204\<rparr>,
     hc_Endpoint = \<lparr>ap_Addr = Addr4 3232235777, ap_Port = 443\<rparr>, hc_ServerName = ''Status.Example'',
     hc_RequestTarget = ''/check?mode=1'', hc_DestinationPolicy = ExactEndpoint\<rparr>"

definition sample_https_plan :: https_plan where
  "sample_https_plan = \<lparr>hd_Profile = Profile, hd_Binding = sample_check_binding,
     hd_Configuration = sample_https_configuration\<lparr>hc_ServerName := ''status.example''\<rparr>,
     hd_OutsideEnrolledPrefixes = False, hd_Policy = https_policy_v1, hd_Budget = https_budget_v1 174,
     hd_CreatedAt = strip sample_review_time, hd_ExpiresAt = time_add (strip sample_review_time) ReviewLifetime,
     hd_Privacy = privacy_copy\<rparr>"

lemma sample_https_configuration_valid: "ValidateConfiguration sample_https_configuration = Inr ()"
  by code_simp

lemma sample_https_review: "New sample_check_binding sample_https_configuration sample_review_time = Inr sample_https_plan"
proof -
  have t: "nano_time (strip sample_review_time) \<and> nano_time (time_add (strip sample_review_time) ReviewLifetime)"
    by code_simp
  have s: "ValidateHTTPSSnapshot \<lparr>hn_Observer = cb_Observer sample_check_binding, hn_AsOf = strip sample_review_time,
      hn_WindowStart = strip sample_review_time, hn_Freshness = second, hn_Selections = [], hn_Measurements = []\<rparr> = Inr ()"
    by code_simp
  have n: "to_lower (hc_ServerName sample_https_configuration) = ''status.example''" by code_simp
  have v: "Validate (cb_Source sample_check_binding) (ap_Addr (hc_Endpoint sample_https_configuration)) (cb_Prefixes sample_check_binding) =
      Inr (cb_Prefixes sample_check_binding, True)"
    using sample_binding_valid by (simp add: sample_check_binding_def sample_https_configuration_def)
  have r: "map_sum id length (requestBytes (sample_https_configuration\<lparr>hc_ServerName := ''status.example''\<rparr>)) = Inr 174"
    by code_simp
  then obtain request where "requestBytes (sample_https_configuration\<lparr>hc_ServerName := ''status.example''\<rparr>) = Inr request" "length request = 174"
    by (cases "requestBytes (sample_https_configuration\<lparr>hc_ServerName := ''status.example''\<rparr>)") auto
  then show ?thesis
    unfolding https_New_Inr using t s v n
    by (auto simp: sample_https_plan_def sample_https_configuration_valid)
qed

theorem https_request_exact_witness:
  "\<exists>bytes. RequestBytes sample_https_plan = Inr bytes \<and> length bytes = hb_MaxRequestBytes (hd_Budget sample_https_plan)"
  using https_request_exact [OF sample_https_review] by blast

theorem https_plan_safe_witness: "SameSelection sample_https_plan sample_https_plan"
  using https_plan_safe [OF sample_https_review sample_https_review] by blast

end
