(* ===== verification/HttpsRun.thy ===== *)
theory HttpsRun
  imports HttpsPlan ReviewedRun
begin

text \<open>
  \<open>httpsrun/model.go\<close>, \<open>measurement.go\<close>, \<open>control.go\<close> and \<open>history.go\<close>: selections, samples and audit
  events of the HTTPS check, the instance \<open>https_profile\<close> of the run control for them, and the
  description of a retained run.  The decoder of the stored JSON is not modelled.
\<close>

section \<open>Data\<close>

definition EventSchemaVersion :: int where "EventSchemaVersion = 1"
definition OperationTimeout :: duration where "OperationTimeout = 8 * second"

record https_run_selection =
  hl_Plan :: https_plan
  hl_RouteObservedAt :: time
  hl_RouteFreshUntil :: time

record https_run_measurement =
  hq_StartedAt :: time
  hq_CompletedAt :: time
  hq_Exchange :: https_exchange
  hq_Request :: https_request_state
  hq_Gap :: gap_reason
  hq_Stage :: https_stage
  hq_StatusCode :: int
  hq_ResponseTimeNanoseconds :: "int option"

record https_audit_event =
  he_SchemaVersion :: int
  he_RunID :: string
  he_State :: string
  he_Outcome :: string
  he_Reason :: string
  he_At :: time
  he_Profile :: string
  he_Selection :: https_selection
  he_Observer :: observer
  he_Measurement :: "https_run_measurement option"

definition validID :: "string \<Rightarrow> bool" where
  "validID s \<longleftrightarrow> length s > 0 \<and> length s \<le> 128 \<and> tokenPattern s"

definition zero_https_measurement :: https_measurement where
  "zero_https_measurement =
     \<lparr>hm_ID = [], hm_Selection = \<lparr>hs_ID = [], hs_EndpointID = [], hs_RequestID = [], hs_Family = FamilyNone,
        hs_Method = [], hs_ExpectedStatus = 0\<rparr>,
      hm_Observer = \<lparr>o_ScopeID = [], o_SensorID = [], o_InterfaceName = [], o_InterfaceIndex = 0\<rparr>,
      hm_StartedAt = zero_time, hm_CompletedAt = zero_time, hm_Stage = HTTPSNoStage, hm_Exchange = HTTPSExchangeOther [],
      hm_Request = HTTPSRequestOther [], hm_Gap = GapNone, hm_StatusCode = 0, hm_ResponseTime = None\<rparr>"

section \<open>Measurements\<close>

definition auditMeasurement :: "https_measurement \<Rightarrow> https_run_measurement" where
  "auditMeasurement s =
     \<lparr>hq_StartedAt = strip (hm_StartedAt s), hq_CompletedAt = strip (hm_CompletedAt s), hq_Exchange = hm_Exchange s,
      hq_Request = hm_Request s, hq_Gap = hm_Gap s, hq_Stage = hm_Stage s, hq_StatusCode = hm_StatusCode s,
      hq_ResponseTimeNanoseconds = hm_ResponseTime s\<rparr>"

definition https_sample ::
  "https_run_measurement \<Rightarrow> string \<Rightarrow> https_selection \<Rightarrow> observer \<Rightarrow> https_measurement" where
  "https_sample m i s ob =
     \<lparr>hm_ID = i, hm_Selection = s, hm_Observer = ob, hm_StartedAt = hq_StartedAt m, hm_CompletedAt = hq_CompletedAt m,
      hm_Stage = hq_Stage m, hm_Exchange = hq_Exchange m, hm_Request = hq_Request m, hm_Gap = hq_Gap m,
      hm_StatusCode = hq_StatusCode m,
      hm_ResponseTime = hq_ResponseTimeNanoseconds m\<rparr>"

definition complete :: "https_measurement \<Rightarrow> bool" where
  "complete m \<longleftrightarrow> hm_Exchange m = HTTPSResponseReceived \<or> hm_Exchange m = HTTPSTimeout"

text \<open>The snapshot that the code builds around one measurement, or around none.\<close>

definition one_snapshot ::
  "observer \<Rightarrow> https_selection \<Rightarrow> time \<Rightarrow> time \<Rightarrow> https_measurement list \<Rightarrow> https_snapshot" where
  "one_snapshot ob s asOf start ms =
     \<lparr>hn_Observer = ob, hn_AsOf = asOf, hn_WindowStart = start, hn_Freshness = second, hn_Selections = [s],
      hn_Measurements = ms\<rparr>"

definition validateMeasurement :: "https_measurement \<Rightarrow> time \<Rightarrow> (run_error, unit) result" where
  "validateMeasurement m now =
     guard (\<not> nano_time (hm_StartedAt m) \<or> \<not> nano_time (hm_CompletedAt m) \<or>
            time_sub (hm_CompletedAt m) (hm_StartedAt m) > MaxCheckTime) ErrExecution
     (guard (hm_Exchange m = HTTPSResponseReceived \<and>
             (case hm_ResponseTime m of None \<Rightarrow> True | Some d \<Rightarrow> d \<ge> OperationTimeout)) ErrExecution
     (guard (ValidateHTTPSSnapshot
               (one_snapshot (hm_Observer m) (hm_Selection m) now (hm_StartedAt m) [m]) \<noteq> Inr ()) ErrExecution
     (Inr ())))"

definition validateSample ::
  "https_measurement \<Rightarrow> run_error option \<Rightarrow> https_run_selection \<Rightarrow> string \<Rightarrow> time \<Rightarrow> time \<Rightarrow> time \<Rightarrow>
   (run_error, https_measurement option) result" where
  "validateSample s executionErr selection i started returned expires =
     (if s = zero_https_measurement then (if executionErr \<noteq> None then Inr None else Inl ErrExecution)
      else
        (let d = hl_Plan selection in
         guard (hm_ID s \<noteq> i \<or> hm_Selection s \<noteq> hc_Selection (hd_Configuration d) \<or>
                hm_Observer s \<noteq> cb_Observer (hd_Binding d) \<or> before (hm_StartedAt s) started \<or>
                before (hm_StartedAt s) (hl_RouteObservedAt selection) \<or> \<not> before (hm_StartedAt s) expires \<or>
                complete s \<and> \<not> before (hm_CompletedAt s) expires \<or>
                executionErr = None \<and> \<not> complete s \<or> validateMeasurement s returned \<noteq> Inr ()) ErrExecution
         (Inr (Some s))))"

section \<open>Events\<close>

definition phase_ok :: "https_audit_event \<Rightarrow> bool" where
  "phase_ok e \<longleftrightarrow>
     (if he_State e = ''authorized'' \<or> he_State e = ''admitted'' then
        he_Outcome e = [] \<and> he_Reason e = [] \<and> he_Measurement e = None
      else if he_State e = ''finished'' then
        (if he_Outcome e = ''completed'' then he_Reason e = [] \<and> he_Measurement e \<noteq> None
         else if he_Outcome e = ''blocked'' then he_Measurement e = None \<and>
           (he_Reason e = ''preflight-unavailable'' \<or> he_Reason e = ''selection-changed'' \<or> he_Reason e = ''review-expired'')
         else if he_Outcome e = ''canceled'' then he_Reason e = ''canceled''
         else if he_Outcome e = ''failed'' then
           he_Reason e = ''execution-error'' \<or> he_Reason e = ''measurement-invalid'' \<and> he_Measurement e = None
         else he_Outcome e = ''indeterminate'' \<and> he_Reason e = ''execution-panic'' \<and> he_Measurement e = None)
      else False)"

definition attachment_bad :: "https_audit_event \<Rightarrow> https_measurement \<Rightarrow> bool" where
  "attachment_bad e m \<longleftrightarrow>
     he_State e \<noteq> ''finished'' \<or>
     he_Outcome e \<noteq> ''completed'' \<and> he_Outcome e \<noteq> ''failed'' \<and> he_Outcome e \<noteq> ''canceled'' \<or>
     validateMeasurement m (he_At e) \<noteq> Inr () \<or> he_Outcome e = ''completed'' \<and> \<not> complete m"

definition ValidateEvent :: "https_audit_event \<Rightarrow> (run_error, unit) result" where
  "ValidateEvent e =
     guard (he_SchemaVersion e \<noteq> EventSchemaVersion \<or> \<not> hex_match 32 (he_RunID e) \<or> he_Profile e \<noteq> Profile \<or>
            \<not> nano_time (he_At e)) ErrAudit
     (bind_result
        (case he_Measurement e of
           None \<Rightarrow> Inr (one_snapshot (he_Observer e) (he_Selection e) (he_At e) (he_At e) [])
         | Some w \<Rightarrow>
             (let m = https_sample w (he_RunID e) (he_Selection e) (he_Observer e) in
              guard (attachment_bad e m) ErrAudit
              (Inr (one_snapshot (he_Observer e) (he_Selection e) (he_At e) (hm_StartedAt m) [m]))))
        (\<lambda>snapshot.
           guard (ValidateHTTPSSnapshot snapshot \<noteq> Inr ()) ErrAudit
           (guard (\<not> phase_ok e) ErrAudit (Inr ()))))"

definition normalize ::
  "https_run_selection \<Rightarrow> string \<Rightarrow> time \<Rightarrow> (run_error, https_run_selection) result" where
  "normalize s i now =
     guard (\<not> Current (hl_Plan s) now \<or> hs_ID (hc_Selection (hd_Configuration (hl_Plan s))) \<noteq> i \<or>
            \<not> nano_time (hl_RouteObservedAt s) \<or> after (hl_RouteObservedAt s) (hd_CreatedAt (hl_Plan s)) \<or>
            \<not> time_eq (hl_RouteFreshUntil s) (time_add (hl_RouteObservedAt s) ReviewLifetime) \<or>
            \<not> after (hl_RouteFreshUntil s) now) ErrPreflight
     (Inr s)"

section \<open>The HTTPS instance of the run control\<close>

definition overlong :: "time \<Rightarrow> time \<Rightarrow> bool" where
  "overlong start now \<longleftrightarrow>
     time_sub now start \<ge> OperationTimeout \<or> time_sub (strip now) (strip start) \<ge> OperationTimeout"

text \<open>A phase timeout is evidence, not a cancellation.\<close>

definition timeout_is_evidence :: "https_measurement option \<Rightarrow> bool" where
  "timeout_is_evidence sample \<longleftrightarrow> (case sample of None \<Rightarrow> False | Some m \<Rightarrow> hm_Exchange m = HTTPSTimeout)"

definition https_event ::
  "https_run_selection \<Rightarrow> string \<Rightarrow> time \<Rightarrow> https_measurement phase_info \<Rightarrow> https_audit_event" where
  "https_event s runID now ph =
     \<lparr>he_SchemaVersion = EventSchemaVersion, he_RunID = runID, he_State = ph_State ph, he_Outcome = ph_Outcome ph,
      he_Reason = ph_Reason ph, he_At = now, he_Profile = Profile,
      he_Selection = hc_Selection (hd_Configuration (hl_Plan s)), he_Observer = cb_Observer (hd_Binding (hl_Plan s)),
      he_Measurement = map_option auditMeasurement (ph_Sample ph)\<rparr>"

definition https_profile ::
  "(string, https_run_selection, https_measurement, https_audit_event) run_profile" where
  "https_profile =
     \<lparr>rp_clock_ok = (\<lambda>now. nano_time now \<and> nano_time (time_add now RunInterval)), rp_overlong = overlong,
      rp_key_ok = validID, rp_key_of = (\<lambda>s. hs_ID (hc_Selection (hd_Configuration (hl_Plan s)))),
      rp_normalize = normalize, rp_evidence_at = hl_RouteObservedAt,
      rp_review_expires = (\<lambda>s. hd_ExpiresAt (hl_Plan s)), rp_route_fresh_until = hl_RouteFreshUntil,
      rp_same_selection = (\<lambda>a b. SameSelection (hl_Plan a) (hl_Plan b)), rp_validate_sample = validateSample,
      rp_timeout_is_evidence = timeout_is_evidence, rp_event = https_event,
      rp_event_valid = (\<lambda>e. ValidateEvent e = Inr ())\<rparr>"

text \<open>The sections of \<open>httpsrun/control.go\<close>: those of the shared control at this profile.\<close>

definition https_clockLocked ::
  "time \<Rightarrow> https_run_selection control \<Rightarrow> (run_error, time) result \<times> https_run_selection control" where
  "https_clockLocked now c = clockLocked https_profile now c"

definition https_prepare_reserve ::
  "string \<Rightarrow> (https_run_selection, https_measurement) answers \<Rightarrow> https_run_selection control \<Rightarrow> (run_error, time) result \<times> https_run_selection control" where
  "https_prepare_reserve key an c = prepare_reserve https_profile key an c"

definition https_prepare_commit ::
  "string \<Rightarrow> time \<Rightarrow> https_run_selection \<times> ticket \<times> byte list \<Rightarrow> (https_run_selection, https_measurement) answers \<Rightarrow>
   https_run_selection control \<Rightarrow> (run_error, https_run_selection pending_review) result \<times> https_run_selection control" where
  "https_prepare_commit key start drawn an c = prepare_commit https_profile key start drawn an c"

definition https_run_reserve ::
  "ticket \<Rightarrow> bool \<Rightarrow> (https_run_selection, https_measurement) answers \<Rightarrow> https_run_selection control \<Rightarrow>
   (run_error, https_run_selection pending_review \<times> time) result \<times> https_run_selection control" where
  "https_run_reserve ticket consent an c = run_reserve https_profile ticket consent an c"

definition https_run_revalidate ::
  "https_run_selection pending_review \<Rightarrow> time \<Rightarrow> https_run_selection \<Rightarrow> time \<Rightarrow>
   (string, https_run_selection, https_measurement) op" where
  "https_run_revalidate approved start fresh now = run_revalidate https_profile approved start fresh now"

definition https_run_handover ::
  "https_run_selection pending_review \<Rightarrow> time \<Rightarrow> https_run_selection \<Rightarrow> time \<Rightarrow>
   run_error option \<Rightarrow> (string, https_run_selection, https_measurement) op" where
  "https_run_handover approved start fresh now ctx = run_handover https_profile approved start fresh now ctx"

definition https_run_validate ::
  "https_run_selection pending_review \<Rightarrow> time \<Rightarrow> https_run_selection \<Rightarrow> time \<Rightarrow> https_measurement \<Rightarrow>
   run_error option \<Rightarrow> time \<Rightarrow> run_error option \<Rightarrow> (string, https_run_selection, https_measurement) op" where
  "https_run_validate approved start fresh executionStarted sample err now ctx = run_validate https_profile approved start fresh executionStarted sample err now ctx"

definition https_advance ::
  "(https_run_selection, https_measurement) answers \<Rightarrow> https_run_selection control \<Rightarrow> (string, https_run_selection, https_measurement) op \<Rightarrow>
   https_run_selection control \<times> (string, https_run_selection, https_measurement) op option \<times> (https_run_selection, https_measurement, https_audit_event) item list" where
  "https_advance an c opn = advance https_profile an c opn"

section \<open>Retained runs\<close>

datatype https_history_error = ErrHistory

record https_historical_assessment =
  hx_State :: string
  hx_Confidence :: string
  hx_Summary :: string
  hx_NextStep :: string
  hx_ExpectationMatched :: "bool option"

record https_retained_run =
  ho_RunID :: string
  ho_Profile :: string
  ho_SchemaVersion :: int
  ho_Selection :: https_selection
  ho_Observer :: observer
  ho_LastAuditAt :: time
  ho_AuthorizationRetained :: bool
  ho_AdmissionRetained :: bool
  ho_TerminalRetained :: bool
  ho_Outcome :: string
  ho_Reason :: string
  ho_Measurement :: "https_run_measurement option"
  ho_Assessment :: https_historical_assessment

fun https_result_text :: "https_result \<Rightarrow> string" where
  "https_result_text HTTPSUnknown = ''unknown''"
| "https_result_text HTTPSUnmeasured = ''not-measured''"
| "https_result_text HTTPSUnfinished = ''incomplete''"
| "https_result_text HTTPSConnectionFailure = ''connection-failure''"
| "https_result_text HTTPSTransportFailure = ''transport-failure''"
| "https_result_text HTTPSTLSFailure = ''tls-failure''"
| "https_result_text HTTPSProtocolFailure = ''protocol-failure''"
| "https_result_text HTTPSTimedOut = ''timeout''"
| "https_result_text HTTPSStatusResponse = ''status-response''"
| "https_result_text HTTPSRedirectResponse = ''redirect-response''"

definition unknown_assessment :: https_historical_assessment where
  "unknown_assessment = \<lparr>hx_State = ''unknown'', hx_Confidence = ''unknown'',
     hx_Summary = ''No terminal audit is retained for this run; its outcome is unknown.'',
     hx_NextStep = ''Inspect retained evidence without repeating traffic. Missing records do not prove that nothing was sent.'',
     hx_ExpectationMatched = None\<rparr>"

definition acceptable_event :: "https_audit_event \<Rightarrow> time \<Rightarrow> https_audit_event \<Rightarrow> bool" where
  "acceptable_event first asOf e \<longleftrightarrow>
     ValidateEvent e = Inr () \<and> \<not> after (he_At e) asOf \<and> he_RunID e = he_RunID first \<and>
     he_SchemaVersion e = he_SchemaVersion first \<and> he_Profile e = he_Profile first \<and>
     he_Selection e = he_Selection first \<and> he_Observer e = he_Observer first"

text \<open>The measurement of the terminal event; an error when it starts before a retained earlier phase.\<close>

definition retained_sample ::
  "https_audit_event \<Rightarrow> (string \<rightharpoonup> https_audit_event) \<Rightarrow> (https_history_error, https_run_measurement option) result" where
  "retained_sample first phases =
     (case phases ''finished'' of
        None \<Rightarrow> Inr None
      | Some terminal \<Rightarrow>
          (case he_Measurement terminal of
             None \<Rightarrow> Inr None
           | Some w \<Rightarrow>
               (let m = https_sample w (he_RunID first) (he_Selection first) (he_Observer first) in
                guard (starts_before he_At phases ''authorized'' (hm_StartedAt m) \<or>
                       starts_before he_At phases ''admitted'' (hm_StartedAt m)) ErrHistory
                (Inr (Some (auditMeasurement m))))))"

definition assess_retained ::
  "https_audit_event \<Rightarrow> https_run_measurement \<Rightarrow> (https_history_error, https_historical_assessment) result" where
  "assess_retained first w =
     (let m = https_sample w (he_RunID first) (he_Selection first) (he_Observer first) in
      case AssessHTTPS (one_snapshot (hm_Observer m) (hm_Selection m) (hm_CompletedAt m) (hm_StartedAt m) [m]) of
        Inl _ \<Rightarrow> Inl ErrHistory
      | Inr rep \<Rightarrow>
          (case hr_Checks rep of
             [c] \<Rightarrow>
               Inr \<lparr>hx_State = https_result_text (ha_Result c), hx_Confidence = confidence_text (ha_Confidence c),
                    hx_Summary = ''Recorded sample: '' @ ha_Summary c,
                    hx_NextStep = ''Compare evidence from the same time; this does not establish current connectivity or security. '' @ ha_NextStep c,
                    hx_ExpectationMatched = ha_ExpectationMatched c\<rparr>
           | _ \<Rightarrow> Inl ErrHistory))"

definition retained_assessment ::
  "https_audit_event \<Rightarrow> bool \<Rightarrow> https_run_measurement option \<Rightarrow> (https_history_error, https_historical_assessment) result" where
  "retained_assessment first finished measurement =
     (if \<not> finished then Inr unknown_assessment
      else (case measurement of
        None \<Rightarrow> Inr (unknown_assessment\<lparr>hx_Summary := ''The retained terminal audit contains no usable HTTPS measurement.''\<rparr>)
      | Some w \<Rightarrow> assess_retained first w))"

definition describe_retained ::
  "https_audit_event \<Rightarrow> (string \<rightharpoonup> https_audit_event) \<Rightarrow> time \<Rightarrow> https_run_measurement option \<Rightarrow> https_historical_assessment \<Rightarrow>
   https_retained_run" where
  "describe_retained first phases latest_at measurement assessment =
     \<lparr>ho_RunID = he_RunID first, ho_Profile = he_Profile first, ho_SchemaVersion = he_SchemaVersion first,
      ho_Selection = he_Selection first, ho_Observer = he_Observer first, ho_LastAuditAt = strip latest_at,
      ho_AuthorizationRetained = (phases ''authorized'' \<noteq> None),
      ho_AdmissionRetained = (phases ''admitted'' \<noteq> None),
      ho_TerminalRetained = (phases ''finished'' \<noteq> None),
      ho_Outcome = (case phases ''finished'' of None \<Rightarrow> ''unknown'' | Some terminal \<Rightarrow> he_Outcome terminal),
      ho_Reason = (case phases ''finished'' of None \<Rightarrow> [] | Some terminal \<Rightarrow> he_Reason terminal),
      ho_Measurement = measurement, ho_Assessment = assessment\<rparr>"

definition DescribeRetainedRun ::
  "https_audit_event list \<Rightarrow> time \<Rightarrow> (https_history_error, https_retained_run) result" where
  "DescribeRetainedRun evs asOf =
     guard (length evs < 1 \<or> length evs > 3 \<or> \<not> nano_time asOf) ErrHistory
     (let first = hd evs in
      case collect_phases (acceptable_event first asOf) he_State he_At Map.empty (he_At first) evs of
        None \<Rightarrow> Inl ErrHistory
      | Some (phases, latest_at) \<Rightarrow>
          guard (\<not> in_phase_order he_At phases zero_time [''authorized'', ''admitted'', ''finished'']) ErrHistory
          (bind_result (retained_sample first phases) (\<lambda>measurement.
           bind_result (retained_assessment first (phases ''finished'' \<noteq> None) measurement) (\<lambda>assessment.
           Inr (describe_retained first phases latest_at measurement assessment)))))"


section \<open>Snapshots of one run\<close>

definition context_ok :: "observer \<Rightarrow> https_selection \<Rightarrow> bool" where
  "context_ok ob s \<longleftrightarrow> validObserver ob \<and> o_InterfaceIndex ob \<le> 2147483647 \<and> ValidateHTTPSSelection s = Inr ()"

lemma https_empty_snapshot_valid:
  assumes "wall_only t"
  shows "valid_https_snapshot (one_snapshot ob s t t []) \<longleftrightarrow>
     context_ok ob s \<and> nano_time t \<and> nano_time (time_add t second)"
  using assms
  by (auto simp: ValidateHTTPSSnapshot_iff https_context_ok_def one_snapshot_def context_ok_def resolverTime_nano
      go_time quality_limits duration_units int64_clamp_def int64_min_def int64_max_def)

lemma https_sample_snapshot_valid:
  "valid_https_snapshot (one_snapshot (hm_Observer m) (hm_Selection m) t (hm_StartedAt m) [m]) \<longleftrightarrow>
     context_ok (hm_Observer m) (hm_Selection m) \<and> nano_time t \<and> nano_time (time_add t second) \<and>
     nano_time (hm_StartedAt m) \<and> nano_time (hm_CompletedAt m) \<and> \<not> after (hm_StartedAt m) t \<and>
     time_sub t (hm_StartedAt m) \<le> MaxWindow \<and> validToken (hm_ID m) \<and>
     \<not> before (hm_CompletedAt m) (hm_StartedAt m) \<and> \<not> after (hm_CompletedAt m) t \<and> https_evidence_ok m"
proof -
  have refl: "\<not> before t t" for t by (simp add: before_def split: option.splits)
  show ?thesis
    by (auto simp: ValidateHTTPSSnapshot_iff https_context_ok_def one_snapshot_def context_ok_def resolverTime_nano
        https_allowed_def https_stamps_def refl quality_limits duration_units)
qed

lemma https_validateMeasurement_Inr:
  "validateMeasurement m t = Inr () \<longleftrightarrow>
     nano_time (hm_StartedAt m) \<and> nano_time (hm_CompletedAt m) \<and>
     time_sub (hm_CompletedAt m) (hm_StartedAt m) \<le> MaxCheckTime \<and>
     (hm_Exchange m = HTTPSResponseReceived \<longrightarrow> (\<exists>d. hm_ResponseTime m = Some d \<and> d < OperationTimeout)) \<and>
     valid_https_snapshot (one_snapshot (hm_Observer m) (hm_Selection m) t (hm_StartedAt m) [m])"
  by (auto simp: validateMeasurement_def not_le not_less split: option.splits)

text \<open>A validated measurement stays valid until a day after its start.\<close>

lemma https_validateMeasurement_later:
  assumes "validateMeasurement m ret = Inr ()" and "wall_only (hm_StartedAt m)" and "wall_only (hm_CompletedAt m)"
    and "wall_only t" and "wall ret \<le> wall t" and "nano_time t" and "nano_time (time_add t second)"
    and "wall t - wall (hm_StartedAt m) \<le> MaxWindow"
  shows "validateMeasurement m t = Inr ()"
proof -
  have "time_sub t (hm_StartedAt m) \<le> MaxWindow"
    using assms(2,4,8) by (simp add: go_time int64_clamp_def MaxWindow_def duration_units int64_min_def)
  then show ?thesis
    using assms(1-7) unfolding https_validateMeasurement_Inr https_sample_snapshot_valid by (simp add: go_time)
qed

lemma https_validateSample_Inr:
  "validateSample smp err selection i started returned expires = Inr m \<longleftrightarrow>
     (smp = zero_https_measurement \<and> err \<noteq> None \<and> m = None \<or>
      smp \<noteq> zero_https_measurement \<and> m = Some smp \<and> hm_ID smp = i \<and>
      hm_Selection smp = hc_Selection (hd_Configuration (hl_Plan selection)) \<and>
      hm_Observer smp = cb_Observer (hd_Binding (hl_Plan selection)) \<and> \<not> before (hm_StartedAt smp) started \<and>
      \<not> before (hm_StartedAt smp) (hl_RouteObservedAt selection) \<and> before (hm_StartedAt smp) expires \<and>
      (complete smp \<longrightarrow> before (hm_CompletedAt smp) expires) \<and> (err = None \<longrightarrow> complete smp) \<and>
      validateMeasurement smp returned = Inr ())"
  by (auto simp: validateSample_def Let_def split: if_splits)

section \<open>Events of a run are valid\<close>

lemma https_plan_context:
  assumes "HttpsPlan.New binding c now = Inr p"
  shows "context_ok (cb_Observer (hd_Binding p)) (hc_Selection (hd_Configuration p))"
  using assms
  by (auto simp: https_New_Inr https_ValidateConfiguration_Inr context_ok_def ValidateHTTPSSnapshot_iff https_context_ok_def)

lemma https_event_fields [simp]:
  "he_SchemaVersion (https_event s run t info) = EventSchemaVersion" "he_RunID (https_event s run t info) = run"
  "he_State (https_event s run t info) = ph_State info" "he_Outcome (https_event s run t info) = ph_Outcome info"
  "he_Reason (https_event s run t info) = ph_Reason info" "he_At (https_event s run t info) = t"
  "he_Profile (https_event s run t info) = Profile"
  "he_Selection (https_event s run t info) = hc_Selection (hd_Configuration (hl_Plan s))"
  "he_Observer (https_event s run t info) = cb_Observer (hd_Binding (hl_Plan s))"
  "he_Measurement (https_event s run t info) = map_option auditMeasurement (ph_Sample info)"
  by (simp_all add: https_event_def)

lemma https_blank_event_valid:
  assumes "context_ok (cb_Observer (hd_Binding (hl_Plan s))) (hc_Selection (hd_Configuration (hl_Plan s)))"
    and "hex_match 32 run" and "wall_only t" and "nano_time t" and "nano_time (time_add t second)" and "ph_Sample info = None"
    and "phase_ok (https_event s run t info)"
  shows "ValidateEvent (https_event s run t info) = Inr ()"
  using assms by (simp add: ValidateEvent_def https_empty_snapshot_valid)

lemma https_sample_audit:
  assumes "wall_only (hm_StartedAt m)" and "wall_only (hm_CompletedAt m)"
  shows "https_sample (auditMeasurement m) (hm_ID m) (hm_Selection m) (hm_Observer m) = m"
  using assms by (simp add: https_sample_def auditMeasurement_def strip_id)

lemma https_measured_event_valid:
  assumes "hm_Selection m = hc_Selection (hd_Configuration (hl_Plan s))"
    and "hm_Observer m = cb_Observer (hd_Binding (hl_Plan s))" and "hm_ID m = run" and "hex_match 32 run"
    and "wall_only (hm_StartedAt m)" and "wall_only (hm_CompletedAt m)" and "validateMeasurement m t = Inr ()"
    and "ph_Sample info = Some m" and "ph_State info = ''finished''"
    and "ph_Outcome info = ''completed'' \<and> complete m \<or> ph_Outcome info = ''failed'' \<or> ph_Outcome info = ''canceled''"
    and "phase_ok (https_event s run t info)"
  shows "ValidateEvent (https_event s run t info) = Inr ()"
proof -
  have m: "https_sample (auditMeasurement m) run (hc_Selection (hd_Configuration (hl_Plan s)))
      (cb_Observer (hd_Binding (hl_Plan s))) = m"
    using https_sample_audit [OF assms(5,6)] assms(1-3) by simp
  have "\<not> attachment_bad (https_event s run t info) m"
    using assms(7,9,10) by (auto simp: attachment_bad_def)
  moreover have "nano_time t"
      "valid_https_snapshot (one_snapshot (hm_Observer m) (hm_Selection m) t (hm_StartedAt m) [m])"
    using assms(7) by (simp_all add: https_validateMeasurement_Inr https_sample_snapshot_valid)
  ultimately show ?thesis
    using assms(1,2,4,8,11) by (simp add: ValidateEvent_def Let_def m)
qed



section \<open>Retained runs\<close>

lemma https_ValidateEvent_facts:
  assumes "ValidateEvent e = Inr ()"
  shows "he_State e \<in> {''authorized'', ''admitted'', ''finished''} \<and> nano_time (he_At e) \<and>
     (\<forall>w. he_Measurement e = Some w \<longrightarrow> he_State e = ''finished'' \<and>
        validateMeasurement (https_sample w (he_RunID e) (he_Selection e) (he_Observer e)) (he_At e) = Inr ())"
  using assms
  by (auto simp: ValidateEvent_def phase_ok_def attachment_bad_def Let_def split: option.splits if_splits)

lemma https_measured_finished:
  assumes "ValidateEvent e = Inr ()" and "he_Measurement e = Some w"
  shows "he_State e = ''finished''"
    and "validateMeasurement (https_sample w (he_RunID e) (he_Selection e) (he_Observer e)) (he_At e) = Inr ()"
  using https_ValidateEvent_facts [OF assms(1)] assms(2) by blast+

interpretation https_phases: measured_phases he_State he_At "\<lambda>e. ValidateEvent e = Inr ()" he_Measurement hq_StartedAt
  by unfold_locales (use https_ValidateEvent_facts in blast)+


definition wall_only_event :: "https_audit_event \<Rightarrow> bool" where
  "wall_only_event e \<longleftrightarrow> wall_only (he_At e) \<and>
     (\<forall>w. he_Measurement e = Some w \<longrightarrow> wall_only (hq_StartedAt w) \<and> wall_only (hq_CompletedAt w))"

text \<open>The retained measurement passes validation once more at its own end.\<close>

lemma https_retained_snapshot_valid:
  assumes "validateMeasurement m t = Inr ()" and "wall_only (hm_StartedAt m)" and "wall_only (hm_CompletedAt m)"
    and "wall_only t"
  shows "valid_https_snapshot (one_snapshot (hm_Observer m) (hm_Selection m) (hm_CompletedAt m) (hm_StartedAt m) [m])"
proof -
  have v: "nano_time (hm_CompletedAt m)" "wall (hm_CompletedAt m) \<le> wall t" "nano_time (time_add t second)"
      "time_sub (hm_CompletedAt m) (hm_StartedAt m) \<le> MaxCheckTime"
    using assms by (auto simp: https_validateMeasurement_Inr https_sample_snapshot_valid go_time)
  have "nano_time (time_add (hm_CompletedAt m) second)"
    using v(1-3) by (auto simp: nano_time_iff time_add_def fits_int64_def zero_wall_def int64_min_def second_def)
  moreover have "time_sub (hm_CompletedAt m) (hm_StartedAt m) \<le> MaxWindow"
    using v(4) by (simp add: quality_limits duration_units)
  ultimately show ?thesis
    using assms by (simp add: https_validateMeasurement_Inr https_sample_snapshot_valid go_time)
qed

lemma https_retained_check:
  assumes "valid_https_snapshot (one_snapshot (hm_Observer m) (hm_Selection m) (hm_CompletedAt m) (hm_StartedAt m) [m])"
  shows "\<exists>rep. AssessHTTPS (one_snapshot (hm_Observer m) (hm_Selection m) (hm_CompletedAt m) (hm_StartedAt m) [m]) = Inr rep \<and>
     hr_Checks rep = [assessHTTPSMeasurement m (hm_CompletedAt m) second]"
  using assms by (simp add: AssessHTTPS_Inr one_snapshot_def https_check_of_def)

definition expected_status :: "https_measurement \<Rightarrow> bool" where
  "expected_status m \<longleftrightarrow> hm_Exchange m = HTTPSResponseReceived \<and> hm_StatusCode m = hs_ExpectedStatus (hm_Selection m)"

lemma https_assess_retained_Inr:
  assumes "validateMeasurement (https_sample w (he_RunID first) (he_Selection first) (he_Observer first)) t = Inr ()"
    and "wall_only (hq_StartedAt w)" and "wall_only (hq_CompletedAt w)" and "wall_only t"
  shows "\<exists>a. assess_retained first w = Inr a \<and>
     (hx_ExpectationMatched a = Some True \<longleftrightarrow>
        expected_status (https_sample w (he_RunID first) (he_Selection first) (he_Observer first)))"
proof -
  let ?m = "https_sample w (he_RunID first) (he_Selection first) (he_Observer first)"
  have "wall_only (hm_StartedAt ?m)" "wall_only (hm_CompletedAt ?m)"
    using assms(2,3) by (simp_all add: https_sample_def)
  from https_retained_check [OF https_retained_snapshot_valid [OF assms(1) this assms(4)]] obtain rep where
    "AssessHTTPS (one_snapshot (hm_Observer ?m) (hm_Selection ?m) (hm_CompletedAt ?m) (hm_StartedAt ?m) [?m]) = Inr rep"
    "hr_Checks rep = [assessHTTPSMeasurement ?m (hm_CompletedAt ?m) second]" by blast
  then show ?thesis by (auto simp: assess_retained_def Let_def expected_status_def)
qed

lemma audit_https_sample:
  assumes "wall_only (hq_StartedAt w)" and "wall_only (hq_CompletedAt w)"
  shows "auditMeasurement (https_sample w i s ob) = w"
  using assms by (simp add: https_sample_def auditMeasurement_def strip_id)

lemma https_retained_sample_measured:
  assumes ok: "\<forall>e\<in>set evs. ValidateEvent e = Inr ()" and dist: "distinct (map he_State evs)"
    and b: "b \<in> set evs" "he_Measurement b = Some w" and wall: "wall_only (hq_StartedAt w)" "wall_only (hq_CompletedAt w)"
  shows "retained_sample first (map_by he_State evs) =
     (if starts_in_time he_State he_At he_Measurement hq_StartedAt evs then Inr (Some w) else Inl ErrHistory)"
  using https_phases.terminal_event [OF ok dist b] https_phases.starts_in_time_iff [OF ok dist b wall(1)] b(2)
    audit_https_sample [OF wall]
  by (simp add: retained_sample_def Let_def guard_def https_sample_def)

lemma https_retained_sample_unmeasured:
  "\<forall>e\<in>set evs. he_Measurement e = None \<Longrightarrow> retained_sample first (map_by he_State evs) = Inr None"
  by (auto simp: retained_sample_def dest: map_by_SomeD split: option.splits)

definition one_run :: "https_audit_event list \<Rightarrow> time \<Rightarrow> bool" where
  "one_run evs asOf \<longleftrightarrow> evs \<noteq> [] \<and> nano_time asOf \<and> (\<forall>e\<in>set evs. acceptable_event (hd evs) asOf e) \<and>
     distinct (map he_State evs)"

lemma https_describe_not_one_run: "\<not> one_run evs asOf \<Longrightarrow> DescribeRetainedRun evs asOf = Inl ErrHistory"
  by (cases "evs \<noteq> [] \<and> nano_time asOf") (auto simp: DescribeRetainedRun_def one_run_def Let_def guard_def collect_phases_None)

lemma https_one_runD:
  assumes "one_run evs asOf"
  shows "\<forall>e\<in>set evs. ValidateEvent e = Inr ()" and "distinct (map he_State evs)"
    and "e \<in> set evs \<Longrightarrow> he_RunID e = he_RunID (hd evs) \<and> he_Selection e = he_Selection (hd evs) \<and> he_Observer e = he_Observer (hd evs)"
  using assms unfolding one_run_def acceptable_event_def by blast+

lemma https_describe_one_run:
  assumes "one_run evs asOf" and "\<forall>e\<in>set evs. wall_only_event e"
  shows "DescribeRetainedRun evs asOf = guard (\<not> phases_in_time he_State he_At evs) ErrHistory
      (bind_result (retained_sample (hd evs) (map_by he_State evs)) (\<lambda>measurement.
       bind_result (retained_assessment (hd evs) (map_by he_State evs ''finished'' \<noteq> None) measurement) (\<lambda>assessment.
       Inr (describe_retained (hd evs) (map_by he_State evs) (latest_audit he_At (he_At (hd evs)) evs) measurement assessment))))"
proof -
  have order: "in_phase_order he_At (map_by he_State evs) zero_time [''authorized'', ''admitted'', ''finished''] \<longleftrightarrow>
      phases_in_time he_State he_At evs"
    by (rule https_phases.ordered_iff) (use https_one_runD [OF assms(1)] assms(2) in \<open>auto simp: wall_only_event_def\<close>)
  have "length evs \<le> 3" using https_one_runD [OF assms(1)] by (intro https_phases.at_most_three)
  then show ?thesis
    using assms(1) by (simp add: DescribeRetainedRun_def Let_def Suc_le_eq collect_phases_all one_run_def order)
qed

definition matching_status :: "https_audit_event \<Rightarrow> bool" where
  "matching_status e \<longleftrightarrow>
     (case he_Measurement e of
        None \<Rightarrow> False
      | Some w \<Rightarrow> expected_status (https_sample w (he_RunID e) (he_Selection e) (he_Observer e)))"

lemma https_retained_assessment_measured:
  assumes "one_run evs asOf" and "wall_only_event b" and "b \<in> set evs" "he_Measurement b = Some w"
  shows "\<exists>a. retained_assessment (hd evs) True (Some w) = Inr a \<and>
     (hx_ExpectationMatched a = Some True \<longleftrightarrow> (\<exists>e\<in>set evs. matching_status e))"
proof -
  note run = https_one_runD [OF assms(1)]
  have fin: "validateMeasurement (https_sample w (he_RunID (hd evs)) (he_Selection (hd evs)) (he_Observer (hd evs))) (he_At b) = Inr ()"
    using run(1) assms(3,4) https_measured_finished(2) [of b w] run(3) [OF assms(3)] by simp
  have "wall_only (hq_StartedAt w)" "wall_only (hq_CompletedAt w)" "wall_only (he_At b)"
    using assms(2,4) by (auto simp: wall_only_event_def)
  from https_assess_retained_Inr [OF fin this] obtain a where a: "assess_retained (hd evs) w = Inr a"
      "hx_ExpectationMatched a = Some True \<longleftrightarrow> matching_status b"
    using run(3) [OF assms(3)] assms(4) by (auto simp: matching_status_def)
  have "matching_status e \<longleftrightarrow> e = b \<and> matching_status b" if "e \<in> set evs" for e
  proof (cases "he_Measurement e")
    case None
    then show ?thesis using assms(4) by (auto simp: matching_status_def)
  next
    case (Some w')
    then have "e = b" using https_phases.terminal_unique [OF run(1,2) assms(3,4) that] by blast
    then show ?thesis by simp
  qed
  then have "(\<exists>e\<in>set evs. matching_status e) \<longleftrightarrow> matching_status b" using assms(3) by blast
  then show ?thesis using a by (simp add: retained_assessment_def)
qed

text \<open>
  C36: which retained events make a description.  For events with wall times the reader succeeds exactly on
  a non-empty list of valid events of one run, none of them after the reading time, with distinct phases in
  the order of time and no measurement that starts before its authorization or admission: assessing the
  retained measurement again never fails.  The expectation counts as matched exactly when the retained final
  status is the expected one.
\<close>

theorem https_history_total:
  assumes "\<forall>e\<in>set evs. wall_only_event e"
  shows "((\<exists>r. DescribeRetainedRun evs asOf = Inr r) \<longleftrightarrow>
        one_run evs asOf \<and> phases_in_time he_State he_At evs \<and>
        starts_in_time he_State he_At he_Measurement hq_StartedAt evs) \<and>
     (\<forall>r. DescribeRetainedRun evs asOf = Inr r \<longrightarrow>
        (hx_ExpectationMatched (ho_Assessment r) = Some True \<longleftrightarrow> (\<exists>e\<in>set evs. matching_status e)))"
proof (cases "one_run evs asOf")
  case False
  then show ?thesis by (simp add: https_describe_not_one_run)
next
  case True
  note desc = https_describe_one_run [OF True assms]
  show ?thesis
  proof (cases "\<forall>e\<in>set evs. he_Measurement e = None")
    case unmeasured: True
    then show ?thesis
      using True https_retained_sample_unmeasured [OF unmeasured] starts_in_time_unmeasured [OF unmeasured]
      by (auto simp: desc guard_def retained_assessment_def unknown_assessment_def describe_retained_def matching_status_def)
  next
    case False
    then obtain b w where b: "b \<in> set evs" "he_Measurement b = Some w" by auto
    have wall: "wall_only_event b" "wall_only (hq_StartedAt w)" "wall_only (hq_CompletedAt w)"
      using assms b by (auto simp: wall_only_event_def)
    note run = https_one_runD(1,2) [OF True]
    obtain a where "retained_assessment (hd evs) True (Some w) = Inr a"
        "hx_ExpectationMatched a = Some True \<longleftrightarrow> (\<exists>e\<in>set evs. matching_status e)"
      using https_retained_assessment_measured [OF True wall(1) b] by blast
    then show ?thesis
      using True https_retained_sample_measured [OF run b wall(2,3), of "hd evs"] https_phases.terminal_event [OF run b]
      by (simp add: desc guard_def describe_retained_def)
  qed
qed


section \<open>A sample run\<close>

definition sample_https_run_selection :: https_run_selection where
  "sample_https_run_selection = \<lparr>hl_Plan = sample_https_plan, hl_RouteObservedAt = strip sample_review_time,
     hl_RouteFreshUntil = time_add (strip sample_review_time) ReviewLifetime\<rparr>"

definition sample_https_run_id :: string where
  "sample_https_run_id = ''00112233445566778899aabbccddeeff''"

definition sample_https_run_measurement :: https_run_measurement where
  "sample_https_run_measurement = \<lparr>hq_StartedAt = strip sample_review_time,
     hq_CompletedAt = time_add (strip sample_review_time) (90 * millisecond), hq_Exchange = HTTPSResponseReceived,
     hq_Request = HTTPSRequestAccepted, hq_Gap = GapNone, hq_Stage = HTTPSRequest, hq_StatusCode = 204,
     hq_ResponseTimeNanoseconds = Some (60 * millisecond)\<rparr>"

definition sample_https_terminal :: https_audit_event where
  "sample_https_terminal = \<lparr>he_SchemaVersion = EventSchemaVersion, he_RunID = sample_https_run_id, he_State = ''finished'',
     he_Outcome = ''completed'', he_Reason = [], he_At = time_add (strip sample_review_time) second, he_Profile = Profile,
     he_Selection = hc_Selection sample_https_configuration, he_Observer = cb_Observer sample_check_binding,
     he_Measurement = Some sample_https_run_measurement\<rparr>"


theorem https_history_total_witness:
  "\<exists>r. DescribeRetainedRun [sample_https_terminal] (time_add (strip sample_review_time) minute) = Inr r \<and>
     hx_ExpectationMatched (ho_Assessment r) = Some True"
proof -
  have w: "\<forall>e\<in>set [sample_https_terminal]. wall_only_event e"
    by (simp add: wall_only_event_def sample_https_terminal_def sample_https_run_measurement_def time_add_def)
  have v: "one_run [sample_https_terminal] (time_add (strip sample_review_time) minute)"
    unfolding one_run_def by code_simp
  have o: "phases_in_time he_State he_At [sample_https_terminal]"
      "starts_in_time he_State he_At he_Measurement hq_StartedAt [sample_https_terminal]"
    by (simp_all add: phases_in_time_def starts_in_time_def sample_https_terminal_def)
  have m: "matching_status sample_https_terminal" by code_simp
  obtain r where "DescribeRetainedRun [sample_https_terminal] (time_add (strip sample_review_time) minute) = Inr r"
    using https_history_total [OF w] v o by blast
  then show ?thesis using https_history_total [OF w] m by auto
qed

end
