(* ===== verification/Effects.thy ===== *)
theory Effects
  imports Prelude
begin

text \<open>
  Computations that read and change a state and may stop with an error, for the code that talks to sockets and
  clocks.  An error keeps the state reached so far, as Go keeps the variables that a deferred function or a
  named result still reads.  \<open>wp\<close> is the weakest precondition of a computation for two postconditions, one
  for the normal return and one for the error return; the collection \<open>wp_simps\<close> computes it.
\<close>

named_theorems wp_simps \<open>weakest preconditions of the primitive computations\<close>

type_synonym ('s, 'e, 'a) eff = "'s \<Rightarrow> ('e, 'a) result \<times> 's"

definition ret :: "'a \<Rightarrow> ('s, 'e, 'a) eff" where
  "ret x = (\<lambda>s. (Inr x, s))"

definition fail :: "'e \<Rightarrow> ('s, 'e, 'a) eff" where
  "fail e = (\<lambda>s. (Inl e, s))"

definition seq :: "('s, 'e, 'a) eff \<Rightarrow> ('a \<Rightarrow> ('s, 'e, 'b) eff) \<Rightarrow> ('s, 'e, 'b) eff" where
  "seq m k = (\<lambda>s. case m s of (Inl e, s') \<Rightarrow> (Inl e, s') | (Inr x, s') \<Rightarrow> k x s')"

definition stop_if :: "bool \<Rightarrow> 'e \<Rightarrow> ('s, 'e, unit) eff" where
  "stop_if bad e = (if bad then fail e else ret ())"

definition get :: "('s \<Rightarrow> 'a) \<Rightarrow> ('s, 'e, 'a) eff" where
  "get f = (\<lambda>s. (Inr (f s), s))"

definition change :: "('s \<Rightarrow> 's) \<Rightarrow> ('s, 'e, unit) eff" where
  "change f = (\<lambda>s. (Inr (), f s))"

text \<open>An optional error that a call returned, passed on.\<close>

definition stop_with :: "'e option \<Rightarrow> ('s, 'e, unit) eff" where
  "stop_with r = (case r of None \<Rightarrow> ret () | Some e \<Rightarrow> fail e)"

fun each :: "('a \<Rightarrow> ('s, 'e, unit) eff) \<Rightarrow> 'a list \<Rightarrow> ('s, 'e, unit) eff" where
  "each f [] = ret ()"
| "each f (x # xs) = seq (f x) (\<lambda>_. each f xs)"

section \<open>Weakest preconditions\<close>

definition wp :: "('s, 'e, 'a) eff \<Rightarrow> ('a \<Rightarrow> 's \<Rightarrow> bool) \<Rightarrow> ('e \<Rightarrow> 's \<Rightarrow> bool) \<Rightarrow> 's \<Rightarrow> bool" where
  "wp m Q E s = (case m s of (Inl e, s') \<Rightarrow> E e s' | (Inr x, s') \<Rightarrow> Q x s')"

lemma wp_ret [wp_simps]: "wp (ret x) Q E = Q x"
  by (simp add: fun_eq_iff wp_def ret_def)

lemma wp_fail [wp_simps]: "wp (fail e) Q E s = E e s"
  by (simp add: wp_def fail_def)

lemma wp_seq [wp_simps]: "wp (seq m k) Q E s = wp m (\<lambda>x. wp (k x) Q E) E s"
  by (simp add: wp_def seq_def split: prod.splits sum.splits)

lemma wp_stop_if [wp_simps]: "wp (stop_if bad e) Q E s = (if bad then E e s else Q () s)"
  by (simp add: stop_if_def wp_simps)

lemma wp_get [wp_simps]: "wp (get f) Q E s = Q (f s) s"
  by (simp add: wp_def get_def)

lemma wp_change [wp_simps]: "wp (change f) Q E s = Q () (f s)"
  by (simp add: wp_def change_def)

lemma wp_stop_with [wp_simps]: "wp (stop_with r) Q E s = (case r of None \<Rightarrow> Q () s | Some e \<Rightarrow> E e s)"
  by (simp add: stop_with_def wp_simps split: option.splits)

lemma wp_if [wp_simps]: "wp (if b then m else n) Q E s = (if b then wp m Q E s else wp n Q E s)"
  by simp

lemma wp_case_sum [wp_simps]:
  "wp (case r of Inl a \<Rightarrow> f a | Inr b \<Rightarrow> g b) Q E s = (case r of Inl a \<Rightarrow> wp (f a) Q E s | Inr b \<Rightarrow> wp (g b) Q E s)"
  by (cases r) simp_all

lemma wp_case_option [wp_simps]:
  "wp (case r of None \<Rightarrow> f | Some b \<Rightarrow> g b) Q E s = (case r of None \<Rightarrow> wp f Q E s | Some b \<Rightarrow> wp (g b) Q E s)"
  by (cases r) simp_all

lemma wp_mono:
  assumes "wp m Q E s" and "\<And>x s'. Q x s' \<Longrightarrow> Q' x s'" and "\<And>e s'. E e s' \<Longrightarrow> E' e s'"
  shows "wp m Q' E' s"
  using assms by (auto simp: wp_def split: prod.splits sum.splits)

lemma wp_conj: "wp m Q E s \<Longrightarrow> wp m Q' E' s \<Longrightarrow> wp m (\<lambda>x s. Q x s \<and> Q' x s) (\<lambda>e s. E e s \<and> E' e s) s"
  by (auto simp: wp_def split: prod.splits sum.splits)

lemma wp_resultD: "wp m Q E s \<Longrightarrow> m s = (Inr x, s') \<Longrightarrow> Q x s'" "wp m Q E s \<Longrightarrow> m s = (Inl e, s') \<Longrightarrow> E e s'"
  by (simp_all add: wp_def)

text \<open>A loop over a list keeps an invariant that counts the elements done.\<close>

lemma wp_each:
  assumes "\<And>i s. i < length xs \<Longrightarrow> I i s \<Longrightarrow> wp (f (xs ! i)) (\<lambda>_. I (Suc i)) E s" and "I 0 s"
  shows "wp (each f xs) (\<lambda>_. I (length xs)) E s"
  using assms
proof (induction xs arbitrary: I s)
  case Nil
  then show ?case by (simp add: wp_simps)
next
  case (Cons x xs)
  have "wp (f x) (\<lambda>_. I 1) E s" using Cons.prems(1) [of 0 s] Cons.prems(2) by simp
  moreover have "wp (each f xs) (\<lambda>_. I (length (x # xs))) E t" if "I 1 t" for t
    using Cons.IH [of "\<lambda>i. I (Suc i)" t] Cons.prems(1) [of "Suc _"] that by simp
  ultimately show ?case by (auto simp: wp_simps intro: wp_mono)
qed

end
