(* ===== verification/IcmpPacket.thy ===== *)
theory IcmpPacket
  imports GatewayPlan GoEncoding
begin

text \<open>
  \<open>gatewayicmp/packet.go\<close>: the Internet checksum, the echo request, the match of a received datagram with
  a request, and the decoder of the ancillary data of a receive call.  Machine integers keep their width.
  The checksum lemmas go through the sum of the 16-bit groups as a natural number.
\<close>

section \<open>The checksum\<close>

definition be16 :: "byte \<Rightarrow> byte \<Rightarrow> 16 word" where
  "be16 a b = push_bit 8 (ucast a) OR ucast b"

fun checksum_sum :: "32 word \<Rightarrow> byte list \<Rightarrow> 32 word" where
  "checksum_sum acc (a # b # rest) = checksum_sum (acc + ucast (be16 a b)) rest"
| "checksum_sum acc [a] = acc + push_bit 8 (ucast a)"
| "checksum_sum acc [] = acc"

lemma unat_halves:
  fixes s :: "32 word"
  shows "unat (s AND 0xffff) = unat s mod 65536" and "unat (drop_bit 16 s) = unat s div 65536"
proof -
  have "s AND 0xffff = take_bit 16 s" by (simp add: take_bit_eq_mask mask_numeral)
  then show "unat (s AND 0xffff) = unat s mod 65536"
    by (simp add: unsigned_take_bit_eq take_bit_nat_def)
  show "unat (drop_bit 16 s) = unat s div 65536"
    by (simp add: unat_drop_bit_eq drop_bit_nat_def)
qed

lemma unat_carry:
  fixes s :: "32 word"
  shows "unat ((s AND 0xffff) + drop_bit 16 s) = unat s mod 65536 + unat s div 65536"
proof -
  have "unat s < 2 ^ 32" by (rule order_less_le_trans [OF unsigned_less]) simp
  then have "unat s mod 65536 + unat s div 65536 < 2 ^ 32" by auto
  then show ?thesis by (simp add: unat_word_ariths unat_halves)
qed

lemma drop_bit_16_iff: "drop_bit 16 (s :: 32 word) = 0 \<longleftrightarrow> unat s < 65536"
  by (metis div_eq_0_iff unat_eq_zero unat_halves(2) zero_neq_numeral)

lemma carry_decreases: "65536 \<le> (n :: nat) \<Longrightarrow> n mod 65536 + n div 65536 < n"
proof -
  assume "65536 \<le> n"
  then have "0 < n div 65536" by (simp add: div_greater_zero_iff)
  then show ?thesis using mod_mult_div_eq [of n 65536] by linarith
qed

function fold_carry :: "32 word \<Rightarrow> 32 word" where
  "fold_carry acc =
     (if drop_bit 16 acc = 0 then acc else fold_carry ((acc AND 0xffff) + drop_bit 16 acc))"
  by pat_completeness auto
termination
  by (relation "measure unat") (simp_all add: unat_carry drop_bit_16_iff carry_decreases)

declare fold_carry.simps [simp del]

definition checksum :: "byte list \<Rightarrow> 16 word" where
  "checksum data = NOT (ucast (fold_carry (checksum_sum 0 data)))"

section \<open>Echo requests and replies\<close>

definition packetBytes :: nat where "packetBytes = 40"

text \<open>The array is filled in with its checksum field still zero, then the checksum is stored.\<close>

definition echoRequest :: "16 word \<Rightarrow> 16 word \<Rightarrow> byte list \<Rightarrow> byte list" where
  "echoRequest ident seq nonce =
     (let packet = [8, 0, 0, 0] @ be_bytes 2 ident @ be_bytes 2 seq @ nonce
      in take 2 packet @ be_bytes 2 (checksum packet) @ drop 4 packet)"

record icmp_request =
  ir_Plan :: gateway_plan
  ir_Source :: addr

record datagram =
  dg_data :: "byte list"
  dg_peer :: addr
  dg_local :: addr
  dg_index :: int
  dg_truncated :: bool

definition matchesReply :: "datagram \<Rightarrow> icmp_request \<Rightarrow> 16 word \<Rightarrow> 16 word \<Rightarrow> byte list \<Rightarrow> bool" where
  "matchesReply d r ident seq nonce \<longleftrightarrow>
     (let p = dg_data d in
      \<not> dg_truncated d \<and> dg_peer d = gp_Target (ir_Plan r) \<and> dg_local d = ir_Source r \<and>
      dg_index d = gb_InterfaceIndex (gp_Binding (ir_Plan r)) \<and>
      length p = packetBytes \<and> p ! 0 = 0 \<and> p ! 1 = 0 \<and> checksum p = 0 \<and>
      be16 (p ! 4) (p ! 5) = ident \<and> be16 (p ! 6) (p ! 7) = seq \<and> drop 8 p = nonce)"

section \<open>Control messages\<close>

definition maxControlBytes :: nat where "maxControlBytes = 256"

datatype control_error = ControlInvalid | ControlPanic

text \<open>
  \<open>binary.LittleEndian.Uint32(data)\<close> and \<open>Uint16\<close> panic on a short slice, as do the slice \<open>data[lo:hi]\<close>, the
  index \<open>data[i]\<close> and the conversion of a slice to an array.
\<close>

definition le32 :: "byte list \<Rightarrow> (control_error, nat) result" where
  "le32 bs = (case bs of
     a # b # c # d # _ \<Rightarrow> Inr (unat a + 256 * unat b + 65536 * unat c + 16777216 * unat d) | _ \<Rightarrow> Inl ControlPanic)"

definition le16 :: "byte list \<Rightarrow> (control_error, nat) result" where
  "le16 bs = (case bs of a # b # _ \<Rightarrow> Inr (unat a + 256 * unat b) | _ \<Rightarrow> Inl ControlPanic)"

definition slice :: "byte list \<Rightarrow> nat \<Rightarrow> nat \<Rightarrow> (control_error, byte list) result" where
  "slice bs lo hi = (if lo \<le> hi \<and> hi \<le> length bs then Inr (take (hi - lo) (drop lo bs)) else Inl ControlPanic)"

definition read_at :: "byte list \<Rightarrow> nat \<Rightarrow> (control_error, nat) result" where
  "read_at bs i = (if i < length bs then Inr (unat (bs ! i)) else Inl ControlPanic)"

definition array4 :: "byte list \<Rightarrow> (control_error, addr) result" where
  "array4 bs = (if length bs < 4 then Inl ControlPanic else Inr (AddrFrom4 (take 4 bs)))"

text \<open>One control message: its payload and its type, with the destination and the interface seen so far.\<close>

definition control_message ::
  "nat \<Rightarrow> byte list \<Rightarrow> addr \<times> nat \<Rightarrow> (control_error, addr \<times> nat) result" where
  "control_message kind payload found =
     (if kind = 7 then
        guard (fst found \<noteq> AddrNone \<or> length payload \<noteq> 4) ControlInvalid
        (bind_result (array4 payload) (\<lambda>a. Inr (a, snd found)))
      else if kind = 20 then
        guard (snd found \<noteq> 0 \<or> length payload < 8) ControlInvalid
        (bind_result (read_at payload 0) (\<lambda>len.
         guard (len \<noteq> length payload) ControlInvalid
         (bind_result (read_at payload 1) (\<lambda>family.
          guard (family \<noteq> 18) ControlInvalid
          (bind_result (read_at payload 5) (\<lambda>nlen.
           bind_result (read_at payload 6) (\<lambda>alen.
           bind_result (read_at payload 7) (\<lambda>slen.
           guard (8 + nlen + alen + slen > length payload) ControlInvalid
           (bind_result (slice payload 2 (length payload)) (\<lambda>tail.
            bind_result (le16 tail) (\<lambda>ifindex.
            guard (ifindex = 0) ControlInvalid (Inr (fst found, ifindex)))))))))))))
      else Inl ControlInvalid)"

lemma guard_cong [fundef_cong]:
  "bad = bad' \<Longrightarrow> e = e' \<Longrightarrow> (\<not> bad' \<Longrightarrow> rest = rest') \<Longrightarrow> guard bad e rest = guard bad' e' rest'"
  by (simp add: guard_def)

lemma bind_result_cong [fundef_cong]:
  "r = r' \<Longrightarrow> (\<And>x. r' = Inr x \<Longrightarrow> f x = g x) \<Longrightarrow> bind_result r f = bind_result r' g"
  by (cases r') auto

function parse_messages :: "byte list \<Rightarrow> addr \<times> nat \<Rightarrow> (control_error, addr \<times> nat) result" where
  "parse_messages data found =
     (if data = [] then Inr found
      else
        guard (length data < 12) ControlInvalid
        (bind_result (le32 data) (\<lambda>n.
         bind_result (slice data 4 (length data)) (\<lambda>from4.
         bind_result (le32 from4) (\<lambda>level.
         guard (n < 12 \<or> n > length data \<or> level \<noteq> 0) ControlInvalid
         (bind_result (slice data 12 n) (\<lambda>payload.
          bind_result (slice data 8 (length data)) (\<lambda>from8.
          bind_result (le32 from8) (\<lambda>kind.
          bind_result (control_message kind payload found) (\<lambda>found'.
          let step = 4 * ((n + 3) div 4) in
          guard (step > length data) ControlInvalid
          (parse_messages (drop step data) found')))))))))))"
  by pat_completeness auto
termination
  by (relation "measure (\<lambda>(data, _). length data)") auto

declare parse_messages.simps [simp del]

definition parseControl :: "byte list \<Rightarrow> (control_error, addr \<times> nat) result" where
  "parseControl data =
     guard (data = [] \<or> length data > maxControlBytes) ControlInvalid
     (bind_result (parse_messages data (AddrNone, 0)) (\<lambda>found.
      guard (\<not> Is4 (fst found) \<or> snd found = 0) ControlInvalid (Inr found)))"

section \<open>Checksum arithmetic\<close>

lemma unat_fold_carry: "unat (fold_carry s) = (if unat s = 0 then 0 else (unat s - 1) mod 65535 + 1)"
proof (induction s rule: fold_carry.induct)
  case (1 s)
  show ?case
  proof (cases "unat s < 65536")
    case True
    then show ?thesis by (subst fold_carry.simps) (auto simp: drop_bit_16_iff)
  next
    case False
    let ?t = "(s AND 0xffff) + drop_bit 16 s"
    define q r where "q = unat s div 65536" and "r = unat s mod 65536"
    have s: "unat s = 65536 * q + r" by (simp add: q_def r_def)
    have t: "unat ?t = q + r" by (simp add: unat_carry q_def r_def)
    have q: "0 < q" using False by (simp add: q_def div_greater_zero_iff)
    have "(unat s - 1) mod 65535 = (65535 * q + (q + r - 1)) mod 65535"
      using q s by (intro arg_cong [where f = "\<lambda>x. x mod 65535"]) simp
    then have "(unat s - 1) mod 65535 = (q + r - 1) mod 65535" by simp
    then show ?thesis
      using 1 False q t by (subst fold_carry.simps) (simp add: drop_bit_16_iff s)
  qed
qed

fun group_sum :: "byte list \<Rightarrow> nat" where
  "group_sum (a # b # rest) = 256 * unat a + unat b + group_sum rest"
| "group_sum [a] = 256 * unat a"
| "group_sum [] = 0"

lemma unat_byte: "unat (b :: byte) < 256"
  by (rule order_less_le_trans [OF unsigned_less]) simp

lemma unat_byte_shift:
  "unat (push_bit 8 (ucast (a :: byte)) :: 32 word) = 256 * unat a"
  "unat (push_bit 8 (ucast (a :: byte)) :: 16 word) = 256 * unat a"
  using unat_byte [of a]
  by (simp_all add: unsigned_push_bit_eq unsigned_ucast_eq push_bit_nat_def take_bit_nat_eq_self)

lemma unat_be16: "unat (be16 a b) = 256 * unat a + unat b"
proof -
  have "be16 a b = push_bit 8 (ucast a) + ucast b"
    unfolding be16_def by (rule disjunctive_add [symmetric]) (auto simp: bit_simps dest: bit_imp_le_length)
  then show ?thesis
    using unat_byte [of a] unat_byte [of b]
    by (simp add: unat_word_ariths unat_byte_shift unsigned_ucast_eq take_bit_nat_eq_self)
qed

lemma unat_checksum_sum:
  "unat acc + group_sum data < 2 ^ 32 \<Longrightarrow> unat (checksum_sum acc data) = unat acc + group_sum data"
proof (induction acc data rule: checksum_sum.induct)
  case (1 acc a b rest)
  then have "unat (acc + ucast (be16 a b)) = unat acc + unat (be16 a b)"
    by (simp add: unat_word_ariths unat_be16 unsigned_ucast_eq take_bit_nat_eq_self)
  then show ?case using 1 by (simp add: unat_be16)
next
  case (2 acc a)
  then show ?case by (simp add: unat_word_ariths unat_byte_shift)
qed simp

lemma group_sum_bound: "group_sum data \<le> 65535 * length data"
proof (induction data rule: group_sum.induct)
  case (1 a b rest)
  then show ?case using unat_byte [of a] unat_byte [of b] by simp
next
  case (2 a)
  then show ?case using unat_byte [of a] by simp
qed simp

lemma group_sum_append: "even (length xs) \<Longrightarrow> group_sum (xs @ ys) = group_sum xs + group_sum ys"
  by (induction xs rule: group_sum.induct) auto

lemma unat_not16: "unat (NOT w) = 65535 - unat (w :: 16 word)"
proof -
  have "NOT w = - 1 - w" by (simp add: not_eq_complement)
  moreover have "unat (- 1 - w) = unat (- 1 :: 16 word) - unat w"
    by (rule unat_sub) (simp add: word_order.extremum)
  ultimately show ?thesis by (simp add: unsigned_minus_1_eq_mask mask_eq_exp_minus_1)
qed

lemma pred_mod_eq: "0 < k \<Longrightarrow> 0 < n \<Longrightarrow> Suc ((n - 1) mod k) = k \<longleftrightarrow> k dvd n"
  by (cases n) (auto simp: mod_Suc dvd_eq_mod_eq_0)

text \<open>The checksum of a short packet, and the test that the receiver makes.\<close>

lemma unat_checksum:
  assumes "length data \<le> 65535"
  shows "unat (checksum data) = (if group_sum data = 0 then 65535 else 65534 - (group_sum data - 1) mod 65535)"
proof -
  have "group_sum data \<le> 65535 * 65535"
    using group_sum_bound [of data] assms by (meson le_trans mult_le_mono2)
  then have total: "unat (checksum_sum 0 data) = group_sum data"
    using unat_checksum_sum [of 0 data] by simp
  define v where "v = unat (fold_carry (checksum_sum 0 data))"
  have v: "v = (if group_sum data = 0 then 0 else (group_sum data - 1) mod 65535 + 1)"
    by (simp add: v_def unat_fold_carry total)
  have "v \<le> 65535" by (simp add: v Suc_le_eq)
  then have "unat (checksum data) = 65535 - v"
    by (simp add: checksum_def v_def unat_not16 unsigned_ucast_eq take_bit_nat_eq_self)
  then show ?thesis using v by auto
qed

lemma checksum_zero_iff:
  assumes "length data \<le> 65535"
  shows "checksum data = 0 \<longleftrightarrow> 0 < group_sum data \<and> 65535 dvd group_sum data"
proof -
  have "checksum data = 0 \<longleftrightarrow> unat (checksum data) = 0" by (simp add: unat_eq_zero)
  also have "\<dots> \<longleftrightarrow> 0 < group_sum data \<and> Suc ((group_sum data - 1) mod 65535) = 65535"
    using mod_less_divisor [of 65535 "group_sum data - 1"]
    by (auto simp: unat_checksum [OF assms] simp del: mod_less_divisor)
  also have "\<dots> \<longleftrightarrow> 0 < group_sum data \<and> 65535 dvd group_sum data"
    using pred_mod_eq [of 65535 "group_sum data"] by auto
  finally show ?thesis .
qed

section \<open>Requests are recognised by their replies\<close>

text \<open>
  The answer of a host to an echo request (RFC 792): the same identifier, sequence number and data, type 0,
  the checksum computed again.
\<close>

definition echo_reply :: "16 word \<Rightarrow> 16 word \<Rightarrow> byte list \<Rightarrow> byte list" where
  "echo_reply ident seq nonce =
     (let packet = [0, 0, 0, 0] @ be_bytes 2 ident @ be_bytes 2 seq @ nonce
      in take 2 packet @ be_bytes 2 (checksum packet) @ drop 4 packet)"

lemma be_bytes_2: "be_bytes 2 (w :: 16 word) = [ucast (drop_bit 8 w), ucast w]"
  by (simp add: be_bytes_def numeral_2_eq_2)

lemma be16_be_bytes: "be16 (ucast (drop_bit 8 w)) (ucast w) = w"
  by (rule bit_word_eqI) (auto simp: be16_def bit_simps)

lemma group_sum_be_bytes: "group_sum (be_bytes 2 (w :: 16 word) @ rest) = unat w + group_sum rest"
  using unat_be16 [of "ucast (drop_bit 8 w)" "ucast w"] by (simp add: be_bytes_2 be16_be_bytes)

lemma checksum_filled:
  assumes "length rest \<le> 65000"
  shows "checksum (a # b # be_bytes 2 (checksum (a # b # 0 # 0 # rest)) @ rest) = 0"
proof -
  define S c where "S = group_sum (a # b # 0 # 0 # rest)" and "c = unat (checksum (a # b # 0 # 0 # rest))"
  have c: "c = (if S = 0 then 65535 else 65534 - (S - 1) mod 65535)"
    unfolding S_def c_def using assms by (intro unat_checksum) simp
  have dvd: "0 < S + c \<and> 65535 dvd S + c"
  proof (cases "S = 0")
    case False
    have "c = 65534 - (S - 1) mod 65535" "(S - 1) mod 65535 < 65535" using False by (simp_all add: c)
    then have "S + c = 65535 * ((S - 1) div 65535) + 65535"
      using False mult_div_mod_eq [of 65535 "S - 1"] by linarith
    then show ?thesis by simp
  qed (simp add: c)
  have "group_sum (a # b # be_bytes 2 (checksum (a # b # 0 # 0 # rest)) @ rest) = S + c"
    by (simp add: group_sum_be_bytes S_def c_def)
  then show ?thesis
    using dvd assms by (subst checksum_zero_iff) (simp_all add: be_bytes_2)
qed

lemma echo_shape:
  "echoRequest ident seq nonce =
     8 # 0 # be_bytes 2 (checksum (8 # 0 # 0 # 0 # be_bytes 2 ident @ be_bytes 2 seq @ nonce)) @
     be_bytes 2 ident @ be_bytes 2 seq @ nonce"
  "echo_reply ident seq nonce =
     0 # 0 # be_bytes 2 (checksum (0 # 0 # 0 # 0 # be_bytes 2 ident @ be_bytes 2 seq @ nonce)) @
     be_bytes 2 ident @ be_bytes 2 seq @ nonce"
  by (simp_all add: echoRequest_def echo_reply_def Let_def)


definition sample_request :: icmp_request where
  "sample_request =
     \<lparr>ir_Plan = \<lparr>gp_Binding = \<lparr>gb_ScopeID = ''home'', gb_InterfaceName = ''en0'', gb_InterfaceIndex = 4,
          gb_Prefixes = [''192.168.1.0/24'']\<rparr>, gp_Target = Addr4 0xc0a80101, gp_CreatedAt = zero_time,
          gp_ReviewExpiresAt = zero_time, gp_Budget = gateway_budget\<rparr>, ir_Source = Addr4 0xc0a80102\<rparr>"


section \<open>Control messages of the kernel\<close>

lemma le32_total: "4 \<le> length bs \<Longrightarrow> \<exists>n. le32 bs = Inr n"
proof -
  assume "4 \<le> length bs"
  then obtain a b c d rest where "bs = a # b # c # d # rest" by (auto simp: numeral_eq_Suc Suc_le_length_iff)
  then show ?thesis by (simp add: le32_def)
qed

lemma le16_total: "2 \<le> length bs \<Longrightarrow> \<exists>n < 65536. le16 bs = Inr n"
proof -
  assume "2 \<le> length bs"
  then obtain a b rest where "bs = a # b # rest" by (auto simp: numeral_eq_Suc Suc_le_length_iff)
  then show ?thesis using unat_byte [of a] unat_byte [of b] by (simp add: le16_def)
qed

lemma control_message_safe:
  "control_message kind payload found \<noteq> Inl ControlPanic"
  "control_message kind payload (a, i) = Inr (a', i') \<Longrightarrow> (Is4 a \<or> a = AddrNone) \<and> i < 65536 \<Longrightarrow>
     (Is4 a' \<or> a' = AddrNone) \<and> i' < 65536"
proof -
  have "\<exists>n < 65536. le16 (drop 2 payload) = Inr n" if "8 \<le> length payload"
    using that by (intro le16_total) simp
  then obtain n where "8 \<le> length payload \<Longrightarrow> n < 65536 \<and> le16 (drop 2 payload) = Inr n" by blast
  then show "control_message kind payload found \<noteq> Inl ControlPanic"
    "control_message kind payload (a, i) = Inr (a', i') \<Longrightarrow> (Is4 a \<or> a = AddrNone) \<and> i < 65536 \<Longrightarrow>
       (Is4 a' \<or> a' = AddrNone) \<and> i' < 65536"
    by (auto simp: control_message_def read_at_def array4_def slice_def guard_def AddrFrom4_def Is4_def
      split: if_splits)
qed

lemma parse_messages_safe:
  assumes "(Is4 (fst found) \<or> fst found = AddrNone) \<and> snd found < 65536"
  shows "parse_messages data found \<noteq> Inl ControlPanic \<and>
    (\<forall>a i. parse_messages data found = Inr (a, i) \<longrightarrow> (Is4 a \<or> a = AddrNone) \<and> i < 65536)"
  using assms
proof (induction data found rule: parse_messages.induct)
  case (1 data found)
  show ?case
  proof (cases "12 \<le> length data")
    case False
    then show ?thesis using 1(2) by (subst (1 2) parse_messages.simps) (auto simp: guard_def)
  next
    case True
    obtain n level kind where reads: "le32 data = Inr n" "le32 (drop 4 data) = Inr level" "le32 (drop 8 data) = Inr kind"
      using le32_total [of data] le32_total [of "drop 4 data"] le32_total [of "drop 8 data"]
        le_diff_conv2 [of 4 "length data" 4] le_diff_conv2 [of 8 "length data" 4] True by fastforce
    show ?thesis
    proof (cases "12 \<le> n \<and> n \<le> length data \<and> level = 0")
      case False
      then show ?thesis using True reads by (subst (1 2) parse_messages.simps) (auto simp: guard_def slice_def)
    next
      case ok: True
      let ?m = "control_message kind (take (n - 12) (drop 12 data)) found"
      show ?thesis
      proof (cases ?m)
        case (Inl e)
        then show ?thesis
          using True reads ok control_message_safe(1) [of kind "take (n - 12) (drop 12 data)" found]
          by (subst (1 2) parse_messages.simps) (auto simp: guard_def slice_def)
      next
        case (Inr f)
        then have f: "(Is4 (fst f) \<or> fst f = AddrNone) \<and> snd f < 65536"
          using control_message_safe(2) [of kind _ "fst found" "snd found" "fst f" "snd f"] 1(2) by auto
        have step: "parse_messages data found =
           guard (4 * ((n + 3) div 4) > length data) ControlInvalid (parse_messages (drop (4 * ((n + 3) div 4)) data) f)"
          using True reads ok Inr by (subst parse_messages.simps) (auto simp: slice_def Let_def)
        show ?thesis
        proof (cases "4 * ((n + 3) div 4) > length data")
          case False
          then show ?thesis
            using 1(1) [of n "drop 4 data" level "take (n - 12) (drop 12 data)" "drop 8 data" kind f] True reads ok Inr f
            by (cases "data = []") (simp_all add: step slice_def)
        qed (simp add: step)
      qed
    qed
  qed
qed

text \<open>
  The two messages that the kernel attaches to a datagram: the destination address, and the interface as a
  \<open>sockaddr_dl\<close> with some link-layer data, padded to a multiple of four bytes.
\<close>

definition control_header :: "nat \<Rightarrow> byte \<Rightarrow> byte list" where
  "control_header len kind = [word_of_nat len, 0, 0, 0, 0, 0, 0, 0, kind, 0, 0, 0]"

definition destination_message :: "32 word \<Rightarrow> byte list" where
  "destination_message w = control_header 16 7 @ As4 w"

definition interface_message :: "nat \<Rightarrow> byte \<Rightarrow> byte \<Rightarrow> byte \<Rightarrow> byte list \<Rightarrow> byte list" where
  "interface_message i nlen alen slen link =
     control_header (20 + length link) 20 @
     [word_of_nat (8 + length link), 18, word_of_nat i, word_of_nat (i div 256), 6, nlen, alen, slen] @ link"

definition link_ok :: "byte \<Rightarrow> byte \<Rightarrow> byte \<Rightarrow> byte list \<Rightarrow> bool" where
  "link_ok nlen alen slen link \<longleftrightarrow>
     unat nlen + unat alen + unat slen \<le> length link \<and> length link \<le> 200 \<and> 4 dvd length link"

lemma unat_word_of_nat_byte: "n < 256 \<Longrightarrow> unat (word_of_nat n :: byte) = n"
  by (simp add: unsigned_of_nat take_bit_nat_eq_self)

lemma parse_one_message:
  assumes "length payload = 4 * k" and "k < 61"
  shows "parse_messages (control_header (12 + 4 * k) kind @ payload @ rest) found =
    bind_result (control_message (unat kind) payload found) (parse_messages rest)"
proof -
  define data where "data = control_header (12 + 4 * k) kind @ payload @ rest"
  have n: "unat (word_of_nat (12 + 4 * k) :: byte) = 12 + 4 * k"
    using assms(2) by (intro unat_word_of_nat_byte) simp
  have "le32 data = Inr (12 + 4 * k)" "le32 (drop 4 data) = Inr 0" "le32 (drop 8 data) = Inr (unat kind)"
    using n by (simp_all add: data_def control_header_def le32_def)
  moreover have "drop 12 data = payload @ rest" and len: "length data = 12 + 4 * k + length rest"
    using assms(1) by (simp_all add: data_def control_header_def)
  then have "drop (12 + 4 * k) data = rest" "take (4 * k) (drop 12 data) = payload"
    using assms(1) by (simp_all add: add.commute [of 12] flip: drop_drop)
  moreover have "data \<noteq> []" by (simp add: data_def control_header_def)
  moreover have "4 * ((12 + 4 * k + 3) div 4) = 12 + 4 * k" by simp
  ultimately have "parse_messages data found = bind_result (control_message (unat kind) payload found) (parse_messages rest)"
    using len by (subst parse_messages.simps) (simp add: slice_def Let_def add.commute [of _ 12])
  then show ?thesis by (simp only: data_def)
qed

lemma parse_destination:
  "parse_messages (destination_message w @ rest) (AddrNone, i) = parse_messages rest (Addr4 w, i)"
  using parse_one_message [of "As4 w" 1 7 rest "(AddrNone, i)"]
  by (simp add: destination_message_def control_message_def array4_def addr_from_as4)

lemma interface_payload:
  assumes "link_ok nlen alen slen link" and "0 < i" and "i < 65536"
  shows "control_message 20 ([word_of_nat (8 + length link), 18, word_of_nat i, word_of_nat (i div 256), 6,
     nlen, alen, slen] @ link) (a, 0) = Inr (a, i)"
proof -
  have "unat (word_of_nat i :: byte) = i mod 256"
    by (simp add: unsigned_of_nat take_bit_nat_def)
  moreover have "unat (word_of_nat (i div 256) :: byte) = i div 256"
    using assms(3) by (intro unat_word_of_nat_byte) auto
  ultimately have "unat (word_of_nat i :: byte) + 256 * unat (word_of_nat (i div 256) :: byte) = i" by simp
  moreover have "unat (word_of_nat (8 + length link) :: byte) = 8 + length link"
    using assms(1) by (intro unat_word_of_nat_byte) (simp add: link_ok_def)
  ultimately show ?thesis
    using assms(1,2) by (simp add: control_message_def read_at_def slice_def le16_def link_ok_def del: of_nat_add)
qed

lemma parse_interface:
  assumes "link_ok nlen alen slen link" and "0 < i" and "i < 65536"
  shows "parse_messages (interface_message i nlen alen slen link @ rest) (a, 0) = parse_messages rest (a, i)"
proof -
  let ?payload = "[word_of_nat (8 + length link), 18, word_of_nat i, word_of_nat (i div 256), 6, nlen, alen, slen] @ link"
  obtain k where k: "length link = 4 * k" using assms(1) by (auto simp: link_ok_def)
  then have "k \<le> 50" using assms(1) by (simp add: link_ok_def)
  then have "parse_messages (control_header (12 + 4 * (2 + k)) 20 @ ?payload @ rest) (a, 0) = parse_messages rest (a, i)"
    using k parse_one_message [of ?payload "2 + k" 20 rest "(a, 0)"] interface_payload [OF assms, of a] by simp
  moreover have "20 + length link = 12 + 4 * (2 + k)" using k by simp
  ultimately show ?thesis by (simp only: interface_message_def append_assoc)
qed

text \<open>
  C26: Decoding the control data of a received datagram never reads out of range, whatever the bytes are, and
  an accepted result is an IPv4 destination with a positive 16-bit interface index.  The two messages of the
  kernel are decoded to exactly the address and the index that they carry, in either order.
\<close>

theorem control_data_decoded:
  assumes "link_ok nlen alen slen link" and "0 < i" and "i < 65536"
  shows "parseControl data \<noteq> Inl ControlPanic \<and>
    (case parseControl data of Inl _ \<Rightarrow> True | Inr (a, n) \<Rightarrow> Is4 a \<and> 0 < n \<and> n < 65536) \<and>
    parseControl (destination_message w @ interface_message i nlen alen slen link) = Inr (Addr4 w, i) \<and>
    parseControl (interface_message i nlen alen slen link @ destination_message w) = Inr (Addr4 w, i)"
proof -
  let ?d = "destination_message w" and ?m = "interface_message i nlen alen slen link"
  have short: "length (?d @ ?m) \<le> maxControlBytes" "?d \<noteq> []" "?m \<noteq> []"
    using assms(1) by (simp_all add: destination_message_def interface_message_def control_header_def maxControlBytes_def link_ok_def)
  have "parse_messages (?d @ ?m) (AddrNone, 0) = Inr (Addr4 w, i)"
    using parse_interface [OF assms, of "[]" "Addr4 w"] parse_messages.simps [of "[]"]
    by (simp add: parse_destination)
  moreover have "parse_messages (?m @ ?d) (AddrNone, 0) = Inr (Addr4 w, i)"
    using parse_destination [of w "[]" i] parse_messages.simps [of "[]"]
    by (simp add: parse_interface [OF assms])
  moreover have "parse_messages data (AddrNone, 0) \<noteq> Inl ControlPanic \<and>
      (\<forall>a i. parse_messages data (AddrNone, 0) = Inr (a, i) \<longrightarrow> (Is4 a \<or> a = AddrNone) \<and> i < 65536)"
    by (rule parse_messages_safe) simp
  ultimately show ?thesis
    using short assms(2)
    by (cases "parse_messages data (AddrNone, 0)")
      (auto simp: parseControl_def guard_def Is4_def add.commute split: sum.splits)
qed

definition sample_link :: "byte list" where
  "sample_link = [101, 110, 48, 1, 2, 3, 4, 5, 6, 0, 0, 0]"

lemma sample_link_ok: "link_ok 3 6 0 sample_link"
proof -
  have "length sample_link = 4 * 3" by (simp add: sample_link_def)
  then show ?thesis by (simp add: link_ok_def)
qed

theorem control_data_decoded_witness:
  "link_ok 3 6 0 sample_link \<and>
   parseControl (destination_message 0xc0a80102 @ interface_message 4 3 6 0 sample_link) = Inr (Addr4 0xc0a80102, 4) \<and>
   parseControl [16, 0, 0] \<noteq> Inl ControlPanic"
  using control_data_decoded [of 3 6 0 sample_link 4 "[16, 0, 0]" "0xc0a80102"] sample_link_ok by simp

end
