(* ===== verification/IcmpSender.thy ===== *)
theory IcmpSender
  imports Effects IcmpPacket GatewayRun "HOL-Library.Signed_Division"
begin

text \<open>
  \<open>gatewayicmp/sender.go\<close> and \<open>gatewayrun/icmp.go\<close>: one bounded sample of at most three echo requests.  The
  seams of the \<open>Sender\<close> (clock, route lookup, socket, wait, random source), the context and \<open>time.Now\<close> are the
  fields of an \<open>icmp_env\<close>, functions on the state \<open>'w\<close> of the outside world.  The variables of \<open>Measure\<close> that
  its closures change are the fields of an \<open>icmp_run\<close>; \<open>ru_log\<close> records the calls that reach the network, for
  the properties.  An error value of the outside is the list of the sentinel errors that \<open>errors.Is\<close> finds
  in it.
\<close>

section \<open>Data\<close>

datatype icmp_error =
  IcmpCanceled | IcmpDeadlineExceeded | IcmpUnsupported | IcmpPermission | IcmpBinding | IcmpReceiveBudget
| IcmpClock | IcmpBusy | IcmpUnavailable | IcmpWouldBlock

type_synonym os_error = "icmp_error list"

definition maxDatagrams :: nat where "maxDatagrams = 16"
definition maxReceiveCalls :: nat where "maxReceiveCalls = 512"
definition pollInterval :: duration where "pollInterval = 10 * millisecond"

record route_evidence =
  ro_name :: string
  ro_index :: int
  ro_source :: addr
  ro_observedAt :: time
  ro_freshUntil :: time

record 'w icmp_env =
  ie_Now :: "'w \<Rightarrow> time \<times> 'w"
  ie_ctxErr :: "'w \<Rightarrow> icmp_error option \<times> 'w"
  ie_now :: "'w \<Rightarrow> time \<times> 'w"
  ie_lookup :: "icmp_request \<Rightarrow> 'w \<Rightarrow> (os_error, route_evidence) result \<times> 'w"
  ie_random :: "'w \<Rightarrow> byte list option \<times> 'w"
  ie_open :: "icmp_request \<Rightarrow> 'w \<Rightarrow> (os_error, bool) result \<times> 'w"
  ie_verify :: "'w \<Rightarrow> os_error option \<times> 'w"
  ie_send :: "byte list \<Rightarrow> 'w \<Rightarrow> os_error option \<times> 'w"
  ie_receive :: "'w \<Rightarrow> (os_error, datagram) result \<times> 'w"
  ie_wait :: "duration \<Rightarrow> 'w \<Rightarrow> os_error option \<times> 'w"
  ie_close :: "'w \<Rightarrow> bool \<times> 'w"

datatype icmp_action = LookedUp | Verified | Sent time "byte list" | Accepted time | Received

record 'w icmp_run =
  ru_world :: 'w
  ru_log :: "icmp_action list"
  ru_last :: time
  ru_sample :: gateway_sample
  ru_lastSend :: time
  ru_totalRTT :: duration
  ru_reads :: nat
  ru_received :: nat

text \<open>What \<open>Measure\<close> fixes before its first call: the start, the normalized request and the deadline of the context.\<close>

record icmp_bounds =
  bo_start :: time
  bo_request :: icmp_request
  bo_deadline :: time

type_synonym ('w, 'a) icmp_eff = "('w icmp_run, icmp_error, 'a) eff"

definition call :: "('w \<Rightarrow> 'a \<times> 'w) \<Rightarrow> ('w, 'a) icmp_eff" where
  "call f = (\<lambda>s. case f (ru_world s) of (x, w) \<Rightarrow> (Inr x, s\<lparr>ru_world := w\<rparr>))"

definition note_action :: "icmp_action \<Rightarrow> ('w, unit) icmp_eff" where
  "note_action a = change (\<lambda>s. s\<lparr>ru_log := ru_log s @ [a]\<rparr>)"

section \<open>Helpers\<close>

definition contextError :: "icmp_error option \<Rightarrow> time option \<Rightarrow> time \<Rightarrow> icmp_error option" where
  "contextError err deadline now =
     (case err of
        Some e \<Rightarrow> Some e
      | None \<Rightarrow>
          (case deadline of
             Some d \<Rightarrow> if \<not> before (strip now) (strip d) then Some IcmpDeadlineExceeded else None
           | None \<Rightarrow> None))"

definition check_context :: "'w icmp_env \<Rightarrow> time option \<Rightarrow> ('w, unit) icmp_eff" where
  "check_context env deadline =
     seq (call (ie_Now env)) (\<lambda>now.
     seq (call (ie_ctxErr env)) (\<lambda>err. stop_with (contextError err deadline now)))"

definition normalize_request :: "icmp_request \<Rightarrow> time \<Rightarrow> (icmp_error, icmp_request) result" where
  "normalize_request r now =
     guard (\<not> nano_time now \<or> \<not> nano_time (gp_CreatedAt (ir_Plan r)) \<or> after (gp_CreatedAt (ir_Plan r)) now \<or>
            \<not> after (gp_ReviewExpiresAt (ir_Plan r)) now \<or> ir_Source r = gp_Target (ir_Plan r)) IcmpBinding
     (case PreviewGatewayCheck (gp_Binding (ir_Plan r)) (addr_string (gp_Target (ir_Plan r))) (gp_CreatedAt (ir_Plan r)) of
        Inl _ \<Rightarrow> Inl IcmpBinding
      | Inr plan \<Rightarrow>
          guard (gp_Budget plan \<noteq> gp_Budget (ir_Plan r) \<or>
                 \<not> time_eq (gp_ReviewExpiresAt plan) (gp_ReviewExpiresAt (ir_Plan r))) IcmpBinding
          (case PreviewGatewayCheck (gp_Binding plan) (addr_string (ir_Source r)) now of
             Inl _ \<Rightarrow> Inl IcmpBinding
           | Inr _ \<Rightarrow> Inr (r\<lparr>ir_Plan := plan\<rparr>)))"

definition known_errors :: "icmp_error list" where
  "known_errors = [IcmpCanceled, IcmpDeadlineExceeded, IcmpUnsupported, IcmpPermission, IcmpBinding,
     IcmpReceiveBudget, IcmpClock, IcmpBusy]"

definition safeError :: "os_error \<Rightarrow> icmp_error" where
  "safeError err = (case find (\<lambda>known. known \<in> set err) known_errors of Some known \<Rightarrow> known | None \<Rightarrow> IcmpUnavailable)"

definition clock :: "'w icmp_env \<Rightarrow> icmp_bounds \<Rightarrow> ('w, time) icmp_eff" where
  "clock env bo =
     (let timeout = pb_TotalTimeout (gp_Budget (ir_Plan (bo_request bo))); start = bo_start bo in
      seq (call (ie_now env)) (\<lambda>now.
      seq (get ru_last) (\<lambda>prev.
      seq (stop_if (\<not> nano_time now \<or> before (strip now) (strip prev) \<or> before now prev) IcmpClock) (\<lambda>_.
      seq (change (\<lambda>s. s\<lparr>ru_last := now\<rparr>)) (\<lambda>_.
      seq (check_context env (Some (bo_deadline bo))) (\<lambda>_.
      seq (stop_if (time_sub now start \<ge> timeout \<or> time_sub (strip now) (strip start) \<ge> timeout \<or>
                    \<not> before (strip now) (gp_ReviewExpiresAt (ir_Plan (bo_request bo)))) IcmpDeadlineExceeded) (\<lambda>_.
      ret now)))))))"

definition checkRoute :: "'w icmp_env \<Rightarrow> icmp_bounds \<Rightarrow> ('w, unit) icmp_eff" where
  "checkRoute env bo =
     (let r = bo_request bo; b = gp_Binding (ir_Plan r) in
      seq (clock env bo) (\<lambda>earlier.
      seq (call (ie_lookup env r)) (\<lambda>answer.
      case answer of
        Inl e \<Rightarrow> fail (safeError e)
      | Inr e \<Rightarrow>
          seq (clock env bo) (\<lambda>later.
          seq (stop_if (ro_name e \<noteq> gb_InterfaceName b \<or> ro_index e \<noteq> gb_InterfaceIndex b \<or> ro_source e \<noteq> ir_Source r \<or>
                 \<not> nano_time (ro_observedAt e) \<or> before (ro_observedAt e) (strip earlier) \<or>
                 after (ro_observedAt e) (strip later) \<or>
                 \<not> time_eq (ro_freshUntil e) (time_add (ro_observedAt e) GatewayReviewLifetime) \<or>
                 \<not> after (ro_freshUntil e) (strip later)) IcmpBinding) (\<lambda>_.
          note_action LookedUp)))))"

section \<open>Waiting for one reply\<close>

definition timed_out :: "'w icmp_run \<Rightarrow> 'w icmp_run" where
  "timed_out s = s\<lparr>ru_sample := (ru_sample s)\<lparr>gs_Timeouts := gs_Timeouts (ru_sample s) + 1\<rparr>\<rparr>"

definition replied :: "duration \<Rightarrow> 'w icmp_run \<Rightarrow> 'w icmp_run" where
  "replied rtt s = s\<lparr>ru_sample := (ru_sample s)\<lparr>gs_Replies := gs_Replies (ru_sample s) + 1\<rparr>,
     ru_totalRTT := ru_totalRTT s + rtt\<rparr>"

text \<open>What follows a receive call; the result says whether the wait is over.\<close>

definition handle_received ::
  "'w icmp_env \<Rightarrow> icmp_bounds \<Rightarrow> 16 word \<Rightarrow> byte list \<Rightarrow> 16 word \<Rightarrow> time \<Rightarrow> time \<Rightarrow>
   (os_error, datagram) result \<Rightarrow> time \<Rightarrow> ('w, bool) icmp_eff" where
  "handle_received env bo ident nonce n sentAt until answer now =
     (case answer of
        Inl e \<Rightarrow>
          if IcmpWouldBlock \<in> set e then
            seq (call (ie_wait env (min pollInterval (max 0 (time_sub until now))))) (\<lambda>err.
            seq (stop_with (map_option safeError err)) (\<lambda>_. ret False))
          else fail (safeError e)
      | Inr d \<Rightarrow>
          seq (change (\<lambda>s. s\<lparr>ru_received := Suc (ru_received s)\<rparr>)) (\<lambda>_.
          if \<not> before now until then seq (change timed_out) (\<lambda>_. ret True)
          else if matchesReply d (bo_request bo) ident n nonce
          then seq (change (replied (time_sub now sentAt))) (\<lambda>_. ret True)
          else ret False))"

definition receive_once ::
  "'w icmp_env \<Rightarrow> icmp_bounds \<Rightarrow> 16 word \<Rightarrow> byte list \<Rightarrow> 16 word \<Rightarrow> time \<Rightarrow> time \<Rightarrow> ('w, bool) icmp_eff" where
  "receive_once env bo ident nonce n sentAt until =
     seq (change (\<lambda>s. s\<lparr>ru_reads := Suc (ru_reads s)\<rparr>)) (\<lambda>_.
     seq (note_action Received) (\<lambda>_.
     seq (call (ie_receive env)) (\<lambda>answer.
     seq (clock env bo) (\<lambda>now.
     handle_received env bo ident nonce n sentAt until answer now))))"

lemma wp_call [wp_simps]: "wp (call f) Q E s = (case f (ru_world s) of (x, w) \<Rightarrow> Q x (s\<lparr>ru_world := w\<rparr>))"
  by (simp add: wp_def call_def split: prod.splits)

lemma wp_note_action [wp_simps]: "wp (note_action a) Q E s = Q () (s\<lparr>ru_log := ru_log s @ [a]\<rparr>)"
  by (simp add: note_action_def wp_simps)

lemmas sender_wp = clock_def check_context_def Let_def wp_simps

lemma receive_once_reads:
  "wp (receive_once env bo ident nonce n sentAt until) (\<lambda>_ s'. ru_reads s' = Suc (ru_reads s)) (\<lambda>_ _. True) s"
  by (simp add: receive_once_def handle_received_def timed_out_def replied_def sender_wp split: prod.splits sum.splits option.splits)

lemma clock_reads: "wp (clock env bo) (\<lambda>_ s'. ru_reads s' = ru_reads s) (\<lambda>_ _. True) s"
  by (simp add: sender_wp split: prod.splits option.splits)

function await_reply ::
  "'w icmp_env \<Rightarrow> icmp_bounds \<Rightarrow> 16 word \<Rightarrow> byte list \<Rightarrow> 16 word \<Rightarrow> time \<Rightarrow> time \<Rightarrow> ('w, unit) icmp_eff" where
  "await_reply env bo ident nonce n sentAt until s =
     (case clock env bo s of
        (Inl e, s) \<Rightarrow> (Inl e, s)
      | (Inr now, s) \<Rightarrow>
          if \<not> before now until then (Inr (), timed_out s)
          else if ru_received s \<ge> maxDatagrams \<or> ru_reads s \<ge> maxReceiveCalls then (Inl IcmpReceiveBudget, s)
          else (case receive_once env bo ident nonce n sentAt until s of
                  (Inl e, s) \<Rightarrow> (Inl e, s)
                | (Inr True, s) \<Rightarrow> (Inr (), s)
                | (Inr False, s) \<Rightarrow> await_reply env bo ident nonce n sentAt until s))"
  by pat_completeness auto
termination
proof (relation "measure (\<lambda>(env, bo, ident, nonce, n, sentAt, until, s). maxReceiveCalls - ru_reads s)")
  show "wf (measure (\<lambda>(env, bo, ident, nonce, n, sentAt, until, s). maxReceiveCalls - ru_reads s))" by simp
next
  fix env bo ident nonce n sentAt until s r s1 now r2 s2 b
  assume "(r, s1) = clock env bo s" "r = Inr now" "\<not> \<not> before now until"
    "\<not> (maxDatagrams \<le> ru_received s1 \<or> maxReceiveCalls \<le> ru_reads s1)"
    "(r2, s2) = receive_once env bo ident nonce n sentAt until s1" "r2 = Inr b" "b = False"
  then have "ru_reads s1 = ru_reads s" "ru_reads s2 = Suc (ru_reads s1)" "ru_reads s1 < maxReceiveCalls"
    using wp_resultD(1) [OF clock_reads, of env bo s now s1]
      wp_resultD(1) [OF receive_once_reads, of env bo ident nonce n sentAt until s1 b s2] by auto
  then show "((env, bo, ident, nonce, n, sentAt, until, s2), env, bo, ident, nonce, n, sentAt, until, s)
     \<in> measure (\<lambda>(env, bo, ident, nonce, n, sentAt, until, s). maxReceiveCalls - ru_reads s)"
    by simp
qed

declare await_reply.simps [simp del]

section \<open>One attempt\<close>

definition receive_exhausted :: "'w icmp_run \<Rightarrow> bool" where
  "receive_exhausted s \<longleftrightarrow> ru_received s \<ge> maxDatagrams \<or> ru_reads s \<ge> maxReceiveCalls"

definition pace :: "'w icmp_env \<Rightarrow> icmp_bounds \<Rightarrow> ('w, unit) icmp_eff" where
  "pace env bo =
     seq (clock env bo) (\<lambda>now.
     seq (get ru_lastSend) (\<lambda>lastSend.
     if is_zero lastSend then ret ()
     else
       seq (call (ie_wait env (max 0 (pb_MinInterval (gp_Budget (ir_Plan (bo_request bo))) - time_sub now lastSend)))) (\<lambda>err.
       stop_with (map_option safeError err))))"

definition sent_at :: "time \<Rightarrow> byte list \<Rightarrow> 'w icmp_run \<Rightarrow> 'w icmp_run" where
  "sent_at t p s = s\<lparr>ru_sample := (ru_sample s)\<lparr>gs_SendCalls := gs_SendCalls (ru_sample s) + 1\<rparr>,
     ru_log := ru_log s @ [Sent t p]\<rparr>"

definition accepted :: "'w icmp_run \<Rightarrow> 'w icmp_run" where
  "accepted s = s\<lparr>ru_sample := (ru_sample s)\<lparr>gs_AcceptedRequests := gs_AcceptedRequests (ru_sample s) + 1\<rparr>\<rparr>"

definition completed_at :: "time \<Rightarrow> 'w icmp_run \<Rightarrow> 'w icmp_run" where
  "completed_at t s = s\<lparr>ru_lastSend := t, ru_log := ru_log s @ [Accepted t]\<rparr>"

definition deliver :: "'w icmp_env \<Rightarrow> icmp_bounds \<Rightarrow> byte list \<Rightarrow> ('w, unit) icmp_eff" where
  "deliver env bo packet =
     seq (call (ie_send env packet)) (\<lambda>err.
     seq (stop_with (map_option safeError err)) (\<lambda>_.
     seq (change accepted) (\<lambda>_.
     seq (clock env bo) (\<lambda>now. change (completed_at now)))))"

definition transmit :: "'w icmp_env \<Rightarrow> icmp_bounds \<Rightarrow> 16 word \<Rightarrow> byte list \<Rightarrow> 16 word \<Rightarrow> ('w, time) icmp_eff" where
  "transmit env bo ident nonce n =
     (let packet = echoRequest ident n nonce in
      seq (clock env bo) (\<lambda>sentAt.
      seq (get ru_lastSend) (\<lambda>lastSend.
      seq (stop_if (\<not> is_zero lastSend \<and>
             time_sub sentAt lastSend < pb_MinInterval (gp_Budget (ir_Plan (bo_request bo)))) IcmpClock) (\<lambda>_.
      seq (change (sent_at sentAt packet)) (\<lambda>_.
      seq (deliver env bo packet) (\<lambda>_. ret sentAt))))))"

definition verify_socket :: "'w icmp_env \<Rightarrow> ('w, unit) icmp_eff" where
  "verify_socket env =
     seq (call (ie_verify env)) (\<lambda>err.
     seq (stop_with (map_option safeError err)) (\<lambda>_. note_action Verified))"

definition exchange :: "'w icmp_env \<Rightarrow> icmp_bounds \<Rightarrow> 16 word \<Rightarrow> byte list \<Rightarrow> 16 word \<Rightarrow> ('w, unit) icmp_eff" where
  "exchange env bo ident nonce n =
     seq (transmit env bo ident nonce n) (\<lambda>sentAt.
     await_reply env bo ident nonce n sentAt
       (time_add sentAt (pb_AttemptTimeout (gp_Budget (ir_Plan (bo_request bo))))))"

definition attempt :: "'w icmp_env \<Rightarrow> icmp_bounds \<Rightarrow> 16 word \<Rightarrow> byte list \<Rightarrow> nat \<Rightarrow> ('w, unit) icmp_eff" where
  "attempt env bo ident nonce n =
     seq (get receive_exhausted) (\<lambda>spent.
     seq (stop_if spent IcmpReceiveBudget) (\<lambda>_.
     seq (pace env bo) (\<lambda>_.
     seq (checkRoute env bo) (\<lambda>_.
     seq (verify_socket env) (\<lambda>_.
     exchange env bo ident nonce (word_of_nat n))))))"

section \<open>Measure\<close>

definition complete_sample :: "time \<Rightarrow> 'w icmp_run \<Rightarrow> 'w icmp_run" where
  "complete_sample ended s =
     (let m = ru_sample s in
      s\<lparr>ru_sample := m\<lparr>gs_Complete := True, gs_CompletedAt := strip ended,
        gs_MeanRTT := (if gs_Replies m > 0 then Some (ru_totalRTT s sdiv gs_Replies m) else gs_MeanRTT m)\<rparr>\<rparr>)"

definition attempts :: "'w icmp_env \<Rightarrow> icmp_bounds \<Rightarrow> 16 word \<Rightarrow> byte list \<Rightarrow> ('w, unit) icmp_eff" where
  "attempts env bo ident nonce =
     seq (each (attempt env bo ident nonce) [1..<Suc (nat (pb_MaxAttempts (gp_Budget (ir_Plan (bo_request bo)))))]) (\<lambda>_.
     seq (clock env bo) (\<lambda>ended.
     change (complete_sample ended)))"

definition first_sample :: "icmp_bounds \<Rightarrow> gateway_sample" where
  "first_sample bo =
     (let r = bo_request bo; b = gp_Binding (ir_Plan r) in
      zero_sample\<lparr>gs_ScopeID := gb_ScopeID b, gs_InterfaceName := gb_InterfaceName b,
        gs_InterfaceIndex := gb_InterfaceIndex b, gs_Target := gp_Target (ir_Plan r), gs_Source := ir_Source r,
        gs_StartedAt := strip (bo_start bo)\<rparr>)"

definition bind_socket :: "'w icmp_env \<Rightarrow> icmp_bounds \<Rightarrow> byte list \<Rightarrow> ('w, 16 word \<times> byte list) icmp_eff" where
  "bind_socket env bo entropy =
     seq (clock env bo) (\<lambda>_.
     seq (call (ie_open env (bo_request bo))) (\<lambda>conn.
     case conn of
       Inl e \<Rightarrow> fail (safeError e)
     | Inr present \<Rightarrow>
         seq (stop_if (\<not> present) IcmpUnavailable) (\<lambda>_.
         seq (change (\<lambda>s. s\<lparr>ru_sample := first_sample bo\<rparr>)) (\<lambda>_.
         ret (be16 (entropy ! 0) (entropy ! 1), drop 2 entropy)))))"

text \<open>From the normalized request to the open socket; nothing of the sample exists before.  The random source
  fills 34 bytes or fails.\<close>

definition open_socket :: "'w icmp_env \<Rightarrow> icmp_bounds \<Rightarrow> ('w, 16 word \<times> byte list) icmp_eff" where
  "open_socket env bo =
     seq (checkRoute env bo) (\<lambda>_.
     seq (call (ie_random env)) (\<lambda>entropy.
     case entropy of None \<Rightarrow> fail IcmpUnavailable | Some bytes \<Rightarrow> bind_socket env bo bytes))"

text \<open>The deferred function: a failed close takes back the completeness of the sample.\<close>

definition close_socket ::
  "'w icmp_env \<Rightarrow> icmp_error option \<Rightarrow> 'w icmp_run \<Rightarrow> icmp_error option \<times> 'w icmp_run" where
  "close_socket env err s =
     (case ie_close env (ru_world s) of
        (ok, w) \<Rightarrow>
          (let s = s\<lparr>ru_world := w\<rparr> in
           if ok then (err, s)
           else (if err = None then Some IcmpUnavailable else err,
                 s\<lparr>ru_sample := (ru_sample s)\<lparr>gs_Complete := False, gs_MeanRTT := None\<rparr>\<rparr>)))"

definition error_of :: "('e, 'a) result \<Rightarrow> 'e option" where
  "error_of r = (case r of Inl e \<Rightarrow> Some e | Inr _ \<Rightarrow> None)"

definition measure_bounded :: "'w icmp_env \<Rightarrow> icmp_bounds \<Rightarrow> 'w icmp_run \<Rightarrow> icmp_error option \<times> 'w icmp_run" where
  "measure_bounded env bo s =
     (case open_socket env bo s of
        (Inl e, s) \<Rightarrow> (Some e, s)
      | (Inr (ident, nonce), s) \<Rightarrow>
          (case attempts env bo ident nonce s of (r, s) \<Rightarrow> close_socket env (error_of r) s))"

text \<open>\<open>context.WithTimeout\<close>: the earlier of the parent's deadline and now plus the timeout.\<close>

definition with_timeout :: "time option \<Rightarrow> time \<Rightarrow> duration \<Rightarrow> time" where
  "with_timeout parent now timeout =
     (let d = time_add now timeout in
      case parent of Some p \<Rightarrow> if before p d then p else d | None \<Rightarrow> d)"

record icmp_sender =
  sn_ready :: bool
  sn_busy :: bool

definition initial_run :: "'w \<Rightarrow> time \<Rightarrow> 'w icmp_run" where
  "initial_run w start = \<lparr>ru_world = w, ru_log = [], ru_last = start, ru_sample = zero_sample,
     ru_lastSend = zero_time, ru_totalRTT = 0, ru_reads = 0, ru_received = 0\<rparr>"

text \<open>The clock is read at the start before the request is checked; its reading starts the run.\<close>

definition Measure ::
  "'w icmp_env \<Rightarrow> icmp_sender \<Rightarrow> time option \<Rightarrow> icmp_request \<Rightarrow> 'w \<Rightarrow>
   (gateway_sample \<times> icmp_error option) \<times> 'w icmp_run" where
  "Measure env sender deadline request w =
     (case check_context env deadline (initial_run w zero_time) of
        (Inl e, s) \<Rightarrow> ((zero_sample, Some e), s)
      | (Inr _, s) \<Rightarrow>
          if \<not> sn_ready sender then ((zero_sample, Some IcmpUnavailable), s)
          else if sn_busy sender then ((zero_sample, Some IcmpBusy), s)
          else (case ie_now env (ru_world s) of
            (start, w1) \<Rightarrow>
              (case normalize_request request (strip start) of
                 Inl e \<Rightarrow> ((zero_sample, Some e), initial_run w1 start)
               | Inr r \<Rightarrow>
                   (case ie_Now env w1 of
                      (now, w2) \<Rightarrow>
                        (let timeout = min (pb_TotalTimeout (gp_Budget (ir_Plan r)))
                               (time_sub (gp_ReviewExpiresAt (ir_Plan r)) (strip start));
                             bo = \<lparr>bo_start = start, bo_request = r, bo_deadline = with_timeout deadline now timeout\<rparr>
                         in (case measure_bounded env bo (initial_run w2 start) of
                               (err, s) \<Rightarrow> ((ru_sample s, err), s)))))))"

text \<open>\<open>gatewayrun/icmp.go\<close>: the executor of the gateway control hands the selection to the sender.\<close>

definition ExecuteGateway ::
  "'w icmp_env \<Rightarrow> icmp_sender \<Rightarrow> time option \<Rightarrow> gateway_selection \<Rightarrow> 'w \<Rightarrow>
   (gateway_sample \<times> icmp_error option) \<times> 'w icmp_run" where
  "ExecuteGateway env sender deadline s w =
     Measure env sender deadline \<lparr>ir_Plan = se_Plan s, ir_Source = se_Source s\<rparr> w"

end
