(* ===== verification/IcmpRules.thy ===== *)
theory IcmpRules
  imports IcmpSender
begin

text \<open>
  Rules for the steps of a run of the sender, one per function of \<open>IcmpSender\<close>: what a step does to a
  run, without the details of the outside.  The world changes, the last
  clock reading advances, and a successful reading lies within the bounds of the run.
\<close>

definition reading :: "'w icmp_env \<Rightarrow> time \<Rightarrow> bool" where
  "reading env t \<longleftrightarrow> (\<exists>w. t = fst (ie_now env w))"

definition elapses :: "'w icmp_env \<Rightarrow> 'w icmp_run \<Rightarrow> time \<Rightarrow> bool" where
  "elapses env s t \<longleftrightarrow> t = ru_last s \<or> reading env t \<and> nano_time t \<and> wall (ru_last s) \<le> wall t"

definition in_bounds :: "icmp_bounds \<Rightarrow> time \<Rightarrow> bool" where
  "in_bounds bo t \<longleftrightarrow> nano_time t \<and>
     wall t - wall (bo_start bo) < pb_TotalTimeout (gp_Budget (ir_Plan (bo_request bo))) \<and>
     wall t < wall (gp_ReviewExpiresAt (ir_Plan (bo_request bo)))"

definition tick :: "'w \<Rightarrow> time \<Rightarrow> 'w icmp_run \<Rightarrow> 'w icmp_run" where
  "tick w t s = s\<lparr>ru_world := w, ru_last := t\<rparr>"

lemma tick_simps [simp]:
  "ru_last (tick w t s) = t" "ru_log (tick w t s) = ru_log s" "ru_sample (tick w t s) = ru_sample s"
  "ru_lastSend (tick w t s) = ru_lastSend s" "ru_totalRTT (tick w t s) = ru_totalRTT s"
  "ru_reads (tick w t s) = ru_reads s" "ru_received (tick w t s) = ru_received s"
  by (simp_all add: tick_def)

lemma tick_world [simp]: "ru_world (tick w t s) = w" "(tick w t s)\<lparr>ru_world := w'\<rparr> = tick w' t s"
  by (simp_all add: tick_def)

lemma tick_log [simp]: "(tick w t s)\<lparr>ru_log := l\<rparr> = tick w t (s\<lparr>ru_log := l\<rparr>)"
  by (simp add: tick_def)

lemma tick_same: "s\<lparr>ru_world := w\<rparr> = tick w (ru_last s) s"
  by (simp add: tick_def)

lemma tick_tick [simp]: "tick w t (tick w' t' s) = tick w t s"
  by (simp add: tick_def)

lemma elapses_refl [simp]: "elapses env s (ru_last s)"
  by (simp add: elapses_def)

lemma elapses_trans: "elapses env s t \<Longrightarrow> elapses env (tick w t s) u \<Longrightarrow> elapses env s u"
  by (auto simp: elapses_def)

lemma clamp_below: "int64_clamp x < b \<Longrightarrow> b \<le> int64_max \<Longrightarrow> x < b"
  by (auto simp: int64_clamp_def)

lemma wp_clock:
  assumes "pb_TotalTimeout (gp_Budget (ir_Plan (bo_request bo))) \<le> int64_max"
    and "\<And>w t. elapses env s t \<Longrightarrow> reading env t \<Longrightarrow> in_bounds bo t \<Longrightarrow> Q t (tick w t s)"
    and "\<And>e w t. elapses env s t \<Longrightarrow> E e (tick w t s)"
  shows "wp (clock env bo) Q E s"
proof -
  obtain now w1 where now: "ie_now env (ru_world s) = (now, w1)" by fastforce
  then have r: "reading env now" by (auto simp: reading_def intro: exI [of _ "ru_world s"])
  show ?thesis
  proof (cases "\<not> nano_time now \<or> before (strip now) (strip (ru_last s)) \<or> before now (ru_last s)")
    case True
    then show ?thesis using assms(3) [OF elapses_refl] by (auto simp: sender_wp now tick_same)
  next
    case False
    then have el: "elapses env s now" using r by (auto simp: elapses_def go_time)
    have upd: "s\<lparr>ru_last := now, ru_world := w\<rparr> = tick w now s" for w
      by (simp add: tick_def)
    have bound: "in_bounds bo now"
      if "\<not> pb_TotalTimeout (gp_Budget (ir_Plan (bo_request bo))) \<le> time_sub (strip now) (strip (bo_start bo))"
        "before (strip now) (gp_ReviewExpiresAt (ir_Plan (bo_request bo)))"
      using that False clamp_below [OF _ assms(1)] by (auto simp: in_bounds_def go_time)
    show ?thesis
      using False assms(2) [OF el r] assms(3) [OF el] bound
      by (auto simp: sender_wp now upd split: prod.splits option.splits)
  qed
qed

lemma wp_call_tick:
  assumes "\<And>x w. Q x (tick w (ru_last s) s)"
  shows "wp (call f) Q E s"
  using assms by (simp add: wp_simps tick_same split: prod.splits)

lemma wp_checkRoute:
  assumes timeout: "pb_TotalTimeout (gp_Budget (ir_Plan (bo_request bo))) \<le> int64_max"
    and Q: "\<And>w t. elapses env s t \<Longrightarrow> reading env t \<Longrightarrow> in_bounds bo t \<Longrightarrow> Q () (tick w t (s\<lparr>ru_log := ru_log s @ [LookedUp]\<rparr>))"
    and E: "\<And>e w t. elapses env s t \<Longrightarrow> E e (tick w t s)"
  shows "wp (checkRoute env bo) Q E s"
proof -
  show ?thesis
    unfolding checkRoute_def Let_def wp_seq
    by (rule wp_clock [OF timeout], rule wp_call_tick)
      (auto simp: wp_simps split: sum.splits intro!: wp_clock [OF timeout] Q E elim: elapses_trans)
qed


lemma wp_pace:
  assumes timeout: "pb_TotalTimeout (gp_Budget (ir_Plan (bo_request bo))) \<le> int64_max"
    and Q: "\<And>w t. elapses env s t \<Longrightarrow> Q () (tick w t s)" and E: "\<And>e w t. elapses env s t \<Longrightarrow> E e (tick w t s)"
  shows "wp (pace env bo) Q E s"
  unfolding pace_def wp_seq
  by (rule wp_clock [OF timeout]) (auto simp: wp_simps tick_same split: prod.splits option.splits intro: Q E)

lemma wp_verify_socket:
  assumes "\<And>w. Q () (tick w (ru_last s) (s\<lparr>ru_log := ru_log s @ [Verified]\<rparr>))" and "\<And>e w. E e (tick w (ru_last s) s)"
  shows "wp (verify_socket env) Q E s"
  using assms by (auto simp: verify_socket_def wp_simps tick_same split: prod.splits option.splits)

text \<open>A receive call that neither ends the wait nor fails leaves the run \<open>idle\<close>.\<close>

definition idle :: "'w \<Rightarrow> time \<Rightarrow> bool \<Rightarrow> 'w icmp_run \<Rightarrow> 'w icmp_run" where
  "idle w t got s = tick w t (s\<lparr>ru_reads := Suc (ru_reads s), ru_log := ru_log s @ [Received],
     ru_received := ru_received s + (if got then 1 else 0)\<rparr>)"

lemma wp_receive_once:
  assumes timeout: "pb_TotalTimeout (gp_Budget (ir_Plan (bo_request bo))) \<le> int64_max"
    and more_: "\<And>w t got. elapses env s t \<Longrightarrow> Q False (idle w t got s)"
    and late: "\<And>w t. elapses env s t \<Longrightarrow> reading env t \<Longrightarrow> in_bounds bo t \<Longrightarrow> \<not> before t until \<Longrightarrow> Q True (timed_out (idle w t True s))"
    and reply: "\<And>w t. elapses env s t \<Longrightarrow> reading env t \<Longrightarrow> in_bounds bo t \<Longrightarrow> before t until \<Longrightarrow>
      Q True (replied (time_sub t sentAt) (idle w t True s))"
    and E: "\<And>e w t. elapses env s t \<Longrightarrow> E e (idle w t False s)"
  shows "wp (receive_once env bo ident nonce n sentAt until) Q E s"
proof -
  let ?s = "s\<lparr>ru_reads := Suc (ru_reads s), ru_log := ru_log s @ [Received]\<rparr>"
  have f: "idle w t False s = tick w t ?s" for w t by (simp add: idle_def tick_def)
  have g: "idle w t True s = (tick w t ?s)\<lparr>ru_received := Suc (ru_received s)\<rparr>" for w t by (simp add: idle_def tick_def)
  have el: "elapses env (tick w (ru_last s) ?s) t \<longleftrightarrow> elapses env s t" for w t by (simp add: elapses_def)
  have "wp (clock env bo) (\<lambda>now. wp (handle_received env bo ident nonce n sentAt until answer now) Q E) E
     (tick w (ru_last s) ?s)" for answer w
  proof (rule wp_clock [OF timeout])
    fix w' t
    assume t: "elapses env (tick w (ru_last s) ?s) t" "reading env t" "in_bounds bo t"
    note facts = more_ [of t _ False, unfolded f] more_ [of t _ True, unfolded g] late [unfolded g]
      reply [unfolded g] E [unfolded f]
    show "wp (handle_received env bo ident nonce n sentAt until answer t) Q E (tick w' t (tick w (ru_last s) ?s))"
      using facts t el
      by (auto simp: handle_received_def wp_simps
        split: sum.splits prod.splits option.splits)
  next
    fix e w' t
    assume "elapses env (tick w (ru_last s) ?s) t"
    then show "E e (tick w' t (tick w (ru_last s) ?s))" using E f el by simp
  qed
  then show ?thesis
    unfolding receive_once_def by (auto simp: wp_simps tick_def split: prod.splits)
qed


lemma idle_simps [simp]:
  "ru_last (idle w t got s) = t" "ru_log (idle w t got s) = ru_log s @ [Received]"
  "ru_sample (idle w t got s) = ru_sample s" "ru_lastSend (idle w t got s) = ru_lastSend s"
  "ru_totalRTT (idle w t got s) = ru_totalRTT s" "ru_reads (idle w t got s) = Suc (ru_reads s)"
  "ru_received (idle w t got s) = ru_received s + (if got then 1 else 0)"
  by (simp_all add: idle_def)

text \<open>
  The wait for one reply keeps what ticks of the clock and idle receive calls keep; it ends with a timeout
  at a reading that is not before \<open>until\<close>, with a reply at one that is, or with an error.
\<close>

lemma wp_await_reply:
  assumes timeout: "pb_TotalTimeout (gp_Budget (ir_Plan (bo_request bo))) \<le> int64_max"
    and ticks: "\<And>s w t. P s \<Longrightarrow> elapses env s t \<Longrightarrow> P (tick w t s)"
    and idles: "\<And>s w t got. P s \<Longrightarrow> elapses env s t \<Longrightarrow> \<not> receive_exhausted s \<Longrightarrow> P (idle w t got s)"
    and late: "\<And>s. P s \<Longrightarrow> reading env (ru_last s) \<Longrightarrow> in_bounds bo (ru_last s) \<Longrightarrow> \<not> before (ru_last s) until \<Longrightarrow> Q (timed_out s)"
    and reply: "\<And>s. P s \<Longrightarrow> reading env (ru_last s) \<Longrightarrow> in_bounds bo (ru_last s) \<Longrightarrow> before (ru_last s) until \<Longrightarrow>
      Q (replied (time_sub (ru_last s) sentAt) s)"
    and E: "\<And>e s. P s \<Longrightarrow> E e s"
    and "P s"
  shows "wp (await_reply env bo ident nonce n sentAt until) (\<lambda>_. Q) E s"
  using \<open>P s\<close>
proof (induction s rule: measure_induct_rule [where f = "\<lambda>s. maxReceiveCalls - ru_reads s"])
  case (less s)
  let ?again = "wp (await_reply env bo ident nonce n sentAt until) (\<lambda>_. Q) E"
  let ?step = "\<lambda>now s. if \<not> before now until then Q (timed_out s)
      else if receive_exhausted s then E IcmpReceiveBudget s
      else wp (receive_once env bo ident nonce n sentAt until) (\<lambda>b. if b then Q else ?again) E s"
  have unfold: "?again s = wp (clock env bo) ?step E s"
  proof -
    obtain r s1 where c: "clock env bo s = (r, s1)" by fastforce
    obtain r2 s2 where d: "receive_once env bo ident nonce n sentAt until s1 = (r2, s2)" by fastforce
    have "?again s = wp (\<lambda>s. (r, s1)) ?step E s"
      unfolding wp_def
      by (subst await_reply.simps, cases r; cases r2)
        (auto simp: c d receive_exhausted_def split: bool.splits)
    then show ?thesis by (simp add: wp_def c)
  qed
  have "wp (clock env bo) ?step E s"
  proof (rule wp_clock [OF timeout])
    fix w t
    assume t: "elapses env s t" "reading env t" "in_bounds bo t"
    have P: "P (tick w t s)" by (rule ticks [OF less.prems t(1)])
    have "wp (receive_once env bo ident nonce n sentAt until) (\<lambda>b. if b then Q else ?again) E (tick w t s)"
      if room: "\<not> receive_exhausted (tick w t s)"
    proof -
      have idle: "P (idle w' u got (tick w t s))" if "elapses env (tick w t s) u" for w' u got
        by (rule idles [OF P that room])
      have "?again (idle w' u got (tick w t s))" if "elapses env (tick w t s) u" for w' u got
        by (rule less.IH [OF _ idle [OF that]]) (use room in \<open>auto simp: receive_exhausted_def\<close>)
      moreover have "Q (replied (time_sub u sentAt) (idle w' u True (tick w t s)))"
        if "elapses env (tick w t s) u" "reading env u" "in_bounds bo u" "before u until" for w' u
        using reply [OF idle [OF that(1)]] that by simp
      ultimately show ?thesis
        using idle late E by (intro wp_receive_once [OF timeout]) simp_all
    qed
    then show "?step t (tick w t s)"
      using late [OF P] E [OF P] t by auto
  next
    fix e w t
    assume "elapses env s t"
    then show "E e (tick w t s)" by (intro E ticks less.prems)
  qed
  then show ?case by (simp only: unfold)
qed

section \<open>Sending\<close>

definition paced :: "icmp_bounds \<Rightarrow> 'w icmp_run \<Rightarrow> time \<Rightarrow> bool" where
  "paced bo s t \<longleftrightarrow> is_zero (ru_lastSend s) \<or>
     time_sub t (ru_lastSend s) \<ge> pb_MinInterval (gp_Budget (ir_Plan (bo_request bo)))"

lemma wp_transmit:
  assumes timeout: "pb_TotalTimeout (gp_Budget (ir_Plan (bo_request bo))) \<le> int64_max"
    and early: "\<And>e w t. elapses env s t \<Longrightarrow> E e (tick w t s)"
    and sent: "\<And>e w t. elapses env s t \<Longrightarrow> reading env t \<Longrightarrow> in_bounds bo t \<Longrightarrow> paced bo s t \<Longrightarrow>
      E e (sent_at t (echoRequest ident n nonce) (tick w t s))"
    and acc: "\<And>e w t u w'. elapses env s t \<Longrightarrow> reading env t \<Longrightarrow> in_bounds bo t \<Longrightarrow> paced bo s t \<Longrightarrow>
      elapses env (tick w t s) u \<Longrightarrow>
      E e (tick w' u (accepted (sent_at t (echoRequest ident n nonce) (tick w t s))))"
    and Q: "\<And>w t u w'. elapses env s t \<Longrightarrow> reading env t \<Longrightarrow> in_bounds bo t \<Longrightarrow> paced bo s t \<Longrightarrow>
      elapses env (tick w t s) u \<Longrightarrow> reading env u \<Longrightarrow> in_bounds bo u \<Longrightarrow>
      Q t (completed_at u (tick w' u (accepted (sent_at t (echoRequest ident n nonce) (tick w t s)))))"
  shows "wp (transmit env bo ident nonce n) Q E s"
proof -
  let ?p = "echoRequest ident n nonce"
  have "wp (deliver env bo ?p) (\<lambda>_. Q t) E (sent_at t ?p (tick w t s))"
    if t: "elapses env s t" "reading env t" "in_bounds bo t" "paced bo s t" for w t
  proof -
    let ?c = "\<lambda>w'. accepted (sent_at t ?p (tick w' t s))"
    have world: "(sent_at t ?p (tick w t s))\<lparr>ru_world := w'\<rparr> = sent_at t ?p (tick w' t s)" for w'
      by (simp add: sent_at_def tick_def)
    have el: "elapses env (?c w') u \<longleftrightarrow> elapses env (tick w' t s) u" for w' u
      by (simp add: elapses_def accepted_def sent_at_def)
    have "wp (clock env bo) (\<lambda>u. wp (change (completed_at u)) (\<lambda>_. Q t) E) E (?c w')" for w'
      using Q [OF t] acc [OF t] by (intro wp_clock [OF timeout]) (simp_all add: el wp_simps)
    then show ?thesis
      using sent [OF t] by (simp add: deliver_def wp_simps world split: prod.splits option.splits)
  qed
  then show ?thesis
    unfolding transmit_def Let_def wp_seq
    by (intro wp_clock [OF timeout]) (auto simp: wp_simps paced_def early)
qed

end
