(* ===== verification/IcmpProps.thy ===== *)
theory IcmpProps
  imports IcmpRules GatewayContract
begin

text \<open>
  What a run of the sender does to the network, and what its sample says.  \<open>watch\<close> reads the log of a run:
  every send must follow a route check and a socket check made since the previous send, in that order, and
  come at least a second after the previous request was accepted.  The invariant \<open>progress\<close> ties the log, the
  counters of the sample and, for a steady clock, the times together.
\<close>

section \<open>Watching the log\<close>

record watch =
  wt_ok :: bool
  wt_stage :: nat
  wt_accepted :: "time option"
  wt_sent :: nat
  wt_reads :: nat

fun watch_step :: "16 word \<Rightarrow> byte list \<Rightarrow> watch \<Rightarrow> icmp_action \<Rightarrow> watch" where
  "watch_step ident nonce v LookedUp = v\<lparr>wt_stage := 1\<rparr>"
| "watch_step ident nonce v Verified = v\<lparr>wt_stage := (if wt_stage v = 1 then 2 else 0)\<rparr>"
| "watch_step ident nonce v (Sent t p) =
     v\<lparr>wt_ok := wt_ok v \<and> wt_stage v = 2 \<and> p = echoRequest ident (word_of_nat (Suc (wt_sent v))) nonce \<and>
         (case wt_accepted v of None \<Rightarrow> True | Some a \<Rightarrow> second \<le> time_sub t a),
       wt_stage := 0, wt_sent := Suc (wt_sent v)\<rparr>"
| "watch_step ident nonce v (Accepted t) = v\<lparr>wt_accepted := Some t\<rparr>"
| "watch_step ident nonce v Received = v\<lparr>wt_reads := Suc (wt_reads v)\<rparr>"

definition watch_start :: watch where
  "watch_start = \<lparr>wt_ok = True, wt_stage = 0, wt_accepted = None, wt_sent = 0, wt_reads = 0\<rparr>"

definition watch :: "16 word \<Rightarrow> byte list \<Rightarrow> icmp_action list \<Rightarrow> watch" where
  "watch ident nonce log = foldl (watch_step ident nonce) watch_start log"

lemma watch_append [simp]: "watch ident nonce (log @ [a]) = watch_step ident nonce (watch ident nonce log) a"
  by (simp add: watch_def)

section \<open>Steady clocks\<close>

text \<open>The monotonic readings, where there are any, run with the wall clock: nobody sets the clock during the run.\<close>

definition steady_time :: "int \<Rightarrow> time \<Rightarrow> bool" where
  "steady_time off t \<longleftrightarrow> (case mono_at t of None \<Rightarrow> True | Some m \<Rightarrow> m = wall t - off)"

definition steady_clock :: "'w icmp_env \<Rightarrow> int \<Rightarrow> bool" where
  "steady_clock env off \<longleftrightarrow> (\<forall>w. steady_time off (fst (ie_now env w)))"

lemma steady_add: "steady_time off t \<Longrightarrow> steady_time off (time_add t d)"
  by (auto simp: steady_time_def time_add_def split: option.splits)

lemma steady_before: "steady_time off t \<Longrightarrow> steady_time off u \<Longrightarrow> before t u \<longleftrightarrow> wall t < wall u"
  by (auto simp: steady_time_def before_def split: option.splits)

lemma steady_sub: "steady_time off t \<Longrightarrow> steady_time off u \<Longrightarrow> time_sub t u = int64_clamp (wall t - wall u)"
  by (auto simp: steady_time_def time_sub_def split: option.splits)

lemma steady_reading: "steady_clock env off \<Longrightarrow> reading env t \<Longrightarrow> steady_time off t"
  by (auto simp: steady_clock_def reading_def)

lemma clamp_small: "0 \<le> x \<Longrightarrow> x \<le> 10 * second \<Longrightarrow> int64_clamp x = x"
  by (simp add: int64_clamp_def int64_min_def int64_max_def second_def)

lemma clamp_at_least: "second \<le> int64_clamp x \<Longrightarrow> second \<le> x"
  by (auto simp: int64_clamp_def int64_min_def second_def)

section \<open>The invariant\<close>

definition watched :: "16 word \<Rightarrow> byte list \<Rightarrow> nat \<Rightarrow> nat \<Rightarrow> 'w icmp_run \<Rightarrow> bool" where
  "watched ident nonce stage sent s \<longleftrightarrow>
     (let v = watch ident nonce (ru_log s) in
      wt_ok v \<and> wt_stage v = stage \<and> wt_sent v = sent \<and> wt_reads v = ru_reads s \<and>
      ru_reads s \<le> maxReceiveCalls \<and> ru_received s \<le> maxDatagrams \<and>
      (case wt_accepted v of None \<Rightarrow> is_zero (ru_lastSend s) | Some a \<Rightarrow> ru_lastSend s = a \<and> \<not> is_zero a))"

definition counted :: "icmp_bounds \<Rightarrow> nat \<Rightarrow> nat \<Rightarrow> nat \<Rightarrow> 'w icmp_run \<Rightarrow> bool" where
  "counted bo sent acc fin s \<longleftrightarrow>
     (let m = ru_sample s in
      gs_SendCalls m = int sent \<and> gs_AcceptedRequests m = int acc \<and> 0 \<le> gs_Replies m \<and> 0 \<le> gs_Timeouts m \<and>
      gs_Replies m + gs_Timeouts m = int fin \<and>
      m\<lparr>gs_SendCalls := 0, gs_AcceptedRequests := 0, gs_Replies := 0, gs_Timeouts := 0\<rparr> = first_sample bo)"

definition timed :: "icmp_bounds \<Rightarrow> int \<Rightarrow> nat \<Rightarrow> nat \<Rightarrow> 'w icmp_run \<Rightarrow> bool" where
  "timed bo off sent acc s \<longleftrightarrow>
     (let span = wall (ru_last s) - wall (bo_start bo); m = ru_sample s in
      steady_time off (ru_last s) \<and> steady_time off (ru_lastSend s) \<and> 0 \<le> span \<and>
      (int sent - 1) * second \<le> span \<and> gs_Timeouts m * second \<le> span \<and>
      (is_zero (ru_lastSend s) \<longleftrightarrow> acc = 0) \<and>
      (0 < acc \<longrightarrow> wall (bo_start bo) + (int acc - 1) * second \<le> wall (ru_lastSend s) \<and>
                wall (ru_lastSend s) \<le> wall (ru_last s)) \<and>
      0 \<le> ru_totalRTT s \<and> ru_totalRTT s \<le> gs_Replies m * span \<and> ru_totalRTT s \<le> gs_Replies m * (second - 1))"

lemma watched_tick [simp]: "watched ident nonce g k (tick w t s) = watched ident nonce g k s"
  by (simp add: watched_def Let_def split: option.splits)

lemma counted_tick [simp]: "counted bo a b c (tick w t s) = counted bo a b c s"
  by (simp add: counted_def)

lemma counted_replies: "counted bo sent acc fin s \<Longrightarrow> 0 \<le> gs_Replies (ru_sample s) \<and> 0 \<le> gs_Timeouts (ru_sample s)"
  by (auto simp: counted_def Let_def)

lemma timed_tick:
  assumes "timed bo off sent acc s" and "0 \<le> gs_Replies (ru_sample s)" and "steady_clock env off" and "elapses env s t"
  shows "timed bo off sent acc (tick w t s)"
proof -
  have le: "wall (ru_last s) \<le> wall t" and st: "steady_time off t"
    using assms steady_reading by (auto simp: elapses_def timed_def Let_def)
  have "gs_Replies (ru_sample s) * (wall (ru_last s) - wall (bo_start bo)) \<le> gs_Replies (ru_sample s) * (wall t - wall (bo_start bo))"
    using assms(2) le by (intro mult_left_mono) simp_all
  then show ?thesis using assms(1) le st by (auto simp: timed_def Let_def)
qed

definition progress ::
  "'w icmp_env \<Rightarrow> icmp_bounds \<Rightarrow> 16 word \<Rightarrow> byte list \<Rightarrow> int \<Rightarrow> nat \<Rightarrow> nat \<Rightarrow> nat \<Rightarrow> nat \<Rightarrow> nat \<Rightarrow> 'w icmp_run \<Rightarrow> bool" where
  "progress env bo ident nonce off stage sent acc fin ended s \<longleftrightarrow>
     watched ident nonce stage sent s \<and> counted bo sent acc fin s \<and>
     (steady_clock env off \<longrightarrow> timed bo off sent ended s)"

lemma progress_tick:
  "progress env bo ident nonce off g sent acc fin d s \<Longrightarrow> elapses env s t \<Longrightarrow>
   progress env bo ident nonce off g sent acc fin d (tick w t s)"
  by (auto simp: progress_def dest: counted_replies intro: timed_tick)

lemma progress_looked:
  "progress env bo ident nonce off g sent acc fin d s \<Longrightarrow>
   progress env bo ident nonce off 1 sent acc fin d (s\<lparr>ru_log := ru_log s @ [LookedUp]\<rparr>)"
  by (auto simp: progress_def watched_def counted_def timed_def Let_def split: option.splits)

lemma progress_verified:
  "progress env bo ident nonce off 1 sent acc fin d s \<Longrightarrow>
   progress env bo ident nonce off 2 sent acc fin d (s\<lparr>ru_log := ru_log s @ [Verified]\<rparr>)"
  by (auto simp: progress_def watched_def counted_def timed_def Let_def split: option.splits)

lemma progress_sent:
  assumes "progress env bo ident nonce off 2 k k k k s" and "gp_Budget (ir_Plan (bo_request bo)) = gateway_budget"
    and "paced bo s (ru_last s)"
  shows "progress env bo ident nonce off 0 (Suc k) k k k
    (sent_at (ru_last s) (echoRequest ident (word_of_nat (Suc k)) nonce) s)"
proof -
  have gap: "is_zero (ru_lastSend s) \<or> second \<le> time_sub (ru_last s) (ru_lastSend s)"
    using assms by (auto simp: paced_def gateway_budget_def)
  then have "watched ident nonce 0 (Suc k) (sent_at (ru_last s) (echoRequest ident (word_of_nat (Suc k)) nonce) s)"
    using assms(1) by (auto simp: progress_def watched_def sent_at_def Let_def split: option.splits)
  moreover have "counted bo (Suc k) k k (sent_at (ru_last s) p s)" for p
    using assms(1) by (auto simp: progress_def counted_def sent_at_def Let_def)
  moreover have "timed bo off (Suc k) k (sent_at (ru_last s) p s)" if "steady_clock env off" for p
  proof -
    have t: "timed bo off k k s" using assms(1) that by (simp add: progress_def)
    have "int k * second \<le> wall (ru_last s) - wall (bo_start bo)"
    proof (cases "k = 0")
      case True
      then show ?thesis using t by (simp add: timed_def Let_def)
    next
      case False
      then have "second \<le> wall (ru_last s) - wall (ru_lastSend s)"
        using t gap clamp_at_least steady_sub [of off "ru_last s" "ru_lastSend s"] by (auto simp: timed_def Let_def)
      then show ?thesis using t False by (simp add: timed_def Let_def left_diff_distrib)
    qed
    then show ?thesis using t by (simp add: timed_def sent_at_def Let_def)
  qed
  ultimately show ?thesis by (simp add: progress_def)
qed

lemma progress_accepted:
  "progress env bo ident nonce off g sent acc fin d s \<Longrightarrow>
   progress env bo ident nonce off g sent (Suc acc) fin d (accepted s)"
  by (auto simp: progress_def watched_def counted_def timed_def accepted_def Let_def split: option.splits)

lemma progress_completed:
  assumes "progress env bo ident nonce off g (Suc k) acc fin k s" and "nano_time (ru_last s)"
  shows "progress env bo ident nonce off g (Suc k) acc fin (Suc k) (completed_at (ru_last s) s)"
  using assms
  by (auto simp: progress_def watched_def counted_def timed_def completed_at_def nano_time_def Let_def split: option.splits)

lemma progress_idle:
  assumes "progress env bo ident nonce off g sent acc fin d s" and "elapses env s t" and "\<not> receive_exhausted s"
  shows "progress env bo ident nonce off g sent acc fin d (idle w t got s)"
proof -
  have "progress env bo ident nonce off g sent acc fin d (tick w t s)" by (rule progress_tick [OF assms(1,2)])
  then show ?thesis
    using assms(3)
    by (auto simp: progress_def watched_def counted_def timed_def receive_exhausted_def Let_def split: option.splits)
qed

text \<open>While a reply is awaited, the request was sent after the timeouts counted so far.\<close>

definition waiting :: "'w icmp_env \<Rightarrow> icmp_bounds \<Rightarrow> int \<Rightarrow> time \<Rightarrow> 'w icmp_run \<Rightarrow> bool" where
  "waiting env bo off sentAt s \<longleftrightarrow>
     (steady_clock env off \<longrightarrow> steady_time off sentAt \<and> wall sentAt \<le> wall (ru_last s) \<and>
        wall (bo_start bo) + gs_Timeouts (ru_sample s) * second \<le> wall sentAt)"

lemma waiting_tick: "waiting env bo off sentAt s \<Longrightarrow> elapses env s t \<Longrightarrow> waiting env bo off sentAt (tick w t s)"
  by (auto simp: waiting_def elapses_def)

lemma waiting_idle: "waiting env bo off sentAt s \<Longrightarrow> elapses env s t \<Longrightarrow> waiting env bo off sentAt (idle w t got s)"
  by (auto simp: waiting_def elapses_def)

lemma progress_timed_out:
  assumes "progress env bo ident nonce off g k k fin k s" and "waiting env bo off sentAt s"
    and "\<not> before (ru_last s) (time_add sentAt second)"
  shows "progress env bo ident nonce off g k k (Suc fin) k (timed_out s)"
proof -
  have "timed bo off k k (timed_out s)" if "steady_clock env off"
  proof -
    have t: "timed bo off k k s" using assms(1) that by (simp add: progress_def)
    have "wall sentAt + second \<le> wall (ru_last s)"
      using assms(2,3) that t steady_before [of off "ru_last s" "time_add sentAt second"] steady_add [of off sentAt]
      by (auto simp: waiting_def timed_def Let_def)
    then show ?thesis
      using t assms(2) that by (auto simp: timed_def timed_out_def waiting_def Let_def algebra_simps)
  qed
  then show ?thesis
    using assms(1) by (auto simp: progress_def watched_def counted_def timed_out_def Let_def split: option.splits)
qed

lemma progress_replied:
  assumes "progress env bo ident nonce off g k k fin k s" and "waiting env bo off sentAt s"
    and "before (ru_last s) (time_add sentAt second)"
  shows "progress env bo ident nonce off g k k (Suc fin) k (replied (time_sub (ru_last s) sentAt) s)"
proof -
  let ?r = "time_sub (ru_last s) sentAt"
  have "timed bo off k k (replied ?r s)" if steady: "steady_clock env off"
  proof -
    let ?span = "wall (ru_last s) - wall (bo_start bo)" and ?n = "gs_Replies (ru_sample s)"
    have t: "timed bo off k k s" using assms(1) steady by (simp add: progress_def)
    have w: "steady_time off sentAt" "wall sentAt \<le> wall (ru_last s)" "wall (bo_start bo) \<le> wall sentAt"
      using assms(1,2) steady counted_replies [of bo k k fin s]
      by (auto simp: waiting_def progress_def second_def)
    have "wall (ru_last s) < wall sentAt + second"
      using assms(3) t w steady_before [of off "ru_last s" "time_add sentAt second"] steady_add [of off sentAt]
      by (auto simp: timed_def Let_def)
    then have r: "?r = wall (ru_last s) - wall sentAt"
      using t w steady_sub [of off "ru_last s" sentAt] clamp_small [of "wall (ru_last s) - wall sentAt"]
      by (auto simp: timed_def Let_def second_def)
    then have "0 \<le> ?r" "?r \<le> second - 1" "?r \<le> ?span"
      using \<open>wall (ru_last s) < wall sentAt + second\<close> w by simp_all
    then have "ru_totalRTT s + ?r \<le> (?n + 1) * ?span" "ru_totalRTT s + ?r \<le> (?n + 1) * (second - 1)" "0 \<le> ru_totalRTT s + ?r"
      using t by (simp_all add: timed_def Let_def distrib_right)
    then show ?thesis using t by (simp add: timed_def replied_def Let_def)
  qed
  then show ?thesis
    using assms(1) by (auto simp: progress_def watched_def counted_def replied_def Let_def split: option.splits)
qed

section \<open>Attempts\<close>

definition stopped :: "'w icmp_env \<Rightarrow> icmp_bounds \<Rightarrow> 16 word \<Rightarrow> byte list \<Rightarrow> int \<Rightarrow> 'w icmp_run \<Rightarrow> bool" where
  "stopped env bo ident nonce off s \<longleftrightarrow>
     (\<exists>g sent acc fin d. sent \<le> 3 \<and> acc \<le> sent \<and> sent \<le> Suc acc \<and> fin \<le> acc \<and> acc \<le> Suc fin \<and>
        (acc < sent \<longrightarrow> fin = acc) \<and> progress env bo ident nonce off g sent acc fin d s)"

lemma stoppedI:
  assumes "progress env bo ident nonce off g sent acc fin d s" and "sent \<le> 3" and "acc \<le> sent" and "sent \<le> Suc acc"
    and "fin \<le> acc" and "acc \<le> Suc fin" and "acc < sent \<longrightarrow> fin = acc"
  shows "stopped env bo ident nonce off s"
  unfolding stopped_def using assms by blast

lemma stopped_tick: "stopped env bo ident nonce off s \<Longrightarrow> elapses env s t \<Longrightarrow> stopped env bo ident nonce off (tick w t s)"
  by (fastforce simp: stopped_def intro: progress_tick)

lemma wp_transmit_progress:
  assumes budget: "gp_Budget (ir_Plan (bo_request bo)) = gateway_budget" and k: "k < 3"
    and p: "progress env bo ident nonce off 2 k k k k s"
  shows "wp (transmit env bo ident nonce (word_of_nat (Suc k)))
    (\<lambda>sentAt s. progress env bo ident nonce off 0 (Suc k) (Suc k) k (Suc k) s \<and> waiting env bo off sentAt s)
    (\<lambda>_. stopped env bo ident nonce off) s"
proof -
  let ?p = "echoRequest ident (word_of_nat (Suc k)) nonce"
  have timeout: "pb_TotalTimeout (gp_Budget (ir_Plan (bo_request bo))) \<le> int64_max"
    by (simp add: budget gateway_budget_def second_def int64_max_def)
  have sent: "progress env bo ident nonce off 0 (Suc k) k k k (sent_at t ?p (tick w t s))"
    if "elapses env s t" "paced bo s t" for w t
    using progress_sent [OF progress_tick [OF p that(1), where w = w] budget] that(2) by (simp add: paced_def)
  have acc: "progress env bo ident nonce off 0 (Suc k) (Suc k) k k (tick w' u (accepted (sent_at t ?p (tick w t s))))"
    if "elapses env s t" "paced bo s t" "elapses env (tick w t s) u" for w w' t u
    using progress_tick [OF progress_accepted [OF sent [OF that(1,2)]], where t = u and w = w'] that(3)
    by (simp add: elapses_def accepted_def sent_at_def)
  show ?thesis
  proof (rule wp_transmit [OF timeout])
    fix e w t
    assume t: "elapses env s t"
    show "stopped env bo ident nonce off (tick w t s)"
      by (rule stoppedI [OF progress_tick [OF p t]]) (use k in auto)
  next
    fix e w t
    assume "elapses env s t" "paced bo s t"
    then show "stopped env bo ident nonce off (sent_at t ?p (tick w t s))"
      by (intro stoppedI [OF sent]) (use k in auto)
  next
    fix e w t u w'
    assume "elapses env s t" "paced bo s t" "elapses env (tick w t s) u"
    then show "stopped env bo ident nonce off (tick w' u (accepted (sent_at t ?p (tick w t s))))"
      by (intro stoppedI [OF acc]) (use k in auto)
  next
    fix w t u w'
    assume t: "elapses env s t" "reading env t" "paced bo s t" and u: "elapses env (tick w t s) u" "in_bounds bo u"
    let ?s = "tick w' u (accepted (sent_at t ?p (tick w t s)))"
    have same: "ru_sample ?s = (ru_sample s)\<lparr>gs_SendCalls := gs_SendCalls (ru_sample s) + 1,
        gs_AcceptedRequests := gs_AcceptedRequests (ru_sample s) + 1\<rparr>"
      by (simp add: accepted_def sent_at_def)
    have "waiting env bo off t (completed_at u ?s)"
    proof -
      have "timed bo off k k (tick w t s)" if "steady_clock env off"
        using progress_tick [OF p t(1)] that by (simp add: progress_def)
      then show ?thesis
        using u(1) steady_reading [OF _ t(2)] same
        by (auto simp: waiting_def completed_at_def timed_def elapses_def Let_def)
    qed
    then show "progress env bo ident nonce off 0 (Suc k) (Suc k) k (Suc k) (completed_at u ?s) \<and>
        waiting env bo off t (completed_at u ?s)"
      using progress_completed [OF acc [OF t(1,3) u(1)], where w'1 = w'] u(2) by (simp add: in_bounds_def)
  qed
qed

lemma wp_exchange:
  assumes budget: "gp_Budget (ir_Plan (bo_request bo)) = gateway_budget" and k: "k < 3"
    and p: "progress env bo ident nonce off 2 k k k k s"
  shows "wp (exchange env bo ident nonce (word_of_nat (Suc k)))
    (\<lambda>_ s. \<exists>g. progress env bo ident nonce off g (Suc k) (Suc k) (Suc k) (Suc k) s)
    (\<lambda>_. stopped env bo ident nonce off) s"
  unfolding exchange_def wp_seq
proof (rule wp_mono [OF wp_transmit_progress [OF budget k p]])
  fix sentAt s
  let ?P = "\<lambda>s. progress env bo ident nonce off 0 (Suc k) (Suc k) k (Suc k) s \<and> waiting env bo off sentAt s"
  have timeout: "pb_TotalTimeout (gp_Budget (ir_Plan (bo_request bo))) \<le> int64_max"
    by (simp add: budget gateway_budget_def second_def int64_max_def)
  have stop: "stopped env bo ident nonce off t" if "?P t" for t
    by (rule stoppedI [OF conjunct1 [OF that]]) (use k in auto)
  assume "?P s"
  then show "wp (await_reply env bo ident nonce (word_of_nat (Suc k)) sentAt
      (time_add sentAt (pb_AttemptTimeout (gp_Budget (ir_Plan (bo_request bo))))))
    (\<lambda>_ s. \<exists>g. progress env bo ident nonce off g (Suc k) (Suc k) (Suc k) (Suc k) s)
    (\<lambda>_. stopped env bo ident nonce off) s"
    by (rule wp_await_reply [OF timeout, where P = ?P, rotated -1])
      (auto simp: budget gateway_budget_def intro: progress_tick waiting_tick progress_idle waiting_idle
        progress_timed_out progress_replied stop)
qed simp

lemma wp_attempt:
  assumes budget: "gp_Budget (ir_Plan (bo_request bo)) = gateway_budget" and k: "k < 3"
    and p: "progress env bo ident nonce off g k k k k s"
  shows "wp (attempt env bo ident nonce (Suc k))
    (\<lambda>_ s. \<exists>g. progress env bo ident nonce off g (Suc k) (Suc k) (Suc k) (Suc k) s)
    (\<lambda>_. stopped env bo ident nonce off) s"
    (is "wp _ ?Q ?E s")
proof -
  have timeout: "pb_TotalTimeout (gp_Budget (ir_Plan (bo_request bo))) \<le> int64_max"
    by (simp add: budget gateway_budget_def second_def int64_max_def)
  have stop: "?E e t" if "progress env bo ident nonce off h k k k k t" for e h t
    by (rule stoppedI [OF that]) (use k in auto)
  have verify: "wp (seq (verify_socket env) (\<lambda>_. exchange env bo ident nonce (word_of_nat (Suc k)))) ?Q ?E t"
    if v: "progress env bo ident nonce off 1 k k k k t" for t
    unfolding wp_seq
  proof (rule wp_verify_socket)
    show "wp (exchange env bo ident nonce (word_of_nat (Suc k))) ?Q ?E
        (tick w (ru_last t) (t\<lparr>ru_log := ru_log t @ [Verified]\<rparr>))" for w
      using progress_tick [OF progress_verified [OF v], where t = "ru_last t" and w = w]
      by (intro wp_exchange [OF budget k]) (simp add: elapses_def)
    show "?E e (tick w (ru_last t) t)" for e w
      by (rule stop [OF progress_tick [OF v elapses_refl]])
  qed
  have route: "wp (seq (checkRoute env bo) (\<lambda>_. seq (verify_socket env) (\<lambda>_. exchange env bo ident nonce (word_of_nat (Suc k))))) ?Q ?E t"
    if v: "progress env bo ident nonce off h k k k k t" for h t
    unfolding wp_seq [of "checkRoute env bo"]
  proof (rule wp_checkRoute [OF timeout])
    fix w u
    assume u: "elapses env t u"
    show "wp (seq (verify_socket env) (\<lambda>_. exchange env bo ident nonce (word_of_nat (Suc k)))) ?Q ?E
        (tick w u (t\<lparr>ru_log := ru_log t @ [LookedUp]\<rparr>))"
      using u by (intro verify progress_tick [OF progress_looked [OF v]]) (simp add: elapses_def)
    show "?E e (tick w u t)" for e
      by (rule stop [OF progress_tick [OF v u]])
  qed
  have "wp (seq (pace env bo) (\<lambda>_. seq (checkRoute env bo) (\<lambda>_. seq (verify_socket env) (\<lambda>_.
      exchange env bo ident nonce (word_of_nat (Suc k)))))) ?Q ?E s"
    unfolding wp_seq [of "pace env bo"]
    by (rule wp_pace [OF timeout]) (blast intro: route stop progress_tick [OF p])+
  then show ?thesis
    unfolding attempt_def wp_seq [of "get _"] wp_seq [of "stop_if _ _"] wp_get wp_stop_if using stop [OF p] by simp
qed

section \<open>Whole runs\<close>

definition finished :: "'w icmp_env \<Rightarrow> icmp_bounds \<Rightarrow> 16 word \<Rightarrow> byte list \<Rightarrow> int \<Rightarrow> 'w icmp_run \<Rightarrow> bool" where
  "finished env bo ident nonce off s \<longleftrightarrow>
     (\<exists>g s0. progress env bo ident nonce off g 3 3 3 3 s0 \<and> in_bounds bo (ru_last s0) \<and>
        s = complete_sample (ru_last s0) s0)"

lemma wp_attempts:
  assumes budget: "gp_Budget (ir_Plan (bo_request bo)) = gateway_budget"
    and "progress env bo ident nonce off g 0 0 0 0 s"
  shows "wp (attempts env bo ident nonce) (\<lambda>_. finished env bo ident nonce off) (\<lambda>_. stopped env bo ident nonce off) s"
proof -
  have timeout: "pb_TotalTimeout (gp_Budget (ir_Plan (bo_request bo))) \<le> int64_max"
    by (simp add: budget gateway_budget_def second_def int64_max_def)
  let ?I = "\<lambda>k s. \<exists>g. progress env bo ident nonce off g k k k k s"
  have seqs: "[1..<Suc (nat (pb_MaxAttempts (gp_Budget (ir_Plan (bo_request bo)))))] = [1..<4]"
    by (simp add: budget gateway_budget_def)
  have "wp (each (attempt env bo ident nonce) [1..<4]) (\<lambda>_. ?I (length [1..<4])) (\<lambda>_. stopped env bo ident nonce off) s"
  proof (rule wp_each)
    fix i s
    assume "i < length [1..<4]" "?I i s"
    then show "wp (attempt env bo ident nonce ([1..<4] ! i)) (\<lambda>_. ?I (Suc i)) (\<lambda>_. stopped env bo ident nonce off) s"
      using wp_attempt [OF budget] by auto
  qed (use assms(2) in blast)
  then have loop: "wp (each (attempt env bo ident nonce) [1..<4]) (\<lambda>_. ?I 3) (\<lambda>_. stopped env bo ident nonce off) s"
    by simp
  have last: "wp (clock env bo) (\<lambda>ended. wp (change (complete_sample ended)) (\<lambda>_. finished env bo ident nonce off)
      (\<lambda>_. stopped env bo ident nonce off)) (\<lambda>_. stopped env bo ident nonce off) t" if three: "?I 3 t" for t
  proof -
    obtain h where h: "progress env bo ident nonce off h 3 3 3 3 t" using three by blast
    show ?thesis
    proof (rule wp_clock [OF timeout])
      fix w u
      assume "elapses env t u" "in_bounds bo u"
      then have "progress env bo ident nonce off h 3 3 3 3 (tick w u t)" "in_bounds bo (ru_last (tick w u t))"
        using progress_tick [OF h] by auto
      then show "wp (change (complete_sample u)) (\<lambda>_. finished env bo ident nonce off)
          (\<lambda>_. stopped env bo ident nonce off) (tick w u t)"
        unfolding wp_change finished_def by (intro exI [of _ h] exI [of _ "tick w u t"]) simp
    next
      fix e w u
      assume "elapses env t u"
      then show "stopped env bo ident nonce off (tick w u t)"
        by (intro stoppedI [OF progress_tick [OF h]]) simp_all
    qed
  qed
  show ?thesis unfolding attempts_def seqs wp_seq by (rule wp_mono [OF loop last])
qed

text \<open>Nothing is sent before the socket is open.\<close>

lemma wp_open_socket:
  assumes budget: "gp_Budget (ir_Plan (bo_request bo)) = gateway_budget" and start: "reading env (bo_start bo)"
  shows "wp (open_socket env bo)
    (\<lambda>r s. \<exists>g. progress env bo (fst r) (snd r) off g 0 0 0 0 s)
    (\<lambda>_ s. ru_sample s = zero_sample \<and> ru_log s \<in> {[], [LookedUp]} \<and> ru_reads s = 0 \<and> ru_received s = 0)
    (initial_run w (bo_start bo))"
    (is "wp _ ?Q ?E _")
proof -
  have timeout: "pb_TotalTimeout (gp_Budget (ir_Plan (bo_request bo))) \<le> int64_max"
    by (simp add: budget gateway_budget_def second_def int64_max_def)
  let ?s0 = "initial_run w (bo_start bo)"
  let ?s1 = "?s0\<lparr>ru_log := [LookedUp]\<rparr>"
  have init: "progress env bo ident nonce off 1 0 0 0 0 (?s0\<lparr>ru_log := [LookedUp], ru_sample := first_sample bo\<rparr>)"
    for ident nonce
  proof -
    have "steady_time off (bo_start bo)" if "steady_clock env off" using steady_reading [OF that start] .
    then show ?thesis
      by (auto simp: progress_def watched_def counted_def timed_def watch_def watch_start_def initial_run_def
          first_sample_def zero_sample_def Let_def is_zero_def zero_time_def steady_time_def second_def)
  qed
  have err: "?E e (tick w t ?s0)" "?E e (tick w t ?s1)" for e w t
    by (simp_all add: initial_run_def)
  have "?Q (ident, nonce) ((tick w' t ?s1)\<lparr>ru_sample := first_sample bo\<rparr>)" if "elapses env ?s0 t" for ident nonce w' t
  proof -
    have eq: "(tick w' t ?s1)\<lparr>ru_sample := first_sample bo\<rparr> = tick w' t (?s0\<lparr>ru_log := [LookedUp], ru_sample := first_sample bo\<rparr>)"
      by (simp add: tick_def)
    show ?thesis
      unfolding eq
      by (rule exI [of _ 1], rule progress_tick) (use init [of ident nonce] that in \<open>simp_all add: elapses_def\<close>)
  qed
  then have bind: "wp (bind_socket env bo bytes) ?Q ?E (tick w' t ?s1)" if "elapses env ?s0 t" for bytes w' t
    unfolding bind_socket_def wp_seq [of "clock env bo"] using that err
    by (intro wp_clock [OF timeout]) (auto simp: wp_simps elapses_def split: prod.splits sum.splits)
  have log: "ru_log ?s0 = []" by (simp add: initial_run_def)
  show ?thesis
    unfolding open_socket_def wp_seq [of "checkRoute env bo"]
  proof (rule wp_checkRoute [OF timeout])
    fix w' t
    assume t: "elapses env ?s0 t"
    show "wp (seq (call (ie_random env)) (\<lambda>entropy.
        case entropy of None \<Rightarrow> fail IcmpUnavailable | Some bytes \<Rightarrow> bind_socket env bo bytes)) ?Q ?E
        (tick w' t (?s0\<lparr>ru_log := ru_log ?s0 @ [LookedUp]\<rparr>))"
      unfolding log append_Nil using bind [OF t] err(2) by (simp add: wp_simps split: prod.splits option.splits)
  qed (rule err(1))
qed

text \<open>What a run leaves behind: nothing but perhaps a route check, a stopped sample or a complete one, with the
  effect of closing the socket.\<close>

definition closed_as :: "bool \<Rightarrow> icmp_error option \<Rightarrow> 'w icmp_run \<Rightarrow> icmp_error option \<Rightarrow> 'w icmp_run \<Rightarrow> bool" where
  "closed_as ok err s err' s' \<longleftrightarrow>
     (\<exists>w. if ok then err' = err \<and> s' = s\<lparr>ru_world := w\<rparr>
          else err' \<noteq> None \<and> s' = s\<lparr>ru_world := w, ru_sample := (ru_sample s)\<lparr>gs_Complete := False, gs_MeanRTT := None\<rparr>\<rparr>)"

lemma close_socket_closed: "\<exists>ok. closed_as ok err s (fst (close_socket env err s)) (snd (close_socket env err s))"
proof -
  obtain ok w where "ie_close env (ru_world s) = (ok, w)" by fastforce
  then show ?thesis
    by (intro exI [of _ ok]) (auto simp: close_socket_def closed_as_def Let_def intro!: exI [of _ w])
qed

lemma measure_bounded_cases:
  assumes budget: "gp_Budget (ir_Plan (bo_request bo)) = gateway_budget" and start: "reading env (bo_start bo)"
    and run: "measure_bounded env bo (initial_run w (bo_start bo)) = (err, s)"
  obtains (refused) "err \<noteq> None" "ru_sample s = zero_sample" "ru_log s \<in> {[], [LookedUp]}" "ru_reads s = 0" "ru_received s = 0"
  | (partial) ident nonce e ok s0 where "closed_as ok (Some e) s0 err s" "stopped env bo ident nonce off s0"
  | (complete) ident nonce ok s0 where "closed_as ok None s0 err s" "finished env bo ident nonce off s0"
proof (cases "open_socket env bo (initial_run w (bo_start bo))")
  case (Pair r s1)
  note opened = wp_open_socket [OF budget start, of off w]
  show ?thesis
  proof (cases r)
    case (Inl e)
    then show ?thesis
      using refused run Pair wp_resultD(2) [OF opened, of e s1] by (auto simp: measure_bounded_def)
  next
    case (Inr p)
    obtain ident nonce where p: "p = (ident, nonce)" by fastforce
    obtain g where "progress env bo ident nonce off g 0 0 0 0 s1"
      using wp_resultD(1) [OF opened, of p s1] Pair Inr p by auto
    note finish = wp_attempts [OF budget this]
    obtain r2 s2 where at: "attempts env bo ident nonce s1 = (r2, s2)" by fastforce
    then have res: "(err, s) = close_socket env (error_of r2) s2"
      using run Pair Inr p by (simp add: measure_bounded_def)
    obtain ok where ok: "closed_as ok (error_of r2) s2 err s"
      using close_socket_closed [of "error_of r2" s2 env] res by (metis fst_conv snd_conv)
    show ?thesis
      using partial [of ok _ s2 ident nonce] complete [of ok s2 ident nonce] ok at
        wp_resultD(1) [OF finish, of _ s2] wp_resultD(2) [OF finish, of _ s2]
      by (cases r2) (auto simp: error_of_def)
  qed
qed

lemma normalize_request_ok:
  assumes "normalize_request r now = Inr r'"
  shows "gp_Budget (ir_Plan r') = gateway_budget \<and> nano_time now \<and> ir_Source r' = ir_Source r \<and>
    gp_Target (ir_Plan r') = gp_Target (ir_Plan r) \<and>
    gb_ScopeID (gp_Binding (ir_Plan r')) = gb_ScopeID (gp_Binding (ir_Plan r)) \<and>
    gb_InterfaceName (gp_Binding (ir_Plan r')) = gb_InterfaceName (gp_Binding (ir_Plan r)) \<and>
    gb_InterfaceIndex (gp_Binding (ir_Plan r')) = gb_InterfaceIndex (gp_Binding (ir_Plan r)) \<and>
    wall (gp_ReviewExpiresAt (ir_Plan r')) = wall (gp_ReviewExpiresAt (ir_Plan r)) \<and>
    wall_only (gp_ReviewExpiresAt (ir_Plan r')) \<and> after (gp_ReviewExpiresAt (ir_Plan r)) now"
  using assms
  by (auto simp: normalize_request_def PreviewGatewayCheck_Inr addr_string_string4 go_time split: sum.splits)

text \<open>A run of \<open>Measure\<close> is refused before anything happens, or is a bounded run of a normalized request.\<close>

lemma Measure_cases:
  assumes "Measure env sender deadline request w = ((sample, err), s)"
  obtains (refused) "sample = zero_sample" "err \<noteq> None" "ru_log s = []" "ru_reads s = 0" "ru_received s = 0"
  | (bounded) bo w' where "normalize_request request (strip (bo_start bo)) = Inr (bo_request bo)"
      "reading env (bo_start bo)" "measure_bounded env bo (initial_run w' (bo_start bo)) = (err, s)" "sample = ru_sample s"
proof (cases "check_context env deadline (initial_run w zero_time)")
  case (Pair r s1)
  have log: "wp (check_context env deadline) (\<lambda>_ s. ru_log s = [] \<and> ru_reads s = 0 \<and> ru_received s = 0)
      (\<lambda>_ s. ru_log s = [] \<and> ru_reads s = 0 \<and> ru_received s = 0) (initial_run w zero_time)"
    by (simp add: check_context_def wp_simps initial_run_def split: prod.splits option.splits)
  obtain start w1 where now: "ie_now env (ru_world s1) = (start, w1)" by fastforce
  then have start: "reading env start" by (auto simp: reading_def intro: exI [of _ "ru_world s1"])
  have s1: "ru_log s1 = [] \<and> ru_reads s1 = 0 \<and> ru_received s1 = 0"
    using log Pair by (cases r) (auto simp: wp_def)
  show ?thesis
  proof (cases "is_ok r \<and> sn_ready sender \<and> \<not> sn_busy sender \<and> is_ok (normalize_request request (strip start))")
    case False
    then show ?thesis
      using assms Pair now refused s1
      by (auto simp: Measure_def is_ok_def initial_run_def split: sum.splits if_splits prod.splits)
  next
    case True
    then obtain u r' where "r = Inr u" and r': "normalize_request request (strip start) = Inr r'"
      by (auto simp: is_ok_iff)
    then show ?thesis
      using True assms Pair now start bounded [of "\<lparr>bo_start = start, bo_request = r', bo_deadline = _\<rparr>"]
      by (auto simp: Measure_def Let_def split: prod.splits)
  qed
qed

section \<open>What reaches the network\<close>

lemma closed_as_same:
  "closed_as ok err s0 err' s \<Longrightarrow> ru_log s = ru_log s0 \<and> ru_reads s = ru_reads s0 \<and> ru_received s = ru_received s0 \<and>
    ru_last s = ru_last s0 \<and> gs_SendCalls (ru_sample s) = gs_SendCalls (ru_sample s0)"
  by (auto simp: closed_as_def split: if_splits)

definition traffic_ok :: "gateway_sample \<Rightarrow> 'w icmp_run \<Rightarrow> bool" where
  "traffic_ok sample s \<longleftrightarrow>
     (\<exists>ident nonce. let v = watch ident nonce (ru_log s) in
        wt_ok v \<and> wt_sent v \<le> 3 \<and> gs_SendCalls sample = int (wt_sent v) \<and> wt_reads v = ru_reads s \<and>
        ru_reads s \<le> 512 \<and> ru_received s \<le> 16)"

lemma progress_traffic:
  assumes "progress env bo ident nonce off g sent acc fin d s0" and "sent \<le> 3"
    and "ru_log s = ru_log s0 \<and> ru_reads s = ru_reads s0 \<and> ru_received s = ru_received s0"
    and "gs_SendCalls sample = gs_SendCalls (ru_sample s0)"
  shows "traffic_ok sample s"
  unfolding traffic_ok_def using assms
  by (intro exI [of _ ident] exI [of _ nonce])
    (simp add: progress_def watched_def counted_def maxReceiveCalls_def maxDatagrams_def Let_def)

text \<open>
  C23: Whatever the clock, the kernel, the route table and the network do, one call of \<open>Measure\<close> sends at
  most three packets, the echo requests with sequence numbers 1, 2, 3 of one identifier and one nonce.  Every
  send follows a route check and a socket check made since the previous send, and comes at least a second
  after the previous request was accepted.  At most 512 receive calls are made and at most 16 datagrams looked
  at, and the sample counts exactly the sends that were made.
\<close>

theorem measure_traffic_bounded:
  "case Measure env sender deadline request w of ((sample, err), s) \<Rightarrow> traffic_ok sample s"
proof (cases "Measure env sender deadline request w")
  case (Pair p s)
  obtain sample err where p: "p = (sample, err)" by fastforce
  have none: "traffic_ok zero_sample t" if "ru_log t \<in> {[], [LookedUp]}" "ru_reads t = 0" "ru_received t = 0" for t :: "'a icmp_run"
    using that by (auto simp: traffic_ok_def watch_def watch_start_def zero_sample_def Let_def)
  have "traffic_ok sample s"
    using Pair [unfolded p]
  proof (cases rule: Measure_cases)
    case refused
    then show ?thesis using none by simp
  next
    case (bounded bo w')
    have budget: "gp_Budget (ir_Plan (bo_request bo)) = gateway_budget"
      using normalize_request_ok [OF bounded(1)] by simp
    show ?thesis
      using budget bounded(2,3)
    proof (cases rule: measure_bounded_cases [where off = 0])
      case refused
      then show ?thesis using none bounded(4) by simp
    next
      case (partial ident nonce e ok s0)
      then show ?thesis
        using progress_traffic closed_as_same [OF partial(1)] bounded(4) unfolding stopped_def by metis
    next
      case (complete ident nonce ok s0)
      then obtain g s1 where s1: "progress env bo ident nonce 0 g 3 3 3 3 s1" "s0 = complete_sample (ru_last s1) s1"
        by (auto simp: finished_def)
      show ?thesis
        using closed_as_same [OF complete(1)] bounded(4)
        by (intro progress_traffic [OF s1(1)]) (simp_all add: s1(2) complete_sample_def Let_def)
    qed
  qed
  then show ?thesis using Pair p by simp
qed

section \<open>What the sample says\<close>

lemma clamp_ge: "b \<le> x \<Longrightarrow> b \<le> int64_max \<Longrightarrow> b \<le> int64_clamp x"
  by (auto simp: int64_clamp_def)

text \<open>The counters and times of a run that stopped are those of a valid measurement, at any later time.\<close>

lemma stopped_valid:
  assumes "stopped env bo ident nonce off s" and "steady_clock env off" and "nano_time (bo_start bo)"
    and "nano_time ended" and "wall_only ended" and "wall (ru_last s) \<le> wall ended"
  shows "validateMeasurement (auditMeasurement (ru_sample s)) ended = Inr () \<and> \<not> gs_Complete (ru_sample s) \<and>
    is_zero (gs_CompletedAt (ru_sample s)) \<and> gs_MeanRTT (ru_sample s) = None"
proof -
  obtain g sent acc fin d where b: "sent \<le> 3" "acc \<le> sent" "sent \<le> Suc acc" "fin \<le> acc" "acc \<le> Suc fin" "acc < sent \<longrightarrow> fin = acc"
    and p: "progress env bo ident nonce off g sent acc fin d s"
    using assms(1) unfolding stopped_def by blast
  let ?m = "ru_sample s"
  have f: "?m\<lparr>gs_SendCalls := 0, gs_AcceptedRequests := 0, gs_Replies := 0, gs_Timeouts := 0\<rparr> = first_sample bo"
    and c: "gs_SendCalls ?m = int sent" "gs_AcceptedRequests ?m = int acc" "0 \<le> gs_Replies ?m" "0 \<le> gs_Timeouts ?m"
      "gs_Replies ?m + gs_Timeouts ?m = int fin"
    using p by (simp_all add: progress_def counted_def Let_def)
  have fields: "gs_StartedAt ?m = strip (bo_start bo)" "gs_CompletedAt ?m = zero_time" "\<not> gs_Complete ?m" "gs_MeanRTT ?m = None"
    using arg_cong [OF f, of gs_StartedAt] arg_cong [OF f, of gs_CompletedAt] arg_cong [OF f, of gs_Complete]
      arg_cong [OF f, of gs_MeanRTT]
    by (simp_all add: first_sample_def zero_sample_def Let_def)
  have t: "timed bo off sent d s" using p assms(2) by (simp add: progress_def)
  then have span: "0 \<le> wall ended - wall (bo_start bo)" "(int sent - 1) * second \<le> wall ended - wall (bo_start bo)"
      "gs_Timeouts ?m * second \<le> wall ended - wall (bo_start bo)"
    using assms(6) by (auto simp: timed_def Let_def)
  let ?a = "auditMeasurement ?m"
  have a: "gm_StartedAt ?a = strip (bo_start bo)" "gm_CompletedAt ?a = None" "\<not> gm_Complete ?a" "gm_MeanRTTNanoseconds ?a = None"
    "gm_SendCalls ?a = int sent" "gm_AcceptedRequests ?a = int acc" "gm_Replies ?a = gs_Replies ?m" "gm_Timeouts ?a = gs_Timeouts ?m"
    using c fields by (simp_all add: auditMeasurement_def is_zero_def zero_time_def)
  have "gs_Timeouts ?m \<le> 3" using c b by simp
  then have "minimum_span ?a \<le> int64_max" "minimum_span ?a \<le> wall ended - wall (bo_start bo)"
    using span b by (auto simp: minimum_span_def a max_def int64_max_def second_def)
  then have "minimum_span ?a \<le> int64_clamp (wall ended - wall (bo_start bo))" by (intro clamp_ge)
  moreover have "nano_time (strip (bo_start bo))" using assms(3) by (simp add: nano_time_iff)
  ultimately have "validateMeasurement ?a ended = Inr ()"
    using assms(4,5) c b span by (auto simp: validateMeasurement_def a measurement_end_def Let_def go_time)
  then show ?thesis using fields by (simp add: is_zero_def zero_time_def)
qed

lemma sdiv_nonneg: "0 \<le> a \<Longrightarrow> 0 < b \<Longrightarrow> a sdiv b = a div (b :: int)"
  by (cases "a = 0") (simp_all add: signed_divide_int_def)

lemma mean_bounds:
  fixes a n b :: int
  assumes "0 \<le> a" and "0 < n" and "a \<le> n * b"
  shows "0 \<le> a sdiv n \<and> a sdiv n \<le> b"
proof -
  have "a div n \<le> (n * b) div n" using assms by (intro zdiv_mono1) simp_all
  then show ?thesis using assms by (simp add: sdiv_nonneg pos_imp_zdiv_nonneg_iff)
qed

lemma finished_valid:
  assumes "finished env bo ident nonce off s" and "steady_clock env off" and "nano_time (bo_start bo)"
    and "gp_Budget (ir_Plan (bo_request bo)) = gateway_budget"
    and "nano_time ended" and "wall_only ended" and "wall (ru_last s) \<le> wall ended"
  shows "validateMeasurement (auditMeasurement (ru_sample s)) ended = Inr () \<and> gs_Complete (ru_sample s) \<and>
    validateMeasurement (auditMeasurement ((ru_sample s)\<lparr>gs_Complete := False, gs_MeanRTT := None\<rparr>)) ended = Inr () \<and>
    wall (gs_CompletedAt (ru_sample s)) < wall (gp_ReviewExpiresAt (ir_Plan (bo_request bo))) \<and>
    wall_only (gs_CompletedAt (ru_sample s))"
proof -
  obtain g s0 where p: "progress env bo ident nonce off g 3 3 3 3 s0" and inb: "in_bounds bo (ru_last s0)"
    and s: "s = complete_sample (ru_last s0) s0"
    using assms(1) by (auto simp: finished_def)
  let ?old = "ru_sample s0" and ?m = "ru_sample s" and ?span = "wall (ru_last s0) - wall (bo_start bo)"
  have f: "?old\<lparr>gs_SendCalls := 0, gs_AcceptedRequests := 0, gs_Replies := 0, gs_Timeouts := 0\<rparr> = first_sample bo"
    and c: "gs_SendCalls ?old = 3" "gs_AcceptedRequests ?old = 3" "0 \<le> gs_Replies ?old" "0 \<le> gs_Timeouts ?old"
      "gs_Replies ?old + gs_Timeouts ?old = 3"
    using p by (simp_all add: progress_def counted_def Let_def)
  have fields: "gs_StartedAt ?old = strip (bo_start bo)" "gs_MeanRTT ?old = None"
    using arg_cong [OF f, of gs_StartedAt] arg_cong [OF f, of gs_MeanRTT]
    by (simp_all add: first_sample_def zero_sample_def Let_def)
  have t: "timed bo off 3 3 s0" using p assms(2) by (simp add: progress_def)
  then have span: "2 * second \<le> ?span" "gs_Timeouts ?old * second \<le> ?span" "0 \<le> ru_totalRTT s0"
      "ru_totalRTT s0 \<le> gs_Replies ?old * ?span" "ru_totalRTT s0 \<le> gs_Replies ?old * (second - 1)"
    by (simp_all add: timed_def Let_def)
  have short: "?span < 5 * second" "nano_time (ru_last s0)" "\<not> is_zero (strip (ru_last s0))"
    using inb assms(4) by (simp_all add: in_bounds_def gateway_budget_def nano_time_def is_zero_def)
  have clamp: "int64_clamp ?span = ?span" using span short by (intro clamp_small) (auto simp: second_def)
  have last: "ru_last s = ru_last s0" by (simp add: s complete_sample_def Let_def)
  let ?mean = "if 0 < gs_Replies ?old then Some (ru_totalRTT s0 sdiv gs_Replies ?old) else None"
  have m: "gs_StartedAt ?m = strip (bo_start bo)" "gs_CompletedAt ?m = strip (ru_last s0)" "gs_Complete ?m"
    "gs_SendCalls ?m = 3" "gs_AcceptedRequests ?m = 3" "gs_Replies ?m = gs_Replies ?old" "gs_Timeouts ?m = gs_Timeouts ?old"
    "gs_MeanRTT ?m = ?mean"
    using fields c by (simp_all add: s complete_sample_def Let_def)
  have mean: "0 \<le> x \<and> x < second \<and> x \<le> ?span" if "?mean = Some x" for x
    using that mean_bounds [OF span(3) _ span(4)] mean_bounds [OF span(3) _ span(5)] by (auto split: if_splits)
  have "gs_Timeouts ?old \<le> 3" "gs_Replies ?old \<le> 3" using c by simp_all
  moreover have "nano_time (strip (bo_start bo))" "nano_time (strip (ru_last s0))"
    using assms(3) short by (simp_all add: nano_time_iff)
  moreover have "minimum_span (auditMeasurement (?m\<lparr>gs_Complete := b, gs_MeanRTT := x\<rparr>)) \<le> ?span" for b x
    using span c by (auto simp: minimum_span_def auditMeasurement_def m max_def)
  ultimately have "validateMeasurement (auditMeasurement (?m\<lparr>gs_Complete := True, gs_MeanRTT := ?mean\<rparr>)) ended = Inr ()"
    "validateMeasurement (auditMeasurement (?m\<lparr>gs_Complete := False, gs_MeanRTT := None\<rparr>)) ended = Inr ()"
    using assms(5-7) c span short clamp mean last
    by (auto simp: validateMeasurement_def auditMeasurement_def m measurement_end_def Let_def go_time OperationTimeout_def
        not_less second_def)
  moreover have "?m\<lparr>gs_Complete := True, gs_MeanRTT := ?mean\<rparr> = ?m" using m by simp
  ultimately show ?thesis using m inb by (simp add: in_bounds_def)
qed

lemma stopped_identity:
  "stopped env bo ident nonce off s \<Longrightarrow> gs_StartedAt (ru_sample s) = strip (bo_start bo) \<and>
     gs_ScopeID (ru_sample s) = gb_ScopeID (gp_Binding (ir_Plan (bo_request bo))) \<and>
     gs_InterfaceName (ru_sample s) = gb_InterfaceName (gp_Binding (ir_Plan (bo_request bo))) \<and>
     gs_InterfaceIndex (ru_sample s) = gb_InterfaceIndex (gp_Binding (ir_Plan (bo_request bo))) \<and>
     gs_Target (ru_sample s) = gp_Target (ir_Plan (bo_request bo)) \<and> gs_Source (ru_sample s) = ir_Source (bo_request bo)"
proof -
  assume "stopped env bo ident nonce off s"
  then have f: "(ru_sample s)\<lparr>gs_SendCalls := 0, gs_AcceptedRequests := 0, gs_Replies := 0, gs_Timeouts := 0\<rparr> = first_sample bo"
    by (auto simp: stopped_def progress_def counted_def Let_def)
  show ?thesis
    using arg_cong [OF f, of gs_StartedAt] arg_cong [OF f, of gs_ScopeID] arg_cong [OF f, of gs_InterfaceName]
      arg_cong [OF f, of gs_InterfaceIndex] arg_cong [OF f, of gs_Target] arg_cong [OF f, of gs_Source]
    by (simp add: first_sample_def Let_def)
qed

lemma finished_identity:
  assumes "finished env bo ident nonce off s"
  obtains s0 where "stopped env bo ident nonce off s0" "s = complete_sample (ru_last s0) s0"
proof -
  obtain g s0 where "progress env bo ident nonce off g 3 3 3 3 s0" "s = complete_sample (ru_last s0) s0"
    using assms by (auto simp: finished_def)
  then show ?thesis using that [OF stoppedI] by simp
qed

text \<open>The measurement of a run that reached the network is valid, belongs to its request and lies before the expiry.\<close>

lemma bounded_sample:
  assumes steady: "steady_clock env off" and norm: "normalize_request request (strip (bo_start bo)) = Inr (bo_request bo)"
    and start: "reading env (bo_start bo)" and run: "measure_bounded env bo (initial_run w (bo_start bo)) = (err, s)"
    and ended: "nano_time ended" "wall_only ended" "wall (ru_last s) \<le> wall ended"
  shows "ru_sample s = zero_sample \<and> err \<noteq> None \<or>
    (let m = ru_sample s; r = bo_request bo in
     m \<noteq> zero_sample \<and> gs_Complete m = (err = None) \<and> gs_StartedAt m = strip (bo_start bo) \<and>
     gs_ScopeID m = gb_ScopeID (gp_Binding (ir_Plan r)) \<and> gs_InterfaceName m = gb_InterfaceName (gp_Binding (ir_Plan r)) \<and>
     gs_InterfaceIndex m = gb_InterfaceIndex (gp_Binding (ir_Plan r)) \<and> gs_Target m = gp_Target (ir_Plan r) \<and>
     gs_Source m = ir_Source r \<and> validateMeasurement (auditMeasurement m) ended = Inr () \<and>
     (is_zero (gs_CompletedAt m) \<or>
      wall_only (gs_CompletedAt m) \<and> wall (gs_CompletedAt m) < wall (gp_ReviewExpiresAt (ir_Plan r))))"
proof -
  have budget: "gp_Budget (ir_Plan (bo_request bo)) = gateway_budget" and nano: "nano_time (bo_start bo)"
    using normalize_request_ok [OF norm] by (simp_all add: nano_time_iff)
  have nonzero: "m \<noteq> zero_sample" if "gs_StartedAt m = strip (bo_start bo)" for m
  proof
    assume "m = zero_sample"
    then have "wall (strip (bo_start bo)) = zero_wall" using that by (simp add: zero_sample_def zero_time_def flip: that)
    then show False using nano by (simp add: nano_time_iff)
  qed
  show ?thesis
    using budget start run
  proof (cases rule: measure_bounded_cases [where off = off])
    case refused
    then show ?thesis by simp
  next
    case (partial ident nonce e ok s0)
    have last: "ru_last s = ru_last s0" using closed_as_same [OF partial(1)] by simp
    have "err \<noteq> None" "ru_sample s = ru_sample s0"
      using partial(1) stopped_valid [OF partial(2) steady nano ended(1,2)] ended(3) last
      by (auto simp: closed_as_def split: if_splits)
    then show ?thesis
      using stopped_valid [OF partial(2) steady nano ended(1,2)] stopped_identity [OF partial(2)] nonzero ended(3) last
      by (simp add: Let_def)
  next
    case (complete ident nonce ok s0)
    have last: "ru_last s = ru_last s0" using closed_as_same [OF complete(1)] by simp
    obtain s1 where s1: "stopped env bo ident nonce off s1" "s0 = complete_sample (ru_last s1) s1"
      using finished_identity [OF complete(2)] .
    have valid: "validateMeasurement (auditMeasurement (ru_sample s)) ended = Inr ()"
      "gs_Complete (ru_sample s) = (err = None)"
      "wall_only (gs_CompletedAt (ru_sample s))"
      "wall (gs_CompletedAt (ru_sample s)) < wall (gp_ReviewExpiresAt (ir_Plan (bo_request bo)))"
      using finished_valid [OF complete(2) steady nano budget ended(1,2)] complete(1) ended(3) last
      by (auto simp: closed_as_def go_time split: if_splits)
    have "gs_StartedAt (ru_sample s) = gs_StartedAt (ru_sample s1)" "gs_ScopeID (ru_sample s) = gs_ScopeID (ru_sample s1)"
      "gs_InterfaceName (ru_sample s) = gs_InterfaceName (ru_sample s1)" "gs_Target (ru_sample s) = gs_Target (ru_sample s1)"
      "gs_InterfaceIndex (ru_sample s) = gs_InterfaceIndex (ru_sample s1)" "gs_Source (ru_sample s) = gs_Source (ru_sample s1)"
      using complete(1) s1(2) by (auto simp: closed_as_def complete_sample_def Let_def split: if_splits)
    then show ?thesis using valid stopped_identity [OF s1(1)] nonzero by (simp add: Let_def)
  qed
qed


text \<open>A bench on which every request is answered after a microsecond.\<close>

definition bench_time :: "int \<Rightarrow> time" where
  "bench_time n = \<lparr>wall = 1000 * second + max 0 n, mono_at = None\<rparr>"

definition bench_env :: "(int \<times> byte list) icmp_env" where
  "bench_env =
     \<lparr>ie_Now = (\<lambda>w. (bench_time (fst w), w)), ie_ctxErr = (\<lambda>w. (None, w)), ie_now = (\<lambda>w. (bench_time (fst w), w)),
      ie_lookup = (\<lambda>r w. (Inr \<lparr>ro_name = ''en0'', ro_index = 4, ro_source = ir_Source r, ro_observedAt = bench_time (fst w),
        ro_freshUntil = time_add (bench_time (fst w)) GatewayReviewLifetime\<rparr>, w)),
      ie_random = (\<lambda>w. (Some (replicate 34 7), w)), ie_open = (\<lambda>r w. (Inr True, w)), ie_verify = (\<lambda>w. (None, w)),
      ie_send = (\<lambda>p w. (None, (fst w + 1000, p))),
      ie_receive = (\<lambda>w. (Inr \<lparr>dg_data = echo_reply (be16 (snd w ! 4) (snd w ! 5)) (be16 (snd w ! 6) (snd w ! 7)) (drop 8 (snd w)),
        dg_peer = Addr4 0xc0a80101, dg_local = Addr4 0xc0a80102, dg_index = 4, dg_truncated = False\<rparr>, w)),
      ie_wait = (\<lambda>d w. (None, (fst w + d, snd w))), ie_close = (\<lambda>w. (True, w))\<rparr>"


definition bench_plan :: gateway_plan where
  "bench_plan = \<lparr>gp_Binding = \<lparr>gb_ScopeID = ''home'', gb_InterfaceName = ''en0'', gb_InterfaceIndex = 4,
     gb_Prefixes = [''192.168.1.0/24'']\<rparr>, gp_Target = Addr4 0xc0a80101, gp_CreatedAt = sample_now,
     gp_ReviewExpiresAt = time_add sample_now GatewayReviewLifetime, gp_Budget = gateway_budget\<rparr>"

definition bench_bounds :: icmp_bounds where
  "bench_bounds = \<lparr>bo_start = sample_now, bo_request = \<lparr>ir_Plan = bench_plan, ir_Source = Addr4 0xc0a80102\<rparr>,
     bo_deadline = time_add sample_now (5 * second)\<rparr>"

definition bench_selection :: gateway_selection where
  "bench_selection = \<lparr>se_Plan = bench_plan, se_Source = Addr4 0xc0a80102, se_RouteObservedAt = sample_now,
     se_RouteFreshUntil = time_add sample_now GatewayReviewLifetime\<rparr>"

definition bench_run :: "(gateway_sample \<times> icmp_error option) \<times> (int \<times> byte list) icmp_run" where
  "bench_run = ExecuteGateway bench_env \<lparr>sn_ready = True, sn_busy = False\<rparr> None bench_selection (0, [])"

definition bench_open :: "(int \<times> byte list) icmp_run" where
  "bench_open = (initial_run (0, []) sample_now)\<lparr>ru_log := [LookedUp], ru_sample := first_sample bench_bounds\<rparr>"

lemma bench_normalized:
  "normalize_request \<lparr>ir_Plan = bench_plan, ir_Source = Addr4 0xc0a80102\<rparr> sample_now =
     Inr \<lparr>ir_Plan = bench_plan, ir_Source = Addr4 0xc0a80102\<rparr>"
  by code_simp

lemma bench_opened:
  "open_socket bench_env bench_bounds (initial_run (0, []) sample_now) = (Inr (0x0707, replicate 32 7), bench_open)"
  by code_simp

lemma bench_attempts:
  "case attempts bench_env bench_bounds 0x0707 (replicate 32 7) bench_open of
     (r, s) \<Rightarrow> r = Inr () \<and> wall (ru_last s) \<le> 1010 * second \<and> gs_Replies (ru_sample s) = 3"
  by code_simp

lemma bench_fields:
  "ie_Now bench_env w = (bench_time (fst w), w)" "ie_ctxErr bench_env w = (None, w)"
  "ie_now bench_env w = (bench_time (fst w), w)" "ie_close bench_env w = (True, w)"
  "pb_TotalTimeout (gp_Budget bench_plan) = 5 * second"
  "gp_ReviewExpiresAt bench_plan = time_add sample_now GatewayReviewLifetime"
  by (simp_all add: bench_env_def bench_plan_def gateway_budget_def)

lemma bench_result:
  "wall (ru_last (snd bench_run)) \<le> 1010 * second \<and> gs_Replies (fst (fst bench_run)) = 3 \<and> snd (fst bench_run) = None"
proof -
  have "with_timeout None sample_now (min (5 * second) (time_sub (time_add sample_now GatewayReviewLifetime) (strip sample_now))) =
      time_add sample_now (5 * second)" by code_simp
  moreover have "strip sample_now = sample_now" by code_simp
  moreover have "bench_time 0 = sample_now" by (simp add: bench_time_def sample_now_def)
  ultimately have "bench_run = (case measure_bounded bench_env bench_bounds (initial_run (0, []) sample_now) of
      (err, s) \<Rightarrow> ((ru_sample s, err), s))"
    by (simp add: bench_run_def ExecuteGateway_def Measure_def check_context_def seq_def call_def stop_with_def
        contextError_def ret_def initial_run_def bench_selection_def bench_normalized bench_bounds_def Let_def bench_fields)
  moreover obtain s where s: "attempts bench_env bench_bounds 0x0707 (replicate 32 7) bench_open = (Inr (), s)"
    "wall (ru_last s) \<le> 1010 * second" "gs_Replies (ru_sample s) = 3"
    using bench_attempts by (auto split: prod.splits)
  ultimately have run: "bench_run = ((ru_sample s, None), s)"
    by (simp add: measure_bounded_def bench_opened close_socket_def bench_fields error_of_def Let_def)
  show ?thesis unfolding run using s(2,3) by simp
qed


end
