(* ===== verification/Capability.thy ===== *)
theory Capability
  imports GoEncoding Complex_Main
begin

text \<open>
  \<open>capability/manifest.go\<close>, \<open>validate.go\<close>, \<open>registry.go\<close> and \<open>state.go\<close>: the manifest of a capability, its
  validation, the registry of accepted manifests, the match of a manifest with a platform and the runtime
  state of a capability.  The string types of the code are datatypes with one constructor for any other
  string.  Error texts are not kept: a refused value is \<open>CapInvalid\<close>.  \<open>MaxCPUPercent\<close>, a \<open>float64\<close> that is
  only compared with zero, is a rational number.
\<close>

section \<open>Data\<close>

datatype cap_error =
  CapInvalid | CapUnknown | CapActionNotDeclared | CapOwnershipAction | CapDesiredState | CapDriverUnavailable
| CapPreflightBlocked | CapContext | CapDriver | CapExhausted

datatype ownership_mode = OwnershipBuiltin | OwnershipExternal | OwnershipManagedLocal | OwnershipManagedRemote | OwnershipOther string
datatype support_level = SupportCandidate | SupportPlanned | SupportTested | SupportLimited | SupportOther string
datatype requirement_level = RequirementRequired | RequirementConditional | RequirementNone | RequirementOther string
datatype dependency_kind = DependencyCapability | DependencyRuntime | DependencyService | DependencyOther string
datatype config_field_type = ConfigString | ConfigBoolean | ConfigInteger | ConfigEnum | ConfigSecretRef | ConfigOther string
datatype measurement_status = MeasurementUnmeasured | MeasurementMeasured | MeasurementOther string
datatype lifecycle_action =
  ActionPreflight | ActionInstall | ActionConnect | ActionStart | ActionEnable | ActionVerify | ActionDisable
| ActionStop | ActionDisconnect | ActionUpgrade | ActionUninstall | ActionOther string

record cap_target =
  tg_OS :: string
  tg_Arch :: string
  tg_MinVersion :: string
  tg_Support :: support_level
  tg_Evidence :: string

record input_requirement =
  in_ID :: string
  in_Required :: bool
  in_Description :: string

record privilege_requirement =
  pv_ID :: string
  pv_Requirement :: requirement_level
  pv_Description :: string

record cap_dependency =
  dp_ID :: string
  dp_Kind :: dependency_kind
  dp_Required :: bool
  dp_VersionConstraint :: string
  dp_Description :: string

record config_field =
  cf_Name :: string
  cf_Type :: config_field_type
  cf_Required :: bool
  cf_Description :: string
  cf_Enum :: "string list"

record config_contract =
  cc_SchemaVersion :: int
  cc_Fields :: "config_field list"

record resource_budget =
  rb_Measurement :: measurement_status
  rb_Profile :: string
  rb_MaxRAMMiB :: int
  rb_MaxDiskMiB :: int
  rb_MaxCPUPercent :: rat
  rb_Evidence :: string

record provenance =
  pn_Kind :: string
  pn_License :: string
  pn_Source :: string
  pn_VersionPolicy :: string

record health_contract =
  hl_ProcessRequired :: bool
  hl_VerificationSignals :: "string list"
  hl_CoverageRequiresVerification :: bool

record data_handling =
  dh_Activation :: string
  dh_Sources :: "string list"
  dh_Stored :: "string list"
  dh_Excluded :: "string list"

record output_contract =
  oc_Kind :: string
  oc_SchemaVersion :: int

record deep_link =
  dl_ID :: string
  dl_AllowedContexts :: "string list"

record manifest =
  mf_SchemaVersion :: int
  mf_ID :: string
  mf_DisplayName :: string
  mf_Summary :: string
  mf_Release :: string
  mf_Ownership :: "ownership_mode list"
  mf_Targets :: "cap_target list"
  mf_Inputs :: "input_requirement list"
  mf_Privileges :: "privilege_requirement list"
  mf_Dependencies :: "cap_dependency list"
  mf_Config :: config_contract
  mf_Resources :: resource_budget
  mf_Provenance :: provenance
  mf_Health :: health_contract
  mf_DataHandling :: data_handling
  mf_Outputs :: "output_contract list"
  mf_DeepLinks :: "deep_link list"
  mf_Lifecycle :: "lifecycle_action list"

section \<open>Texts\<close>

definition is_id_tail :: "char \<Rightarrow> bool" where
  "is_id_tail c \<longleftrightarrow> is_lower_alnum c \<or> c = CHR ''-''"

definition idPattern :: "string \<Rightarrow> bool" where
  "idPattern = head_tail_match is_lower is_id_tail (Some 62)"

definition is_name_tail :: "char \<Rightarrow> bool" where
  "is_name_tail c \<longleftrightarrow> is_lower_alnum c \<or> c \<in> {CHR ''.'', CHR ''_'', CHR ''-''}"

definition namePattern :: "string \<Rightarrow> bool" where
  "namePattern = head_tail_match is_lower is_name_tail (Some 95)"

text \<open>\<open>^v[0-9]+\.[0-9]+$\<close>.\<close>

definition releasePattern :: "string \<Rightarrow> bool" where
  "releasePattern s \<longleftrightarrow>
     (case s of [] \<Rightarrow> False
      | c # rest \<Rightarrow> c = CHR ''v'' \<and>
          (case split_on CHR ''.'' rest of
             [a, b] \<Rightarrow> a \<noteq> [] \<and> b \<noteq> [] \<and> list_all is_digit a \<and> list_all is_digit b
           | _ \<Rightarrow> False))"

text \<open>
  \<open>unicode.IsControl\<close> on the runes of a string: the control characters of Latin-1.  An invalid byte is the
  replacement character, which is not one of them.
\<close>

function unsafe_bytes :: "byte list \<Rightarrow> bool" where
  "unsafe_bytes bs =
     (if bs = [] then False
      else (case utf8_length bs of
              None \<Rightarrow> unsafe_bytes (drop 1 bs)
            | Some n \<Rightarrow>
                (n = 1 \<and> (unat (bs ! 0) < 0x20 \<or> bs ! 0 = 0x7f)) \<or>
                (n = 2 \<and> bs ! 0 = 0xc2 \<and> unat (bs ! 1) < 0xa0) \<or> unsafe_bytes (drop (max 1 n) bs)))"
  by pat_completeness auto
termination
  by (relation "measure length") auto

declare unsafe_bytes.simps [simp del]

definition hasUnsafeText :: "string \<Rightarrow> bool" where
  "hasUnsafeText s = unsafe_bytes (bytes_of s)"

text \<open>The encodings of the Unicode white space that \<open>strings.TrimSpace\<close> removes.\<close>

definition space_encodings :: "string list" where
  "space_encodings =
     map (\<lambda>n. [char_of (n :: nat)]) [9, 10, 11, 12, 13, 32] @
     map (map char_of) ([[0xc2, 0x85], [0xc2, 0xa0], [0xe1, 0x9a, 0x80]] @
       map (\<lambda>n. [0xe2, 0x80, n]) ([0x80..<0x8b] @ [0xa8, 0xa9, 0xaf]) @
       [[0xe2, 0x81, 0x9f], [0xe3, 0x80, 0x80 :: nat]])"

definition trimmed :: "string \<Rightarrow> bool" where
  "trimmed s \<longleftrightarrow> \<not> list_ex (\<lambda>w. has_prefix s w \<or> has_suffix s w) space_encodings"

function trim_left :: "string \<Rightarrow> string" where
  "trim_left s =
     (case find (\<lambda>w. w \<noteq> [] \<and> has_prefix s w) space_encodings of
        Some w \<Rightarrow> if s = [] then [] else trim_left (drop (length w) s)
      | None \<Rightarrow> s)"
  by pat_completeness auto
termination
  by (relation "measure length") (auto simp: find_Some_iff)

declare trim_left.simps [simp del]

definition blank :: "string \<Rightarrow> bool" where
  "blank s \<longleftrightarrow> trim_left s = []"

definition validateID :: "string \<Rightarrow> bool" where
  "validateID s = idPattern s"

definition validateText :: "string \<Rightarrow> nat \<Rightarrow> bool" where
  "validateText s n \<longleftrightarrow> s \<noteq> [] \<and> trimmed s \<and> length s \<le> n \<and> \<not> hasUnsafeText s"

section \<open>Versions\<close>

text \<open>\<open>strconv.Atoi\<close>: an optional sign and decimal digits, within 64 bits.\<close>

definition digits_value :: "string \<Rightarrow> int" where
  "digits_value ds = foldl (\<lambda>n d. 10 * n + int (digit_value d)) 0 ds"

definition atoi :: "string \<Rightarrow> int option" where
  "atoi s =
     (let neg = has_prefix s ''-''; ds = (if has_prefix s ''-'' \<or> has_prefix s ''+'' then drop 1 s else s);
          v = (if neg then - digits_value ds else digits_value ds)
      in if ds = [] \<or> \<not> list_all is_digit ds \<or> v < - (2 ^ 63) \<or> v > 2 ^ 63 - 1 then None else Some v)"

definition version_part :: "string \<Rightarrow> int option" where
  "version_part s =
     (if s = [] then None
      else (case atoi s of Some n \<Rightarrow> if n < 0 then None else Some n | None \<Rightarrow> None))"

definition parseVersion :: "string \<Rightarrow> int list option" where
  "parseVersion s =
     (let parts = map version_part (split_on CHR ''.'' s) in
      if length parts > 4 \<or> None \<in> set parts then None else Some (map the parts))"

fun compareVersion :: "int list \<Rightarrow> int list \<Rightarrow> int" where
  "compareVersion [] [] = 0"
| "compareVersion (a # as) [] = (if a < 0 then - 1 else if a > 0 then 1 else compareVersion as [])"
| "compareVersion [] (b # bs) = (if 0 < b then - 1 else if 0 > b then 1 else compareVersion [] bs)"
| "compareVersion (a # as) (b # bs) = (if a < b then - 1 else if a > b then 1 else compareVersion as bs)"

section \<open>Validation of manifests\<close>

text \<open>Every loop below refuses an element of its own or a key that was seen before.\<close>

definition unique_by :: "('a \<Rightarrow> bool) \<Rightarrow> ('a \<Rightarrow> 'k) \<Rightarrow> 'a list \<Rightarrow> bool" where
  "unique_by ok key xs \<longleftrightarrow> list_all ok xs \<and> distinct (map key xs)"

definition validateOwnership :: "ownership_mode list \<Rightarrow> bool" where
  "validateOwnership os \<longleftrightarrow> os \<noteq> [] \<and>
     unique_by (\<lambda>x. x \<in> {OwnershipBuiltin, OwnershipExternal, OwnershipManagedLocal, OwnershipManagedRemote}) id os \<and>
     (OwnershipBuiltin \<in> set os \<longrightarrow> length os = 1)"

definition validateTargets :: "cap_target list \<Rightarrow> bool" where
  "validateTargets ts \<longleftrightarrow> ts \<noteq> [] \<and>
     unique_by (\<lambda>t. tg_OS t \<in> {''darwin'', ''linux'', ''windows''} \<and> tg_Arch t \<in> {''arm64'', ''amd64''} \<and>
         tg_Support t \<in> {SupportCandidate, SupportPlanned, SupportTested, SupportLimited} \<and>
         (tg_MinVersion t \<noteq> [] \<longrightarrow> parseVersion (tg_MinVersion t) \<noteq> None) \<and> \<not> hasUnsafeText (tg_Evidence t) \<and>
         (tg_Support t = SupportTested \<longrightarrow> \<not> blank (tg_Evidence t)))
       (\<lambda>t. tg_OS t @ ''/'' @ tg_Arch t) ts"

definition validateInputs :: "input_requirement list \<Rightarrow> bool" where
  "validateInputs xs = unique_by (\<lambda>x. validateID (in_ID x) \<and> validateText (in_Description x) 240) in_ID xs"

definition validatePrivileges :: "privilege_requirement list \<Rightarrow> bool" where
  "validatePrivileges xs =
     unique_by (\<lambda>x. validateID (pv_ID x) \<and> pv_Requirement x \<in> {RequirementRequired, RequirementConditional, RequirementNone} \<and>
       validateText (pv_Description x) 240) pv_ID xs"

definition validateDependencies :: "cap_dependency list \<Rightarrow> bool" where
  "validateDependencies xs =
     unique_by (\<lambda>x. validateID (dp_ID x) \<and> dp_Kind x \<in> {DependencyCapability, DependencyRuntime, DependencyService} \<and>
       validateText (dp_Description x) 240 \<and> \<not> hasUnsafeText (dp_VersionConstraint x)) (\<lambda>x. (dp_Kind x, dp_ID x)) xs"

definition validateConfig :: "config_contract \<Rightarrow> bool" where
  "validateConfig c \<longleftrightarrow> cc_SchemaVersion c > 0 \<and>
     unique_by (\<lambda>f. namePattern (cf_Name f) \<and>
         cf_Type f \<in> {ConfigString, ConfigBoolean, ConfigInteger, ConfigEnum, ConfigSecretRef} \<and>
         validateText (cf_Description f) 240 \<and>
         (if cf_Type f = ConfigEnum then cf_Enum f \<noteq> [] \<and> unique_by namePattern id (cf_Enum f) else cf_Enum f = []))
       cf_Name (cc_Fields c)"

definition validateResources :: "resource_budget \<Rightarrow> bool" where
  "validateResources r \<longleftrightarrow> namePattern (rb_Profile r) \<and> \<not> hasUnsafeText (rb_Evidence r) \<and>
     (case rb_Measurement r of
        MeasurementUnmeasured \<Rightarrow> rb_MaxRAMMiB r = 0 \<and> rb_MaxDiskMiB r = 0 \<and> rb_MaxCPUPercent r = 0
      | MeasurementMeasured \<Rightarrow> rb_MaxRAMMiB r > 0 \<and> rb_MaxDiskMiB r > 0 \<and> rb_MaxCPUPercent r > 0 \<and> \<not> blank (rb_Evidence r)
      | MeasurementOther _ \<Rightarrow> False)"

definition validateProvenance :: "provenance \<Rightarrow> bool" where
  "validateProvenance p \<longleftrightarrow> pn_Kind p \<in> {''first-party'', ''third-party''} \<and> validateText (pn_License p) 80 \<and>
     validateText (pn_Source p) 300 \<and> validateText (pn_VersionPolicy p) 240"

definition validateHealth :: "health_contract \<Rightarrow> bool" where
  "validateHealth h \<longleftrightarrow> hl_VerificationSignals h \<noteq> [] \<and> unique_by validateID id (hl_VerificationSignals h)"

definition validateDataHandling :: "data_handling \<Rightarrow> bool" where
  "validateDataHandling d \<longleftrightarrow> validateText (dh_Activation d) 240 \<and>
     list_all (\<lambda>xs. xs \<noteq> [] \<and> length xs \<le> 8 \<and> unique_by (\<lambda>x. validateText x 240) id xs) [dh_Sources d, dh_Stored d, dh_Excluded d]"

definition validateOutputs :: "output_contract list \<Rightarrow> bool" where
  "validateOutputs xs \<longleftrightarrow> xs \<noteq> [] \<and> unique_by (\<lambda>x. validateID (oc_Kind x) \<and> oc_SchemaVersion x > 0) oc_Kind xs"

definition validateDeepLinks :: "deep_link list \<Rightarrow> bool" where
  "validateDeepLinks xs =
     unique_by (\<lambda>x. validateID (dl_ID x) \<and> unique_by validateID id (dl_AllowedContexts x)) dl_ID xs"

definition containsOwnership :: "ownership_mode list \<Rightarrow> ownership_mode \<Rightarrow> bool" where
  "containsOwnership os mode = (mode \<in> set os)"

definition validateLifecycle :: "ownership_mode list \<Rightarrow> lifecycle_action list \<Rightarrow> bool" where
  "validateLifecycle os as \<longleftrightarrow> as \<noteq> [] \<and>
     unique_by (\<lambda>a. case a of ActionOther _ \<Rightarrow> False | _ \<Rightarrow> True) id as \<and>
     (containsOwnership os OwnershipBuiltin \<longrightarrow>
        list_all (\<lambda>a. a \<notin> set as)
          [ActionInstall, ActionConnect, ActionStart, ActionStop, ActionDisconnect, ActionUpgrade, ActionUninstall]) \<and>
     ActionPreflight \<in> set as \<and> ActionVerify \<in> set as"

definition SchemaVersion :: int where "SchemaVersion = 2"

definition Validate :: "manifest \<Rightarrow> (cap_error, unit) result" where
  "Validate m =
     guard (mf_SchemaVersion m \<noteq> SchemaVersion) CapInvalid
     (guard (\<not> validateID (mf_ID m)) CapInvalid
     (guard (\<not> validateText (mf_DisplayName m) 80) CapInvalid
     (guard (\<not> validateText (mf_Summary m) 280) CapInvalid
     (guard (\<not> releasePattern (mf_Release m)) CapInvalid
     (guard (\<not> validateOwnership (mf_Ownership m)) CapInvalid
     (guard (\<not> validateTargets (mf_Targets m)) CapInvalid
     (guard (\<not> validateInputs (mf_Inputs m)) CapInvalid
     (guard (\<not> validatePrivileges (mf_Privileges m)) CapInvalid
     (guard (\<not> validateDependencies (mf_Dependencies m)) CapInvalid
     (guard (\<not> validateConfig (mf_Config m)) CapInvalid
     (guard (\<not> validateResources (mf_Resources m)) CapInvalid
     (guard (\<not> validateProvenance (mf_Provenance m)) CapInvalid
     (guard (\<not> validateHealth (mf_Health m)) CapInvalid
     (guard (\<not> validateDataHandling (mf_DataHandling m)) CapInvalid
     (guard (\<not> validateOutputs (mf_Outputs m)) CapInvalid
     (guard (\<not> validateDeepLinks (mf_DeepLinks m)) CapInvalid
     (guard (\<not> validateLifecycle (mf_Ownership m) (mf_Lifecycle m)) CapInvalid
     (Inr ()))))))))))))))))))"

section \<open>The registry\<close>

text \<open>A registry is the list of its manifests; their identifiers are distinct.\<close>

type_synonym registry = "manifest list"

fun register :: "registry \<Rightarrow> manifest list \<Rightarrow> (cap_error, registry) result" where
  "register reg [] = Inr reg"
| "register reg (m # ms) =
     bind_result (Validate m) (\<lambda>_.
     guard (mf_ID m \<in> mf_ID ` set reg) CapInvalid (register (reg @ [m]) ms))"

definition NewRegistry :: "manifest list \<Rightarrow> (cap_error, registry) result" where
  "NewRegistry ms = register [] ms"

definition registry_get :: "registry \<Rightarrow> string \<Rightarrow> manifest option" where
  "registry_get reg i = find (\<lambda>m. mf_ID m = i) reg"

definition registry_list :: "registry \<Rightarrow> manifest list" where
  "registry_list reg = sort_key mf_ID reg"

record environment =
  ev_OS :: string
  ev_Arch :: string
  ev_OSVersion :: string

datatype target_match = NoTarget | TargetMatched cap_target | VersionUnknown cap_target | VersionTooOld cap_target

fun match_targets :: "environment \<Rightarrow> cap_target list \<Rightarrow> target_match" where
  "match_targets env [] = NoTarget"
| "match_targets env (t # ts) =
     (if tg_OS t \<noteq> ev_OS env \<or> tg_Arch t \<noteq> ev_Arch env then match_targets env ts
      else if tg_MinVersion t = [] then TargetMatched t
      else (case parseVersion (ev_OSVersion env) of
              None \<Rightarrow> VersionUnknown t
            | Some actual \<Rightarrow>
                if compareVersion actual (case parseVersion (tg_MinVersion t) of Some v \<Rightarrow> v | None \<Rightarrow> []) < 0
                then VersionTooOld t else TargetMatched t))"

definition MatchTarget :: "manifest \<Rightarrow> environment \<Rightarrow> target_match" where
  "MatchTarget m env = match_targets env (mf_Targets m)"

section \<open>Runtime states\<close>

datatype desired_state = DesiredDisabled | DesiredEnabled | DesiredOther string
datatype process_state =
  ProcessNotApplicable | ProcessStopped | ProcessStarting | ProcessRunning | ProcessFailed | ProcessOther string
datatype verification_state =
  VerificationUnverified | VerificationVerifying | VerificationVerified | VerificationDegraded | VerificationStale
| VerificationOther string

record instance_state =
  st_Desired :: desired_state
  st_Process :: process_state
  st_Verification :: verification_state

definition state_validate :: "instance_state \<Rightarrow> manifest \<Rightarrow> bool" where
  "state_validate s m \<longleftrightarrow>
     st_Desired s \<in> {DesiredDisabled, DesiredEnabled} \<and>
     (case st_Process s of ProcessOther _ \<Rightarrow> False | _ \<Rightarrow> True) \<and>
     (case st_Verification s of VerificationOther _ \<Rightarrow> False | _ \<Rightarrow> True) \<and>
     \<not> (containsOwnership (mf_Ownership m) OwnershipBuiltin \<and> st_Process s \<noteq> ProcessNotApplicable)"

section \<open>Plain texts\<close>

text \<open>A text of printable ASCII characters that neither begins nor ends with a space passes \<open>validateText\<close>.\<close>

definition printable :: "char \<Rightarrow> bool" where
  "printable c \<longleftrightarrow> 32 \<le> (of_char c :: nat) \<and> (of_char c :: nat) < 127"

lemma byte_of_char_unat: "unat (byte_of_char c) = of_char c"
  by (simp add: byte_of_char_def unat_of_nat)

lemma printable_safe: "list_all printable s \<Longrightarrow> \<not> hasUnsafeText s"
  unfolding hasUnsafeText_def
proof (induction s)
  case Nil
  show ?case by (subst unsafe_bytes.simps) (simp add: bytes_of_def)
next
  case (Cons c s)
  let ?bs = "bytes_of (c # s)"
  have c: "32 \<le> unat (byte_of_char c)" "unat (byte_of_char c) < 127"
    using Cons.prems by (simp_all add: printable_def byte_of_char_unat)
  then have "byte_of_char c \<noteq> 0x7f" by auto
  moreover have "utf8_length ?bs = Some 1"
    using c by (simp add: utf8_length_def in_range_def bytes_of_def)
  moreover have "\<not> unsafe_bytes (bytes_of s)" using Cons by simp
  ultimately show ?case using c by (subst unsafe_bytes.simps) (simp add: bytes_of_def)
qed

lemma space_encodings_ends:
  "list_all (\<lambda>w. w \<noteq> [] \<and> \<not> (32 < (of_char (hd w) :: nat) \<and> (of_char (hd w) :: nat) < 127) \<and>
     \<not> (32 < (of_char (last w) :: nat) \<and> (of_char (last w) :: nat) < 127)) space_encodings"
  by (simp add: space_encodings_def upt_conv_Cons)

lemma plain_text:
  assumes "s \<noteq> []" and "list_all printable s" and "hd s \<noteq> CHR '' ''" and "last s \<noteq> CHR '' ''" and "length s \<le> n"
  shows "validateText s n"
proof -
  have 32: "c = CHR '' ''" if "(of_char c :: nat) = 32" for c
    using that of_char_eq_iff [of c "CHR '' ''", where 'a = nat] by simp
  have ends: "32 < (of_char (hd s) :: nat) \<and> (of_char (hd s) :: nat) < 127" "32 < (of_char (last s) :: nat) \<and> (of_char (last s) :: nat) < 127"
    using assms 32 [of "hd s"] 32 [of "last s"] by (auto simp: printable_def list_all_iff le_less)
  have "\<not> (has_prefix s w \<or> has_suffix s w)" if "w \<in> set space_encodings" for w
  proof -
    have w: "w \<noteq> []" "\<not> (32 < (of_char (hd w) :: nat) \<and> (of_char (hd w) :: nat) < 127)"
      "\<not> (32 < (of_char (last w) :: nat) \<and> (of_char (last w) :: nat) < 127)"
      using space_encodings_ends that by (auto simp: list_all_iff)
    have "hd w = hd s" if "has_prefix s w" using that w(1) by (metis has_prefix_def hd_take length_greater_0_conv)
    moreover have "last w = last s" if "has_suffix s w"
      using that w(1) by (auto dest!: has_suffixD)
    ultimately show ?thesis using w ends by metis
  qed
  then show ?thesis using assms printable_safe by (auto simp: validateText_def trimmed_def list_ex_iff)
qed

end
