(* ===== verification/CapabilityEngine.thy ===== *)
theory CapabilityEngine
  imports Capability
begin

text \<open>
  \<open>capability/instance.go\<close>, \<open>lifecycle.go\<close> and \<open>lifecycle_config.go\<close>: the configured capabilities and the
  lifecycle engine.  Every operation on one capability runs under its operation lock, so an operation is one
  function on the engine.  The driver of a capability, the context and the retry timer are the fields of a
  \<open>driver_env\<close>, functions on the state \<open>'w\<close> of the outside world; \<open>lc_calls\<close> records the driver calls with their
  outcome, for the properties.  A configured value is given by what Go's JSON decoders return on its raw
  text, and \<open>co_Encoded\<close> is the length of the encoding of all values, if they can be encoded.
\<close>

section \<open>Configurations\<close>

datatype configured_value =
  ValueEmpty | ValueNull | ValueString string | ValueBool bool | ValueInteger int | ValueOtherNumber | ValueOther | ValueMalformed

record configuration =
  co_ID :: string
  co_Ownership :: ownership_mode
  co_Desired :: desired_state
  co_Values :: "(string \<times> configured_value) list"
  co_Encoded :: "nat option"

definition MaxInstanceConfigBytes :: nat where "MaxInstanceConfigBytes = 32768"

text \<open>\<open>secretstore.ParseReference\<close>.\<close>

definition ParseReference :: "string \<Rightarrow> bool" where
  "ParseReference s \<longleftrightarrow> s \<noteq> [] \<and> length s \<le> 128 \<and>
     list_all (\<lambda>c. is_lower c \<or> is_digit c \<or> c \<in> {CHR ''.'', CHR ''_'', CHR ''-'', CHR ''/''}) s \<and>
     (is_lower (hd s) \<or> is_digit (hd s))"

definition validateConfiguredValue :: "config_field \<Rightarrow> configured_value \<Rightarrow> bool" where
  "validateConfiguredValue f v \<longleftrightarrow>
     (case v of
        ValueEmpty \<Rightarrow> False
      | ValueNull \<Rightarrow> False
      | ValueMalformed \<Rightarrow> False
      | _ \<Rightarrow>
        (case cf_Type f of
           ConfigString \<Rightarrow> (case v of ValueString s \<Rightarrow> length s \<le> 2048 \<and> \<not> hasUnsafeText s \<and> (cf_Required f \<longrightarrow> s \<noteq> []) | _ \<Rightarrow> False)
         | ConfigBoolean \<Rightarrow> (case v of ValueBool _ \<Rightarrow> True | _ \<Rightarrow> False)
         | ConfigInteger \<Rightarrow> (case v of ValueInteger _ \<Rightarrow> True | _ \<Rightarrow> False)
         | ConfigEnum \<Rightarrow> (case v of ValueString s \<Rightarrow> s \<in> set (cf_Enum f) | _ \<Rightarrow> False)
         | ConfigSecretRef \<Rightarrow> (case v of ValueString s \<Rightarrow> ParseReference s | _ \<Rightarrow> False)
         | ConfigOther _ \<Rightarrow> False))"

definition field_named :: "manifest \<Rightarrow> string \<Rightarrow> config_field option" where
  "field_named m n = find (\<lambda>f. cf_Name f = n) (cc_Fields (mf_Config m))"

definition ValidateConfiguration :: "registry \<Rightarrow> configuration \<Rightarrow> (cap_error, unit) result" where
  "ValidateConfiguration reg c =
     (case registry_get reg (co_ID c) of
        None \<Rightarrow> Inl CapUnknown
      | Some m \<Rightarrow>
          guard (co_Desired c \<noteq> DesiredDisabled \<and> co_Desired c \<noteq> DesiredEnabled) CapInvalid
          (guard (\<not> containsOwnership (mf_Ownership m) (co_Ownership c)) CapInvalid
          (guard (case co_Encoded c of None \<Rightarrow> True | Some n \<Rightarrow> n > MaxInstanceConfigBytes) CapInvalid
          (guard (\<not> list_all (\<lambda>(n, v). case field_named m n of None \<Rightarrow> False | Some f \<Rightarrow> validateConfiguredValue f v) (co_Values c)) CapInvalid
          (guard (co_Desired c = DesiredEnabled \<and>
                  list_ex (\<lambda>f. cf_Required f \<and> map_of (co_Values c) (cf_Name f) = None) (cc_Fields (mf_Config m))) CapInvalid
          (Inr ()))))))"

type_synonym instances = "string \<rightharpoonup> configuration"

fun configure_all :: "registry \<Rightarrow> instances \<Rightarrow> configuration list \<Rightarrow> (cap_error, instances) result" where
  "configure_all reg conf [] = Inr conf"
| "configure_all reg conf (c # cs) =
     guard (conf (co_ID c) \<noteq> None) CapInvalid
     (bind_result (ValidateConfiguration reg c) (\<lambda>_. configure_all reg (conf(co_ID c \<mapsto> c)) cs))"

definition NewInstances :: "registry \<Rightarrow> configuration list \<Rightarrow> (cap_error, instances) result" where
  "NewInstances reg cs = configure_all reg Map.empty cs"

definition defaultConfiguration :: "manifest \<Rightarrow> configuration" where
  "defaultConfiguration m = \<lparr>co_ID = mf_ID m, co_Ownership = hd (mf_Ownership m), co_Desired = DesiredDisabled,
     co_Values = [], co_Encoded = Some 4\<rparr>"

record capability_instance =
  ci_Manifest :: manifest
  ci_Configured :: bool
  ci_Ownership :: ownership_mode
  ci_State :: instance_state

definition current_configuration :: "instances \<Rightarrow> manifest \<Rightarrow> configuration" where
  "current_configuration conf m = (case conf (mf_ID m) of Some c \<Rightarrow> c | None \<Rightarrow> defaultConfiguration m)"

definition instanceForLocked :: "instances \<Rightarrow> manifest \<Rightarrow> capability_instance" where
  "instanceForLocked conf m =
     (let c = current_configuration conf m in
      \<lparr>ci_Manifest = m, ci_Configured = conf (mf_ID m) \<noteq> None, ci_Ownership = co_Ownership c,
       ci_State = \<lparr>st_Desired = co_Desired c,
         st_Process = (if hl_ProcessRequired (mf_Health m) then ProcessStopped else ProcessNotApplicable),
         st_Verification = VerificationUnverified\<rparr>\<rparr>)"

definition instances_get :: "registry \<Rightarrow> instances \<Rightarrow> string \<Rightarrow> capability_instance option" where
  "instances_get reg conf i = map_option (instanceForLocked conf) (registry_get reg i)"

definition instances_list :: "registry \<Rightarrow> instances \<Rightarrow> capability_instance list" where
  "instances_list reg conf = map (instanceForLocked conf) (registry_list reg)"

definition SetConfiguration :: "registry \<Rightarrow> configuration \<Rightarrow> instances \<Rightarrow> (cap_error, instances) result" where
  "SetConfiguration reg c conf = bind_result (ValidateConfiguration reg c) (\<lambda>_. Inr (conf(co_ID c \<mapsto> c)))"

definition instances_remove :: "registry \<Rightarrow> string \<Rightarrow> instances \<Rightarrow> (cap_error, instances) result" where
  "instances_remove reg i conf = guard (registry_get reg i = None) CapUnknown (Inr (conf(i := None)))"

section \<open>Reports\<close>

datatype check_status = CheckPass | CheckFail | CheckUnknown | CheckOther string

record preflight_check =
  pc_ID :: string
  pc_Status :: check_status
  pc_Blocking :: bool
  pc_Message :: string

type_synonym preflight_report = "preflight_check list"

definition Ready :: "preflight_report \<Rightarrow> bool" where
  "Ready r = list_all (\<lambda>c. \<not> (pc_Blocking c \<and> pc_Status c \<noteq> CheckPass)) r"

datatype signal_status = SignalFresh | SignalMissing | SignalStale | SignalFailed | SignalOther string

record verification_signal =
  vs_ID :: string
  vs_Status :: signal_status
  vs_Message :: string

type_synonym verification_report = "verification_signal list"

definition validatePreflightReport :: "preflight_report \<Rightarrow> bool" where
  "validatePreflightReport r =
     unique_by (\<lambda>c. validateID (pc_ID c) \<and> (case pc_Status c of CheckOther _ \<Rightarrow> False | _ \<Rightarrow> True) \<and>
       length (pc_Message c) \<le> 240 \<and> \<not> hasUnsafeText (pc_Message c)) pc_ID r"

definition validateVerificationReport :: "verification_report \<Rightarrow> bool" where
  "validateVerificationReport r =
     unique_by (\<lambda>g. validateID (vs_ID g) \<and> (case vs_Status g of SignalOther _ \<Rightarrow> False | _ \<Rightarrow> True) \<and>
       length (vs_Message g) \<le> 240 \<and> \<not> hasUnsafeText (vs_Message g)) vs_ID r"

definition observed_status :: "verification_report \<Rightarrow> string \<Rightarrow> signal_status option" where
  "observed_status r i = map_of (rev (map (\<lambda>g. (vs_ID g, vs_Status g)) r)) i"

definition weigh_signal :: "verification_report \<Rightarrow> verification_state \<Rightarrow> string \<Rightarrow> verification_state" where
  "weigh_signal r st i =
     (case observed_status r i of
        None \<Rightarrow> if st = VerificationVerified then VerificationUnverified else st
      | Some SignalMissing \<Rightarrow> if st = VerificationVerified then VerificationUnverified else st
      | Some SignalFailed \<Rightarrow> VerificationDegraded
      | Some SignalStale \<Rightarrow> if st \<noteq> VerificationDegraded then VerificationStale else st
      | Some _ \<Rightarrow> st)"

definition evaluateVerification :: "manifest \<Rightarrow> verification_report \<Rightarrow> (cap_error, verification_state) result" where
  "evaluateVerification m r =
     (let signals = hl_VerificationSignals (mf_Health m) in
      guard (list_ex (\<lambda>g. vs_ID g \<notin> set signals) r) CapInvalid
      (Inr (foldl (weigh_signal r) VerificationVerified signals)))"

section \<open>Which actions are allowed\<close>

definition hasLifecycleAction :: "manifest \<Rightarrow> lifecycle_action \<Rightarrow> bool" where
  "hasLifecycleAction m a = (a \<in> set (mf_Lifecycle m))"

definition ownershipAllowsAction :: "ownership_mode \<Rightarrow> lifecycle_action \<Rightarrow> bool" where
  "ownershipAllowsAction mode a =
     (case mode of
        OwnershipBuiltin \<Rightarrow> a \<in> {ActionPreflight, ActionEnable, ActionVerify, ActionDisable}
      | OwnershipExternal \<Rightarrow> a \<in> {ActionPreflight, ActionConnect, ActionEnable, ActionVerify, ActionDisable, ActionDisconnect}
      | OwnershipManagedLocal \<Rightarrow> True
      | OwnershipManagedRemote \<Rightarrow> True
      | OwnershipOther _ \<Rightarrow> False)"

definition desiredAllowsAction :: "desired_state \<Rightarrow> lifecycle_action \<Rightarrow> bool" where
  "desiredAllowsAction d a =
     (case a of
        ActionPreflight \<Rightarrow> True
      | ActionOther _ \<Rightarrow> False
      | _ \<Rightarrow> if a \<in> {ActionInstall, ActionConnect, ActionStart, ActionEnable, ActionVerify, ActionUpgrade}
             then d = DesiredEnabled else d = DesiredDisabled)"

section \<open>Driver calls\<close>

record driver_request =
  dq_Manifest :: manifest
  dq_Configuration :: configuration
  dq_Ownership :: ownership_mode
  dq_Action :: lifecycle_action

record step_result =
  sr_Changed :: bool
  sr_Process :: "process_state option"

text \<open>An error of a driver, as far as the engine looks at it: may the call be repeated.\<close>

record driver_error =
  de_Retryable :: bool

record 'w driver_env =
  dv_ctxErr :: "'w \<Rightarrow> bool \<times> 'w"
  dv_Preflight :: "driver_request \<Rightarrow> 'w \<Rightarrow> (driver_error, preflight_report) result \<times> 'w"
  dv_Execute :: "driver_request \<Rightarrow> 'w \<Rightarrow> (driver_error, step_result) result \<times> 'w"
  dv_Verify :: "driver_request \<Rightarrow> 'w \<Rightarrow> (driver_error, verification_report) result \<times> 'w"
  dv_waitErr :: "'w \<Rightarrow> bool \<times> 'w"

datatype driver_call =
  CalledPreflight driver_request "preflight_report option"
| CalledExecute driver_request "step_result option"
| CalledVerify driver_request "verification_report option"

record 'w lc_run =
  lc_world :: 'w
  lc_calls :: "driver_call list"

definition log_call ::
  "('a option \<Rightarrow> driver_call) \<Rightarrow> ('w \<Rightarrow> (driver_error, 'a) result \<times> 'w) \<Rightarrow> 'w lc_run \<Rightarrow> (driver_error, 'a) result \<times> 'w lc_run" where
  "log_call entry f s =
     (case f (lc_world s) of
        (r, w) \<Rightarrow> (r, s\<lparr>lc_world := w, lc_calls := lc_calls s @ [entry (case r of Inl _ \<Rightarrow> None | Inr x \<Rightarrow> Some x)]\<rparr>))"

definition ask :: "('w \<Rightarrow> bool \<times> 'w) \<Rightarrow> 'w lc_run \<Rightarrow> bool \<times> 'w lc_run" where
  "ask f s = (case f (lc_world s) of (b, w) \<Rightarrow> (b, s\<lparr>lc_world := w\<rparr>))"

text \<open>\<open>retry_loop\<close> is at attempt number \<open>n\<close> with \<open>left\<close> attempts to go, this one included.\<close>

fun retry_loop ::
  "'w driver_env \<Rightarrow> ('w lc_run \<Rightarrow> (driver_error, 'a) result \<times> 'w lc_run) \<Rightarrow> nat \<Rightarrow> nat \<Rightarrow> 'w lc_run \<Rightarrow>
   ((cap_error, 'a) result \<times> nat) \<times> 'w lc_run" where
  "retry_loop env f n 0 s = ((Inl CapExhausted, n - 1), s)"
| "retry_loop env f n (Suc left) s =
     (case ask (dv_ctxErr env) s of
        (True, s) \<Rightarrow> ((Inl CapContext, n - 1), s)
      | (False, s) \<Rightarrow>
     (case f s of
        (Inr v, s) \<Rightarrow> ((Inr v, n), s)
      | (Inl e, s) \<Rightarrow>
          if \<not> de_Retryable e \<or> left = 0 then ((Inl CapDriver, n), s)
          else (case ask (dv_waitErr env) s of
                  (True, s) \<Rightarrow> ((Inl CapContext, n), s)
                | (False, s) \<Rightarrow> retry_loop env f (Suc n) left s)))"

definition maxAttempts :: nat where "maxAttempts = 3"

definition retryCall ::
  "'w driver_env \<Rightarrow> ('w lc_run \<Rightarrow> (driver_error, 'a) result \<times> 'w lc_run) \<Rightarrow> 'w lc_run \<Rightarrow>
   ((cap_error, 'a) result \<times> nat) \<times> 'w lc_run" where
  "retryCall env f s = retry_loop env f 1 (max 1 maxAttempts) s"

text \<open>The report of a successful call is checked once the retries are over.\<close>

definition checked :: "('a \<Rightarrow> bool) \<Rightarrow> ((cap_error, 'a) result \<times> nat) \<times> 's \<Rightarrow> ((cap_error, 'a) result \<times> nat) \<times> 's" where
  "checked ok x = (case x of ((r, n), s) \<Rightarrow> ((bind_result r (\<lambda>v. guard (\<not> ok v) CapInvalid (Inr v)), n), s))"

definition callPreflight :: "'w driver_env \<Rightarrow> driver_request \<Rightarrow> 'w lc_run \<Rightarrow> ((cap_error, preflight_report) result \<times> nat) \<times> 'w lc_run" where
  "callPreflight env rq s =
     checked validatePreflightReport (retryCall env (log_call (CalledPreflight rq) (dv_Preflight env rq)) s)"

definition callExecute :: "'w driver_env \<Rightarrow> driver_request \<Rightarrow> 'w lc_run \<Rightarrow> ((cap_error, step_result) result \<times> nat) \<times> 'w lc_run" where
  "callExecute env rq s = retryCall env (log_call (CalledExecute rq) (dv_Execute env rq)) s"

definition callVerify :: "'w driver_env \<Rightarrow> driver_request \<Rightarrow> 'w lc_run \<Rightarrow> ((cap_error, verification_report) result \<times> nat) \<times> 'w lc_run" where
  "callVerify env rq s =
     checked validateVerificationReport (retryCall env (log_call (CalledVerify rq) (dv_Verify env rq)) s)"

section \<open>The engine\<close>

record engine =
  en_configured :: instances
  en_states :: "string \<rightharpoonup> instance_state"
  en_drivers :: "string set"

record lifecycle_result =
  lr_Action :: lifecycle_action
  lr_Attempts :: nat
  lr_PreflightAttempts :: nat
  lr_Changed :: bool
  lr_State :: "instance_state option"
  lr_Preflight :: "preflight_report option"
  lr_Verification :: "verification_report option"

definition NewLifecycleEngine :: "registry \<Rightarrow> instances \<Rightarrow> (string \<times> bool) list \<Rightarrow> (cap_error, engine) result" where
  "NewLifecycleEngine reg conf drivers =
     guard (list_ex (\<lambda>(i, present). \<not> present \<or> registry_get reg i = None) drivers) CapInvalid
     (Inr \<lparr>en_configured = conf,
           en_states = map_of (map (\<lambda>x. (mf_ID (ci_Manifest x), ci_State x)) (instances_list reg conf)),
           en_drivers = set (map fst drivers)\<rparr>)"

definition engine_list :: "registry \<Rightarrow> engine \<Rightarrow> capability_instance list" where
  "engine_list reg e =
     map (\<lambda>x. case en_states e (mf_ID (ci_Manifest x)) of Some st \<Rightarrow> x\<lparr>ci_State := st\<rparr> | None \<Rightarrow> x)
       (instances_list reg (en_configured e))"

definition currentState :: "engine \<Rightarrow> string \<Rightarrow> instance_state \<Rightarrow> instance_state" where
  "currentState e i fallback = (case en_states e i of Some st \<Rightarrow> st | None \<Rightarrow> fallback)"

definition setState :: "string \<Rightarrow> manifest \<Rightarrow> instance_state \<Rightarrow> engine \<Rightarrow> (cap_error, engine) result" where
  "setState i m st e =
     guard (\<not> state_validate st m) CapInvalid
     (guard (case en_states e i of Some prev \<Rightarrow> st_Desired prev \<noteq> st_Desired st | None \<Rightarrow> False) CapInvalid
     (Inr (e\<lparr>en_states := (en_states e)(i \<mapsto> st)\<rparr>)))"

definition no_result :: "lifecycle_action \<Rightarrow> lifecycle_result" where
  "no_result a = \<lparr>lr_Action = a, lr_Attempts = 0, lr_PreflightAttempts = 0, lr_Changed = False, lr_State = None,
     lr_Preflight = None, lr_Verification = None\<rparr>"

type_synonym 'w run_outcome = "(lifecycle_result \<times> cap_error option) \<times> engine \<times> 'w lc_run"

definition store_state ::
  "string \<Rightarrow> manifest \<Rightarrow> instance_state \<Rightarrow> lifecycle_result \<Rightarrow> lifecycle_result \<Rightarrow> engine \<Rightarrow> 'w lc_run \<Rightarrow> 'w run_outcome" where
  "store_state i m st refused accepted e s =
     (case setState i m st e of
        Inl err \<Rightarrow> ((refused, Some err), e, s)
      | Inr e' \<Rightarrow> ((accepted\<lparr>lr_State := Some st\<rparr>, None), e', s))"

definition run_preflight :: "'w driver_env \<Rightarrow> driver_request \<Rightarrow> lifecycle_result \<Rightarrow> engine \<Rightarrow> 'w lc_run \<Rightarrow> 'w run_outcome" where
  "run_preflight env rq result e s =
     (case callPreflight env rq s of
        ((Inl err, n), s) \<Rightarrow> ((result\<lparr>lr_Attempts := n\<rparr>, Some err), e, s)
      | ((Inr report, n), s) \<Rightarrow> ((result\<lparr>lr_Attempts := n, lr_Preflight := Some report\<rparr>, None), e, s))"

definition run_verify ::
  "'w driver_env \<Rightarrow> driver_request \<Rightarrow> instance_state \<Rightarrow> lifecycle_result \<Rightarrow> engine \<Rightarrow> 'w lc_run \<Rightarrow> 'w run_outcome" where
  "run_verify env rq st result e s =
     (let m = dq_Manifest rq in
      case callVerify env rq s of
        ((Inl err, n), s) \<Rightarrow> ((result\<lparr>lr_Attempts := n\<rparr>, Some err), e, s)
      | ((Inr report, n), s) \<Rightarrow>
          (let result = result\<lparr>lr_Attempts := n\<rparr> in
           case evaluateVerification m report of
             Inl err \<Rightarrow> ((result, Some err), e, s)
           | Inr v \<Rightarrow>
               store_state (mf_ID m) m (st\<lparr>st_Verification := v\<rparr>) result (result\<lparr>lr_Verification := Some report\<rparr>) e s))"

definition run_change ::
  "'w driver_env \<Rightarrow> driver_request \<Rightarrow> instance_state \<Rightarrow> lifecycle_result \<Rightarrow> engine \<Rightarrow> 'w lc_run \<Rightarrow> 'w run_outcome" where
  "run_change env rq st result e s =
     (let m = dq_Manifest rq in
      case callPreflight env rq s of
        ((Inl err, n), s) \<Rightarrow> ((result\<lparr>lr_PreflightAttempts := n\<rparr>, Some err), e, s)
      | ((Inr report, n), s) \<Rightarrow>
          (let result = result\<lparr>lr_PreflightAttempts := n, lr_Preflight := Some report\<rparr> in
           if \<not> Ready report then ((result, Some CapPreflightBlocked), e, s)
           else (case callExecute env rq s of
                   ((Inl err, k), s) \<Rightarrow> ((result\<lparr>lr_Attempts := k\<rparr>, Some err), e, s)
                 | ((Inr step, k), s) \<Rightarrow>
                     (let result = result\<lparr>lr_Attempts := k\<rparr>;
                          upcoming = (case sr_Process step of None \<Rightarrow> st | Some p \<Rightarrow> st\<lparr>st_Process := p\<rparr>)\<lparr>st_Verification := VerificationUnverified\<rparr>
                      in store_state (mf_ID m) m upcoming result (result\<lparr>lr_Changed := sr_Changed step\<rparr>) e s))))"

definition Run ::
  "registry \<Rightarrow> 'w driver_env \<Rightarrow> string \<Rightarrow> lifecycle_action \<Rightarrow> engine \<Rightarrow> 'w lc_run \<Rightarrow> 'w run_outcome" where
  "Run reg env i a e s =
     (case instances_get reg (en_configured e) i of
        None \<Rightarrow> ((no_result a, Some CapUnknown), e, s)
      | Some inst \<Rightarrow>
          (let m = ci_Manifest inst; c = current_configuration (en_configured e) m;
               st = currentState e i (ci_State inst); result = (no_result a)\<lparr>lr_State := Some st\<rparr>;
               rq = \<lparr>dq_Manifest = m, dq_Configuration = c, dq_Ownership = ci_Ownership inst, dq_Action = a\<rparr>
           in if \<not> hasLifecycleAction m a then ((result, Some CapActionNotDeclared), e, s)
              else if \<not> ownershipAllowsAction (ci_Ownership inst) a then ((result, Some CapOwnershipAction), e, s)
              else if \<not> desiredAllowsAction (co_Desired c) a then ((result, Some CapDesiredState), e, s)
              else if i \<notin> en_drivers e then ((result, Some CapDriverUnavailable), e, s)
              else (case a of
                      ActionPreflight \<Rightarrow> run_preflight env rq result e s
                    | ActionVerify \<Rightarrow> run_verify env rq st result e s
                    | _ \<Rightarrow> run_change env rq st result e s)))"

section \<open>Configuration changes\<close>

definition PreflightConfiguration ::
  "registry \<Rightarrow> 'w driver_env \<Rightarrow> configuration \<Rightarrow> lifecycle_action \<Rightarrow> engine \<Rightarrow> 'w lc_run \<Rightarrow>
   (preflight_report \<times> cap_error option) \<times> 'w lc_run" where
  "PreflightConfiguration reg env c a e s =
     (case bind_result (ValidateConfiguration reg c) (\<lambda>_.
             case instances_get reg (en_configured e) (co_ID c) of
               None \<Rightarrow> Inl CapUnknown
             | Some inst \<Rightarrow>
                 guard (\<not> hasLifecycleAction (ci_Manifest inst) a) CapActionNotDeclared
                 (guard (\<not> ownershipAllowsAction (co_Ownership c) a) CapOwnershipAction
                 (guard (\<not> desiredAllowsAction (co_Desired c) a) CapDesiredState
                 (guard (co_ID c \<notin> en_drivers e) CapDriverUnavailable (Inr inst))))) of
        Inl err \<Rightarrow> (([], Some err), s)
      | Inr inst \<Rightarrow>
          (case callPreflight env \<lparr>dq_Manifest = ci_Manifest inst, dq_Configuration = c, dq_Ownership = co_Ownership c,
                  dq_Action = a\<rparr> s of
             ((Inl err, _), s) \<Rightarrow> (([], Some err), s)
           | ((Inr report, _), s) \<Rightarrow> ((report, if Ready report then None else Some CapPreflightBlocked), s)))"

text \<open>The configuration is stored first; an invalid state after that is reported but the configuration stays.\<close>

definition ApplyConfiguration :: "registry \<Rightarrow> configuration \<Rightarrow> engine \<Rightarrow> cap_error option \<times> engine" where
  "ApplyConfiguration reg c e =
     (case ValidateConfiguration reg c of
        Inl err \<Rightarrow> (Some err, e)
      | Inr _ \<Rightarrow>
     (case instances_get reg (en_configured e) (co_ID c) of
        None \<Rightarrow> (Some CapUnknown, e)
      | Some inst \<Rightarrow>
          (let previous = currentState e (co_ID c) (ci_State inst) in
           case SetConfiguration reg c (en_configured e) of
             Inl err \<Rightarrow> (Some err, e)
           | Inr conf \<Rightarrow>
               (let e = e\<lparr>en_configured := conf\<rparr>;
                    upcoming = previous\<lparr>st_Desired := co_Desired c,
                      st_Verification := (if st_Desired previous \<noteq> co_Desired c then VerificationUnverified else st_Verification previous)\<rparr>
                in if \<not> state_validate upcoming (ci_Manifest inst) then (Some CapInvalid, e)
                   else (None, e\<lparr>en_states := (en_states e)(co_ID c \<mapsto> upcoming)\<rparr>)))))"

definition RemoveConfiguration :: "registry \<Rightarrow> string \<Rightarrow> engine \<Rightarrow> cap_error option \<times> engine" where
  "RemoveConfiguration reg i e =
     (case instances_get reg (en_configured e) i of
        None \<Rightarrow> (Some CapUnknown, e)
      | Some inst \<Rightarrow>
     (case instances_remove reg i (en_configured e) of
        Inl err \<Rightarrow> (Some err, e)
      | Inr conf \<Rightarrow>
          (let e = e\<lparr>en_configured := conf\<rparr>; previous = currentState e i (ci_State inst);
               upcoming = previous\<lparr>st_Desired := DesiredDisabled, st_Verification := VerificationUnverified\<rparr>
           in if \<not> state_validate upcoming (ci_Manifest inst) then (Some CapInvalid, e)
              else (None, e\<lparr>en_states := (en_states e)(i \<mapsto> upcoming)\<rparr>))))"

end
