(* ===== verification/CapabilityRules.thy ===== *)
theory CapabilityRules
  imports CapabilityEngine
begin

text \<open>
  Lemmas on \<open>evaluateVerification\<close>, the retried driver calls and one run of an action.
\<close>

section \<open>Signals\<close>

definition severity :: "verification_state \<Rightarrow> nat" where
  "severity st = (case st of VerificationVerified \<Rightarrow> 0 | VerificationStale \<Rightarrow> 2 | VerificationDegraded \<Rightarrow> 3 | _ \<Rightarrow> 1)"

definition signal_severity :: "verification_report \<Rightarrow> string \<Rightarrow> nat" where
  "signal_severity r i =
     (case observed_status r i of
        Some SignalFailed \<Rightarrow> 3 | Some SignalStale \<Rightarrow> 2 | Some SignalMissing \<Rightarrow> 1 | None \<Rightarrow> 1 | _ \<Rightarrow> 0)"

definition evaluated :: "verification_state set" where
  "evaluated = {VerificationVerified, VerificationUnverified, VerificationStale, VerificationDegraded}"

lemma weigh_signal_severity:
  "st \<in> evaluated \<Longrightarrow>
     weigh_signal r st i \<in> evaluated \<and> severity (weigh_signal r st i) = max (severity st) (signal_severity r i)"
  by (auto simp: weigh_signal_def evaluated_def severity_def signal_severity_def split: option.splits signal_status.splits)

lemma foldl_weigh_severity:
  "st \<in> evaluated \<Longrightarrow>
     foldl (weigh_signal r) st js \<in> evaluated \<and>
     (k \<le> severity (foldl (weigh_signal r) st js) \<longleftrightarrow> k \<le> severity st \<or> (\<exists>j\<in>set js. k \<le> signal_severity r j))"
  by (induction js arbitrary: st) (auto simp: weigh_signal_severity le_max_iff_disj)

lemma observed_status_iff:
  assumes "distinct (map vs_ID r)"
  shows "observed_status r i = Some x \<longleftrightarrow> (\<exists>g\<in>set r. vs_ID g = i \<and> vs_Status g = x)"
proof -
  have "distinct (map fst (rev (map (\<lambda>g. (vs_ID g, vs_Status g)) r)))"
    using assms by (simp add: rev_map [symmetric] comp_def)
  then show ?thesis by (auto simp: observed_status_def map_of_eq_Some_iff)
qed

lemma observed_status_None: "observed_status r i = None \<longleftrightarrow> i \<notin> vs_ID ` set r"
  by (auto simp: observed_status_def map_of_eq_None_iff image_iff)

text \<open>What the documentation of the engine says of a report: the worst signal decides.\<close>

definition signal_verdict :: "manifest \<Rightarrow> verification_report \<Rightarrow> verification_state" where
  "signal_verdict m r =
     (if \<exists>g\<in>set r. vs_Status g = SignalFailed then VerificationDegraded
      else if \<exists>g\<in>set r. vs_Status g = SignalStale then VerificationStale
      else if \<exists>j\<in>set (hl_VerificationSignals (mf_Health m)). \<forall>g\<in>set r. vs_ID g = j \<longrightarrow> vs_Status g = SignalMissing
      then VerificationUnverified else VerificationVerified)"

lemma signal_severity_bounds:
  assumes "distinct (map vs_ID r)" and "\<forall>g\<in>set r. \<forall>x. vs_Status g \<noteq> SignalOther x"
  shows "3 \<le> signal_severity r j \<longleftrightarrow> (\<exists>g\<in>set r. vs_ID g = j \<and> vs_Status g = SignalFailed)"
    and "2 \<le> signal_severity r j \<longleftrightarrow> (\<exists>g\<in>set r. vs_ID g = j \<and> vs_Status g \<in> {SignalFailed, SignalStale})"
    and "1 \<le> signal_severity r j \<longleftrightarrow> (\<forall>g\<in>set r. vs_ID g = j \<longrightarrow> vs_Status g \<noteq> SignalFresh)"
proof -
  note obs = observed_status_iff [OF assms(1), of j]
  have none: "observed_status r j = None \<Longrightarrow> g \<in> set r \<Longrightarrow> vs_ID g \<noteq> j" for g
    by (auto simp: observed_status_None)
  have same: "observed_status r j = Some x \<Longrightarrow> g \<in> set r \<Longrightarrow> vs_ID g = j \<Longrightarrow> vs_Status g = x" for g x
    using obs [of "vs_Status g"] by auto
  have ex: "observed_status r j = Some x \<Longrightarrow> \<exists>g\<in>set r. vs_ID g = j \<and> vs_Status g = x" for x
    using obs [of x] by simp
  show "3 \<le> signal_severity r j \<longleftrightarrow> (\<exists>g\<in>set r. vs_ID g = j \<and> vs_Status g = SignalFailed)"
    using same ex none by (fastforce simp: signal_severity_def split: option.splits signal_status.splits)
  show "2 \<le> signal_severity r j \<longleftrightarrow> (\<exists>g\<in>set r. vs_ID g = j \<and> vs_Status g \<in> {SignalFailed, SignalStale})"
    using same ex none by (fastforce simp: signal_severity_def split: option.splits signal_status.splits)
  show "1 \<le> signal_severity r j \<longleftrightarrow> (\<forall>g\<in>set r. vs_ID g = j \<longrightarrow> vs_Status g \<noteq> SignalFresh)"
    using same ex none assms(2) by (fastforce simp: signal_severity_def split: option.splits signal_status.splits)
qed

lemma validateVerificationReportD:
  assumes "validateVerificationReport r"
  shows "distinct (map vs_ID r)" and "\<forall>g\<in>set r. \<forall>x. vs_Status g \<noteq> SignalOther x"
  using assms by (auto simp: validateVerificationReport_def unique_by_def list_all_iff split: signal_status.splits)

lemma evaluate_verdict:
  assumes "validateVerificationReport r"
  shows "evaluateVerification m r =
    (if \<exists>g\<in>set r. vs_ID g \<notin> set (hl_VerificationSignals (mf_Health m)) then Inl CapInvalid else Inr (signal_verdict m r))"
proof (cases "\<exists>g\<in>set r. vs_ID g \<notin> set (hl_VerificationSignals (mf_Health m))")
  case True
  then show ?thesis by (auto simp: evaluateVerification_def list_ex_iff guard_def)
next
  case False
  note bounds = signal_severity_bounds [OF validateVerificationReportD [OF assms]]
  define v where "v = foldl (weigh_signal r) VerificationVerified (hl_VerificationSignals (mf_Health m))"
  have ev: "VerificationVerified \<in> evaluated" by (simp add: evaluated_def)
  have zero: "severity VerificationVerified = 0" by (simp add: severity_def)
  note fold = foldl_weigh_severity [OF ev, of r "hl_VerificationSignals (mf_Health m)", folded v_def, unfolded zero]
  have failed: "3 \<le> severity v \<longleftrightarrow> (\<exists>g\<in>set r. vs_Status g = SignalFailed)"
    using False unfolding fold [THEN conjunct2] bounds by auto
  have stale: "2 \<le> severity v \<longleftrightarrow> (\<exists>g\<in>set r. vs_Status g \<in> {SignalFailed, SignalStale})"
    using False unfolding fold [THEN conjunct2] bounds by auto
  have missing: "1 \<le> severity v \<longleftrightarrow>
      (\<exists>j\<in>set (hl_VerificationSignals (mf_Health m)). \<forall>g\<in>set r. vs_ID g = j \<longrightarrow> vs_Status g \<noteq> SignalFresh)"
    unfolding fold [THEN conjunct2] bounds by auto
  have calm: "vs_Status g \<noteq> SignalFresh \<longleftrightarrow> vs_Status g = SignalMissing" if "g \<in> set r" "\<not> 2 \<le> severity v" for g
    using that stale validateVerificationReportD(2) [OF assms] by (cases "vs_Status g") auto
  have "v = VerificationDegraded \<or> v = VerificationStale \<or> v = VerificationUnverified \<or> v = VerificationVerified"
    using fold [THEN conjunct1] by (auto simp: evaluated_def)
  then have "v = signal_verdict m r"
    using failed stale missing calm by (elim disjE) (auto simp: signal_verdict_def severity_def)
  with False show ?thesis by (auto simp: evaluateVerification_def list_ex_iff guard_def v_def)
qed

section \<open>Driver calls\<close>

lemma ask_calls [simp]: "ask f s = (b, s') \<Longrightarrow> lc_calls s' = lc_calls s"
  by (auto simp: ask_def split: prod.splits)

lemma log_call_calls:
  "log_call entry g s = (r, s') \<Longrightarrow>
     lc_calls s' = lc_calls s @ [entry (case r of Inl _ \<Rightarrow> None | Inr v \<Rightarrow> Some v)]"
  by (auto simp: log_call_def split: prod.splits)

text \<open>\<open>retryCall\<close> calls the driver as often as it reports, the last answer is the one it returns.\<close>

lemma retry_loop_log:
  assumes "retry_loop env (log_call entry g) (Suc n) k s = ((r, n'), s')"
  shows "\<exists>xs. lc_calls s' = lc_calls s @ map entry xs \<and> length xs \<le> k \<and> n' = n + length xs \<and>
    (\<forall>v. r = Inr v \<longrightarrow> xs \<noteq> [] \<and> last xs = Some v) \<and>
    (\<forall>v. Some v \<in> set xs \<longrightarrow> r = Inr v \<and> (\<exists>w w'. g w = (Inr v, w')))"
  using assms
proof (induction k arbitrary: n s)
  case 0
  then show ?case by (intro exI [of _ "[]"]) auto
next
  case (Suc k)
  obtain b s1 where ctx: "ask (dv_ctxErr env) s = (b, s1)" by fastforce
  show ?case
  proof (cases b)
    case True
    with Suc.prems ctx show ?thesis by (intro exI [of _ "[]"]) auto
  next
    case False
    obtain q s2 where call: "log_call entry g s1 = (q, s2)" by fastforce
    have calls: "lc_calls s2 = lc_calls s @ [entry (case q of Inl _ \<Rightarrow> None | Inr v \<Rightarrow> Some v)]"
      using log_call_calls [OF call] ctx by simp
    show ?thesis
    proof (cases q)
      case (Inr v)
      moreover have "\<exists>w w'. g w = (Inr v, w')"
        using call Inr by (auto simp: log_call_def split: prod.splits)
      ultimately show ?thesis using Suc.prems ctx call False calls by (intro exI [of _ "[Some v]"]) auto
    next
      case (Inl e)
      obtain b3 s3 where wait: "ask (dv_waitErr env) s2 = (b3, s3)" by fastforce
      show ?thesis
      proof (cases "\<not> de_Retryable e \<or> k = 0 \<or> b3")
        case True
        with Suc.prems ctx call False Inl calls wait show ?thesis
          by (intro exI [of _ "[None]"]) (auto split: if_splits)
      next
        case again: False
        with Suc.prems ctx call False Inl wait have "retry_loop env (log_call entry g) (Suc (Suc n)) k s3 = ((r, n'), s')"
          by auto
        from Suc.IH [OF this] obtain xs where "lc_calls s' = lc_calls s3 @ map entry xs" "length xs \<le> k"
          "n' = Suc n + length xs" "\<forall>v. r = Inr v \<longrightarrow> xs \<noteq> [] \<and> last xs = Some v"
          "\<forall>v. Some v \<in> set xs \<longrightarrow> r = Inr v \<and> (\<exists>w w'. g w = (Inr v, w'))" by blast
        with calls Inl wait show ?thesis by (intro exI [of _ "None # xs"]) auto
      qed
    qed
  qed
qed

lemma retryCall_log:
  assumes "retryCall env (log_call entry g) s = ((r, n), s')"
  shows "\<exists>xs. lc_calls s' = lc_calls s @ map entry xs \<and> length xs \<le> 3 \<and> n = length xs \<and>
    (\<forall>v. r = Inr v \<longrightarrow> xs \<noteq> [] \<and> last xs = Some v) \<and>
    (\<forall>v. Some v \<in> set xs \<longrightarrow> r = Inr v \<and> (\<exists>w w'. g w = (Inr v, w')))"
  using retry_loop_log [of env entry g 0 "max 1 maxAttempts" s r n s'] assms
  by (simp add: retryCall_def maxAttempts_def)

lemma checked_outcome:
  assumes "checked ok (retryCall env (log_call entry g) s) = ((r, n), s')"
  shows "\<exists>xs. lc_calls s' = lc_calls s @ map entry xs \<and> length xs \<le> 3 \<and> n = length xs \<and>
    (\<forall>v. r = Inr v \<longrightarrow> xs \<noteq> [] \<and> last xs = Some v \<and> ok v)"
proof -
  obtain q s2 where call: "retryCall env (log_call entry g) s = ((q, n), s2)"
    using assms by (auto simp: checked_def split: prod.splits)
  moreover obtain xs where "lc_calls s2 = lc_calls s @ map entry xs" "length xs \<le> 3" "n = length xs"
    "\<forall>v. q = Inr v \<longrightarrow> xs \<noteq> [] \<and> last xs = Some v"
    using retryCall_log [OF call] by blast
  ultimately show ?thesis using assms by (auto simp: checked_def)
qed

lemma callPreflight_outcome:
  assumes "callPreflight env rq s = ((r, n), s')"
  shows "\<exists>xs. lc_calls s' = lc_calls s @ map (CalledPreflight rq) xs \<and> length xs \<le> 3 \<and> n = length xs \<and>
    (\<forall>v. r = Inr v \<longrightarrow> xs \<noteq> [] \<and> last xs = Some v \<and> validatePreflightReport v)"
  using checked_outcome assms unfolding callPreflight_def by metis

lemma callVerify_outcome:
  assumes "callVerify env rq s = ((r, n), s')"
  shows "\<exists>xs. lc_calls s' = lc_calls s @ map (CalledVerify rq) xs \<and> length xs \<le> 3 \<and> n = length xs \<and>
    (\<forall>v. r = Inr v \<longrightarrow> xs \<noteq> [] \<and> last xs = Some v \<and> validateVerificationReport v)"
  using checked_outcome assms unfolding callVerify_def by metis

lemma callExecute_outcome:
  assumes "callExecute env rq s = ((r, n), s')"
  shows "\<exists>xs. lc_calls s' = lc_calls s @ map (CalledExecute rq) xs \<and> length xs \<le> 3 \<and> n = length xs \<and>
    (\<forall>v. r = Inr v \<longrightarrow> xs \<noteq> [] \<and> last xs = Some v) \<and>
    (\<forall>v. Some v \<in> set xs \<longrightarrow> r = Inr v \<and> (\<exists>w w'. dv_Execute env rq w = (Inr v, w')))"
  using retryCall_log assms unfolding callExecute_def by metis

section \<open>One action\<close>

text \<open>The request that \<open>Run\<close> makes of the driver, and what has to hold for it to be made at all.\<close>

definition run_request :: "engine \<Rightarrow> manifest \<Rightarrow> lifecycle_action \<Rightarrow> driver_request" where
  "run_request e m a =
     \<lparr>dq_Manifest = m, dq_Configuration = current_configuration (en_configured e) m,
      dq_Ownership = co_Ownership (current_configuration (en_configured e) m), dq_Action = a\<rparr>"

definition permitted :: "driver_request \<Rightarrow> bool" where
  "permitted rq \<longleftrightarrow>
     hasLifecycleAction (dq_Manifest rq) (dq_Action rq) \<and> ownershipAllowsAction (dq_Ownership rq) (dq_Action rq) \<and>
     desiredAllowsAction (co_Desired (dq_Configuration rq)) (dq_Action rq)"

text \<open>The calls of one action: only preflights, only verifications, or preflights and, after a ready report, executions.\<close>

definition disciplined :: "driver_request \<Rightarrow> driver_call list \<Rightarrow> bool" where
  "disciplined rq calls \<longleftrightarrow>
     (\<exists>xs ys zs. calls = map (CalledPreflight rq) xs @ map (CalledVerify rq) ys @ map (CalledExecute rq) zs \<and>
        length xs \<le> 3 \<and> length ys \<le> 3 \<and> length zs \<le> 3 \<and>
        (ys \<noteq> [] \<longrightarrow> xs = [] \<and> zs = [] \<and> dq_Action rq = ActionVerify) \<and>
        (zs \<noteq> [] \<longrightarrow> dq_Action rq \<noteq> ActionPreflight \<and> dq_Action rq \<noteq> ActionVerify \<and>
           (\<exists>report. xs \<noteq> [] \<and> last xs = Some report \<and> Ready report \<and> validatePreflightReport report)))"

definition stored_state :: "engine \<Rightarrow> manifest \<Rightarrow> instance_state" where
  "stored_state e m = currentState e (mf_ID m) (ci_State (instanceForLocked (en_configured e) m))"

text \<open>A state is stored only if it is valid and keeps the desired state of the one before.\<close>

definition storable :: "manifest \<Rightarrow> engine \<Rightarrow> instance_state \<Rightarrow> bool" where
  "storable m e st \<longleftrightarrow>
     state_validate st m \<and> (\<forall>prev. en_states e (mf_ID m) = Some prev \<longrightarrow> st_Desired prev = st_Desired st)"

definition puts :: "manifest \<Rightarrow> engine \<Rightarrow> instance_state \<Rightarrow> engine \<Rightarrow> bool" where
  "puts m e st e' \<longleftrightarrow>
     e' = e\<lparr>en_states := (en_states e)(mf_ID m \<mapsto> st)\<rparr> \<and> storable m e st"

lemma putsD:
  assumes "puts m e st e'"
  shows "en_states e' = (en_states e)(mf_ID m \<mapsto> st) \<and> en_configured e' = en_configured e \<and> en_drivers e' = en_drivers e \<and>
    state_validate st m \<and> (\<forall>prev. en_states e (mf_ID m) = Some prev \<longrightarrow> st_Desired prev = st_Desired st)"
proof -
  have e': "e' = e\<lparr>en_states := (en_states e)(mf_ID m \<mapsto> st)\<rparr>" and st: "state_validate st m"
    and prev: "\<forall>prev. en_states e (mf_ID m) = Some prev \<longrightarrow> st_Desired prev = st_Desired st"
    using assms unfolding puts_def storable_def by blast+
  show ?thesis unfolding e' by (intro conjI st prev) simp_all
qed

lemma store_state_cases:
  assumes "store_state (mf_ID m) m st res1 res2 e s = ((res, err), e', s')"
  shows "s' = s \<and> (err \<noteq> None \<and> e' = e \<and> \<not> storable m e st \<or> err = None \<and> lr_State res = Some st \<and> puts m e st e')"
  using assms
  by (auto simp: store_state_def setState_def guard_def puts_def storable_def split: sum.splits if_splits option.splits)

text \<open>What an action has done when it returns, with the driver calls it made.\<close>

definition stepped :: "step_result \<Rightarrow> instance_state \<Rightarrow> instance_state" where
  "stepped step st =
     st\<lparr>st_Process := (case sr_Process step of Some p \<Rightarrow> p | None \<Rightarrow> st_Process st), st_Verification := VerificationUnverified\<rparr>"

definition action_effect ::
  "driver_request \<Rightarrow> instance_state \<Rightarrow> engine \<Rightarrow> driver_call list \<Rightarrow> cap_error option \<Rightarrow> engine \<Rightarrow> bool" where
  "action_effect rq st e calls err e' \<longleftrightarrow>
     (if err \<noteq> None \<or> dq_Action rq = ActionPreflight then e' = e
      else if dq_Action rq = ActionVerify then
        (\<exists>report v. calls \<noteq> [] \<and> last calls = CalledVerify rq (Some report) \<and> validateVerificationReport report \<and>
           evaluateVerification (dq_Manifest rq) report = Inr v \<and> puts (dq_Manifest rq) e (st\<lparr>st_Verification := v\<rparr>) e')
      else
        (\<exists>step. calls \<noteq> [] \<and> last calls = CalledExecute rq (Some step) \<and>
           puts (dq_Manifest rq) e (stepped step st) e'))"

text \<open>After an error, a step that the driver did carry out led to a state that could not be stored.\<close>

definition unstored_step ::
  "'w driver_env \<Rightarrow> driver_request \<Rightarrow> instance_state \<Rightarrow> engine \<Rightarrow> driver_call list \<Rightarrow> cap_error option \<Rightarrow> bool" where
  "unstored_step env rq st e calls err \<longleftrightarrow>
     (\<forall>step. err \<noteq> None \<longrightarrow> CalledExecute rq (Some step) \<in> set calls \<longrightarrow>
        (\<exists>w w'. dv_Execute env rq w = (Inr step, w')) \<and> \<not> storable (dq_Manifest rq) e (stepped step st))"

definition action_done ::
  "'w driver_env \<Rightarrow> driver_request \<Rightarrow> instance_state \<Rightarrow> engine \<Rightarrow> 'w lc_run \<Rightarrow> cap_error option \<Rightarrow> engine \<Rightarrow> 'w lc_run \<Rightarrow> bool" where
  "action_done env rq st e s err e' s' \<longleftrightarrow>
     (\<exists>calls. lc_calls s' = lc_calls s @ calls \<and> disciplined rq calls \<and> action_effect rq st e calls err e' \<and>
        unstored_step env rq st e calls err)"

lemma run_preflight_done:
  assumes "run_preflight env rq result e s = ((res, err), e', s')" and "dq_Action rq = ActionPreflight"
  shows "action_done env rq st e s err e' s'"
proof -
  obtain r n s2 where call: "callPreflight env rq s = ((r, n), s2)" by (metis prod.exhaust)
  obtain xs where xs: "lc_calls s2 = lc_calls s @ map (CalledPreflight rq) xs" "length xs \<le> 3"
    using callPreflight_outcome [OF call] by blast
  have "e' = e" "s' = s2"
    using assms(1) call by (auto simp: run_preflight_def split: sum.splits)
  moreover have "disciplined rq (map (CalledPreflight rq) xs)"
    unfolding disciplined_def using xs(2) by (intro exI [of _ xs] exI [of _ "[]"]) simp
  ultimately show ?thesis
    using xs(1) assms(2) by (auto simp: action_done_def action_effect_def unstored_step_def)
qed

lemma run_verify_done:
  assumes "run_verify env rq st result e s = ((res, err), e', s')" and "dq_Action rq = ActionVerify"
  shows "action_done env rq st e s err e' s'"
proof -
  obtain r n s2 where call: "callVerify env rq s = ((r, n), s2)" by (metis prod.exhaust)
  obtain xs where xs: "lc_calls s2 = lc_calls s @ map (CalledVerify rq) xs" "length xs \<le> 3"
      "\<forall>v. r = Inr v \<longrightarrow> xs \<noteq> [] \<and> last xs = Some v \<and> validateVerificationReport v"
    using callVerify_outcome [OF call] by blast
  have disc: "disciplined rq (map (CalledVerify rq) xs)"
    unfolding disciplined_def using xs(2) assms(2) by (intro exI [of _ "[]"] exI [of _ xs]) simp
  have "s' = s2 \<and> action_effect rq st e (map (CalledVerify rq) xs) err e'"
  proof (cases r)
    case (Inl x)
    with assms call show ?thesis by (auto simp: run_verify_def Let_def action_effect_def)
  next
    case (Inr report)
    show ?thesis
    proof (cases "evaluateVerification (dq_Manifest rq) report")
      case (Inl x)
      with Inr assms call show ?thesis by (auto simp: run_verify_def Let_def action_effect_def)
    next
      case (Inr v)
      with \<open>r = Inr report\<close> assms(1) call
      have "store_state (mf_ID (dq_Manifest rq)) (dq_Manifest rq) (st\<lparr>st_Verification := v\<rparr>) (result\<lparr>lr_Attempts := n\<rparr>)
          (result\<lparr>lr_Attempts := n, lr_Verification := Some report\<rparr>) e s2 = ((res, err), e', s')"
        by (simp add: run_verify_def Let_def)
      from store_state_cases [OF this] Inr \<open>r = Inr report\<close> xs(3) assms(2) show ?thesis
        by (auto simp: action_effect_def last_map)
    qed
  qed
  with xs(1) disc show ?thesis by (auto simp: action_done_def unstored_step_def)
qed

lemma run_change_done:
  assumes "run_change env rq st result e s = ((res, err), e', s')"
    and "dq_Action rq \<noteq> ActionPreflight" and "dq_Action rq \<noteq> ActionVerify"
  shows "action_done env rq st e s err e' s'"
proof -
  obtain r n s2 where call: "callPreflight env rq s = ((r, n), s2)" by (metis prod.exhaust)
  obtain xs where xs: "lc_calls s2 = lc_calls s @ map (CalledPreflight rq) xs" "length xs \<le> 3"
      "\<forall>v. r = Inr v \<longrightarrow> xs \<noteq> [] \<and> last xs = Some v \<and> validatePreflightReport v"
    using callPreflight_outcome [OF call] by blast
  show ?thesis
  proof (cases "\<exists>report. r = Inr report \<and> Ready report")
    case False
    have "e' = e \<and> s' = s2 \<and> err \<noteq> None"
      using assms(1) call False by (cases r) (auto simp: run_change_def Let_def split: if_splits)
    moreover have "disciplined rq (map (CalledPreflight rq) xs)"
      unfolding disciplined_def using xs(2) by (intro exI [of _ xs] exI [of _ "[]"]) simp
    ultimately show ?thesis
      using xs(1) by (auto simp: action_done_def action_effect_def unstored_step_def)
  next
    case True
    then obtain report where report: "r = Inr report" "Ready report" by blast
    obtain q k s3 where exec: "callExecute env rq s2 = ((q, k), s3)" by (metis prod.exhaust)
    obtain zs where zs: "lc_calls s3 = lc_calls s2 @ map (CalledExecute rq) zs" "length zs \<le> 3"
        "\<forall>v. q = Inr v \<longrightarrow> zs \<noteq> [] \<and> last zs = Some v"
        "\<forall>v. Some v \<in> set zs \<longrightarrow> q = Inr v \<and> (\<exists>w w'. dv_Execute env rq w = (Inr v, w'))"
      using callExecute_outcome [OF exec] by blast
    let ?calls = "map (CalledPreflight rq) xs @ map (CalledExecute rq) zs"
    have disc: "disciplined rq ?calls"
      unfolding disciplined_def using xs zs report assms(2,3) by (intro exI [of _ xs] exI [of _ "[]"] exI [of _ zs]) simp
    have "s' = s3 \<and> action_effect rq st e ?calls err e' \<and> unstored_step env rq st e ?calls err"
    proof (cases q)
      case (Inl x)
      with assms call exec report zs(4) show ?thesis
        by (auto simp: run_change_def Let_def action_effect_def unstored_step_def)
    next
      case (Inr step)
      define result2 where "result2 = result\<lparr>lr_PreflightAttempts := n, lr_Preflight := Some report, lr_Attempts := k\<rparr>"
      have "store_state (mf_ID (dq_Manifest rq)) (dq_Manifest rq) (stepped step st)
          result2 (result2\<lparr>lr_Changed := sr_Changed step\<rparr>) e s3 = ((res, err), e', s')"
        using assms(1) call exec report Inr
        by (simp add: run_change_def Let_def result2_def stepped_def split: option.splits)
      from store_state_cases [OF this] Inr zs(3,4) assms(2,3) show ?thesis
        by (auto simp: action_effect_def unstored_step_def last_map)
    qed
    with xs(1) zs(1) disc show ?thesis by (auto simp: action_done_def)
  qed
qed

lemma registry_get_ID: "registry_get reg i = Some m \<Longrightarrow> mf_ID m = i \<and> m \<in> set reg"
  by (auto simp: registry_get_def find_Some_iff)

text \<open>An action is either refused before any call of the driver, or its request was permitted.\<close>

lemma Run_done:
  assumes "Run reg env i a e s = ((res, err), e', s')"
  shows "err \<noteq> None \<and> e' = e \<and> s' = s \<or>
    (\<exists>m. registry_get reg i = Some m \<and> i \<in> en_drivers e \<and> permitted (run_request e m a) \<and>
       action_done env (run_request e m a) (stored_state e m) e s err e' s')"
proof (cases "registry_get reg i")
  case None
  with assms show ?thesis by (auto simp: Run_def instances_get_def)
next
  case (Some m)
  then have i: "mf_ID m = i" by (simp add: registry_get_ID)
  let ?rq = "run_request e m a" and ?st = "stored_state e m"
  let ?res = "(no_result a)\<lparr>lr_State := Some ?st\<rparr>"
  have own: "ci_Manifest (instanceForLocked (en_configured e) m) = m"
    "ci_Ownership (instanceForLocked (en_configured e) m) = co_Ownership (current_configuration (en_configured e) m)"
    by (simp_all add: instanceForLocked_def Let_def)
  show ?thesis
  proof (cases "permitted ?rq \<and> i \<in> en_drivers e")
    case False
    with assms Some own show ?thesis
      by (auto simp: Run_def instances_get_def Let_def permitted_def run_request_def split: if_splits)
  next
    case True
    have "(case a of ActionPreflight \<Rightarrow> run_preflight env ?rq ?res e s | ActionVerify \<Rightarrow> run_verify env ?rq ?st ?res e s
          | _ \<Rightarrow> run_change env ?rq ?st ?res e s) = ((res, err), e', s')"
      using assms Some own True unfolding run_request_def stored_state_def i
      by (simp add: Run_def instances_get_def Let_def permitted_def)
    moreover have "dq_Action ?rq = a" by (simp add: run_request_def)
    ultimately have "action_done env ?rq ?st e s err e' s'"
      by (cases a) (auto intro: run_preflight_done run_verify_done run_change_done)
    with True Some show ?thesis by blast
  qed
qed

lemma Run_calls:
  assumes "Run reg env i a e s = ((res, err), e', s')" and "lc_calls s' = lc_calls s @ calls" and "calls \<noteq> []"
  shows "\<exists>m. registry_get reg i = Some m \<and> permitted (run_request e m a) \<and> disciplined (run_request e m a) calls"
  using Run_done [OF assms(1)] assms(2,3) by (auto simp: action_done_def)

lemma disciplined_execute:
  assumes "disciplined rq (pre @ CalledExecute rq' x # post)"
  shows "rq' = rq \<and> dq_Action rq \<noteq> ActionPreflight \<and> dq_Action rq \<noteq> ActionVerify \<and>
    (\<exists>report. CalledPreflight rq (Some report) \<in> set pre \<and> Ready report \<and> validatePreflightReport report) \<and>
    length (filter (\<lambda>c. \<exists>q y. c = CalledExecute q y) (pre @ CalledExecute rq' x # post)) \<le> 3"
proof -
  let ?calls = "pre @ CalledExecute rq' x # post"
  obtain xs ys zs where calls: "?calls = map (CalledPreflight rq) xs @ map (CalledVerify rq) ys @ map (CalledExecute rq) zs"
    and len: "length zs \<le> 3" and ys: "ys \<noteq> [] \<longrightarrow> zs = []"
    and zs: "zs \<noteq> [] \<longrightarrow> dq_Action rq \<noteq> ActionPreflight \<and> dq_Action rq \<noteq> ActionVerify \<and>
      (\<exists>report. xs \<noteq> [] \<and> last xs = Some report \<and> Ready report \<and> validatePreflightReport report)"
    using assms unfolding disciplined_def by blast
  have mem: "CalledExecute rq' x \<in> set (map (CalledPreflight rq) xs @ map (CalledVerify rq) ys @ map (CalledExecute rq) zs)"
    unfolding calls [symmetric] by simp
  then have rq: "rq' = rq" and "zs \<noteq> []" by auto
  with ys have "ys = []" by blast
  have "filter (\<lambda>c. \<exists>q y. c = CalledExecute q y) ?calls = map (CalledExecute rq) zs"
    unfolding calls by (auto simp: filter_empty_conv intro!: filter_True)
  moreover have "set (map (CalledPreflight rq) xs) \<subseteq> set pre"
  proof -
    have "map (CalledPreflight rq) xs = takeWhile (\<lambda>c. \<exists>y. c = CalledPreflight rq y) ?calls"
      unfolding calls \<open>ys = []\<close> using \<open>zs \<noteq> []\<close> by (cases zs) (auto simp: takeWhile_append)
    also have "\<dots> = takeWhile (\<lambda>c. \<exists>y. c = CalledPreflight rq y) pre"
      by (rule takeWhile_tail) simp
    finally show ?thesis by (metis set_takeWhileD subsetI)
  qed
  moreover obtain report where "xs \<noteq> []" "last xs = Some report" "Ready report" "validatePreflightReport report"
    using zs \<open>zs \<noteq> []\<close> by blast
  moreover from this have "CalledPreflight rq (Some report) \<in> set (map (CalledPreflight rq) xs)"
    by (metis image_eqI last_in_set list.set_map)
  ultimately show ?thesis using rq zs \<open>zs \<noteq> []\<close> len by auto
qed

end
