(* ===== verification/CapabilityProps.thy ===== *)
theory CapabilityProps
  imports CapabilityRules
begin

text \<open>
  What the lifecycle engine guarantees: the order of the driver calls of one action, what an action may change,
  what \<open>verified\<close> means, and the invariant of the engine over every sequence of actions and configuration changes.
\<close>

section \<open>Every sequence of operations\<close>

inductive engine_step ::
  "registry \<Rightarrow> (string \<Rightarrow> 'w driver_env) \<Rightarrow> engine \<times> 'w lc_run \<Rightarrow> engine \<times> 'w lc_run \<Rightarrow> bool"
  for reg :: registry and envs :: "string \<Rightarrow> 'w driver_env" where
  step_run: "Run reg (envs i) i a e s = (outcome, e', s') \<Longrightarrow> engine_step reg envs (e, s) (e', s')"
| step_preflight: "PreflightConfiguration reg (envs (co_ID c)) c a e s = (outcome, s') \<Longrightarrow> engine_step reg envs (e, s) (e, s')"
| step_apply: "ApplyConfiguration reg c e = (err, e') \<Longrightarrow> engine_step reg envs (e, s) (e', s)"
| step_remove: "RemoveConfiguration reg i e = (err, e') \<Longrightarrow> engine_step reg envs (e, s) (e', s)"

inductive_cases engine_stepE: "engine_step reg envs (e, s) (e', s')"

abbreviation engine_steps where
  "engine_steps reg envs \<equiv> rtranclp (engine_step reg envs)"

text \<open>
  What the engine relies on in the configured capabilities: a stored configuration decides the desired state
  of its capability and of no other, and a removed one leaves it disabled.
\<close>

locale desired_store =
  fixes desired :: "'c \<Rightarrow> string \<rightharpoonup> desired_state"
    and set_config :: "configuration \<Rightarrow> 'c \<Rightarrow> (cap_error, 'c) result"
    and remove_config :: "string \<Rightarrow> 'c \<Rightarrow> (cap_error, 'c) result"
  assumes set_desired: "set_config c conf = Inr conf' \<Longrightarrow> desired conf' = (desired conf)(co_ID c \<mapsto> co_Desired c)"
    and remove_desired: "remove_config i conf = Inr conf' \<Longrightarrow> desired conf' = (desired conf)(i \<mapsto> DesiredDisabled)"
begin

lemma follows_set:
  assumes "map_option st_Desired \<circ> states = desired conf" and "set_config c conf = Inr conf'" and "st_Desired st = co_Desired c"
  shows "map_option st_Desired \<circ> states(co_ID c \<mapsto> st) = desired conf'"
  using assms by (auto simp: set_desired fun_eq_iff)

lemma follows_remove:
  assumes "map_option st_Desired \<circ> states = desired conf" and "remove_config i conf = Inr conf'" and "st_Desired st = DesiredDisabled"
  shows "map_option st_Desired \<circ> states(i \<mapsto> st) = desired conf'"
  using assms by (auto simp: remove_desired fun_eq_iff)

end

definition desired_of :: "registry \<Rightarrow> instances \<Rightarrow> string \<rightharpoonup> desired_state" where
  "desired_of reg conf i = map_option (\<lambda>m. co_Desired (current_configuration conf m)) (registry_get reg i)"

lemma desired_of_eq:
  "desired_of reg conf i =
     (if registry_get reg i = None then None else Some (case conf i of Some c \<Rightarrow> co_Desired c | None \<Rightarrow> DesiredDisabled))"
  using registry_get_ID [of reg i]
  by (auto simp: desired_of_def current_configuration_def defaultConfiguration_def split: option.splits)

lemma ValidateConfigurationD:
  "ValidateConfiguration reg c = Inr u \<Longrightarrow>
     (\<exists>m. registry_get reg (co_ID c) = Some m) \<and> co_Desired c \<in> {DesiredDisabled, DesiredEnabled}"
  by (auto simp: ValidateConfiguration_def split: option.splits)

interpretation configured: desired_store "desired_of reg" "SetConfiguration reg" "instances_remove reg" for reg
proof
  fix c conf conf'
  assume "SetConfiguration reg c conf = Inr conf'"
  then have "conf' = conf(co_ID c \<mapsto> c)" "\<exists>m. registry_get reg (co_ID c) = Some m"
    by (auto simp: SetConfiguration_def dest: ValidateConfigurationD)
  then show "desired_of reg conf' = (desired_of reg conf)(co_ID c \<mapsto> co_Desired c)"
    by (auto simp: desired_of_eq)
next
  fix i conf conf'
  assume "instances_remove reg i conf = Inr conf'"
  then have "conf' = conf(i := None)" "\<exists>m. registry_get reg i = Some m"
    by (auto simp: instances_remove_def)
  then show "desired_of reg conf' = (desired_of reg conf)(i \<mapsto> DesiredDisabled)"
    by (auto simp: desired_of_eq)
qed

definition engine_inv :: "registry \<Rightarrow> engine \<Rightarrow> bool" where
  "engine_inv reg e \<longleftrightarrow>
     map_option st_Desired \<circ> en_states e = desired_of reg (en_configured e) \<and>
     (\<forall>i m st. registry_get reg i = Some m \<longrightarrow> en_states e i = Some st \<longrightarrow> state_validate st m)"

lemma engine_inv_state:
  assumes "engine_inv reg e" and "registry_get reg i = Some m"
  obtains st where "en_states e i = Some st" "state_validate st m"
    "st_Desired st = co_Desired (current_configuration (en_configured e) m)"
proof -
  have "map_option st_Desired (en_states e i) = desired_of reg (en_configured e) i"
    using assms(1) by (auto simp: engine_inv_def fun_eq_iff)
  with assms that show ?thesis by (auto simp: desired_of_def engine_inv_def)
qed

lemma engine_inv_update:
  assumes "engine_inv reg e" and "registry_get reg i = Some m" and "state_validate st m"
    and "map_option st_Desired \<circ> (en_states e)(i \<mapsto> st) = desired_of reg conf"
  shows "engine_inv reg (e\<lparr>en_configured := conf, en_states := (en_states e)(i \<mapsto> st)\<rparr>)"
  using assms by (auto simp: engine_inv_def)

lemma engine_inv_run:
  assumes "engine_inv reg e" and "Run reg env i a e s = ((res, err), e', s')"
  shows "engine_inv reg e'"
proof -
  consider "e' = e" | (ran) m calls where "registry_get reg i = Some m"
      "action_effect (run_request e m a) (stored_state e m) e calls err e'"
    using Run_done [OF assms(2)] by (auto simp: action_done_def)
  then show ?thesis
  proof cases
    case (ran m)
    note m = registry_get_ID [OF ran(1)]
    have rq: "dq_Manifest (run_request e m a) = m" by (simp add: run_request_def)
    have agree: "map_option st_Desired \<circ> en_states e = desired_of reg (en_configured e)"
      using assms(1) by (simp add: engine_inv_def)
    obtain old where old: "en_states e i = Some old"
      using engine_inv_state [OF assms(1) ran(1)] by blast
    show ?thesis
    proof (cases "e' = e")
      case False
      then obtain st where st: "puts m e st e'"
        using ran(2) unfolding action_effect_def rq by (auto split: if_splits)
      note p = putsD [OF st]
      have "e' = e\<lparr>en_configured := en_configured e, en_states := (en_states e)(i \<mapsto> st)\<rparr>"
        using p m by (cases e') simp
      moreover have "map_option st_Desired \<circ> (en_states e)(i \<mapsto> st) = map_option st_Desired \<circ> en_states e"
        using p m old by (auto simp: fun_eq_iff)
      ultimately show ?thesis
        using engine_inv_update [OF assms(1) ran(1)] p m agree by metis
    qed (use assms in simp)
  qed (use assms in simp)
qed

text \<open>In a good state a valid configuration is always stored together with its state.\<close>

lemma apply_stores:
  assumes "engine_inv reg e" and "ApplyConfiguration reg c e = (err, e')" and "ValidateConfiguration reg c = Inr ()"
  shows "\<exists>m old. err = None \<and> registry_get reg (co_ID c) = Some m \<and> en_states e (co_ID c) = Some old \<and>
    e' = e\<lparr>en_configured := (en_configured e)(co_ID c \<mapsto> c),
      en_states := (en_states e)(co_ID c \<mapsto> old\<lparr>st_Desired := co_Desired c,
        st_Verification := (if st_Desired old \<noteq> co_Desired c then VerificationUnverified else st_Verification old)\<rparr>)\<rparr> \<and>
    state_validate (old\<lparr>st_Desired := co_Desired c,
        st_Verification := (if st_Desired old \<noteq> co_Desired c then VerificationUnverified else st_Verification old)\<rparr>) m"
proof -
  obtain m where m: "registry_get reg (co_ID c) = Some m" and d: "co_Desired c \<in> {DesiredDisabled, DesiredEnabled}"
    using ValidateConfigurationD [OF assms(3)] by blast
  obtain old where old: "en_states e (co_ID c) = Some old" "state_validate old m"
    using engine_inv_state [OF assms(1) m] by blast
  let ?st = "old\<lparr>st_Desired := co_Desired c,
        st_Verification := (if st_Desired old \<noteq> co_Desired c then VerificationUnverified else st_Verification old)\<rparr>"
  have valid: "state_validate ?st m" using old(2) d by (auto simp: state_validate_def)
  have "ci_Manifest (instanceForLocked (en_configured e) m) = m" by (simp add: instanceForLocked_def Let_def)
  with assms(2,3) m old valid show ?thesis
    by (auto simp: ApplyConfiguration_def instances_get_def SetConfiguration_def currentState_def Let_def)
qed

lemma remove_stores:
  assumes "engine_inv reg e" and "RemoveConfiguration reg i e = (err, e')" and "registry_get reg i = Some m"
  shows "\<exists>old. err = None \<and> en_states e i = Some old \<and>
    e' = e\<lparr>en_configured := (en_configured e)(i := None),
      en_states := (en_states e)(i \<mapsto> old\<lparr>st_Desired := DesiredDisabled, st_Verification := VerificationUnverified\<rparr>)\<rparr> \<and>
    state_validate (old\<lparr>st_Desired := DesiredDisabled, st_Verification := VerificationUnverified\<rparr>) m"
proof -
  obtain old where old: "en_states e i = Some old" "state_validate old m"
    using engine_inv_state [OF assms(1,3)] by blast
  have valid: "state_validate (old\<lparr>st_Desired := DesiredDisabled, st_Verification := VerificationUnverified\<rparr>) m"
    using old(2) by (auto simp: state_validate_def)
  have "ci_Manifest (instanceForLocked (en_configured e) m) = m" by (simp add: instanceForLocked_def Let_def)
  with assms(2,3) old valid show ?thesis
    by (auto simp: RemoveConfiguration_def instances_get_def instances_remove_def currentState_def Let_def)
qed

lemma ApplyConfiguration_refused:
  "ValidateConfiguration reg c = Inl x \<Longrightarrow> ApplyConfiguration reg c e = (Some x, e)"
  by (simp add: ApplyConfiguration_def)

lemma RemoveConfiguration_unknown: "registry_get reg i = None \<Longrightarrow> RemoveConfiguration reg i e = (Some CapUnknown, e)"
  by (simp add: RemoveConfiguration_def instances_get_def)

lemma engine_inv_apply:
  assumes "engine_inv reg e" and "ApplyConfiguration reg c e = (err, e')"
  shows "engine_inv reg e'"
proof (cases "ValidateConfiguration reg c")
  case (Inl x)
  with assms show ?thesis by (simp add: ApplyConfiguration_refused)
next
  case (Inr u)
  then have ok: "ValidateConfiguration reg c = Inr ()" by simp
  have set: "SetConfiguration reg c (en_configured e) = Inr ((en_configured e)(co_ID c \<mapsto> c))"
    by (simp add: SetConfiguration_def ok)
  have agree: "map_option st_Desired \<circ> en_states e = desired_of reg (en_configured e)"
    using assms(1) by (simp add: engine_inv_def)
  obtain m old where *: "registry_get reg (co_ID c) = Some m"
    "e' = e\<lparr>en_configured := (en_configured e)(co_ID c \<mapsto> c),
      en_states := (en_states e)(co_ID c \<mapsto> old\<lparr>st_Desired := co_Desired c,
        st_Verification := (if st_Desired old \<noteq> co_Desired c then VerificationUnverified else st_Verification old)\<rparr>)\<rparr>"
    "state_validate (old\<lparr>st_Desired := co_Desired c,
        st_Verification := (if st_Desired old \<noteq> co_Desired c then VerificationUnverified else st_Verification old)\<rparr>) m"
    using apply_stores [OF assms ok] by blast
  show ?thesis
    unfolding *(2) by (rule engine_inv_update [OF assms(1) *(1,3)], rule configured.follows_set [OF agree set]) simp
qed

lemma engine_inv_remove:
  assumes "engine_inv reg e" and "RemoveConfiguration reg i e = (err, e')"
  shows "engine_inv reg e'"
proof (cases "registry_get reg i")
  case None
  with assms show ?thesis by (simp add: RemoveConfiguration_unknown)
next
  case (Some m)
  have rem: "instances_remove reg i (en_configured e) = Inr ((en_configured e)(i := None))"
    by (simp add: instances_remove_def Some)
  have agree: "map_option st_Desired \<circ> en_states e = desired_of reg (en_configured e)"
    using assms(1) by (simp add: engine_inv_def)
  obtain old where *: "e' = e\<lparr>en_configured := (en_configured e)(i := None),
      en_states := (en_states e)(i \<mapsto> old\<lparr>st_Desired := DesiredDisabled, st_Verification := VerificationUnverified\<rparr>)\<rparr>"
    "state_validate (old\<lparr>st_Desired := DesiredDisabled, st_Verification := VerificationUnverified\<rparr>) m"
    using remove_stores [OF assms Some] by blast
  show ?thesis
    unfolding *(1) by (rule engine_inv_update [OF assms(1) Some *(2)], rule configured.follows_remove [OF agree rem]) simp
qed

lemma engine_inv_step:
  assumes "engine_step reg envs p q" and "engine_inv reg (fst p)"
  shows "engine_inv reg (fst q)"
  using assms
proof cases
  case (step_run i a e s outcome e' s')
  then show ?thesis using assms(2) engine_inv_run by (cases outcome) fastforce
qed (use assms(2) in \<open>auto intro: engine_inv_apply engine_inv_remove\<close>)

lemma engine_inv_steps:
  assumes "engine_steps reg envs p q" and "engine_inv reg (fst p)"
  shows "engine_inv reg (fst q)"
  using assms by (induction rule: rtranclp_induct) (auto intro: engine_inv_step)

section \<open>The engine at its start\<close>

text \<open>A builtin capability runs in the controller's own process, so its manifest asks for no process of its own.\<close>

definition builtin_without_process :: "manifest \<Rightarrow> bool" where
  "builtin_without_process m \<longleftrightarrow> \<not> (OwnershipBuiltin \<in> set (mf_Ownership m) \<and> hl_ProcessRequired (mf_Health m))"

lemma register_distinct:
  "register reg ms = Inr reg' \<Longrightarrow> distinct (map mf_ID reg) \<Longrightarrow> distinct (map mf_ID reg')"
  by (induction reg ms rule: register.induct) auto

lemma configure_all_valid:
  assumes "configure_all reg conf cs = Inr conf'"
    and "\<forall>i c. conf i = Some c \<longrightarrow> co_ID c = i \<and> co_Desired c \<in> {DesiredDisabled, DesiredEnabled}"
  shows "\<forall>i c. conf' i = Some c \<longrightarrow> co_ID c = i \<and> co_Desired c \<in> {DesiredDisabled, DesiredEnabled}"
  using assms
proof (induction cs arbitrary: conf)
  case (Cons c cs)
  then have "ValidateConfiguration reg c = Inr ()" and next_conf: "configure_all reg (conf(co_ID c \<mapsto> c)) cs = Inr conf'" by auto
  then have "\<forall>i d. (conf(co_ID c \<mapsto> c)) i = Some d \<longrightarrow> co_ID d = i \<and> co_Desired d \<in> {DesiredDisabled, DesiredEnabled}"
    using Cons.prems(2) ValidateConfigurationD by auto
  with Cons.IH next_conf show ?case by blast
qed simp

lemma map_of_key:
  "distinct (map mf_ID ms) \<Longrightarrow> map_of (map (\<lambda>m. (mf_ID m, f m)) ms) i = map_option f (registry_get ms i)"
  by (induction ms) (auto simp: registry_get_def)

lemma registry_get_sorted:
  assumes "distinct (map mf_ID reg)"
  shows "registry_get (registry_list reg) i = registry_get reg i"
proof -
  have "distinct (map mf_ID (registry_list reg))" "set (registry_list reg) = set reg"
    using assms by (simp_all add: registry_list_def distinct_map)
  moreover have "registry_get ms i = Some m \<longleftrightarrow> m \<in> set ms \<and> mf_ID m = i" if "distinct (map mf_ID ms)" for ms m
    using that by (induction ms) (auto simp: registry_get_def)
  ultimately show ?thesis using assms by (metis not_None_eq)
qed

lemma initial_states:
  assumes "NewRegistry ms = Inr reg" and "NewLifecycleEngine reg conf drivers = Inr e"
  shows "en_configured e = conf" and "en_states e i = map_option (\<lambda>m. ci_State (instanceForLocked conf m)) (registry_get reg i)"
proof -
  have dist: "distinct (map mf_ID reg)" using assms(1) register_distinct [of "[]" ms reg] by (simp add: NewRegistry_def)
  then have sorted: "distinct (map mf_ID (registry_list reg))" by (simp add: registry_list_def distinct_map)
  have same: "ci_Manifest (instanceForLocked conf m) = m" for m by (simp add: instanceForLocked_def Let_def)
  show "en_configured e = conf" using assms(2) by (auto simp: NewLifecycleEngine_def)
  have "en_states e = map_of (map (\<lambda>m. (mf_ID m, ci_State (instanceForLocked conf m))) (registry_list reg))"
    using assms(2) by (auto simp: NewLifecycleEngine_def instances_list_def same comp_def)
  then show "en_states e i = map_option (\<lambda>m. ci_State (instanceForLocked conf m)) (registry_get reg i)"
    by (simp add: map_of_key [OF sorted] registry_get_sorted [OF dist])
qed

lemma engine_inv_initial:
  assumes "NewRegistry ms = Inr reg" and "list_all builtin_without_process reg"
    and "NewInstances reg cs = Inr conf" and "NewLifecycleEngine reg conf drivers = Inr e"
  shows "engine_inv reg e"
proof -
  note init = initial_states [OF assms(1,4)]
  have conf: "\<forall>i c. conf i = Some c \<longrightarrow> co_ID c = i \<and> co_Desired c \<in> {DesiredDisabled, DesiredEnabled}"
    using configure_all_valid [of reg Map.empty cs conf] assms(3) by (simp add: NewInstances_def)
  have "state_validate (ci_State (instanceForLocked conf m)) m" if "registry_get reg i = Some m" for i m
  proof -
    have "builtin_without_process m" using assms(2) registry_get_ID [OF that] by (simp add: list_all_iff)
    moreover have "co_Desired (current_configuration conf m) \<in> {DesiredDisabled, DesiredEnabled}"
      using conf by (auto simp: current_configuration_def defaultConfiguration_def split: option.splits)
    ultimately show ?thesis
      by (auto simp: state_validate_def instanceForLocked_def Let_def builtin_without_process_def containsOwnership_def)
  qed
  moreover have "map_option st_Desired \<circ> en_states e = desired_of reg conf"
    by (auto simp: init(2) desired_of_def option.map_comp comp_def instanceForLocked_def Let_def)
  ultimately show ?thesis by (auto simp: engine_inv_def init)
qed


section \<open>What verified means\<close>

definition all_fresh :: "manifest \<Rightarrow> verification_report \<Rightarrow> bool" where
  "all_fresh m r \<longleftrightarrow>
     (\<forall>j\<in>set (hl_VerificationSignals (mf_Health m)). \<exists>g\<in>set r. vs_ID g = j \<and> vs_Status g = SignalFresh) \<and>
     (\<forall>g\<in>set r. vs_ID g \<in> set (hl_VerificationSignals (mf_Health m)))"

lemma verified_all_fresh:
  assumes "validateVerificationReport r" and "evaluateVerification m r = Inr VerificationVerified"
  shows "all_fresh m r"
proof -
  have declared: "\<forall>g\<in>set r. vs_ID g \<in> set (hl_VerificationSignals (mf_Health m))"
    and verdict: "signal_verdict m r = VerificationVerified"
    using assms(2) evaluate_verdict [OF assms(1), of m] by (auto split: if_splits)
  have fresh: "\<forall>g\<in>set r. vs_Status g \<in> {SignalFresh, SignalMissing}"
  proof
    fix g assume "g \<in> set r"
    with verdict validateVerificationReportD(2) [OF assms(1)] show "vs_Status g \<in> {SignalFresh, SignalMissing}"
      by (cases "vs_Status g") (auto simp: signal_verdict_def split: if_splits)
  qed
  have "\<forall>j\<in>set (hl_VerificationSignals (mf_Health m)). \<exists>g\<in>set r. vs_ID g = j \<and> vs_Status g \<noteq> SignalMissing"
    using verdict by (auto simp: signal_verdict_def split: if_splits)
  with fresh declared show ?thesis unfolding all_fresh_def by blast
qed

text \<open>A driver whose executions report only process states that the manifest allows.\<close>

definition sound_driver :: "'w driver_env \<Rightarrow> bool" where
  "sound_driver env \<longleftrightarrow>
     (\<forall>rq w step w' p. dv_Execute env rq w = (Inr step, w') \<longrightarrow> sr_Process step = Some p \<longrightarrow>
        state_validate \<lparr>st_Desired = DesiredEnabled, st_Process = p, st_Verification = VerificationUnverified\<rparr> (dq_Manifest rq))"

definition changed_after :: "manifest \<Rightarrow> driver_call list \<Rightarrow> bool" where
  "changed_after m calls \<longleftrightarrow> (\<exists>rq step. CalledExecute rq (Some step) \<in> set calls \<and> dq_Manifest rq = m)"

text \<open>A fresh verification of a capability that was wanted, and no step carried out on it since.\<close>

definition backed :: "manifest \<Rightarrow> driver_call list \<Rightarrow> bool" where
  "backed m calls \<longleftrightarrow>
     (\<exists>pre rq report post. calls = pre @ CalledVerify rq (Some report) # post \<and> dq_Manifest rq = m \<and> permitted rq \<and>
        all_fresh m report \<and> \<not> changed_after m post)"

definition verified_backed :: "registry \<Rightarrow> engine \<Rightarrow> driver_call list \<Rightarrow> bool" where
  "verified_backed reg e calls \<longleftrightarrow>
     (\<forall>i m st. registry_get reg i = Some m \<longrightarrow> en_states e i = Some st \<longrightarrow> st_Verification st = VerificationVerified \<longrightarrow>
        backed m calls)"

lemma changed_after_append [simp]: "changed_after m (xs @ ys) \<longleftrightarrow> changed_after m xs \<or> changed_after m ys"
  by (auto simp: changed_after_def)

lemma backed_append:
  assumes "backed m calls" and "\<not> changed_after m later"
  shows "backed m (calls @ later)"
proof -
  obtain pre rq report post where "calls = pre @ CalledVerify rq (Some report) # post" "dq_Manifest rq = m" "permitted rq"
    "all_fresh m report" "\<not> changed_after m post"
    using assms(1) unfolding backed_def by blast
  with assms(2) have "calls @ later = pre @ CalledVerify rq (Some report) # (post @ later) \<and> dq_Manifest rq = m \<and> permitted rq \<and>
      all_fresh m report \<and> \<not> changed_after m (post @ later)" by simp
  then show ?thesis unfolding backed_def by blast
qed

lemma backed_verify:
  "dq_Manifest rq = m \<Longrightarrow> permitted rq \<Longrightarrow> all_fresh m report \<Longrightarrow> backed m (calls @ [CalledVerify rq (Some report)])"
  unfolding backed_def by (intro exI [of _ calls] exI [of _ rq] exI [of _ report] exI [of _ "[]"]) (simp add: changed_after_def)

lemma disciplined_request: "disciplined rq calls \<Longrightarrow> CalledExecute q x \<in> set calls \<Longrightarrow> q = rq"
  by (auto simp: disciplined_def)

lemma storable_stepped:
  assumes "sound_driver env" and "dv_Execute env rq w = (Inr step, w')" and "state_validate st (dq_Manifest rq)"
    and "en_states e (mf_ID (dq_Manifest rq)) = Some st"
  shows "storable (dq_Manifest rq) e (stepped step st)"
proof -
  have "state_validate (stepped step st) (dq_Manifest rq)"
  proof (cases "sr_Process step")
    case (Some p)
    from assms(1) [unfolded sound_driver_def, rule_format, OF assms(2) this] Some assms(3)
    show ?thesis by (simp add: stepped_def state_validate_def)
  qed (use assms(3) in \<open>simp add: stepped_def state_validate_def\<close>)
  with assms(4) show ?thesis by (simp add: storable_def stepped_def)
qed

lemma failed_action_unchanged:
  assumes "sound_driver env" and "state_validate st (dq_Manifest rq)" and "en_states e (mf_ID (dq_Manifest rq)) = Some st"
    and "disciplined rq calls" and "unstored_step env rq st e calls err" and "err \<noteq> None"
  shows "\<not> changed_after (dq_Manifest rq) calls"
proof
  assume "changed_after (dq_Manifest rq) calls"
  then obtain step where "CalledExecute rq (Some step) \<in> set calls"
    using disciplined_request [OF assms(4)] by (auto simp: changed_after_def)
  with assms(5,6) obtain w w' where "dv_Execute env rq w = (Inr step, w')" "\<not> storable (dq_Manifest rq) e (stepped step st)"
    unfolding unstored_step_def by blast
  with storable_stepped [OF assms(1) _ assms(2,3)] show False by blast
qed

lemma action_verified:
  assumes "sound_driver env" and "state_validate st (dq_Manifest rq)" and "en_states e (mf_ID (dq_Manifest rq)) = Some st"
    and "disciplined rq calls" and eff: "action_effect rq st e calls err e'" and "unstored_step env rq st e calls err"
    and st': "en_states e' (mf_ID (dq_Manifest rq)) = Some st'" "st_Verification st' = VerificationVerified"
  shows "e' = e \<and> \<not> changed_after (dq_Manifest rq) calls \<or>
    (\<exists>report. calls \<noteq> [] \<and> last calls = CalledVerify rq (Some report) \<and> all_fresh (dq_Manifest rq) report)"
proof -
  consider (failed) "err \<noteq> None" | (preflight) "err = None" "dq_Action rq = ActionPreflight"
    | (verify) "err = None" "dq_Action rq = ActionVerify"
    | (change) "err = None" "dq_Action rq \<noteq> ActionPreflight" "dq_Action rq \<noteq> ActionVerify" by blast
  then show ?thesis
  proof cases
    case failed
    with failed_action_unchanged [OF assms(1-4) assms(6)] eff show ?thesis by (simp add: action_effect_def)
  next
    case preflight
    with assms(4) eff show ?thesis by (auto simp: action_effect_def disciplined_def changed_after_def)
  next
    case verify
    with eff obtain report v where "calls \<noteq> []" "last calls = CalledVerify rq (Some report)"
      "validateVerificationReport report" "evaluateVerification (dq_Manifest rq) report = Inr v"
      "puts (dq_Manifest rq) e (st\<lparr>st_Verification := v\<rparr>) e'"
      by (auto simp: action_effect_def)
    with st' putsD [OF this(5)] verified_all_fresh [of report "dq_Manifest rq"] show ?thesis by auto
  next
    case change
    with eff obtain step where "puts (dq_Manifest rq) e (stepped step st) e'" by (auto simp: action_effect_def)
    from putsD [OF this] st' show ?thesis by (auto simp: stepped_def)
  qed
qed

lemma verified_backed_run:
  assumes "engine_inv reg e" and "sound_driver env" and before: "verified_backed reg e (lc_calls s)"
    and "Run reg env i a e s = ((res, err), e', s')"
  shows "verified_backed reg e' (lc_calls s')"
proof -
  consider "e' = e" "s' = s" | (ran) m where "registry_get reg i = Some m" "permitted (run_request e m a)"
      "action_done env (run_request e m a) (stored_state e m) e s err e' s'"
    using Run_done [OF assms(4)] by blast
  then show ?thesis
  proof cases
    case (ran m)
    let ?rq = "run_request e m a"
    note m = registry_get_ID [OF ran(1)]
    have rq: "dq_Manifest ?rq = m" by (simp add: run_request_def)
    obtain old where old: "en_states e i = Some old" "state_validate old m"
      using engine_inv_state [OF assms(1) ran(1)] by blast
    then have st: "stored_state e m = old" using m by (simp add: stored_state_def currentState_def)
    obtain calls where calls: "lc_calls s' = lc_calls s @ calls" "disciplined ?rq calls"
      and eff: "action_effect ?rq old e calls err e'" and kept: "unstored_step env ?rq old e calls err"
      using ran(3) by (auto simp: action_done_def st)
    show ?thesis
      unfolding verified_backed_def
    proof (intro allI impI)
      fix j m' st'
      assume j: "registry_get reg j = Some m'" "en_states e' j = Some st'" "st_Verification st' = VerificationVerified"
      show "backed m' (lc_calls s')"
      proof (cases "j = i")
        case False
        with m registry_get_ID [OF j(1)] disciplined_request [OF calls(2)] rq have "\<not> changed_after m' calls"
          by (auto simp: changed_after_def)
        moreover have "en_states e' j = en_states e j"
          using eff m rq False by (auto simp: action_effect_def dest!: putsD split: if_splits)
        ultimately show ?thesis using j before unfolding calls(1) verified_backed_def by (metis backed_append)
      next
        case True
        with j(1) ran(1) have m': "m' = m" by simp
        have "e' = e \<and> \<not> changed_after m calls \<or>
            (\<exists>report. calls \<noteq> [] \<and> last calls = CalledVerify ?rq (Some report) \<and> all_fresh m report)"
          using action_verified [OF assms(2) _ _ calls(2) eff kept, of st'] old m rq j True by simp
        then consider "e' = e" "\<not> changed_after m calls"
          | (verify) report where "calls = butlast calls @ [CalledVerify ?rq (Some report)]" "all_fresh m report"
          by (metis append_butlast_last_id)
        then show ?thesis
        proof cases
          case 1
          with j True m' before show ?thesis by (auto simp: calls(1) verified_backed_def intro!: backed_append)
        next
          case (verify report)
          then have "lc_calls s' = (lc_calls s @ butlast calls) @ [CalledVerify ?rq (Some report)]"
            by (metis append.assoc calls(1))
          with backed_verify [OF rq ran(2) verify(2), of "lc_calls s @ butlast calls"] m' show ?thesis by simp
        qed
      qed
    qed
  qed (use assms in simp)
qed

lemma verified_backed_apply:
  assumes "engine_inv reg e" and "verified_backed reg e calls" and "ApplyConfiguration reg c e = (err, e')"
  shows "verified_backed reg e' calls"
proof (cases "ValidateConfiguration reg c")
  case (Inl x)
  with assms show ?thesis by (simp add: ApplyConfiguration_refused)
next
  case (Inr u)
  then have ok: "ValidateConfiguration reg c = Inr ()" by simp
  show ?thesis using apply_stores [OF assms(1,3) ok] assms(2) unfolding verified_backed_def by (auto split: if_splits)
qed

lemma verified_backed_remove:
  assumes "engine_inv reg e" and "verified_backed reg e calls" and "RemoveConfiguration reg i e = (err, e')"
  shows "verified_backed reg e' calls"
proof (cases "registry_get reg i")
  case None
  with assms show ?thesis by (simp add: RemoveConfiguration_unknown)
next
  case (Some m)
  then show ?thesis using remove_stores [OF assms(1,3) Some] assms(2) unfolding verified_backed_def by (auto split: if_splits)
qed

lemma PreflightConfiguration_calls:
  assumes "PreflightConfiguration reg env c a e s = (outcome, s')"
  shows "\<exists>rq xs. lc_calls s' = lc_calls s @ map (CalledPreflight rq) xs"
proof -
  consider "s' = s" | rq r n where "callPreflight env rq s = ((r, n), s')"
    using assms by (auto simp: PreflightConfiguration_def split: sum.splits prod.splits)
  then show ?thesis
  proof cases
    case 1
    then show ?thesis by (metis append_Nil2 list.map_disc_iff)
  next
    case 2
    then show ?thesis using callPreflight_outcome by blast
  qed
qed

lemma verified_backed_step:
  assumes "engine_step reg envs p q" and "\<forall>i. sound_driver (envs i)"
    and "engine_inv reg (fst p)" and "verified_backed reg (fst p) (lc_calls (snd p))"
  shows "verified_backed reg (fst q) (lc_calls (snd q))"
  using assms(1)
proof cases
  case (step_run i a e s outcome e' s')
  obtain res err where "outcome = (res, err)" by fastforce
  with step_run assms verified_backed_run [of reg e "envs i" s i a res err e' s'] show ?thesis by simp
next
  case (step_preflight c a e s outcome s')
  obtain rq xs where calls: "lc_calls s' = lc_calls s @ map (CalledPreflight rq) xs"
    using PreflightConfiguration_calls [OF step_preflight(3)] by blast
  have "\<not> changed_after m (map (CalledPreflight rq) xs)" for m by (auto simp: changed_after_def)
  with step_preflight assms(4) calls show ?thesis by (auto simp: verified_backed_def intro: backed_append)
qed (use assms in \<open>auto intro: verified_backed_apply verified_backed_remove\<close>)

lemma verified_backed_steps:
  assumes "engine_steps reg envs p q" and "\<forall>i. sound_driver (envs i)"
    and "engine_inv reg (fst p)" and "verified_backed reg (fst p) (lc_calls (snd p))"
  shows "verified_backed reg (fst q) (lc_calls (snd q))"
  using assms(1)
proof (induction rule: rtranclp_induct)
  case (step q r)
  with verified_backed_step [OF step(2) assms(2)] engine_inv_steps [OF step(1) assms(3)] show ?case by simp
qed (rule assms(4))


section \<open>A bench\<close>

text \<open>
  The bench of \<open>lifecycle_test.go\<close> with one-letter texts: a builtin capability with two verification signals, enabled,
  and a driver whose preflight is ready, whose steps succeed and whose signals are fresh.
\<close>

definition bench_manifest :: manifest where
  "bench_manifest =
     \<lparr>mf_SchemaVersion = 2, mf_ID = ''watch'', mf_DisplayName = ''W'', mf_Summary = ''F'',
      mf_Release = ''v0.1'', mf_Ownership = [OwnershipBuiltin],
      mf_Targets = [\<lparr>tg_OS = ''darwin'', tg_Arch = ''arm64'', tg_MinVersion = ''13.0'', tg_Support = SupportCandidate, tg_Evidence = ''d''\<rparr>],
      mf_Inputs = [\<lparr>in_ID = ''s'', in_Required = True, in_Description = ''h''\<rparr>],
      mf_Privileges = [], mf_Dependencies = [],
      mf_Config = \<lparr>cc_SchemaVersion = 1, cc_Fields = []\<rparr>,
      mf_Resources = \<lparr>rb_Measurement = MeasurementUnmeasured, rb_Profile = ''b'', rb_MaxRAMMiB = 0, rb_MaxDiskMiB = 0,
        rb_MaxCPUPercent = 0, rb_Evidence = ''l''\<rparr>,
      mf_Provenance = \<lparr>pn_Kind = ''first-party'', pn_License = ''M'', pn_Source = ''h'', pn_VersionPolicy = ''s''\<rparr>,
      mf_Health = \<lparr>hl_ProcessRequired = False, hl_VerificationSignals = [''ready'', ''fresh''], hl_CoverageRequiresVerification = True\<rparr>,
      mf_DataHandling = \<lparr>dh_Activation = ''a'', dh_Sources = [''c''], dh_Stored = [''t''], dh_Excluded = [''d'']\<rparr>,
      mf_Outputs = [\<lparr>oc_Kind = ''s'', oc_SchemaVersion = 1\<rparr>],
      mf_DeepLinks = [], mf_Lifecycle = [ActionPreflight, ActionEnable, ActionVerify, ActionDisable]\<rparr>"

definition bench_registry :: registry where "bench_registry = [bench_manifest]"

definition bench_configuration :: configuration where
  "bench_configuration = \<lparr>co_ID = ''watch'', co_Ownership = OwnershipBuiltin, co_Desired = DesiredEnabled, co_Values = [], co_Encoded = Some 4\<rparr>"

definition bench_instances :: instances where
  "bench_instances = [''watch'' \<mapsto> bench_configuration]"

definition bench_driver :: "unit driver_env" where
  "bench_driver =
     \<lparr>dv_ctxErr = (\<lambda>w. (False, w)),
      dv_Preflight = (\<lambda>rq w. (Inr [\<lparr>pc_ID = ''ready'', pc_Status = CheckPass, pc_Blocking = True, pc_Message = []\<rparr>], w)),
      dv_Execute = (\<lambda>rq w. (Inr \<lparr>sr_Changed = True, sr_Process = None\<rparr>, w)),
      dv_Verify = (\<lambda>rq w. (Inr [\<lparr>vs_ID = ''ready'', vs_Status = SignalFresh, vs_Message = []\<rparr>,
        \<lparr>vs_ID = ''fresh'', vs_Status = SignalFresh, vs_Message = []\<rparr>], w)),
      dv_waitErr = (\<lambda>w. (False, w))\<rparr>"

definition bench_engine :: engine where
  "bench_engine = \<lparr>en_configured = bench_instances,
     en_states = map_of (map (\<lambda>x. (mf_ID (ci_Manifest x), ci_State x)) (instances_list bench_registry bench_instances)),
     en_drivers = {''watch''}\<rparr>"

definition bench_start :: "unit lc_run" where "bench_start = \<lparr>lc_world = (), lc_calls = []\<rparr>"

definition bench_run :: "lifecycle_action \<Rightarrow> unit run_outcome" where
  "bench_run a = Run bench_registry bench_driver ''watch'' a bench_engine bench_start"

lemma bench_patterns: "parseVersion ''13.0'' = Some [13, 0]" "validateID ''s''" "namePattern ''b''"
  by code_simp+

lemmas bench_text = plain_text printable_safe printable_def bench_patterns

lemma bench_ID_valid: "validateID (mf_ID bench_manifest)"
  by code_simp

lemma bench_name_valid: "validateText (mf_DisplayName bench_manifest) 80"
  by (simp add: bench_manifest_def bench_text)

lemma bench_summary_valid: "validateText (mf_Summary bench_manifest) 280"
  by (simp add: bench_manifest_def bench_text)

lemma bench_release_valid: "releasePattern (mf_Release bench_manifest)"
  by code_simp

lemma bench_ownership_valid: "validateOwnership (mf_Ownership bench_manifest)"
  by code_simp

lemma bench_targets_valid: "validateTargets (mf_Targets bench_manifest)"
  by (simp add: bench_manifest_def validateTargets_def unique_by_def bench_text)

lemma bench_inputs_valid: "validateInputs (mf_Inputs bench_manifest)"
  by (simp add: bench_manifest_def validateInputs_def unique_by_def bench_text)

lemma bench_privileges_valid: "validatePrivileges (mf_Privileges bench_manifest)"
  by code_simp

lemma bench_dependencies_valid: "validateDependencies (mf_Dependencies bench_manifest)"
  by code_simp

lemma bench_config_valid: "validateConfig (mf_Config bench_manifest)"
  by code_simp

lemma bench_resources_valid: "validateResources (mf_Resources bench_manifest)"
  by (simp add: bench_manifest_def validateResources_def bench_text)

lemma bench_provenance_valid: "validateProvenance (mf_Provenance bench_manifest)"
  by (simp add: bench_manifest_def validateProvenance_def bench_text)

lemma bench_health_valid: "validateHealth (mf_Health bench_manifest)"
  by code_simp

lemma bench_data_valid: "validateDataHandling (mf_DataHandling bench_manifest)"
  by (simp add: bench_manifest_def validateDataHandling_def unique_by_def bench_text)

lemma bench_outputs_valid: "validateOutputs (mf_Outputs bench_manifest)"
  by code_simp

lemma bench_links_valid: "validateDeepLinks (mf_DeepLinks bench_manifest)"
  by code_simp

lemma bench_lifecycle_valid: "validateLifecycle (mf_Ownership bench_manifest) (mf_Lifecycle bench_manifest)"
  by code_simp


lemmas bench_parts_valid =
  bench_ID_valid bench_name_valid bench_summary_valid bench_release_valid bench_ownership_valid
  bench_targets_valid bench_inputs_valid bench_privileges_valid bench_dependencies_valid bench_config_valid
  bench_resources_valid bench_provenance_valid bench_health_valid bench_data_valid bench_outputs_valid
  bench_links_valid bench_lifecycle_valid

lemma bench_validate: "Validate bench_manifest = Inr ()"
proof -
  have "mf_SchemaVersion bench_manifest = SchemaVersion" by (simp add: bench_manifest_def SchemaVersion_def)
  then show ?thesis by (simp add: Validate_def bench_parts_valid)
qed

lemma bench_new_registry: "NewRegistry [bench_manifest] = Inr bench_registry"
  by (simp add: NewRegistry_def bench_validate bench_registry_def)

lemma bench_get: "registry_get bench_registry ''watch'' = Some bench_manifest"
  by (simp add: registry_get_def bench_registry_def bench_manifest_def)

lemma bench_validate_configuration:
  "registry_get reg ''watch'' = Some m \<Longrightarrow> mf_Ownership m = [OwnershipBuiltin] \<Longrightarrow> cc_Fields (mf_Config m) = [] \<Longrightarrow>
     ValidateConfiguration reg bench_configuration = Inr ()"
  by (simp add: ValidateConfiguration_def bench_configuration_def containsOwnership_def MaxInstanceConfigBytes_def)

lemma bench_new_instances: "NewInstances bench_registry [bench_configuration] = Inr bench_instances"
proof -
  have "ValidateConfiguration bench_registry bench_configuration = Inr ()"
    by (rule bench_validate_configuration [OF bench_get]) (simp_all add: bench_manifest_def)
  then show ?thesis by (simp add: NewInstances_def bench_instances_def bench_configuration_def)
qed

lemma bench_new_engine: "NewLifecycleEngine bench_registry bench_instances [(''watch'', True)] = Inr bench_engine"
proof -
  have "registry_get bench_registry ''watch'' \<noteq> None" by code_simp
  then show ?thesis by (simp add: NewLifecycleEngine_def bench_engine_def)
qed

lemma bench_process: "list_all builtin_without_process bench_registry"
  by code_simp

lemma bench_sound: "sound_driver bench_driver"
  by (auto simp: sound_driver_def bench_driver_def)

lemma bench_step: "engine_steps bench_registry (\<lambda>_. bench_driver) (bench_engine, bench_start) (snd (bench_run a))"
proof -
  obtain out e s where run: "bench_run a = (out, e, s)" by (metis prod.exhaust)
  have "engine_step bench_registry (\<lambda>_. bench_driver) (bench_engine, bench_start) (e, s)"
    by (rule step_run [of _ _ "''watch''" a]) (use run in \<open>simp add: bench_run_def\<close>)
  with run show ?thesis by auto
qed

lemma bench_verified:
  "map_option st_Verification (en_states (fst (snd (bench_run ActionVerify))) ''watch'') = Some VerificationVerified"
  by code_simp

section \<open>One action\<close>

text \<open>
  The verdict on a valid verification report: a report that names a signal the manifest does not declare is refused; otherwise the
  worst signal decides whatever the order of the signals is, degraded if one failed, else stale if one is stale, else unverified if a declared
  signal is missing, and verified only if every declared signal is fresh.
\<close>

theorem verification_verdict:
  assumes "validateVerificationReport r"
  shows "evaluateVerification m r =
    (if \<exists>g\<in>set r. vs_ID g \<notin> set (hl_VerificationSignals (mf_Health m)) then Inl CapInvalid else Inr (signal_verdict m r))"
  using assms by (rule evaluate_verdict)

definition bench_report :: verification_report where
  "bench_report = [\<lparr>vs_ID = ''fresh'', vs_Status = SignalStale, vs_Message = []\<rparr>]"

theorem verification_verdict_witness: "evaluateVerification bench_manifest bench_report = Inr VerificationStale"
proof -
  have "validateVerificationReport bench_report" by code_simp
  moreover have "signal_verdict bench_manifest bench_report = VerificationStale" by code_simp
  moreover have "\<not> (\<exists>g\<in>set bench_report. vs_ID g \<notin> set (hl_VerificationSignals (mf_Health bench_manifest)))" by code_simp
  ultimately show ?thesis using verification_verdict [of bench_report bench_manifest] by simp
qed

definition bench_request :: driver_request where
  "bench_request = run_request bench_engine bench_manifest ActionEnable"

definition bench_preflight :: driver_call where
  "bench_preflight = CalledPreflight bench_request
     (Some [\<lparr>pc_ID = ''ready'', pc_Status = CheckPass, pc_Blocking = True, pc_Message = []\<rparr>])"

definition bench_execute :: driver_call where
  "bench_execute = CalledExecute bench_request (Some \<lparr>sr_Changed = True, sr_Process = None\<rparr>)"

lemma bench_enable_calls: "lc_calls (snd (snd (bench_run ActionEnable))) = [bench_preflight, bench_execute]"
  by code_simp

lemma bench_enable_ok: "snd (fst (bench_run ActionEnable)) = None"
  by code_simp

lemma bench_run_parts:
  "Run bench_registry bench_driver ''watch'' a bench_engine bench_start =
     ((fst (fst (bench_run a)), snd (fst (bench_run a))), fst (snd (bench_run a)), snd (snd (bench_run a)))"
  by (simp add: bench_run_def)

text \<open>
  C39: \<open>Run\<close> makes the driver execute a step only for the request of a declared action that the ownership and
  the desired state of the capability permit, only after a valid preflight report for that same request without a blocking failed check, and
  at most three times.
\<close>

theorem execute_after_ready_preflight:
  assumes "Run reg env i a e s = ((res, err), e', s')" and "lc_calls s' = lc_calls s @ pre @ CalledExecute rq x # post"
  shows "\<exists>m report. registry_get reg i = Some m \<and> rq = run_request e m a \<and> permitted rq \<and>
    CalledPreflight rq (Some report) \<in> set pre \<and> Ready report \<and> validatePreflightReport report \<and>
    length (filter (\<lambda>c. \<exists>q y. c = CalledExecute q y) (pre @ CalledExecute rq x # post)) \<le> 3"
  using Run_calls [OF assms] disciplined_execute by blast

theorem execute_after_ready_preflight_witness:
  "\<exists>m report. registry_get bench_registry ''watch'' = Some m \<and> bench_request = run_request bench_engine m ActionEnable \<and>
     permitted bench_request \<and> CalledPreflight bench_request (Some report) \<in> set [bench_preflight] \<and> Ready report"
proof -
  have "lc_calls (snd (snd (bench_run ActionEnable))) = lc_calls bench_start @ [bench_preflight] @
      CalledExecute bench_request (Some \<lparr>sr_Changed = True, sr_Process = None\<rparr>) # []"
    by (simp add: bench_enable_calls bench_execute_def bench_start_def)
  from execute_after_ready_preflight [OF bench_run_parts this] show ?thesis by blast
qed





section \<open>A builtin capability with a process\<close>

text \<open>
  \<open>Validate\<close> accepts a builtin manifest that asks for a process, but no state of such a capability with a
  process is valid: \<open>ApplyConfiguration\<close> stores the configuration, fails on the state, and leaves the two apart.
\<close>

definition process_manifest :: manifest where
  "process_manifest = bench_manifest\<lparr>mf_Health := \<lparr>hl_ProcessRequired = True, hl_VerificationSignals = [''ready'', ''fresh''],
     hl_CoverageRequiresVerification = True\<rparr>\<rparr>"

definition process_engine :: engine where
  "process_engine = \<lparr>en_configured = Map.empty,
     en_states = map_of (map (\<lambda>x. (mf_ID (ci_Manifest x), ci_State x)) (instances_list [process_manifest] Map.empty)), en_drivers = {}\<rparr>"

lemma process_manifest_accepted: "NewRegistry [process_manifest] = Inr [process_manifest]"
proof -
  have "validateHealth (mf_Health process_manifest)" by code_simp
  moreover have "mf_SchemaVersion process_manifest = SchemaVersion" by code_simp
  ultimately have "Validate process_manifest = Inr ()"
    by (simp add: Validate_def process_manifest_def bench_parts_valid)
  then show ?thesis by (simp add: NewRegistry_def)
qed

lemma process_apply:
  "ApplyConfiguration [process_manifest] bench_configuration process_engine =
     (Some CapInvalid, process_engine\<lparr>en_configured := [''watch'' \<mapsto> bench_configuration]\<rparr>)"
proof -
  have get: "registry_get [process_manifest] ''watch'' = Some process_manifest" by code_simp
  moreover have "ValidateConfiguration [process_manifest] bench_configuration = Inr ()"
    by (rule bench_validate_configuration [OF get]) (simp_all add: process_manifest_def bench_manifest_def)
  moreover have "en_states process_engine ''watch'' =
      Some \<lparr>st_Desired = DesiredDisabled, st_Process = ProcessStopped, st_Verification = VerificationUnverified\<rparr>" by code_simp
  moreover have "\<not> state_validate \<lparr>st_Desired = DesiredEnabled, st_Process = ProcessStopped, st_Verification = VerificationUnverified\<rparr> process_manifest"
    by code_simp
  moreover have "co_ID bench_configuration = ''watch''" "co_Desired bench_configuration = DesiredEnabled"
    "en_configured process_engine = Map.empty" "ci_Manifest (instanceForLocked Map.empty process_manifest) = process_manifest"
    by (simp_all add: bench_configuration_def process_engine_def instanceForLocked_def Let_def)
  ultimately show ?thesis
    by (simp add: ApplyConfiguration_def instances_get_def SetConfiguration_def currentState_def Let_def)
qed

theorem refused_state_keeps_configuration:
  "NewRegistry [process_manifest] = Inr [process_manifest] \<and>
   NewLifecycleEngine [process_manifest] Map.empty [] = Inr process_engine \<and>
   ApplyConfiguration [process_manifest] bench_configuration process_engine =
     (Some CapInvalid, process_engine\<lparr>en_configured := [''watch'' \<mapsto> bench_configuration]\<rparr>)"
  using process_manifest_accepted process_apply
  by (simp add: NewLifecycleEngine_def process_engine_def)

end
