(* ===== verification/GoUnicode.thy ===== *)
theory GoUnicode
  imports CapabilityProps Netip
begin

text \<open>
  What the packages use of Go's \<open>unicode\<close>, of the range loop over a string and of \<open>bytes.TrimSpace\<close>.  The tables of
  letters, lower case letters and digits outside ASCII are the parameter \<open>unicode_tables\<close>; control characters, white
  space and ASCII are exact.
\<close>

section \<open>Runes\<close>

definition continuation :: "byte \<Rightarrow> nat" where
  "continuation b = unat b mod 64"

definition rune_value :: "byte list \<Rightarrow> nat" where
  "rune_value bs =
     (case bs of
        [a] \<Rightarrow> unat a
      | [a, b] \<Rightarrow> unat a mod 32 * 64 + continuation b
      | [a, b, c] \<Rightarrow> unat a mod 16 * 4096 + continuation b * 64 + continuation c
      | [a, b, c, d] \<Rightarrow> unat a mod 8 * 262144 + continuation b * 4096 + continuation c * 64 + continuation d
      | _ \<Rightarrow> 0xfffd)"

text \<open>\<open>for _, r := range value\<close>: an invalid byte is the replacement character.\<close>

function runes :: "byte list \<Rightarrow> nat list" where
  "runes bs =
     (if bs = [] then []
      else (case utf8_length bs of
              None \<Rightarrow> 0xfffd # runes (drop 1 bs)
            | Some n \<Rightarrow> rune_value (take n bs) # runes (drop (max 1 n) bs)))"
  by pat_completeness auto
termination
  by (relation "measure length") auto

declare runes.simps [simp del]

definition IsControl :: "nat \<Rightarrow> bool" where
  "IsControl r \<longleftrightarrow> r < 0x20 \<or> (0x7f \<le> r \<and> r < 0xa0)"

definition IsSpace :: "nat \<Rightarrow> bool" where
  "IsSpace r \<longleftrightarrow> (9 \<le> r \<and> r \<le> 13) \<or> (0x2000 \<le> r \<and> r \<le> 0x200a) \<or>
     r \<in> {0x20, 0x85, 0xa0, 0x1680, 0x2028, 0x2029, 0x202f, 0x205f, 0x3000}"

record unicode_tables =
  ut_letter :: "nat \<Rightarrow> bool"
  ut_lower :: "nat \<Rightarrow> bool"
  ut_digit :: "nat \<Rightarrow> bool"

definition IsLetter :: "unicode_tables \<Rightarrow> nat \<Rightarrow> bool" where
  "IsLetter T r = (if r < 128 then (65 \<le> r \<and> r \<le> 90) \<or> (97 \<le> r \<and> r \<le> 122) else ut_letter T r)"

definition IsDigit :: "unicode_tables \<Rightarrow> nat \<Rightarrow> bool" where
  "IsDigit T r = (if r < 128 then 48 \<le> r \<and> r \<le> 57 else ut_digit T r)"

definition IsLower :: "unicode_tables \<Rightarrow> nat \<Rightarrow> bool" where
  "IsLower T r = (if r < 128 then 97 \<le> r \<and> r \<le> 122 else ut_lower T r)"

section \<open>Trimming\<close>

text \<open>\<open>bytes.TrimSpace\<close>.\<close>

function trim_right :: "string \<Rightarrow> string" where
  "trim_right s =
     (case find (\<lambda>w. w \<noteq> [] \<and> has_suffix s w) space_encodings of
        Some w \<Rightarrow> if s = [] then [] else trim_right (take (length s - length w) s)
      | None \<Rightarrow> s)"
  by pat_completeness auto
termination
  by (relation "measure length") (auto simp: find_Some_iff)

declare trim_right.simps [simp del]

definition TrimSpace :: "string \<Rightarrow> string" where
  "TrimSpace s = trim_right (trim_left s)"

section \<open>Lemmas\<close>

lemma unat_byte_bound: "unat (b :: byte) < 256"
  by (rule order_less_le_trans [OF unsigned_less]) simp

text \<open>No ASCII byte is swallowed by a multi-byte sequence: it is a rune of its own.\<close>

lemma utf8_length_ascii:
  assumes "utf8_length bs = Some n" and "n \<noteq> 1" and "b \<in> set (take n bs)"
  shows "128 \<le> unat b"
proof -
  obtain b0 rest where bs: "bs = b0 # rest" using assms(1) by (cases bs) (auto simp: utf8_length_def)
  note def = assms(1) [unfolded bs utf8_length_def, simplified]
  show ?thesis
    using def assms(2,3) unfolding bs
    by (cases rest; cases "tl rest"; cases "tl (tl rest)")
      (auto simp: in_range_def numeral_eq_Suc split: if_splits)
qed

lemma rune_value_single: "utf8_length (b # bs) = Some (Suc 0) \<Longrightarrow> rune_value [b] = unat b"
  by (simp add: rune_value_def)

lemma ascii_rune:
  "b \<in> set bs \<Longrightarrow> unat b < 128 \<Longrightarrow> unat b \<in> set (runes bs)"
proof (induction bs rule: runes.induct)
  case (1 bs)
  show ?case
  proof (cases "utf8_length bs")
    case None
    then obtain c cs where bs: "bs = c # cs" using 1 by (cases bs) auto
    have "b \<noteq> c" using None 1(4) by (auto simp: bs utf8_length_def in_range_def split: if_splits)
    with 1 None show ?thesis by (subst runes.simps) (auto simp: bs)
  next
    case (Some n)
    then obtain c cs where bs: "bs = c # cs" using 1 by (cases bs) auto
    show ?thesis
    proof (cases "n = 1")
      case True
      with 1 Some show ?thesis by (subst runes.simps) (auto simp: bs rune_value_def)
    next
      case False
      with utf8_length_ascii [OF Some, of b] 1(4) have "b \<notin> set (take n bs)" by auto
      moreover have "b \<in> set (take n bs) \<or> b \<in> set (drop n bs)"
        using 1(3) by (metis Un_iff append_take_drop_id set_append)
      moreover have "n \<noteq> 0" using Some by (auto simp: utf8_length_def bs split: if_splits)
      ultimately have "b \<in> set (drop (max 1 n) bs)" by (simp add: max_def)
      with 1 Some show ?thesis by (subst runes.simps) auto
    qed
  qed
qed

lemma runes_printable: "list_all printable s \<Longrightarrow> runes (bytes_of s) = map of_char s"
proof (induction s)
  case Nil
  show ?case by (subst runes.simps) (simp add: bytes_of_def)
next
  case (Cons c s)
  have c: "32 \<le> unat (byte_of_char c)" "unat (byte_of_char c) < 127"
    using Cons.prems by (simp_all add: printable_def byte_of_char_unat)
  then have "utf8_length (bytes_of (c # s)) = Some 1"
    by (simp add: utf8_length_def in_range_def bytes_of_def)
  moreover have "runes (bytes_of s) = map of_char s" using Cons by simp
  ultimately show ?case by (subst runes.simps) (simp add: bytes_of_def rune_value_def byte_of_char_unat)
qed

end
