(* ===== verification/DeviceScope.thy ===== *)
theory DeviceScope
  imports GoUnicode "HOL-Library.Product_Lexorder"
begin

text \<open>
  \<open>devicewatch/scope.go\<close>: the network that a person enrolled (an interface and its prefixes) and whether the
  interface still carries it, and the candidates for enrolment of \<open>enrollment.go\<close>.  The inspector of interfaces is a
  parameter.
\<close>

section \<open>Interface names\<close>

definition validateInterfaceName :: "unicode_tables \<Rightarrow> string \<Rightarrow> bool" where
  "validateInterfaceName T s \<longleftrightarrow> s \<noteq> [] \<and> length s \<le> 64 \<and> trimmed s \<and>
     (let rs = runes (bytes_of s) in
      (IsLetter T (hd rs) \<or> IsDigit T (hd rs)) \<and>
      list_all (\<lambda>r. \<not> IsControl r \<and> \<not> IsSpace r \<and> (IsLetter T r \<or> IsDigit T r \<or> r \<in> {46, 95, 45, 58})) rs)"

section \<open>Bindings\<close>

datatype scope_error = ScopeInvalid | ErrScopeMismatch | ErrUnsupportedInterface

record scope_binding =
  sb_InterfaceName :: string
  sb_InterfaceIndex :: int
  sb_Prefixes :: "string list"

record interface_state =
  is_Name :: string
  is_Index :: int
  is_Up :: bool
  is_Loopback :: bool
  is_PointToPoint :: bool
  is_Prefixes :: "prefix list"

definition usablePrefix :: "prefix \<Rightarrow> bool" where
  "usablePrefix p \<longleftrightarrow> p_Addr p \<noteq> AddrNone \<and> \<not> IsUnspecified (p_Addr p) \<and> \<not> IsLoopback (p_Addr p) \<and> \<not> IsMulticast (p_Addr p)"

definition enrolled_text_ok :: "string \<Rightarrow> bool" where
  "enrolled_text_ok raw = (case ParsePrefix raw of None \<Rightarrow> False | Some p \<Rightarrow> usablePrefix p \<and> p = Masked p)"

definition ValidateScopeBinding :: "unicode_tables \<Rightarrow> scope_binding \<Rightarrow> bool" where
  "ValidateScopeBinding T b \<longleftrightarrow>
     validateInterfaceName T (sb_InterfaceName b) \<and> sb_InterfaceIndex b > 0 \<and>
     sb_Prefixes b \<noteq> [] \<and> length (sb_Prefixes b) \<le> 32 \<and>
     unique_by enrolled_text_ok (\<lambda>raw. map_option prefix_string (ParsePrefix raw)) (sb_Prefixes b)"

definition validateInterfaceState :: "unicode_tables \<Rightarrow> interface_state \<Rightarrow> (scope_error, unit) result" where
  "validateInterfaceState T st =
     guard (\<not> validateInterfaceName T (is_Name st)) ScopeInvalid
     (guard (is_Index st \<le> 0) ErrUnsupportedInterface
     (guard (\<not> is_Up st) ErrScopeMismatch
     (guard (is_Loopback st \<or> is_PointToPoint st) ErrUnsupportedInterface
     (Inr ()))))"

text \<open>\<open>compactStrings\<close> drops equal neighbours.\<close>

fun compactStrings :: "string list \<Rightarrow> string list" where
  "compactStrings [] = []"
| "compactStrings [x] = [x]"
| "compactStrings (x # y # ys) = (if x = y then compactStrings (y # ys) else x # compactStrings (y # ys))"

definition canonicalUsablePrefixes :: "prefix list \<Rightarrow> (scope_error, string list \<times> bool) result" where
  "canonicalUsablePrefixes ps =
     guard (list_ex (\<lambda>p. p_Addr p = AddrNone) ps) ErrUnsupportedInterface
     (let masked = map Masked (filter usablePrefix ps); texts = compactStrings (sort (map prefix_string masked)) in
      guard (length texts > 32) ErrUnsupportedInterface
      (Inr (texts, list_ex (\<lambda>p. \<not> IsLinkLocalUnicast (p_Addr p)) masked)))"

type_synonym inspector = "string \<Rightarrow> interface_state option"

definition CaptureScopeBinding :: "unicode_tables \<Rightarrow> inspector \<Rightarrow> string \<Rightarrow> (scope_error, scope_binding) result" where
  "CaptureScopeBinding T inspect n =
     guard (\<not> validateInterfaceName T n) ScopeInvalid
     (case inspect n of
        None \<Rightarrow> Inl ScopeInvalid
      | Some st \<Rightarrow>
          bind_result (validateInterfaceState T st) (\<lambda>_.
          bind_result (canonicalUsablePrefixes (is_Prefixes st)) (\<lambda>(texts, network).
          guard (\<not> network) ErrUnsupportedInterface
          (Inr \<lparr>sb_InterfaceName = is_Name st, sb_InterfaceIndex = is_Index st, sb_Prefixes = texts\<rparr>))))"

definition ValidateCurrentScope :: "unicode_tables \<Rightarrow> inspector \<Rightarrow> scope_binding \<Rightarrow> (scope_error, interface_state) result" where
  "ValidateCurrentScope T inspect b =
     guard (\<not> ValidateScopeBinding T b) ScopeInvalid
     (case inspect (sb_InterfaceName b) of
        None \<Rightarrow> Inl ErrScopeMismatch
      | Some st \<Rightarrow>
          bind_result (validateInterfaceState T st) (\<lambda>_.
          guard (is_Name st \<noteq> sb_InterfaceName b \<or> is_Index st \<noteq> sb_InterfaceIndex b) ErrScopeMismatch
          (bind_result (canonicalUsablePrefixes (is_Prefixes st)) (\<lambda>(texts, network).
          guard (\<not> network \<or> texts \<noteq> sort (sb_Prefixes b)) ErrScopeMismatch
          (Inr st)))))"

definition WithoutZone :: "addr \<Rightarrow> addr" where
  "WithoutZone a = (case a of Addr6 w _ \<Rightarrow> Addr6 w [] | _ \<Rightarrow> a)"

definition AddressInScope :: "scope_binding \<Rightarrow> addr \<Rightarrow> bool" where
  "AddressInScope b a \<longleftrightarrow>
     \<not> (a = AddrNone \<or> IsUnspecified a \<or> IsMulticast a \<or> IsLoopback a) \<and>
     list_ex (\<lambda>raw. case ParsePrefix raw of Some p \<Rightarrow> Contains p (WithoutZone a) | None \<Rightarrow> False) (sb_Prefixes b)"

section \<open>Candidates for enrolment\<close>

text \<open>
  \<open>scopeCandidatesFromInterfaces\<close> of \<open>enrollment.go\<close>: the interfaces of the host as (index, name), in that order; the
  context is asked before each one, the \<open>k\<close>-th time with the answer \<open>ctx_err k\<close>.
\<close>

definition MaxScopeCandidates :: nat where "MaxScopeCandidates = 64"

fun collect_candidates ::
  "unicode_tables \<Rightarrow> inspector \<Rightarrow> (nat \<Rightarrow> bool) \<Rightarrow> nat \<Rightarrow> scope_binding list \<Rightarrow> (int \<times> string) list \<Rightarrow> (scope_binding list \<times> bool) option" where
  "collect_candidates T inspect ctx_err k acc [] = Some (acc, False)"
| "collect_candidates T inspect ctx_err k acc ((_, n) # rest) =
     (if ctx_err k then None
      else (case CaptureScopeBinding T inspect n of
              Inl _ \<Rightarrow> collect_candidates T inspect ctx_err (Suc k) acc rest
            | Inr b \<Rightarrow>
                if length acc = MaxScopeCandidates then Some (acc, True)
                else collect_candidates T inspect ctx_err (Suc k) (acc @ [b]) rest))"

definition scopeCandidatesFromInterfaces ::
  "unicode_tables \<Rightarrow> inspector \<Rightarrow> (nat \<Rightarrow> bool) \<Rightarrow> (int \<times> string) list \<Rightarrow> (scope_binding list \<times> bool) option" where
  "scopeCandidatesFromInterfaces T inspect ctx_err interfaces =
     (if ctx_err 0 then None else collect_candidates T inspect ctx_err 1 [] (sort interfaces))"

section \<open>Properties\<close>

lemma interface_name_plain:
  assumes "validateInterfaceName T s" and "c \<in> set s"
  shows "c \<noteq> CHR 0x00 \<and> c \<noteq> CHR 0x0A \<and> c \<noteq> CHR 0x0D"
proof -
  have "32 \<le> (of_char c :: nat)" if small: "(of_char c :: nat) < 32"
  proof -
    have "byte_of_char c \<in> set (bytes_of s)" using assms(2) by (simp add: bytes_of_def)
    moreover have "unat (byte_of_char c) = of_char c" by (rule byte_of_char_unat)
    ultimately have "of_char c \<in> set (runes (bytes_of s))" using ascii_rune small by fastforce
    with assms(1) have "\<not> IsControl (of_char c)" by (auto simp: validateInterfaceName_def Let_def list_all_iff)
    with small show ?thesis by (simp add: IsControl_def)
  qed
  then have "32 \<le> (of_char c :: nat)" by fastforce
  then show ?thesis by auto
qed

lemma compact_sorted: "sorted xs \<Longrightarrow> compactStrings xs = remdups_adj xs"
  by (induction xs rule: compactStrings.induct) auto

lemma sorted_compact: "sorted xs \<Longrightarrow> sorted (compactStrings xs)"
  by (simp add: compact_sorted sorted_remdups_adj)

text \<open>A binding that was captured and is stored is current as long as the interface is unchanged.\<close>

lemma captured_scope_current:
  assumes "CaptureScopeBinding T inspect n = Inr b" and "ValidateScopeBinding T b"
    and "inspect n = Some st" and "is_Name st = n"
  shows "ValidateCurrentScope T inspect b = Inr st"
proof -
  obtain texts where c: "canonicalUsablePrefixes (is_Prefixes st) = Inr (texts, True)"
    "b = \<lparr>sb_InterfaceName = is_Name st, sb_InterfaceIndex = is_Index st, sb_Prefixes = texts\<rparr>"
    "validateInterfaceState T st = Inr ()"
    using assms(1,3) by (auto simp: CaptureScopeBinding_def)
  then have "sorted texts"
    by (auto simp: canonicalUsablePrefixes_def Let_def intro: sorted_compact)
  then have "sort texts = texts" by (rule sorted_sort_id)
  with c assms show ?thesis by (simp add: ValidateCurrentScope_def)
qed

text \<open>
  The candidates are the bindings that the interfaces give, in their order, cut at the maximum; the list is marked
  truncated exactly when an interface that could be enrolled was left out.
\<close>

definition capturable :: "unicode_tables \<Rightarrow> inspector \<Rightarrow> (int \<times> string) list \<Rightarrow> scope_binding list" where
  "capturable T inspect interfaces =
     List.map_filter (\<lambda>i. case CaptureScopeBinding T inspect (snd i) of Inr b \<Rightarrow> Some b | Inl _ \<Rightarrow> None) interfaces"

lemma capturable_simps [simp]:
  "capturable T inspect [] = []"
  "capturable T inspect (i # rest) =
     (case CaptureScopeBinding T inspect (snd i) of Inr b \<Rightarrow> b # capturable T inspect rest | Inl _ \<Rightarrow> capturable T inspect rest)"
  by (simp_all add: capturable_def map_filter_simps split: sum.splits)

lemma collect_candidates_result:
  assumes "length acc \<le> MaxScopeCandidates" and "\<forall>j. \<not> ctx_err j"
  shows "collect_candidates T inspect ctx_err k acc interfaces =
    Some (take MaxScopeCandidates (acc @ capturable T inspect interfaces),
      MaxScopeCandidates < length acc + length (capturable T inspect interfaces))"
  using assms
  by (induction T inspect ctx_err k acc interfaces rule: collect_candidates.induct) (auto split: sum.splits)

lemma scope_candidates_result:
  assumes "\<forall>j. \<not> ctx_err j"
  shows "scopeCandidatesFromInterfaces T inspect ctx_err interfaces =
    Some (take MaxScopeCandidates (capturable T inspect (sort interfaces)),
      MaxScopeCandidates < length (capturable T inspect (sort interfaces)))"
  using assms collect_candidates_result [of "[]" ctx_err T inspect 1 "sort interfaces"]
  by (simp add: scopeCandidatesFromInterfaces_def)

end
