(* ===== verification/CoverageModel.thy ===== *)
theory CoverageModel
  imports QualityModel CapabilityProps
begin

text \<open>
  \<open>coverage/model.go\<close> and \<open>single_point.go\<close>: the report on what a capability observes, and its validation.  The
  string types are datatypes with a constructor for any other string; error texts are not kept, a refused
  report is \<open>False\<close>.
\<close>

section \<open>Data\<close>

datatype coverage_state =
  StateUnconfigured | StateUnavailable | StatePermissionRequired | StateUnverified | StateActiveLimited | StateDegraded
| StateStale | StateDisconnected | StateOther string

datatype source_state =
  SourceExpectedUnverified | SourceCurrent | SourcePermissionRequired | SourceUnavailable | SourceDegraded | SourceStale
| SourceDisconnected | SourceUnknown | SourceOther string

datatype dimension_kind =
  DimensionNetwork | DimensionInterface | DimensionVLAN | DimensionDevice | DimensionAddressFamily | DimensionWirelessBand
| DimensionWirelessChannel | DimensionOther string

datatype direction =
  DirectionIngress | DirectionEgress | DirectionEastWest | DirectionClientToService | DirectionServiceToClient
| DirectionOther string

datatype cadence_mode =
  CadenceUnknown | CadenceContinuous | CadencePeriodic | CadenceEventDriven | CadenceHopping | CadenceOther string

record dimension =
  di_Kind :: dimension_kind
  di_Value :: string

record coverage_scope =
  sc_Configured :: "dimension list"
  sc_Verified :: "dimension list"
  sc_ExpectedUnverified :: "dimension list"

record coverage_source =
  so_ID :: string
  so_Kind :: string
  so_State :: source_state
  so_Expected :: bool
  so_Observed :: bool
  so_NextStep :: string

record evidence_window =
  ew_HasEvidence :: bool
  ew_StartedAt :: time
  ew_EndedAt :: time
  ew_FreshUntil :: time

record cadence =
  ca_Mode :: cadence_mode
  ca_Interval :: duration
  ca_Dwell :: duration

record coverage_gap =
  ga_ID :: string
  ga_Kind :: string
  ga_Summary :: string
  ga_Detail :: string
  ga_NextStep :: string
  ga_Dimensions :: "dimension list"
  ga_Directions :: "direction list"

record observation_point =
  op_ID :: string
  op_Kind :: string
  op_SensorID :: string
  op_State :: coverage_state
  op_Reason :: string
  op_Scope :: coverage_scope
  op_Sources :: "coverage_source list"
  op_Directions :: "direction list"
  op_Window :: evidence_window
  op_Cadence :: cadence
  op_Gaps :: "coverage_gap list"
  op_NextStep :: string

record coverage_contract =
  cr_CapabilityID :: string
  cr_Configured :: bool
  cr_State :: coverage_state
  cr_Reason :: string
  cr_ObservationPoints :: "observation_point list"
  cr_NextStep :: string

section \<open>Validation\<close>

definition maxObservationPoints :: nat where "maxObservationPoints = 32"
definition maxDimensions :: nat where "maxDimensions = 128"
definition maxSources :: nat where "maxSources = 32"
definition maxDirections :: nat where "maxDirections = 8"
definition maxGaps :: nat where "maxGaps = 32"
definition maxValueLength :: nat where "maxValueLength = 256"
definition maxSummaryLength :: nat where "maxSummaryLength = 256"
definition maxDetailLength :: nat where "maxDetailLength = 1024"
definition maxNextStepLength :: nat where "maxNextStepLength = 512"

lemmas coverage_limits =
  maxObservationPoints_def maxDimensions_def maxSources_def maxDirections_def maxGaps_def maxValueLength_def
  maxSummaryLength_def maxDetailLength_def maxNextStepLength_def

definition valid_coverage_token :: "string \<Rightarrow> bool" where
  "valid_coverage_token s \<longleftrightarrow> length s > 0 \<and> length s \<le> maxValueLength \<and> tokenPattern s"

definition validateValue :: "string \<Rightarrow> bool" where
  "validateValue s \<longleftrightarrow> s \<noteq> [] \<and> length s \<le> maxValueLength \<and> trimmed s \<and>
     \<not> list_ex (\<lambda>c. c \<in> {CHR 0x0D, CHR 0x0A, CHR 0x00}) s"

definition validateOptionalText :: "string \<Rightarrow> nat \<Rightarrow> bool" where
  "validateOptionalText s n \<longleftrightarrow> length s \<le> n \<and> trimmed s \<and> CHR 0x00 \<notin> set s"

definition validate_coverage_text :: "string \<Rightarrow> nat \<Rightarrow> bool" where
  "validate_coverage_text s n \<longleftrightarrow> s \<noteq> [] \<and> validateOptionalText s n"

definition validState :: "coverage_state \<Rightarrow> bool" where
  "validState st = (case st of StateOther _ \<Rightarrow> False | _ \<Rightarrow> True)"

definition validSourceState :: "source_state \<Rightarrow> bool" where
  "validSourceState st = (case st of SourceOther _ \<Rightarrow> False | _ \<Rightarrow> True)"

definition validDimensionKind :: "dimension_kind \<Rightarrow> bool" where
  "validDimensionKind k = (case k of DimensionOther _ \<Rightarrow> False | _ \<Rightarrow> True)"

definition validDirection :: "direction \<Rightarrow> bool" where
  "validDirection d = (case d of DirectionOther _ \<Rightarrow> False | _ \<Rightarrow> True)"

definition validateDimensionList :: "dimension list \<Rightarrow> bool" where
  "validateDimensionList ds \<longleftrightarrow> length ds \<le> maxDimensions \<and>
     unique_by (\<lambda>d. validDimensionKind (di_Kind d) \<and> validateValue (di_Value d)) id ds"

definition validateScope :: "coverage_scope \<Rightarrow> bool" where
  "validateScope sc \<longleftrightarrow>
     validateDimensionList (sc_Configured sc) \<and> validateDimensionList (sc_Verified sc) \<and>
     validateDimensionList (sc_ExpectedUnverified sc) \<and>
     list_all (\<lambda>d. d \<in> set (sc_Configured sc) \<and> d \<notin> set (sc_Verified sc)) (sc_ExpectedUnverified sc)"

definition validate_source :: "coverage_source \<Rightarrow> bool" where
  "validate_source s \<longleftrightarrow>
     valid_coverage_token (so_ID s) \<and> valid_coverage_token (so_Kind s) \<and> validSourceState (so_State s) \<and>
     (so_State s = SourceCurrent \<longrightarrow> so_Observed s) \<and>
     (if so_State s \<noteq> SourceCurrent then validate_coverage_text (so_NextStep s) maxNextStepLength
      else so_NextStep s \<noteq> [] \<longrightarrow> validateOptionalText (so_NextStep s) maxNextStepLength)"

definition validateSources :: "coverage_source list \<Rightarrow> bool" where
  "validateSources ss \<longleftrightarrow> length ss \<le> maxSources \<and> unique_by validate_source so_ID ss"

definition validateDirections :: "direction list \<Rightarrow> bool" where
  "validateDirections ds \<longleftrightarrow> length ds \<le> maxDirections \<and> unique_by validDirection id ds"

definition validateWindow :: "evidence_window \<Rightarrow> bool" where
  "validateWindow w =
     (if \<not> ew_HasEvidence w then is_zero (ew_StartedAt w) \<and> is_zero (ew_EndedAt w) \<and> is_zero (ew_FreshUntil w)
      else \<not> is_zero (ew_StartedAt w) \<and> \<not> is_zero (ew_EndedAt w) \<and> \<not> is_zero (ew_FreshUntil w) \<and>
           \<not> before (ew_EndedAt w) (ew_StartedAt w) \<and> \<not> before (ew_FreshUntil w) (ew_EndedAt w))"

definition validateCadence :: "cadence \<Rightarrow> bool" where
  "validateCadence c \<longleftrightarrow> \<not> (ca_Interval c < 0 \<or> ca_Dwell c < 0) \<and>
     (case ca_Mode c of
        CadenceUnknown \<Rightarrow> ca_Interval c = 0 \<and> ca_Dwell c = 0
      | CadenceContinuous \<Rightarrow> ca_Interval c = 0 \<and> ca_Dwell c = 0
      | CadenceEventDriven \<Rightarrow> ca_Interval c = 0 \<and> ca_Dwell c = 0
      | CadencePeriodic \<Rightarrow> ca_Interval c > 0 \<and> ca_Dwell c = 0
      | CadenceHopping \<Rightarrow> ca_Dwell c > 0 \<and> \<not> (ca_Interval c > 0 \<and> ca_Interval c < ca_Dwell c)
      | CadenceOther _ \<Rightarrow> False)"

definition validateGap :: "coverage_gap \<Rightarrow> bool" where
  "validateGap g \<longleftrightarrow>
     valid_coverage_token (ga_ID g) \<and> valid_coverage_token (ga_Kind g) \<and>
     validate_coverage_text (ga_Summary g) maxSummaryLength \<and> validate_coverage_text (ga_Detail g) maxDetailLength \<and>
     validate_coverage_text (ga_NextStep g) maxNextStepLength \<and> validateDimensionList (ga_Dimensions g) \<and>
     validateDirections (ga_Directions g)"

text \<open>Nothing may be called verified, observed or current without an evidence window.\<close>

definition evidence_claimed :: "observation_point \<Rightarrow> bool" where
  "evidence_claimed p \<longleftrightarrow>
     sc_Verified (op_Scope p) \<noteq> [] \<or> op_Directions p \<noteq> [] \<or>
     list_ex (\<lambda>s. so_State s = SourceCurrent \<or> so_Observed s) (op_Sources p)"

definition validateObservationPoint :: "observation_point \<Rightarrow> bool" where
  "validateObservationPoint p \<longleftrightarrow>
     valid_coverage_token (op_ID p) \<and> valid_coverage_token (op_Kind p) \<and>
     (op_SensorID p \<noteq> [] \<longrightarrow> valid_coverage_token (op_SensorID p)) \<and>
     validState (op_State p) \<and> op_State p \<noteq> StateUnconfigured \<and> valid_coverage_token (op_Reason p) \<and>
     validate_coverage_text (op_NextStep p) maxNextStepLength \<and> validateScope (op_Scope p) \<and> validateSources (op_Sources p) \<and>
     validateDirections (op_Directions p) \<and> validateWindow (op_Window p) \<and>
     (\<not> ew_HasEvidence (op_Window p) \<longrightarrow> \<not> evidence_claimed p) \<and> validateCadence (op_Cadence p) \<and>
     length (op_Gaps p) \<le> maxGaps \<and> unique_by validateGap ga_ID (op_Gaps p)"

definition ValidateReport :: "coverage_contract \<Rightarrow> bool" where
  "ValidateReport r \<longleftrightarrow>
     valid_coverage_token (cr_CapabilityID r) \<and> validState (cr_State r) \<and> valid_coverage_token (cr_Reason r) \<and>
     validate_coverage_text (cr_NextStep r) maxNextStepLength \<and>
     (if \<not> cr_Configured r then cr_State r = StateUnconfigured \<and> cr_ObservationPoints r = []
      else cr_State r \<noteq> StateUnconfigured \<and> cr_ObservationPoints r \<noteq> [] \<and>
           length (cr_ObservationPoints r) \<le> maxObservationPoints \<and>
           unique_by validateObservationPoint op_ID (cr_ObservationPoints r))"

definition ValidateSinglePointReport :: "coverage_contract \<Rightarrow> bool" where
  "ValidateSinglePointReport r \<longleftrightarrow> ValidateReport r \<and>
     (cr_Configured r \<longrightarrow>
        (case cr_ObservationPoints r of
           [p] \<Rightarrow> cr_State r = op_State p \<and> cr_Reason r = op_Reason p \<and> cr_NextStep r = op_NextStep p
         | _ \<Rightarrow> False))"

section \<open>Plain texts\<close>

lemma plain_trimmed:
  assumes "s \<noteq> []" and "list_all printable s" and "hd s \<noteq> CHR '' ''" and "last s \<noteq> CHR '' ''"
  shows "trimmed s"
  using plain_text [OF assms, of "length s"] by (simp add: validateText_def)

lemma plain_coverage_text:
  assumes "s \<noteq> []" and "list_all printable s" and "hd s \<noteq> CHR '' ''" and "last s \<noteq> CHR '' ''" and "length s \<le> n"
  shows "validate_coverage_text s n"
proof -
  have "CHR 0x00 \<notin> set s" using assms(2) by (auto simp: list_all_iff printable_def)
  with assms plain_trimmed [OF assms(1-4)] show ?thesis by (simp add: validate_coverage_text_def validateOptionalText_def)
qed

end
