(* ===== verification/DeviceCoverage.thy ===== *)
theory DeviceCoverage
  imports DeviceScope CoverageModel
begin

text \<open>
  \<open>devicewatch/coverage_report.go\<close>: what Device Watch says about its own coverage, from the last sample of the
  enrolled network.  The coverage states of the package and of the shared contract are the same strings, so they are
  one type here.  The JSON decoder of stored evidence and the store are parameters.
\<close>

section \<open>Coverage reports\<close>

datatype neighbor_method = MethodARPCache | MethodNDPCache | MethodUnknown string

definition method_text :: "neighbor_method \<Rightarrow> string" where
  "method_text m = (case m of MethodARPCache \<Rightarrow> ''arp-cache'' | MethodNDPCache \<Rightarrow> ''ndp-cache'' | MethodUnknown s \<Rightarrow> s)"

datatype coverage_source_state =
  CoverageSourceCurrent | CoverageSourcePermission | CoverageSourceUnavailable | CoverageSourceStale | CoverageSourceMissing
| CoverageSourceUnknown

record coverage_source_detail =
  sd_ID :: string
  sd_AddressFamily :: string
  sd_State :: coverage_source_state
  sd_Observed :: bool
  sd_AvailableAtLastSample :: bool
  sd_NextStep :: string

record coverage_blind_spot =
  bs_ID :: string
  bs_Summary :: string
  bs_Detail :: string
  bs_NextStep :: string

record coverage_report =
  dw_ScopeID :: string
  dw_SensorID :: string
  dw_InterfaceName :: string
  dw_State :: coverage_state
  dw_Reason :: string
  dw_HasEvidence :: bool
  dw_EvidenceAt :: time
  dw_FreshUntil :: time
  dw_NeighborsInScope :: int
  dw_Sources :: "coverage_source_detail list"
  dw_BlindSpots :: "coverage_blind_spot list"
  dw_NextStep :: string

record evidence_source =
  es_Method :: neighbor_method
  es_Available :: bool
  es_PermissionRequired :: bool

record coverage_evidence =
  cv_SchemaVersion :: int
  cv_Interface :: string
  cv_Sources :: "evidence_source list"
  cv_NeighborsInScope :: int
  cv_ObservationsInserted :: int
  cv_ObservationsDeduplicated :: int
  cv_WholeNetworkTrafficVisible :: bool
  cv_Limitations :: "string list"

text \<open>\<open>domain.CoverageSample\<close>; the evidence is what the JSON decoder makes of the stored bytes.\<close>

record coverage_sample =
  cs_SensorID :: string
  cs_Status :: string
  cs_EndedAt :: time
  cs_SchemaVersion :: int
  cs_Evidence :: "coverage_evidence option"

definition coverageFreshnessWindow :: duration where "coverageFreshnessWindow = 3 * minute"
definition coverageFutureTolerance :: duration where "coverageFutureTolerance = minute"
definition MaxNeighborEntries :: int where "MaxNeighborEntries = 4096"

definition counters_ok :: "coverage_evidence \<Rightarrow> bool" where
  "counters_ok e \<longleftrightarrow>
     \<not> (cv_NeighborsInScope e < 0 \<or> cv_NeighborsInScope e > MaxNeighborEntries \<or>
        cv_ObservationsInserted e < 0 \<or> cv_ObservationsInserted e > MaxNeighborEntries \<or>
        cv_ObservationsDeduplicated e < 0 \<or> cv_ObservationsDeduplicated e > MaxNeighborEntries \<or>
        cv_ObservationsInserted e + cv_ObservationsDeduplicated e \<noteq> cv_NeighborsInScope e)"

definition decodeCoverageEvidence :: "unicode_tables \<Rightarrow> coverage_evidence option \<Rightarrow> coverage_evidence option" where
  "decodeCoverageEvidence T raw =
     (case raw of
        None \<Rightarrow> None
      | Some e \<Rightarrow>
          if cv_SchemaVersion e \<noteq> 1 \<and> cv_SchemaVersion e \<noteq> 2 then None
          else if \<not> validateInterfaceName T (cv_Interface e) then None
          else if \<not> counters_ok e then None
          else if cv_WholeNetworkTrafficVisible e then None
          else if cv_Limitations e = [] \<or> length (cv_Limitations e) > 8 then None
          else if list_ex (\<lambda>l. l = [] \<or> length l > 512 \<or> \<not> trimmed l) (cv_Limitations e) then None
          else if length (cv_Sources e) \<noteq> 2 then None
          else if \<not> unique_by (\<lambda>s. es_Method s \<in> {MethodARPCache, MethodNDPCache} \<and>
                     \<not> (es_PermissionRequired s \<and> (cv_SchemaVersion e = 1 \<or> es_Available s))) es_Method (cv_Sources e) then None
          else if MethodARPCache \<notin> es_Method ` set (cv_Sources e) \<or> MethodNDPCache \<notin> es_Method ` set (cv_Sources e) then None
          else Some e)"

definition coverageStatusConsistent :: "string \<Rightarrow> evidence_source list \<Rightarrow> bool" where
  "coverageStatusConsistent status ss =
     (let available = length (filter es_Available ss) in
      if status = ''partial'' then available > 0 else if status = ''unavailable'' then available = 0 else False)"

definition coverageSourceDetail :: "neighbor_method \<Rightarrow> string \<Rightarrow> evidence_source \<Rightarrow> bool \<Rightarrow> coverage_source_detail" where
  "coverageSourceDetail m family s observed =
     (let d = \<lparr>sd_ID = method_text m, sd_AddressFamily = family, sd_State = CoverageSourceUnknown, sd_Observed = observed,
               sd_AvailableAtLastSample = es_Available s, sd_NextStep = []\<rparr> in
      if es_Available s then d\<lparr>sd_State := CoverageSourceCurrent\<rparr>
      else if es_PermissionRequired s then
        d\<lparr>sd_State := CoverageSourcePermission,
          sd_NextStep := ''Review the local controller's permission to read this Mac's neighbor table, then retry Device Watch collection.''\<rparr>
      else d\<lparr>sd_State := CoverageSourceUnavailable,
          sd_NextStep := (if m = MethodARPCache then ''Check that the enrolled Mac can read its ARP neighbor table for IPv4 visibility.''
            else ''Check that the enrolled Mac can read its NDP neighbor table for IPv6 visibility.'')\<rparr>)"

text \<open>A source that the evidence lacks is the zero value, neither available nor in need of a permission.\<close>

definition source_by_method :: "evidence_source list \<Rightarrow> neighbor_method \<Rightarrow> evidence_source" where
  "source_by_method ss m =
     (case find (\<lambda>s. es_Method s = m) (rev ss) of
        Some s \<Rightarrow> s | None \<Rightarrow> \<lparr>es_Method = MethodUnknown [], es_Available = False, es_PermissionRequired = False\<rparr>)"

definition currentCoverageSources :: "evidence_source list \<Rightarrow> coverage_source_detail list" where
  "currentCoverageSources ss =
     [coverageSourceDetail MethodARPCache ''ipv4'' (source_by_method ss MethodARPCache) True,
      coverageSourceDetail MethodNDPCache ''ipv6'' (source_by_method ss MethodNDPCache) True]"

definition plain_source :: "neighbor_method \<Rightarrow> string \<Rightarrow> coverage_source_state \<Rightarrow> string \<Rightarrow> coverage_source_detail" where
  "plain_source m family st next_step =
     \<lparr>sd_ID = method_text m, sd_AddressFamily = family, sd_State = st, sd_Observed = False, sd_AvailableAtLastSample = False,
      sd_NextStep = next_step\<rparr>"

definition missingCoverageSources :: "coverage_source_detail list" where
  "missingCoverageSources =
     [plain_source MethodARPCache ''ipv4'' CoverageSourceMissing ''Wait for a successful Device Watch collection before judging IPv4 neighbor visibility.'',
      plain_source MethodNDPCache ''ipv6'' CoverageSourceMissing ''Wait for a successful Device Watch collection before judging IPv6 neighbor visibility.'']"

definition unknownCoverageSources :: "coverage_source_detail list" where
  "unknownCoverageSources =
     [plain_source MethodARPCache ''ipv4'' CoverageSourceUnknown ''Do not rely on IPv4 source health until valid coverage evidence is produced.'',
      plain_source MethodNDPCache ''ipv6'' CoverageSourceUnknown ''Do not rely on IPv6 source health until valid coverage evidence is produced.'']"

definition hasUnavailableCoverageSource :: "coverage_source_detail list \<Rightarrow> bool" where
  "hasUnavailableCoverageSource ds = list_ex (\<lambda>d. sd_State d = CoverageSourceUnavailable \<or> sd_State d = CoverageSourcePermission) ds"

definition hasPermissionCoverageSource :: "coverage_source_detail list \<Rightarrow> bool" where
  "hasPermissionCoverageSource ds = list_ex (\<lambda>d. sd_State d = CoverageSourcePermission) ds"

definition deviceWatchBlindSpots :: "coverage_blind_spot list" where
  "deviceWatchBlindSpots =
     [\<lparr>bs_ID = ''host-neighbor-cache-only'',
       bs_Summary = ''Only peers recently resolved by this Mac can appear'',
       bs_Detail = ''A passive ARP/NDP cache is not a complete inventory of every device on the LAN.'',
       bs_NextStep = ''Treat an unseen device as unknown rather than absent or safe.''\<rparr>,
      \<lparr>bs_ID = ''isolated-segments-not-observed'',
       bs_Summary = ''Client-isolated devices and other VLANs/subnets may be absent'',
       bs_Detail = ''Device Watch observes the enrolled local link from this Mac; it does not cross isolation or infer visibility from another segment.'',
       bs_NextStep = ''Use an observation point inside isolated segments when broader device visibility is required.''\<rparr>,
      \<lparr>bs_ID = ''no-traffic-monitoring'',
       bs_Summary = ''Device Watch does not observe other devices' traffic'',
       bs_Detail = ''ARP/NDP neighbor evidence does not show internet uploads, east-west flows, packet contents, or application behavior.'',
       bs_NextStep = ''Use Traffic Watch when packet or flow visibility is needed; do not infer traffic coverage from Device Watch.''\<rparr>]"

definition no_evidence_report :: "string \<Rightarrow> coverage_report" where
  "no_evidence_report scope =
     \<lparr>dw_ScopeID = scope, dw_SensorID = [], dw_InterfaceName = [], dw_State = StateUnverified, dw_Reason = ''no-evidence'',
      dw_HasEvidence = False, dw_EvidenceAt = zero_time, dw_FreshUntil = zero_time, dw_NeighborsInScope = 0,
      dw_Sources = missingCoverageSources, dw_BlindSpots = deviceWatchBlindSpots,
      dw_NextStep = ''Wait for the first Device Watch collection; if evidence does not appear, confirm the enrolled Mac is awake and Device Watch is enabled.''\<rparr>"

text \<open>Every source of a report gets one state and one next step.\<close>

definition mark_sources :: "coverage_source_state \<Rightarrow> string \<Rightarrow> coverage_report \<Rightarrow> coverage_report" where
  "mark_sources st step r = r\<lparr>dw_Sources := map (\<lambda>d. d\<lparr>sd_State := st, sd_NextStep := step\<rparr>) (dw_Sources r)\<rparr>"

definition conclude_report :: "coverage_state \<Rightarrow> string \<Rightarrow> string \<Rightarrow> coverage_report \<Rightarrow> coverage_report" where
  "conclude_report st reason step r = r\<lparr>dw_State := st, dw_Reason := reason, dw_NextStep := step\<rparr>"

definition permission_step :: string where
  "permission_step = ''Review the local controller's neighbor-table permissions, then retry Device Watch collection.''"

definition status_report :: "string \<Rightarrow> coverage_report \<Rightarrow> coverage_report" where
  "status_report status r =
     (if status = ''partial'' then
        (if hasUnavailableCoverageSource (dw_Sources r) then
           conclude_report StateDegraded ''source-partial''
             (if hasPermissionCoverageSource (dw_Sources r) then permission_step
              else ''Restore the unavailable neighbor source if dual-stack device visibility matters; Device Watch remains limited even when both sources are current.'') r
         else conclude_report StateActiveLimited ''fresh-limited''
           ''Use Traffic Watch rather than Device Watch when packet or flow visibility is required.'' r)
      else if status = ''unavailable'' then
        conclude_report StateDegraded ''source-unavailable''
          (if hasPermissionCoverageSource (dw_Sources r) then permission_step
           else ''Check local ARP/NDP neighbor-table access on the enrolled Mac and confirm the interface still matches the enrolled network.'') r
      else r)"

definition evidence_report :: "unicode_tables \<Rightarrow> string \<Rightarrow> coverage_sample \<Rightarrow> time \<Rightarrow> coverage_report" where
  "evidence_report T scope sample now =
     (let at_time = strip (cs_EndedAt sample);
          r = (no_evidence_report scope)\<lparr>dw_HasEvidence := True, dw_SensorID := cs_SensorID sample, dw_EvidenceAt := at_time,
                dw_FreshUntil := time_add at_time coverageFreshnessWindow\<rparr>;
          invalid = conclude_report StateDegraded ''invalid-evidence''
            ''Restart the controller; if invalid Device Watch evidence persists, inspect local diagnostics before trusting coverage state.''
            (r\<lparr>dw_Sources := unknownCoverageSources\<rparr>)
      in case decodeCoverageEvidence T (cs_Evidence sample) of
           None \<Rightarrow> invalid
         | Some e \<Rightarrow>
             if cs_SchemaVersion sample \<noteq> cv_SchemaVersion e \<or> \<not> coverageStatusConsistent (cs_Status sample) (cv_Sources e) then invalid
             else
               (let r = r\<lparr>dw_InterfaceName := cv_Interface e, dw_NeighborsInScope := cv_NeighborsInScope e,
                          dw_Sources := currentCoverageSources (cv_Sources e)\<rparr>;
                    now = strip now
                in if after (dw_EvidenceAt r) (time_add now coverageFutureTolerance) then
                     conclude_report StateDegraded ''clock-skew'' ''Correct the controller clock before relying on Device Watch freshness.''
                       (mark_sources CoverageSourceUnknown ''Correct the controller clock before relying on this source timestamp.'' r)
                   else if time_sub now (dw_EvidenceAt r) > coverageFreshnessWindow then
                     conclude_report StateStale ''stale-evidence''
                       ''Wake or reconnect the enrolled Mac and confirm Device Watch is still enabled on the enrolled network.''
                       (mark_sources CoverageSourceStale
                         ''Wake or reconnect the enrolled Mac and confirm Device Watch is still enabled on this network.'' r)
                   else status_report (cs_Status sample) r))"

text \<open>\<open>LatestCoverageSample\<close> of the store: an error, no sample, or the latest sample; no reader is \<open>None\<close>.\<close>

type_synonym 'e sample_reader = "(string \<Rightarrow> ('e, coverage_sample option) result) option"

definition CurrentCoverage :: "unicode_tables \<Rightarrow> 'e sample_reader \<Rightarrow> string \<Rightarrow> time \<Rightarrow> ('e, coverage_report) result" where
  "CurrentCoverage T reader scope now =
     (case reader of
        None \<Rightarrow> Inr (no_evidence_report scope)
      | Some latest_sample \<Rightarrow>
          bind_result (latest_sample scope) (\<lambda>found.
            Inr (case found of None \<Rightarrow> no_evidence_report scope | Some sample \<Rightarrow> evidence_report T scope sample now)))"

end
