(* ===== verification/GoJson.thy ===== *)
theory GoJson
  imports GoUnicode
begin

text \<open>
  \<open>json.Valid\<close>: the scanner of \<open>encoding/json\<close>, byte by byte, with its stack of open objects and arrays and its
  limit on their nesting.
\<close>

datatype json_parse = ParseObjectKey | ParseObjectValue | ParseArrayValue

datatype json_step =
  BeginValueOrEmpty | BeginValue | BeginStringOrEmpty | BeginString | EndValue | EndTop
| InString | InStringEsc | InStringEscU nat
| NumNeg | NumOne | NumZero | NumDot | NumDotDigits | NumE | NumESign | NumEDigits
| InLiteral string

type_synonym json_scan = "json_step \<times> json_parse list"

definition json_space :: "char \<Rightarrow> bool" where
  "json_space c \<longleftrightarrow> c \<in> {CHR '' '', CHR 0x09, CHR 0x0D, CHR 0x0A}"

definition json_hex :: "char \<Rightarrow> bool" where
  "json_hex c \<longleftrightarrow> is_digit c \<or> (CHR ''a'' \<le> c \<and> c \<le> CHR ''f'') \<or> (CHR ''A'' \<le> c \<and> c \<le> CHR ''F'')"

definition maxNestingDepth :: nat where "maxNestingDepth = 10000"

definition json_push :: "json_step \<Rightarrow> json_parse \<Rightarrow> json_parse list \<Rightarrow> json_scan option" where
  "json_push st p ps = (if length (p # ps) \<le> maxNestingDepth then Some (st, p # ps) else None)"

definition json_pop :: "json_parse list \<Rightarrow> json_scan option" where
  "json_pop ps = Some (if tl ps = [] then EndTop else EndValue, tl ps)"

definition json_end_value :: "json_parse list \<Rightarrow> char \<Rightarrow> json_scan option" where
  "json_end_value ps c =
     (case ps of
        [] \<Rightarrow> if json_space c then Some (EndTop, []) else None
      | p # rest \<Rightarrow>
          if json_space c then Some (EndValue, ps)
          else (case p of
                  ParseObjectKey \<Rightarrow> if c = CHR '':'' then Some (BeginValue, ParseObjectValue # rest) else None
                | ParseObjectValue \<Rightarrow>
                    if c = CHR '','' then Some (BeginString, ParseObjectKey # rest)
                    else if c = CHR ''}'' then json_pop ps else None
                | ParseArrayValue \<Rightarrow>
                    if c = CHR '','' then Some (BeginValue, ps) else if c = CHR '']'' then json_pop ps else None))"

definition json_begin_string :: "json_parse list \<Rightarrow> char \<Rightarrow> json_scan option" where
  "json_begin_string ps c =
     (if json_space c then Some (BeginString, ps) else if c = CHR 0x22 then Some (InString, ps) else None)"

definition json_begin_value :: "json_parse list \<Rightarrow> char \<Rightarrow> json_scan option" where
  "json_begin_value ps c =
     (if json_space c then Some (BeginValue, ps)
      else if c = CHR ''{'' then json_push BeginStringOrEmpty ParseObjectKey ps
      else if c = CHR ''['' then json_push BeginValueOrEmpty ParseArrayValue ps
      else if c = CHR 0x22 then Some (InString, ps)
      else if c = CHR ''-'' then Some (NumNeg, ps)
      else if c = CHR ''0'' then Some (NumZero, ps)
      else if c = CHR ''t'' then Some (InLiteral ''rue'', ps)
      else if c = CHR ''f'' then Some (InLiteral ''alse'', ps)
      else if c = CHR ''n'' then Some (InLiteral ''ull'', ps)
      else if is_digit c then Some (NumOne, ps)
      else None)"

definition json_zero :: "json_parse list \<Rightarrow> char \<Rightarrow> json_scan option" where
  "json_zero ps c =
     (if c = CHR ''.'' then Some (NumDot, ps) else if c = CHR ''e'' \<or> c = CHR ''E'' then Some (NumE, ps)
      else json_end_value ps c)"

definition json_exponent :: "json_parse list \<Rightarrow> char \<Rightarrow> json_scan option" where
  "json_exponent ps c = (if is_digit c then Some (NumEDigits, ps) else None)"

definition json_next :: "json_scan \<Rightarrow> char \<Rightarrow> json_scan option" where
  "json_next sc c =
     (case sc of (st, ps) \<Rightarrow>
      (case st of
         BeginValueOrEmpty \<Rightarrow>
           if json_space c then Some sc else if c = CHR '']'' then json_end_value ps c else json_begin_value ps c
       | BeginValue \<Rightarrow> json_begin_value ps c
       | BeginStringOrEmpty \<Rightarrow>
           if json_space c then Some sc
           else if c = CHR ''}'' then json_end_value (ParseObjectValue # tl ps) c else json_begin_string ps c
       | BeginString \<Rightarrow> json_begin_string ps c
       | EndValue \<Rightarrow> json_end_value ps c
       | EndTop \<Rightarrow> if json_space c then Some sc else None
       | InString \<Rightarrow>
           if c = CHR 0x22 then Some (EndValue, ps) else if c = CHR 0x5C then Some (InStringEsc, ps)
           else if (of_char c :: nat) < 0x20 then None else Some sc
       | InStringEsc \<Rightarrow>
           if c \<in> {CHR ''b'', CHR ''f'', CHR ''n'', CHR ''r'', CHR ''t'', CHR 0x5C, CHR ''/'', CHR 0x22} then Some (InString, ps)
           else if c = CHR ''u'' then Some (InStringEscU 0, ps) else None
       | InStringEscU k \<Rightarrow>
           if json_hex c then Some (if k = 3 then InString else InStringEscU (k + 1), ps) else None
       | NumNeg \<Rightarrow> if c = CHR ''0'' then Some (NumZero, ps) else if is_digit c then Some (NumOne, ps) else None
       | NumOne \<Rightarrow> if is_digit c then Some sc else json_zero ps c
       | NumZero \<Rightarrow> json_zero ps c
       | NumDot \<Rightarrow> if is_digit c then Some (NumDotDigits, ps) else None
       | NumDotDigits \<Rightarrow>
           if is_digit c then Some sc else if c = CHR ''e'' \<or> c = CHR ''E'' then Some (NumE, ps) else json_end_value ps c
       | NumE \<Rightarrow> if c = CHR ''+'' \<or> c = CHR ''-'' then Some (NumESign, ps) else json_exponent ps c
       | NumESign \<Rightarrow> json_exponent ps c
       | NumEDigits \<Rightarrow> if is_digit c then Some sc else json_end_value ps c
       | InLiteral w \<Rightarrow>
           (case w of [] \<Rightarrow> None
            | x # rest \<Rightarrow> if c = x then Some (if rest = [] then EndValue else InLiteral rest, ps) else None)))"

fun json_run :: "json_scan \<Rightarrow> string \<Rightarrow> json_scan option" where
  "json_run sc [] = Some sc"
| "json_run sc (c # cs) = (case json_next sc c of None \<Rightarrow> None | Some sc \<Rightarrow> json_run sc cs)"

text \<open>At the end of the input the scanner takes one more space.\<close>

definition json_eof :: "json_scan \<Rightarrow> bool" where
  "json_eof sc \<longleftrightarrow> fst sc = EndTop \<or> (\<exists>next \<in> set_option (json_next sc (CHR '' '')). fst next = EndTop)"

definition json_valid :: "string \<Rightarrow> bool" where
  "json_valid s = (case json_run (BeginValue, []) s of None \<Rightarrow> False | Some sc \<Rightarrow> json_eof sc)"

end
