(* ===== verification/Domain.thy ===== *)
theory Domain
  imports GoJson GoTime
begin

text \<open>
  \<open>domain/model.go\<close> and \<open>domain/validate.go\<close>: the records that the controller stores and their validation.  Raw JSON
  is a byte string, an optional pointer an option.
\<close>

section \<open>Records\<close>

datatype retention_class = RetentionEphemeral | RetentionShort | RetentionStandard | RetentionAudit | RetentionOther string

datatype claim_kind =
  ClaimIPv4 | ClaimIPv6 | ClaimMAC | ClaimHostname | ClaimServiceName | ClaimDHCPClientID | ClaimEndpointID | ClaimOther string

datatype link_authority = LinkInferred | LinkUser | LinkOther string

text \<open>A \<open>float64\<close>, as far as comparisons with small constants can tell.\<close>

datatype float64 = FloatNumber rat | FloatInfinite bool | FloatNaN

record network_scope =
  ns_ID :: string
  ns_Kind :: string
  ns_EnrolledAt :: time
  ns_RetiredAt :: "time option"
  ns_Metadata :: string

record domain_sensor =
  se_ID :: string
  se_ScopeID :: string
  se_Kind :: string
  se_Ownership :: string
  se_RegisteredAt :: time
  se_Metadata :: string

record observation =
  ob_ID :: string
  ob_ScopeID :: string
  ob_SensorID :: string
  ob_Kind :: string
  ob_SourceStream :: string
  ob_SourceKey :: string
  ob_SourceEventID :: string
  ob_SourceTime :: "time option"
  ob_IngestedAt :: time
  ob_SchemaVersion :: int
  ob_Confidence :: "float64 option"
  ob_Attribution :: string
  ob_Payload :: string
  ob_Retention :: retention_class

record domain_device =
  de_ID :: string
  de_UserLabel :: string
  de_CreatedAt :: time
  de_RetiredAt :: "time option"

record identity_claim =
  ic_ID :: string
  ic_ScopeID :: string
  ic_Kind :: claim_kind
  ic_Value :: string
  ic_ObservedAt :: time
  ic_ValidUntil :: "time option"
  ic_Confidence :: "float64 option"
  ic_SourceSensorID :: string
  ic_SourceObservationID :: string
  ic_Retention :: retention_class

record device_claim_link =
  dl_ID :: string
  dl_DeviceID :: string
  dl_ClaimID :: string
  dl_ValidFrom :: time
  dl_ValidUntil :: "time option"
  dl_Confidence :: "float64 option"
  dl_Authority :: link_authority
  dl_Reason :: string
  dl_EvidenceObservationID :: string
  dl_CreatedAt :: time

record stored_sample =
  ss_ID :: string
  ss_ScopeID :: string
  ss_SensorID :: string
  ss_CapabilityID :: string
  ss_Status :: string
  ss_StartedAt :: time
  ss_EndedAt :: time
  ss_SchemaVersion :: int
  ss_Evidence :: string
  ss_Retention :: retention_class

record domain_finding =
  fi_ID :: string
  fi_ScopeID :: string
  fi_DetectorID :: string
  fi_DetectorVersion :: string
  fi_Category :: string
  fi_Severity :: string
  fi_Confidence :: "float64 option"
  fi_ObservedAt :: time
  fi_CreatedAt :: time
  fi_SchemaVersion :: int
  fi_Payload :: string
  fi_EvidenceObservationIDs :: "string list"
  fi_Retention :: retention_class

record audit_event =
  ae_ID :: string
  ae_Kind :: string
  ae_Actor :: string
  ae_OccurredAt :: time
  ae_SchemaVersion :: int
  ae_Payload :: string
  ae_Retention :: retention_class

record ingestion_checkpoint =
  cp_SensorID :: string
  cp_StreamID :: string
  cp_Cursor :: string
  cp_UpdatedAt :: time

section \<open>Fields\<close>

definition MaxJSONBytes :: nat where "MaxJSONBytes = 64 * 1024"

text \<open>\<open>^[a-z][a-z0-9._:-]{0,127}$\<close>.\<close>

definition is_domain_tail :: "char \<Rightarrow> bool" where
  "is_domain_tail c \<longleftrightarrow> is_lower_alnum c \<or> c \<in> {CHR ''.'', CHR ''_'', CHR '':'', CHR ''-''}"

definition domain_id :: "string \<Rightarrow> bool" where
  "domain_id = head_tail_match is_lower is_domain_tail (Some 127)"

definition validateToken :: "unicode_tables \<Rightarrow> string \<Rightarrow> nat \<Rightarrow> bool" where
  "validateToken T s n \<longleftrightarrow> s \<noteq> [] \<and> length s \<le> n \<and> trimmed s \<and>
     list_all (\<lambda>r. IsLower T r \<or> IsDigit T r \<or> r \<in> {45, 46, 95, 58}) (runes (bytes_of s))"

definition validateOpaque :: "string \<Rightarrow> nat \<Rightarrow> bool" where
  "validateOpaque s n \<longleftrightarrow> s \<noteq> [] \<and> length s \<le> n \<and> trimmed s \<and> \<not> list_ex IsControl (runes (bytes_of s))"

definition validateConfidence :: "float64 option \<Rightarrow> bool" where
  "validateConfidence v =
     (case v of None \<Rightarrow> True
      | Some (FloatNumber x) \<Rightarrow> \<not> (x < 0 \<or> x > 1)
      | Some (FloatInfinite _) \<Rightarrow> False
      | Some FloatNaN \<Rightarrow> True)"

definition validateJSON :: "string \<Rightarrow> bool" where
  "validateJSON s = (let t = TrimSpace s in t \<noteq> [] \<and> length t \<le> MaxJSONBytes \<and> json_valid t)"

definition validateRetention :: "retention_class \<Rightarrow> bool" where
  "validateRetention r \<longleftrightarrow> r \<in> {RetentionEphemeral, RetentionShort, RetentionStandard, RetentionAudit}"

section \<open>Hardware addresses\<close>

text \<open>\<open>net.ParseMAC\<close>: groups of two digits with colons or hyphens, or of four with dots; 6, 8 or 20 bytes.\<close>

definition xtoi2 :: "string \<Rightarrow> char option \<Rightarrow> byte option" where
  "xtoi2 s e =
     (if length s > 2 \<and> Some (s ! 2) \<noteq> e then None
      else (case s of
              a # b # _ \<Rightarrow> (case (hex_value a, hex_value b) of
                  (Some x, Some y) \<Rightarrow> Some (word_of_nat (16 * x + y)) | _ \<Rightarrow> None)
            | _ \<Rightarrow> None))"

fun all_some :: "'a option list \<Rightarrow> 'a list option" where
  "all_some [] = Some []"
| "all_some (x # xs) = (case (x, all_some xs) of (Some y, Some ys) \<Rightarrow> Some (y # ys) | _ \<Rightarrow> None)"

definition mac_length :: "nat \<Rightarrow> bool" where "mac_length n \<longleftrightarrow> n = 6 \<or> n = 8 \<or> n = 20"

definition ParseMAC :: "string \<Rightarrow> byte list option" where
  "ParseMAC s =
     (if length s < 14 then None
      else if s ! 2 = CHR '':'' \<or> s ! 2 = CHR ''-'' then
        (if (length s + 1) mod 3 \<noteq> 0 \<or> \<not> mac_length ((length s + 1) div 3) then None
         else all_some (map (\<lambda>i. xtoi2 (drop (3 * i) s) (Some (s ! 2))) [0..<(length s + 1) div 3]))
      else if s ! 4 = CHR ''.'' then
        (if (length s + 1) mod 5 \<noteq> 0 \<or> \<not> mac_length (2 * (length s + 1) div 5) then None
         else all_some (concat (map (\<lambda>i. [xtoi2 (take 2 (drop (5 * i) s)) None, xtoi2 (drop (5 * i + 2) s) (Some (s ! 4))])
           [0..<(length s + 1) div 5])))
      else None)"

definition mac_string :: "byte list \<Rightarrow> string" where
  "mac_string bs =
     (case bs of [] \<Rightarrow> []
      | b # rest \<Rightarrow> hex_encode [b] @ concat (map (\<lambda>b. CHR '':'' # hex_encode [b]) rest))"

definition NormalizeClaimValue :: "claim_kind \<Rightarrow> string \<Rightarrow> string option" where
  "NormalizeClaimValue k v =
     (case k of
        ClaimIPv4 \<Rightarrow> (case ParseAddr v of Some a \<Rightarrow> if Is4 a then Some (addr_string a) else None | None \<Rightarrow> None)
      | ClaimIPv6 \<Rightarrow> (case ParseAddr v of Some a \<Rightarrow> if Is6 a then Some (addr_string a) else None | None \<Rightarrow> None)
      | ClaimMAC \<Rightarrow> map_option mac_string (ParseMAC v)
      | ClaimOther _ \<Rightarrow> None
      | _ \<Rightarrow> if validateOpaque v 512 then Some v else None)"

section \<open>Validation\<close>

definition not_earlier :: "time option \<Rightarrow> time \<Rightarrow> bool" where
  "not_earlier t from_time = (case t of None \<Rightarrow> True | Some u \<Rightarrow> \<not> before u from_time)"

definition ValidateNetworkScope :: "unicode_tables \<Rightarrow> network_scope \<Rightarrow> bool" where
  "ValidateNetworkScope T s \<longleftrightarrow>
     domain_id (ns_ID s) \<and> validateToken T (ns_Kind s) 64 \<and> \<not> is_zero (ns_EnrolledAt s) \<and>
     not_earlier (ns_RetiredAt s) (ns_EnrolledAt s) \<and> validateJSON (ns_Metadata s)"

definition ValidateSensor :: "unicode_tables \<Rightarrow> domain_sensor \<Rightarrow> bool" where
  "ValidateSensor T s \<longleftrightarrow>
     domain_id (se_ID s) \<and> domain_id (se_ScopeID s) \<and> validateToken T (se_Kind s) 64 \<and> validateToken T (se_Ownership s) 64 \<and>
     \<not> is_zero (se_RegisteredAt s) \<and> validateJSON (se_Metadata s)"

definition ValidateObservation :: "unicode_tables \<Rightarrow> observation \<Rightarrow> bool" where
  "ValidateObservation T b \<longleftrightarrow>
     domain_id (ob_ID b) \<and> domain_id (ob_ScopeID b) \<and> domain_id (ob_SensorID b) \<and> validateToken T (ob_Kind b) 96 \<and>
     validateOpaque (ob_SourceStream b) 128 \<and> validateOpaque (ob_SourceKey b) 512 \<and>
     (ob_SourceEventID b \<noteq> [] \<longrightarrow> validateOpaque (ob_SourceEventID b) 512) \<and>
     \<not> is_zero (ob_IngestedAt b) \<and> ob_SchemaVersion b > 0 \<and> validateConfidence (ob_Confidence b) \<and>
     validateOpaque (ob_Attribution b) 256 \<and> validateJSON (ob_Payload b) \<and> validateRetention (ob_Retention b)"

definition ValidateDevice :: "domain_device \<Rightarrow> bool" where
  "ValidateDevice d \<longleftrightarrow>
     domain_id (de_ID d) \<and> (de_UserLabel d \<noteq> [] \<longrightarrow> validateOpaque (de_UserLabel d) 160) \<and>
     \<not> is_zero (de_CreatedAt d) \<and> not_earlier (de_RetiredAt d) (de_CreatedAt d)"

definition ValidateIdentityClaim :: "identity_claim \<Rightarrow> bool" where
  "ValidateIdentityClaim c \<longleftrightarrow>
     domain_id (ic_ID c) \<and> domain_id (ic_ScopeID c) \<and> domain_id (ic_SourceSensorID c) \<and>
     (ic_SourceObservationID c \<noteq> [] \<longrightarrow> domain_id (ic_SourceObservationID c)) \<and>
     \<not> is_zero (ic_ObservedAt c) \<and> not_earlier (ic_ValidUntil c) (ic_ObservedAt c) \<and>
     NormalizeClaimValue (ic_Kind c) (ic_Value c) \<noteq> None \<and> validateConfidence (ic_Confidence c) \<and>
     validateRetention (ic_Retention c)"

definition ValidateDeviceClaimLink :: "device_claim_link \<Rightarrow> bool" where
  "ValidateDeviceClaimLink l \<longleftrightarrow>
     domain_id (dl_ID l) \<and> domain_id (dl_DeviceID l) \<and> domain_id (dl_ClaimID l) \<and>
     (dl_EvidenceObservationID l \<noteq> [] \<longrightarrow> domain_id (dl_EvidenceObservationID l)) \<and>
     \<not> is_zero (dl_ValidFrom l) \<and> not_earlier (dl_ValidUntil l) (dl_ValidFrom l) \<and> validateConfidence (dl_Confidence l) \<and>
     dl_Authority l \<in> {LinkInferred, LinkUser} \<and> validateOpaque (dl_Reason l) 512"

definition ValidateCoverageSample :: "unicode_tables \<Rightarrow> stored_sample \<Rightarrow> bool" where
  "ValidateCoverageSample T s \<longleftrightarrow>
     domain_id (ss_ID s) \<and> domain_id (ss_ScopeID s) \<and> domain_id (ss_SensorID s) \<and> domain_id (ss_CapabilityID s) \<and>
     validateToken T (ss_Status s) 64 \<and> \<not> (is_zero (ss_StartedAt s) \<or> is_zero (ss_EndedAt s)) \<and>
     \<not> before (ss_EndedAt s) (ss_StartedAt s) \<and> ss_SchemaVersion s > 0 \<and> validateJSON (ss_Evidence s) \<and>
     validateRetention (ss_Retention s)"

definition ValidateFinding :: "unicode_tables \<Rightarrow> domain_finding \<Rightarrow> bool" where
  "ValidateFinding T f \<longleftrightarrow>
     domain_id (fi_ID f) \<and> domain_id (fi_ScopeID f) \<and> validateToken T (fi_DetectorID f) 128 \<and>
     validateOpaque (fi_DetectorVersion f) 128 \<and> validateToken T (fi_Category f) 128 \<and> validateToken T (fi_Severity f) 32 \<and>
     validateConfidence (fi_Confidence f) \<and> \<not> (is_zero (fi_ObservedAt f) \<or> is_zero (fi_CreatedAt f)) \<and>
     fi_SchemaVersion f > 0 \<and> validateJSON (fi_Payload f) \<and> unique_by domain_id id (fi_EvidenceObservationIDs f) \<and>
     validateRetention (fi_Retention f)"

definition ValidateAuditEvent :: "unicode_tables \<Rightarrow> audit_event \<Rightarrow> bool" where
  "ValidateAuditEvent T e \<longleftrightarrow>
     domain_id (ae_ID e) \<and> validateToken T (ae_Kind e) 128 \<and> validateOpaque (ae_Actor e) 128 \<and>
     \<not> is_zero (ae_OccurredAt e) \<and> ae_SchemaVersion e > 0 \<and> validateJSON (ae_Payload e) \<and> validateRetention (ae_Retention e)"

definition ValidateCheckpoint :: "ingestion_checkpoint \<Rightarrow> bool" where
  "ValidateCheckpoint c \<longleftrightarrow>
     domain_id (cp_SensorID c) \<and> validateOpaque (cp_StreamID c) 128 \<and> validateOpaque (cp_Cursor c) 4096 \<and>
     \<not> is_zero (cp_UpdatedAt c)"

section \<open>Normalisation is stable\<close>

lemma mac_string_tl: "mac_string bs = tl (concat (map (\<lambda>b. CHR '':'' # hex_encode [b]) bs))"
  by (cases bs) (simp_all add: mac_string_def)

lemma hex_encode_two: "\<exists>x y. hex_encode [b] = [x, y] \<and> hex_value x = Some (unat b div 16) \<and> hex_value y = Some (unat b mod 16)"
proof -
  have "hex_value (hex_char d) = Some d" if "d < 16" for d
  proof -
    have "list_all (\<lambda>d. hex_value (hex_char d) = Some d) [0..<16]" by code_simp
    with that show ?thesis by (simp add: list_all_iff)
  qed
  moreover have "unat b div 16 < 16" using unat_byte_bound [of b] by simp
  ultimately show ?thesis by (simp add: hex_encode_def)
qed

lemma mac_chunks: "drop (3 * i) (concat (map (\<lambda>b. CHR '':'' # hex_encode [b]) bs)) = concat (map (\<lambda>b. CHR '':'' # hex_encode [b]) (drop i bs))"
proof (induction bs arbitrary: i)
  case (Cons b bs)
  obtain x y where "hex_encode [b] = [x, y]" using hex_encode_two by blast
  with Cons show ?case by (cases i) (simp_all add: numeral_3_eq_3)
qed simp

lemma mac_string_length: "bs \<noteq> [] \<Longrightarrow> length (mac_string bs) + 1 = 3 * length bs"
proof -
  have "length (concat (map (\<lambda>b. CHR '':'' # hex_encode [b]) bs)) = 3 * length bs"
  proof (induction bs)
    case (Cons b bs)
    obtain x y where "hex_encode [b] = [x, y]" using hex_encode_two by blast
    with Cons show ?case by simp
  qed simp
  moreover assume "bs \<noteq> []"
  ultimately show ?thesis by (cases bs) (simp_all add: mac_string_tl)
qed

lemma xtoi2_mac:
  assumes "i < length bs"
  shows "xtoi2 (drop (3 * i) (mac_string bs)) (Some CHR '':'') = Some (bs ! i)"
proof -
  obtain x y where xy: "hex_encode [bs ! i] = [x, y]" "hex_value x = Some (unat (bs ! i) div 16)" "hex_value y = Some (unat (bs ! i) mod 16)"
    using hex_encode_two by blast
  have "drop (3 * i) (mac_string bs) = tl (drop (3 * i) (concat (map (\<lambda>b. CHR '':'' # hex_encode [b]) bs)))"
    by (simp add: mac_string_tl drop_Suc flip: drop_tl) 
  also have "\<dots> = x # y # concat (map (\<lambda>b. CHR '':'' # hex_encode [b]) (drop (Suc i) bs))"
    using xy(1) Cons_nth_drop_Suc [OF assms, symmetric] by (simp add: mac_chunks)
  finally have d: "drop (3 * i) (mac_string bs) = x # y # concat (map (\<lambda>b. CHR '':'' # hex_encode [b]) (drop (Suc i) bs))" .
  have "word_of_nat (16 * (unat (bs ! i) div 16) + unat (bs ! i) mod 16) = bs ! i" by simp
  with xy show ?thesis by (cases "drop (Suc i) bs") (simp_all add: d xtoi2_def)
qed

lemma all_some_map: "all_some (map Some xs) = Some xs"
  by (induction xs) simp_all

lemma parse_mac_string:
  assumes "mac_length (length bs)"
  shows "ParseMAC (mac_string bs) = Some bs"
proof -
  have n: "bs \<noteq> []" "1 < length bs" "5 < length bs" using assms by (auto simp: mac_length_def)
  note len = mac_string_length [OF n(1)]
  obtain b c rest where bs: "bs = b # c # rest" using n by (cases bs; cases "tl bs") auto
  obtain x y where "hex_encode [b] = [x, y]" using hex_encode_two by blast
  then have colon: "mac_string bs ! 2 = CHR '':''" by (simp add: bs mac_string_def)
  have "map (\<lambda>i. xtoi2 (drop (3 * i) (mac_string bs)) (Some CHR '':'')) [0..<length bs] = map Some bs"
    by (rule nth_equalityI) (simp_all add: xtoi2_mac)
  with len assms n show ?thesis by (simp add: ParseMAC_def colon all_some_map)
qed

lemma all_some_length: "all_some xs = Some ys \<Longrightarrow> length ys = length xs"
  by (induction xs arbitrary: ys) (auto split: option.splits)

lemma parsed_mac_length: "ParseMAC s = Some bs \<Longrightarrow> mac_length (length bs)"
proof -
  have dots: "2 * m div 5 = m div 5 + m div 5" if "5 dvd m" for m :: nat using that by (auto elim: dvdE)
  assume "ParseMAC s = Some bs"
  then show ?thesis
    using dots [of "Suc (length s)"]
    by (auto simp: ParseMAC_def length_concat comp_def sum_list_triv dest!: all_some_length split: if_splits)
qed

text \<open>A normalised value is normal, so comparing claims by their normal form is sound; IPv6 is left to \<open>netip\<close>.\<close>

lemma normalised_claim_stable:
  assumes "NormalizeClaimValue k v = Some n" and "k \<noteq> ClaimIPv6"
  shows "NormalizeClaimValue k n = Some n"
  using assms
  by (auto simp: NormalizeClaimValue_def addr_string_Is4 parse_mac_string dest: parsed_mac_length
      split: claim_kind.splits option.splits if_splits)

end
