(* ===== verification/Ingestion.thy ===== *)
theory Ingestion
  imports Domain
begin

text \<open>
  \<open>storage/ingestion.go\<close>, \<open>ingestion_health.go\<close> and \<open>ingestion_latency.go\<close>: the queue between the collectors and the
  store.  Submitters send items into a bounded channel, one worker takes them out, writes them to the sink and
  publishes their outcome; \<open>Close\<close> lets the submitters finish, closes the channel and waits for the worker.

  Every critical section, channel operation and sink call is one step, so that the steps of all goroutines
  interleave; what a goroutine does next is its program point.  A receipt is the index under which its submitter and
  its state are kept.  Sending on a closed channel, closing one twice and a negative wait group set \<open>ig_panic\<close>.
  \<open>ig_sent\<close> and \<open>ig_handled\<close> only record in which order receipts entered the channel and got their outcome.
\<close>

section \<open>Items and the sink\<close>

datatype ingestion_kind =
  IngestionObservation | IngestionIdentityClaim | IngestionCoverage | IngestionFinding | IngestionAudit

datatype ingestion_item =
  ItemObservation observation "ingestion_checkpoint option"
| ItemIdentityClaim identity_claim
| ItemCoverage stored_sample
| ItemFinding domain_finding
| ItemAudit audit_event

definition ingestion_item_kind :: "ingestion_item \<Rightarrow> ingestion_kind" where
  "ingestion_item_kind i =
     (case i of ItemObservation _ _ \<Rightarrow> IngestionObservation | ItemIdentityClaim _ \<Rightarrow> IngestionIdentityClaim
      | ItemCoverage _ \<Rightarrow> IngestionCoverage | ItemFinding _ \<Rightarrow> IngestionFinding | ItemAudit _ \<Rightarrow> IngestionAudit)"

definition newObservationItem :: "unicode_tables \<Rightarrow> observation \<Rightarrow> ingestion_checkpoint option \<Rightarrow> ingestion_item option" where
  "newObservationItem T b checkpoint =
     (if \<not> ValidateObservation T b then None
      else (case checkpoint of
              None \<Rightarrow> Some (ItemObservation b None)
            | Some c \<Rightarrow>
                if \<not> ValidateCheckpoint c then None
                else if cp_SensorID c \<noteq> ob_SensorID b \<or> cp_StreamID c \<noteq> ob_SourceStream b then None
                else Some (ItemObservation b (Some c))))"

text \<open>The validation with which each \<open>Submit\<close> function begins.\<close>

definition admit :: "unicode_tables \<Rightarrow> ingestion_item \<Rightarrow> ingestion_item option" where
  "admit T i =
     (case i of
        ItemObservation b c \<Rightarrow> newObservationItem T b c
      | ItemIdentityClaim c \<Rightarrow> if ValidateIdentityClaim c then Some i else None
      | ItemCoverage s \<Rightarrow> if ValidateCoverageSample T s then Some i else None
      | ItemFinding f \<Rightarrow> if ValidateFinding T f then Some i else None
      | ItemAudit e \<Rightarrow> if ValidateAuditEvent T e then Some i else None)"

text \<open>An error of the sink: with the code of SQLite somewhere in its chain, or without one.\<close>

datatype sink_error = CodedError int | PlainError

definition SQLITE_FULL :: int where "SQLITE_FULL = 13"

definition IngestionFailureWriteFailed :: string where "IngestionFailureWriteFailed = ''write-failed''"
definition IngestionFailureSQLiteFull :: string where "IngestionFailureSQLiteFull = ''sqlite-full''"

definition classifyIngestionFailure :: "sink_error \<Rightarrow> string" where
  "classifyIngestionFailure e =
     (case e of CodedError code \<Rightarrow> if code mod 256 = SQLITE_FULL then IngestionFailureSQLiteFull else IngestionFailureWriteFailed
      | PlainError \<Rightarrow> IngestionFailureWriteFailed)"

record ingestion_result =
  ir_Kind :: ingestion_kind
  ir_Inserted :: bool

datatype episode_details = BackpressureDetails ingestion_kind string "64 word" nat | FailureDetails ingestion_kind string "64 word"

record ingestion_episode =
  ep_kind :: string
  ep_occurredAt :: time
  ep_details :: episode_details

text \<open>The sink, over its own state \<open>'w\<close>.  The atomic ingestion of observations and the final close are optional.\<close>

record 'w ingestion_sink =
  sk_ingestObservation :: "(observation \<Rightarrow> ingestion_checkpoint option \<Rightarrow> 'w \<Rightarrow> (bool \<times> sink_error option) \<times> 'w) option"
  sk_InsertObservation :: "observation \<Rightarrow> 'w \<Rightarrow> (bool \<times> sink_error option) \<times> 'w"
  sk_SaveCheckpoint :: "ingestion_checkpoint \<Rightarrow> 'w \<Rightarrow> sink_error option \<times> 'w"
  sk_InsertIdentityClaim :: "identity_claim \<Rightarrow> 'w \<Rightarrow> sink_error option \<times> 'w"
  sk_InsertCoverageSample :: "stored_sample \<Rightarrow> 'w \<Rightarrow> sink_error option \<times> 'w"
  sk_InsertFinding :: "domain_finding \<Rightarrow> 'w \<Rightarrow> sink_error option \<times> 'w"
  sk_InsertAuditEvent :: "audit_event \<Rightarrow> 'w \<Rightarrow> sink_error option \<times> 'w"
  sk_recordIngestionEvent :: "ingestion_episode \<Rightarrow> 'w \<Rightarrow> sink_error option \<times> 'w"
  sk_closeIngestionSink :: "('w \<Rightarrow> sink_error option \<times> 'w) option"

type_synonym ingestion_outcome = "ingestion_result \<times> sink_error option"

definition process :: "'w ingestion_sink \<Rightarrow> ingestion_item \<Rightarrow> 'w \<Rightarrow> ingestion_outcome \<times> 'w" where
  "process sink item w =
     (let result = \<lparr>ir_Kind = ingestion_item_kind item, ir_Inserted = True\<rparr>;
          plain = (\<lambda>(e, w). ((result, e), w)) in
      case item of
        ItemObservation b checkpoint \<Rightarrow>
          (case sk_ingestObservation sink of
             Some atomic \<Rightarrow> (case atomic b checkpoint w of ((inserted, e), w) \<Rightarrow> ((result\<lparr>ir_Inserted := inserted\<rparr>, e), w))
           | None \<Rightarrow>
               (case sk_InsertObservation sink b w of
                  ((inserted, Some e), w) \<Rightarrow> ((result\<lparr>ir_Inserted := inserted\<rparr>, Some e), w)
                | ((inserted, None), w) \<Rightarrow>
                    (case checkpoint of
                       None \<Rightarrow> ((result\<lparr>ir_Inserted := inserted\<rparr>, None), w)
                     | Some c \<Rightarrow> (case sk_SaveCheckpoint sink c w of (e, w) \<Rightarrow> ((result\<lparr>ir_Inserted := inserted\<rparr>, e), w)))))
      | ItemIdentityClaim c \<Rightarrow> plain (sk_InsertIdentityClaim sink c w)
      | ItemCoverage s \<Rightarrow> plain (sk_InsertCoverageSample sink s w)
      | ItemFinding f \<Rightarrow> plain (sk_InsertFinding sink f w)
      | ItemAudit e \<Rightarrow> plain (sk_InsertAuditEvent sink e w))"

section \<open>Latency\<close>

definition ingestionLatencyThreshold :: duration where "ingestionLatencyThreshold = 5 * second"
definition ingestionLatencyFreshnessWindow :: duration where "ingestionLatencyFreshnessWindow = minute"
definition ingestionSlowStreakThreshold :: int where "ingestionSlowStreakThreshold = 3"

text \<open>\<open>IngestionLatencyUnset\<close> is the empty string of a zero value.\<close>

datatype latency_state = IngestionLatencyIdle | IngestionLatencyCurrent | IngestionLatencyLagging | IngestionLatencyUnset

record latency_tracker =
  lt_pending :: "(nat \<times> time) list"
  lt_lastDurableLatency :: duration
  lt_lastQueueWait :: duration
  lt_lastProcessingDuration :: duration
  lt_lastCompletedAt :: time
  lt_slowStreak :: int

record latency_snapshot =
  ls_State :: latency_state
  ls_Threshold :: duration
  ls_Pending :: nat
  ls_OldestPendingAge :: duration
  ls_LastDurableLatency :: duration
  ls_LastQueueWait :: duration
  ls_LastProcessingDuration :: duration
  ls_LastCompletedAt :: time
  ls_SlowStreak :: int

definition newIngestionLatencyTracker :: latency_tracker where
  "newIngestionLatencyTracker =
     \<lparr>lt_pending = [], lt_lastDurableLatency = 0, lt_lastQueueWait = 0, lt_lastProcessingDuration = 0, lt_lastCompletedAt = zero_time,
      lt_slowStreak = 0\<rparr>"

definition nonNegativeDuration :: "duration \<Rightarrow> duration" where
  "nonNegativeDuration v = (if v < 0 then 0 else v)"

definition latency_accept :: "nat \<Rightarrow> time \<Rightarrow> latency_tracker \<Rightarrow> latency_tracker" where
  "latency_accept receipt accepted t = t\<lparr>lt_pending := (receipt, accepted) # filter (\<lambda>p. fst p \<noteq> receipt) (lt_pending t)\<rparr>"

definition latency_complete :: "nat \<Rightarrow> time \<Rightarrow> time \<Rightarrow> time \<Rightarrow> bool \<Rightarrow> latency_tracker \<Rightarrow> latency_tracker" where
  "latency_complete receipt accepted started completed durable t =
     (let t = t\<lparr>lt_pending := filter (\<lambda>p. fst p \<noteq> receipt) (lt_pending t)\<rparr> in
      if \<not> durable then t
      else
        (let queue_wait = nonNegativeDuration (time_sub started accepted);
             processing = nonNegativeDuration (time_sub completed started);
             latency = nonNegativeDuration (time_sub completed accepted);
             gap = time_sub completed (lt_lastCompletedAt t);
             streak = (if \<not> is_zero (lt_lastCompletedAt t) \<and> (gap < 0 \<or> gap > ingestionLatencyFreshnessWindow) then 0 else lt_slowStreak t)
         in t\<lparr>lt_lastDurableLatency := latency, lt_lastQueueWait := queue_wait, lt_lastProcessingDuration := processing,
              lt_lastCompletedAt := completed,
              lt_slowStreak := (if latency \<ge> ingestionLatencyThreshold then streak + 1 else 0)\<rparr>))"

definition latency_snapshot_at :: "time \<Rightarrow> latency_tracker \<Rightarrow> latency_snapshot" where
  "latency_snapshot_at now t =
     (let oldest = foldl (\<lambda>m p. let age = nonNegativeDuration (time_sub now (snd p)) in if age > m then age else m) 0 (lt_pending t);
          snap = (\<lambda>st. \<lparr>ls_State = st, ls_Threshold = ingestionLatencyThreshold, ls_Pending = length (lt_pending t), ls_OldestPendingAge = oldest,
            ls_LastDurableLatency = lt_lastDurableLatency t, ls_LastQueueWait = lt_lastQueueWait t,
            ls_LastProcessingDuration = lt_lastProcessingDuration t, ls_LastCompletedAt = lt_lastCompletedAt t, ls_SlowStreak = lt_slowStreak t\<rparr>);
          pending = lt_pending t \<noteq> [];
          st = (if pending then IngestionLatencyCurrent else IngestionLatencyIdle);
          age = time_sub now (lt_lastCompletedAt t)
      in if pending \<and> oldest \<ge> ingestionLatencyThreshold then snap IngestionLatencyLagging
         else if \<not> is_zero (lt_lastCompletedAt t) \<and> age \<ge> 0 \<and> age \<le> ingestionLatencyFreshnessWindow then
           (if lt_slowStreak t \<ge> ingestionSlowStreakThreshold then snap IngestionLatencyLagging else snap IngestionLatencyCurrent)
         else snap st)"

section \<open>The ingestor\<close>

definition DefaultIngestionCapacity :: int where "DefaultIngestionCapacity = 256"
definition MaxIngestionCapacity :: int where "MaxIngestionCapacity = 8192"

datatype submit_error = ErrIngestorClosed | ErrQueueFull | ErrBackpressure

record receipt_state =
  re_accepted :: bool
  re_acceptedAt :: time
  re_outcome :: "ingestion_outcome option"

text \<open>The program points of a submitter after \<open>beginSubmit\<close>, and of the worker.\<close>

datatype submitter =
  SubmitSend ingestion_item bool
| SubmitTrack
| SubmitCount
| SubmitRelease
| DropCount ingestion_kind string
| DropEpisode ingestion_kind string "64 word"
| DropRecord ingestion_kind string "64 word"
| SubmitDone "submit_error option"
| SubmitReturned "submit_error option"

datatype worker =
  WorkerSelect
| WorkerAwait nat ingestion_item
| WorkerProcess nat ingestion_item time
| WorkerLatency nat ingestion_item time ingestion_outcome time
| WorkerCount nat ingestion_item ingestion_outcome
| WorkerEpisode nat ingestion_item ingestion_outcome "64 word"
| WorkerRecord nat ingestion_item ingestion_outcome string "64 word"
| WorkerPublish nat ingestion_outcome
| WorkerOverflow
| WorkerWrite ingestion_episode
| WorkerDrain
| WorkerDrainWrite ingestion_episode
| WorkerFinish
| WorkerMarkClosed
| WorkerSignal
| WorkerDone

record ingestion_stats =
  is_Accepted :: "64 word"
  is_Processed :: "64 word"
  is_Deduplicated :: "64 word"
  is_Rejected :: "64 word"
  is_Dropped :: "64 word"
  is_Failed :: "64 word"

record 'w ingestor =
  ig_capacity :: nat
  ig_queue :: "(nat \<times> ingestion_item) list"
  ig_queueClosed :: bool
  ig_eventQueue :: "ingestion_episode list"
  ig_latency :: latency_tracker
  ig_closing :: bool
  ig_closed :: bool
  ig_done :: bool
  ig_closeErr :: "sink_error option"
  ig_stats :: ingestion_stats
  ig_submitters :: nat
  ig_overflowActive :: bool
  ig_failureActive :: bool
  ig_failureClass :: string
  ig_receipts :: "receipt_state list"
  ig_submits :: "submitter list"
  ig_worker :: worker
  ig_sink :: 'w
  ig_panic :: bool
  ig_sent :: "nat list"
  ig_handled :: "nat list"

definition newIngestor :: "int \<Rightarrow> 'w \<Rightarrow> 'w ingestor option" where
  "newIngestor capacity w =
     (let capacity = (if capacity = 0 then DefaultIngestionCapacity else capacity) in
      if capacity < 1 \<or> capacity > MaxIngestionCapacity then None
      else Some \<lparr>ig_capacity = nat capacity, ig_queue = [], ig_queueClosed = False, ig_eventQueue = [],
        ig_latency = newIngestionLatencyTracker, ig_closing = False, ig_closed = False, ig_done = False, ig_closeErr = None,
        ig_stats = \<lparr>is_Accepted = 0, is_Processed = 0, is_Deduplicated = 0, is_Rejected = 0, is_Dropped = 0, is_Failed = 0\<rparr>,
        ig_submitters = 0, ig_overflowActive = False, ig_failureActive = False, ig_failureClass = [], ig_receipts = [], ig_submits = [],
        ig_worker = WorkerSelect, ig_sink = w, ig_panic = False, ig_sent = [], ig_handled = []\<rparr>)"

definition at_receipt :: "nat \<Rightarrow> (receipt_state \<Rightarrow> receipt_state) \<Rightarrow> 'w ingestor \<Rightarrow> 'w ingestor" where
  "at_receipt i f s = s\<lparr>ig_receipts := (ig_receipts s)[i := f (ig_receipts s ! i)]\<rparr>"

definition goto_submit :: "nat \<Rightarrow> submitter \<Rightarrow> 'w ingestor \<Rightarrow> 'w ingestor" where
  "goto_submit i p s = s\<lparr>ig_submits := (ig_submits s)[i := p]\<rparr>"

definition goto_worker :: "worker \<Rightarrow> 'w ingestor \<Rightarrow> 'w ingestor" where
  "goto_worker p s = s\<lparr>ig_worker := p\<rparr>"

text \<open>\<open>recordEpisode\<close>: a send that is dropped when eight episodes are waiting.\<close>

definition recordEpisode :: "string \<Rightarrow> episode_details \<Rightarrow> time \<Rightarrow> 'w ingestor \<Rightarrow> 'w ingestor" where
  "recordEpisode kind details now s =
     (if length (ig_eventQueue s) < 8
      then s\<lparr>ig_eventQueue := ig_eventQueue s @ [\<lparr>ep_kind = kind, ep_occurredAt = strip now, ep_details = details\<rparr>]\<rparr> else s)"

definition noteRejected :: "'w ingestor \<Rightarrow> 'w ingestor" where
  "noteRejected s = s\<lparr>ig_stats := (ig_stats s)\<lparr>is_Rejected := is_Rejected (ig_stats s) + 1\<rparr>\<rparr>"

definition noteAccepted :: "'w ingestor \<Rightarrow> 'w ingestor" where
  "noteAccepted s = s\<lparr>ig_stats := (ig_stats s)\<lparr>is_Accepted := is_Accepted (ig_stats s) + 1\<rparr>\<rparr>"

text \<open>The two critical sections of \<open>noteDropped\<close>, \<open>noteProcessed\<close> and \<open>noteFailure\<close>.\<close>

definition count_dropped :: "'w ingestor \<Rightarrow> 'w ingestor" where
  "count_dropped s = s\<lparr>ig_stats := (ig_stats s)\<lparr>is_Dropped := is_Dropped (ig_stats s) + 1\<rparr>\<rparr>"

definition count_processed :: "ingestion_result \<Rightarrow> 'w ingestor \<Rightarrow> 'w ingestor" where
  "count_processed r s =
     (let st = (ig_stats s)\<lparr>is_Processed := is_Processed (ig_stats s) + 1\<rparr> in
      s\<lparr>ig_stats := (if ir_Kind r = IngestionObservation \<and> \<not> ir_Inserted r
        then st\<lparr>is_Deduplicated := is_Deduplicated st + 1\<rparr> else st)\<rparr>)"

definition count_failed :: "'w ingestor \<Rightarrow> 'w ingestor" where
  "count_failed s = s\<lparr>ig_stats := (ig_stats s)\<lparr>is_Failed := is_Failed (ig_stats s) + 1\<rparr>\<rparr>"

definition begin_overflow :: "'w ingestor \<Rightarrow> 'w ingestor" where
  "begin_overflow s = s\<lparr>ig_overflowActive := True\<rparr>"

definition end_failure :: "'w ingestor \<Rightarrow> 'w ingestor" where
  "end_failure s = s\<lparr>ig_failureActive := False, ig_failureClass := []\<rparr>"

definition begin_failure :: "string \<Rightarrow> 'w ingestor \<Rightarrow> 'w ingestor" where
  "begin_failure cls s = s\<lparr>ig_failureActive := True, ig_failureClass := cls\<rparr>"

definition maybeEndOverflowEpisode :: "'w ingestor \<Rightarrow> 'w ingestor" where
  "maybeEndOverflowEpisode s = (if length (ig_queue s) > ig_capacity s div 2 then s else s\<lparr>ig_overflowActive := False\<rparr>)"

section \<open>Submitters\<close>

text \<open>\<open>submit\<close> up to \<open>beginSubmit\<close> and the new receipt.  A closing ingestor refuses.\<close>

definition begin_submit :: "ingestion_item \<Rightarrow> bool \<Rightarrow> 'w ingestor \<Rightarrow> 'w ingestor" where
  "begin_submit item nonBlocking s =
     (if ig_closing s \<or> ig_closed s then s
      else s\<lparr>ig_submitters := ig_submitters s + 1,
             ig_receipts := ig_receipts s @ [\<lparr>re_accepted = False, re_acceptedAt = zero_time, re_outcome = None\<rparr>],
             ig_submits := ig_submits s @ [SubmitSend item nonBlocking]\<rparr>)"

text \<open>
  The next step of the submitter of a receipt, none when it waits or has returned.  \<open>ended\<close> says that the select
  takes the branch of the ended context; a non-blocking submitter takes its default branch only when it cannot send.
\<close>

definition submit_send :: "nat \<Rightarrow> ingestion_item \<Rightarrow> 'w ingestor \<Rightarrow> 'w ingestor option" where
  "submit_send i item s =
     (if ig_queueClosed s then Some (s\<lparr>ig_panic := True\<rparr>)
      else if length (ig_queue s) < ig_capacity s
      then Some (goto_submit i SubmitTrack (s\<lparr>ig_queue := ig_queue s @ [(i, item)], ig_sent := ig_sent s @ [i]\<rparr>))
      else None)"

definition submit_step :: "bool \<Rightarrow> time \<Rightarrow> nat \<Rightarrow> 'w ingestor \<Rightarrow> 'w ingestor option" where
  "submit_step ended now i s =
     (if i \<ge> length (ig_submits s) then None
      else (case ig_submits s ! i of
         SubmitSend item nonBlocking \<Rightarrow>
           if nonBlocking then
             (case submit_send i item s of
                Some s' \<Rightarrow> Some s'
              | None \<Rightarrow> Some (goto_submit i (DropCount (ingestion_item_kind item) ''queue-full'') s))
           else if ended then Some (goto_submit i (DropCount (ingestion_item_kind item) ''submit-context-ended'') s)
           else submit_send i item s
       | SubmitTrack \<Rightarrow>
           Some (goto_submit i SubmitCount (at_receipt i (\<lambda>r. r\<lparr>re_acceptedAt := strip now\<rparr>)
             (s\<lparr>ig_latency := latency_accept i (strip now) (ig_latency s)\<rparr>)))
       | SubmitCount \<Rightarrow> Some (goto_submit i SubmitRelease (noteAccepted s))
       | SubmitRelease \<Rightarrow>
           if re_accepted (ig_receipts s ! i) then Some (s\<lparr>ig_panic := True\<rparr>)
           else Some (goto_submit i (SubmitDone None) (at_receipt i (\<lambda>r. r\<lparr>re_accepted := True\<rparr>) s))
       | DropCount kind reason \<Rightarrow>
           Some (goto_submit i (DropEpisode kind reason (is_Dropped (ig_stats s) + 1)) (count_dropped s))
       | DropEpisode kind reason dropped \<Rightarrow>
           (let failed = SubmitDone (Some (if reason = ''queue-full'' then ErrQueueFull else ErrBackpressure)) in
            if ig_overflowActive s then Some (goto_submit i failed s)
            else Some (goto_submit i (DropRecord kind reason dropped) (begin_overflow s)))
       | DropRecord kind reason dropped \<Rightarrow>
           Some (goto_submit i (SubmitDone (Some (if reason = ''queue-full'' then ErrQueueFull else ErrBackpressure)))
             (recordEpisode ''ingestion-backpressure'' (BackpressureDetails kind reason dropped (ig_capacity s)) now s))
       | SubmitDone e \<Rightarrow>
           if ig_submitters s = 0 then Some (s\<lparr>ig_panic := True\<rparr>)
           else Some (goto_submit i (SubmitReturned e) (s\<lparr>ig_submitters := ig_submitters s - 1\<rparr>))
       | SubmitReturned _ \<Rightarrow> None))"

section \<open>The worker\<close>

definition write_episode :: "'w ingestion_sink \<Rightarrow> ingestion_episode \<Rightarrow> 'w ingestor \<Rightarrow> 'w ingestor" where
  "write_episode sink e s = s\<lparr>ig_sink := snd (sk_recordIngestionEvent sink e (ig_sink s))\<rparr>"

text \<open>\<open>run\<close>: with \<open>event_first\<close> the select takes a waiting episode even when an item waits too.\<close>

definition worker_select :: "bool \<Rightarrow> 'w ingestor \<Rightarrow> 'w ingestor option" where
  "worker_select event_first s =
     (case (ig_eventQueue s, ig_queue s) of
        (e # es, q) \<Rightarrow>
          if event_first \<or> (q = [] \<and> \<not> ig_queueClosed s) then Some (goto_worker (WorkerWrite e) (s\<lparr>ig_eventQueue := es\<rparr>))
          else (case q of
                  (i, item) # rest \<Rightarrow> Some (goto_worker (WorkerAwait i item) (s\<lparr>ig_queue := rest\<rparr>))
                | [] \<Rightarrow> Some (goto_worker WorkerDrain s))
      | ([], (i, item) # rest) \<Rightarrow> Some (goto_worker (WorkerAwait i item) (s\<lparr>ig_queue := rest\<rparr>))
      | ([], []) \<Rightarrow> if ig_queueClosed s then Some (goto_worker WorkerDrain s) else None)"

definition worker_step :: "'w ingestion_sink \<Rightarrow> bool \<Rightarrow> time \<Rightarrow> 'w ingestor \<Rightarrow> 'w ingestor option" where
  "worker_step sink event_first now s =
     (case ig_worker s of
        WorkerSelect \<Rightarrow> worker_select event_first s
      | WorkerWrite e \<Rightarrow> Some (goto_worker WorkerSelect (write_episode sink e s))
      | WorkerAwait i item \<Rightarrow>
          if re_accepted (ig_receipts s ! i) then Some (goto_worker (WorkerProcess i item (strip now)) s) else None
      | WorkerProcess i item started \<Rightarrow>
          (case process sink item (ig_sink s) of
             (outcome, w) \<Rightarrow> Some (goto_worker (WorkerLatency i item started outcome (strip now)) (s\<lparr>ig_sink := w\<rparr>)))
      | WorkerLatency i item started outcome completed \<Rightarrow>
          Some (goto_worker (WorkerCount i item outcome)
            (s\<lparr>ig_latency := latency_complete i (re_acceptedAt (ig_receipts s ! i)) started completed (snd outcome = None) (ig_latency s)\<rparr>))
      | WorkerCount i item outcome \<Rightarrow>
          Some (goto_worker (WorkerEpisode i item outcome (is_Failed (ig_stats s) + 1))
            (if snd outcome = None then count_processed (fst outcome) s else count_failed s))
      | WorkerEpisode i item outcome failed \<Rightarrow>
          (case snd outcome of
             None \<Rightarrow> Some (goto_worker (WorkerPublish i outcome) (end_failure s))
           | Some e \<Rightarrow>
               (let cls = classifyIngestionFailure e in
                Some (goto_worker
                  (if ig_failureActive s then WorkerPublish i outcome else WorkerRecord i item outcome cls failed)
                  (begin_failure cls s))))
      | WorkerRecord i item outcome cls failed \<Rightarrow>
          Some (goto_worker (WorkerPublish i outcome)
            (recordEpisode ''ingestion-write-failed'' (FailureDetails (ingestion_item_kind item) cls failed) now s))
      | WorkerPublish i outcome \<Rightarrow>
          if re_outcome (ig_receipts s ! i) \<noteq> None then Some (s\<lparr>ig_panic := True\<rparr>)
          else Some (goto_worker WorkerOverflow
            (at_receipt i (\<lambda>r. r\<lparr>re_outcome := Some outcome\<rparr>) (s\<lparr>ig_handled := ig_handled s @ [i]\<rparr>)))
      | WorkerOverflow \<Rightarrow> Some (goto_worker WorkerSelect (maybeEndOverflowEpisode s))
      | WorkerDrain \<Rightarrow>
          (case ig_eventQueue s of
             [] \<Rightarrow> Some (goto_worker WorkerFinish s)
           | e # es \<Rightarrow> Some (goto_worker (WorkerDrainWrite e) (s\<lparr>ig_eventQueue := es\<rparr>)))
      | WorkerDrainWrite e \<Rightarrow> Some (goto_worker WorkerDrain (write_episode sink e s))
      | WorkerFinish \<Rightarrow>
          Some (goto_worker WorkerMarkClosed
            (case sk_closeIngestionSink sink of
               None \<Rightarrow> s
             | Some close \<Rightarrow> (case close (ig_sink s) of (e, w) \<Rightarrow> s\<lparr>ig_closeErr := e, ig_sink := w\<rparr>)))
      | WorkerMarkClosed \<Rightarrow> Some (goto_worker WorkerSignal (s\<lparr>ig_closed := True\<rparr>))
      | WorkerSignal \<Rightarrow>
          if ig_done s then Some (s\<lparr>ig_panic := True\<rparr>) else Some (goto_worker WorkerDone (s\<lparr>ig_done := True\<rparr>))
      | WorkerDone \<Rightarrow> None)"

section \<open>Closing\<close>

text \<open>\<open>Close\<close> sets the flag once; its goroutine closes the channel when the last submitter has left.\<close>

definition begin_close :: "'w ingestor \<Rightarrow> 'w ingestor" where
  "begin_close s = s\<lparr>ig_closing := True\<rparr>"

definition close_queue_step :: "'w ingestor \<Rightarrow> 'w ingestor option" where
  "close_queue_step s =
     (if ig_closing s \<and> ig_submitters s = 0 \<and> \<not> ig_queueClosed s then Some (s\<lparr>ig_queueClosed := True\<rparr>) else None)"

text \<open>The steps that the ingestor takes by itself, and those that its users start.\<close>

inductive internal_step :: "'w ingestion_sink \<Rightarrow> 'w ingestor \<Rightarrow> 'w ingestor \<Rightarrow> bool" for sink where
  SubmitterStep: "submit_step ended now i s = Some s' \<Longrightarrow> internal_step sink s s'"
| WorkerStep: "worker_step sink event_first now s = Some s' \<Longrightarrow> internal_step sink s s'"
| CloserStep: "close_queue_step s = Some s' \<Longrightarrow> internal_step sink s s'"

inductive reached :: "unicode_tables \<Rightarrow> 'w ingestion_sink \<Rightarrow> 'w ingestor \<Rightarrow> bool" for T sink where
  Start: "newIngestor capacity w = Some s \<Longrightarrow> reached T sink s"
| Internal: "reached T sink s \<Longrightarrow> internal_step sink s s' \<Longrightarrow> reached T sink s'"
| Submit: "reached T sink s \<Longrightarrow> admit T item = Some admitted \<Longrightarrow>
    nonBlocking \<longrightarrow> ingestion_item_kind admitted = IngestionObservation \<Longrightarrow> reached T sink (begin_submit admitted nonBlocking s)"
| Reject: "reached T sink s \<Longrightarrow> reached T sink (noteRejected s)"
| Close: "reached T sink s \<Longrightarrow> reached T sink (begin_close s)"

text \<open>\<open>Wait\<close> on a receipt: nothing yet, the ended context or the outcome.\<close>

definition receipt_Wait :: "bool \<Rightarrow> receipt_state \<Rightarrow> (unit, ingestion_outcome) result option" where
  "receipt_Wait ended r = (if ended then Some (Inl ()) else map_option Inr (re_outcome r))"

section \<open>Health\<close>

text \<open>\<open>Health\<close> on a state that does not move between its three locks.\<close>

datatype ingestion_health_state =
  IngestionHealthCurrent | IngestionHealthLagging | IngestionHealthBackpressure | IngestionHealthWriteFailed
| IngestionHealthStorageFull | IngestionHealthClosing | IngestionHealthClosed | IngestionHealthOther string

record ingestion_health =
  ih_State :: ingestion_health_state
  ih_FailureClass :: string
  ih_Capacity :: nat
  ih_Depth :: nat
  ih_QueuePressure :: bool
  ih_Accepted :: "64 word"
  ih_Processed :: "64 word"
  ih_Dropped :: "64 word"
  ih_Failed :: "64 word"
  ih_Latency :: latency_snapshot

definition ingestor_Health :: "time \<Rightarrow> 'w ingestor \<Rightarrow> ingestion_health" where
  "ingestor_Health now s =
     (let latency = latency_snapshot_at (strip now) (ig_latency s) in
      \<lparr>ih_State =
         (if ig_closed s then IngestionHealthClosed
          else if ig_closing s then IngestionHealthClosing
          else if ig_failureActive s \<and> ig_failureClass s = IngestionFailureSQLiteFull then IngestionHealthStorageFull
          else if ig_failureActive s then IngestionHealthWriteFailed
          else if ig_overflowActive s then IngestionHealthBackpressure
          else if ls_State latency = IngestionLatencyLagging then IngestionHealthLagging
          else IngestionHealthCurrent),
       ih_FailureClass = ig_failureClass s, ih_Capacity = ig_capacity s, ih_Depth = length (ig_queue s),
       ih_QueuePressure = (ig_capacity s > 0 \<and> length (ig_queue s) * 4 \<ge> ig_capacity s * 3),
       ih_Accepted = is_Accepted (ig_stats s), ih_Processed = is_Processed (ig_stats s), ih_Dropped = is_Dropped (ig_stats s),
       ih_Failed = is_Failed (ig_stats s), ih_Latency = latency\<rparr>)"

end
