(* ===== verification/StorageHealth.thy ===== *)
theory StorageHealth
  imports QualityModel "HOL-Library.Word"
begin

text \<open>
  \<open>storage/health.go\<close> and \<open>filesystem_capacity.go\<close>: the health of the database from its page counts and from the
  volume it lives on.  What SQLite and the file system answer are parameters; sizes are 64-bit integers that wrap.
\<close>

datatype storage_health_state =
  HealthCurrent | HealthPressure | HealthAtQuota | HealthFilesystemPressure | HealthFilesystemFull | HealthOther string

datatype filesystem_capacity_state =
  FilesystemCapacityUnavailable | FilesystemCapacityCurrent | FilesystemCapacityPressure | FilesystemCapacityFull

record filesystem_capacity =
  fc_Supported :: bool
  fc_State :: filesystem_capacity_state
  fc_TotalBytes :: int
  fc_AvailableBytes :: int
  fc_PressureAtBytes :: int

record storage_health =
  th_State :: storage_health_state
  th_QuotaState :: storage_health_state
  th_DatabaseBytes :: int
  th_UsedBytes :: int
  th_ReusableBytes :: int
  th_MaxBytes :: int
  th_Filesystem :: filesystem_capacity

definition filesystemPressureThresholdBytes :: int where "filesystemPressureThresholdBytes = 134217728"

definition classifyFilesystemCapacity :: "bool \<Rightarrow> int \<Rightarrow> int \<Rightarrow> filesystem_capacity" where
  "classifyFilesystemCapacity supported total_bytes available =
     \<lparr>fc_Supported = supported,
      fc_State =
        (if \<not> supported then FilesystemCapacityUnavailable
         else if total_bytes \<le> 0 \<or> available < 0 \<or> available > total_bytes then FilesystemCapacityUnavailable
         else if available = 0 then FilesystemCapacityFull
         else if available \<le> filesystemPressureThresholdBytes then FilesystemCapacityPressure
         else FilesystemCapacityCurrent),
      fc_TotalBytes = total_bytes, fc_AvailableBytes = available, fc_PressureAtBytes = filesystemPressureThresholdBytes\<rparr>"

text \<open>\<open>filesystem_capacity_unix.go\<close>: the block counts of \<open>statfs\<close>, none when the call fails.\<close>

record statfs =
  sf_Bsize :: "64 word"
  sf_Blocks :: "64 word"
  sf_Bavail :: "64 word"

definition maxFilesystemBytes :: "64 word" where "maxFilesystemBytes = 0x7fffffffffffffff"

definition filesystemBytes :: "64 word \<Rightarrow> 64 word \<Rightarrow> int option" where
  "filesystemBytes blocks block_size =
     (if block_size = 0 \<or> blocks > maxFilesystemBytes div block_size then None else Some (sint (blocks * block_size)))"

definition readFilesystemCapacity :: "statfs option \<Rightarrow> filesystem_capacity option" where
  "readFilesystemCapacity st =
     (case st of
        None \<Rightarrow> None
      | Some f \<Rightarrow>
          if sf_Bsize f = 0 then None
          else (case (filesystemBytes (sf_Blocks f) (sf_Bsize f), filesystemBytes (sf_Bavail f) (sf_Bsize f)) of
                  (Some all, Some available) \<Rightarrow> Some (classifyFilesystemCapacity True all available) | _ \<Rightarrow> None))"

definition classifyStorageHealth :: "int \<Rightarrow> int \<Rightarrow> storage_health_state" where
  "classifyStorageHealth used max_bytes =
     (if max_bytes \<le> 0 then HealthAtQuota
      else if used \<ge> max_bytes then HealthAtQuota
      else if used \<ge> max_bytes - max_bytes div 10 then HealthPressure
      else HealthCurrent)"

record page_counts =
  pg_count :: int
  pg_free :: int
  pg_size :: int
  pg_max :: int

definition store_Health :: "page_counts option \<Rightarrow> filesystem_capacity option \<Rightarrow> storage_health option" where
  "store_Health pages filesystem =
     (case pages of
        None \<Rightarrow> None
      | Some p \<Rightarrow>
          if pg_size p \<le> 0 \<or> pg_max p \<le> 0 \<or> pg_free p < 0 \<or> pg_free p > pg_count p then None
          else
            (let allocated = int64_wrap (pg_count p * pg_size p); reusable = int64_wrap (pg_free p * pg_size p);
                 used = int64_wrap ((pg_count p - pg_free p) * pg_size p); max_bytes = int64_wrap (pg_max p * pg_size p);
                 quota = classifyStorageHealth used max_bytes;
                 fs = (case filesystem of Some c \<Rightarrow> c | None \<Rightarrow> classifyFilesystemCapacity True 0 0);
                 st = (if fc_Supported fs \<and> fc_State fs = FilesystemCapacityFull then HealthFilesystemFull
                       else if fc_Supported fs \<and> fc_State fs = FilesystemCapacityPressure \<and> quota \<noteq> HealthAtQuota then HealthFilesystemPressure
                       else quota)
             in Some \<lparr>th_State = st, th_QuotaState = quota, th_DatabaseBytes = allocated, th_UsedBytes = used, th_ReusableBytes = reusable,
                  th_MaxBytes = max_bytes, th_Filesystem = fs\<rparr>))"

section \<open>Properties\<close>

text \<open>The multiplication of blocks and block size never overflows.\<close>

lemma filesystem_bytes_exact:
  assumes "filesystemBytes blocks block_size = Some n"
  shows "n = uint blocks * uint block_size \<and> 0 \<le> n"
proof -
  have "blocks \<le> maxFilesystemBytes div block_size" "block_size \<noteq> 0" and n: "n = sint (blocks * block_size)"
    using assms by (auto simp: filesystemBytes_def split: if_splits)
  then have "uint blocks \<le> (2 ^ 63 - 1) div uint block_size"
    by (simp add: word_le_def uint_div maxFilesystemBytes_def)
  moreover have "0 < uint block_size" using \<open>block_size \<noteq> 0\<close> by (simp add: word_neq_0_conv word_less_def)
  moreover have "(2 ^ 63 - 1) div uint block_size * uint block_size \<le> 2 ^ 63 - 1"
    using calculation(2) div_mult_mod_eq [of "2 ^ 63 - 1" "uint block_size"] pos_mod_sign [of "uint block_size" "2 ^ 63 - 1"] by linarith
  ultimately have le: "uint blocks * uint block_size \<le> 2 ^ 63 - 1" by (meson mult_right_mono order.trans uint_ge_0)
  then have u: "uint (blocks * block_size) = uint blocks * uint block_size"
    by (simp add: uint_word_ariths)
  have "sint (blocks * block_size) = uint (blocks * block_size)"
    unfolding sint_uint u using le by (intro signed_take_bit_int_eq_self) (simp_all add: order.trans [of _ 0])
  with n u show ?thesis by simp
qed

lemma classify_current: "0 < m \<Longrightarrow> classifyStorageHealth u m = HealthCurrent \<longleftrightarrow> u < m - m div 10"
  using pos_imp_zdiv_nonneg_iff [of 10 m] by (auto simp: classifyStorageHealth_def)

text \<open>
  The state is current exactly when the database is below nine tenths of its quota and the volume is neither full
  nor under pressure, as long as the byte counts fit into 64 bits.
\<close>

lemma store_health_current:
  assumes "store_Health (Some p) filesystem = Some h" and "pg_count p \<le> pg_max p" and "pg_max p * pg_size p < 2 ^ 63"
  shows "th_State h = HealthCurrent \<longleftrightarrow>
    (pg_count p - pg_free p) * pg_size p < pg_max p * pg_size p - pg_max p * pg_size p div 10 \<and>
    \<not> (fc_Supported (th_Filesystem h) \<and> fc_State (th_Filesystem h) \<in> {FilesystemCapacityFull, FilesystemCapacityPressure})"
proof -
  have p: "0 < pg_size p" "0 < pg_max p" "0 \<le> pg_free p" "pg_free p \<le> pg_count p"
    using assms(1) by (auto simp: store_Health_def split: if_splits)
  have "(pg_count p - pg_free p) * pg_size p \<le> pg_max p * pg_size p" using p assms(2) by (intro mult_right_mono) auto
  moreover have pos: "0 < pg_max p * pg_size p" using p by simp
  moreover have "0 \<le> (pg_count p - pg_free p) * pg_size p" using p by simp
  ultimately have "int64_wrap ((pg_count p - pg_free p) * pg_size p) = (pg_count p - pg_free p) * pg_size p"
    "int64_wrap (pg_max p * pg_size p) = pg_max p * pg_size p"
    using assms(3) by (simp_all add: int64_wrap_fixpoint fits_int64_def int64_min_def int64_max_def)
  then have h: "th_State h = (if fc_Supported (th_Filesystem h) \<and> fc_State (th_Filesystem h) = FilesystemCapacityFull then HealthFilesystemFull
      else if fc_Supported (th_Filesystem h) \<and> fc_State (th_Filesystem h) = FilesystemCapacityPressure \<and> th_QuotaState h \<noteq> HealthAtQuota
      then HealthFilesystemPressure else th_QuotaState h)"
    "th_QuotaState h = classifyStorageHealth ((pg_count p - pg_free p) * pg_size p) (pg_max p * pg_size p)"
    using assms(1) by (auto simp: store_Health_def Let_def simp del: if_split split: if_splits)
  show ?thesis
    unfolding h(1) using classify_current [OF pos, of "(pg_count p - pg_free p) * pg_size p"] h(2) by (auto split: if_splits)
qed

end
