(* ===== verification/DeviceDriver.thy ===== *)
theory DeviceDriver
  imports DeviceCoverage Ingestion StorageHealth
begin

text \<open>
  \<open>devicewatch/operational_health.go\<close>, \<open>coverage_operational.go\<close>, \<open>coverage_contract.go\<close>, \<open>coverage.go\<close> and
  \<open>lifecycle.go\<close>: the health of the sensor, the ingestion pipeline and the database, the coverage contract that
  they and the evidence give, and the lifecycle driver of Device Watch.  Counters that are only copied from one
  struct to the next are kept as the struct they come from.
\<close>

section \<open>Operational health\<close>

datatype operational_state =
  OperationalCurrent | OperationalStarting | OperationalDegraded | OperationalStale | OperationalDisconnected | OperationalUnavailable

record runtime_state =
  rs_Running :: bool
  rs_ScopeID :: string
  rs_LastAttemptAt :: time
  rs_LastSuccessfulAt :: time
  rs_LastErrorClass :: string

record sensor_health =
  sh_State :: operational_state
  sh_Running :: bool
  sh_LastAttemptAt :: time
  sh_LastSuccessfulAt :: time
  sh_LastErrorClass :: string
  sh_NextStep :: string

record pipeline_health =
  ph_State :: operational_state
  ph_Reason :: string
  ph_Measured :: ingestion_health
  ph_NextStep :: string

record database_health =
  dh_State :: operational_state
  dh_Reason :: string
  dh_Measured :: "storage_health option"
  dh_NextStep :: string

record operational_health =
  oh_Sensor :: sensor_health
  oh_Pipeline :: pipeline_health
  oh_Database :: database_health

definition sensorErrorNextStep :: "string \<Rightarrow> string" where
  "sensorErrorNextStep reason =
     (if reason = ''scope-mismatch'' \<or> reason = ''unsupported-interface'' then
        ''Return to the enrolled network or re-enroll the intended local interface before trusting Device Watch coverage.''
      else if reason = ''source-unavailable'' then ''Check local ARP/NDP neighbor-table access on the enrolled Mac.''
      else if reason = ''permission-required'' then
        ''Review the local controller's permission to read this Mac's neighbor tables, then retry Device Watch collection.''
      else if reason = ''source-oversized'' then ''Inspect local neighbor-table behavior before increasing any collection limits.''
      else if reason = ''canceled'' then ''Confirm the controller is awake and Device Watch is still enabled.''
      else ''Inspect local Device Watch diagnostics and restore successful collection before trusting current coverage.'')"

definition sensorHealth :: "runtime_state option \<Rightarrow> time \<Rightarrow> sensor_health" where
  "sensorHealth runtime now =
     (case runtime of
        None \<Rightarrow> \<lparr>sh_State = OperationalUnavailable, sh_Running = False, sh_LastAttemptAt = zero_time, sh_LastSuccessfulAt = zero_time,
                 sh_LastErrorClass = [], sh_NextStep = ''Use Device Watch only on a platform with a supported passive runtime.''\<rparr>
      | Some st \<Rightarrow>
          (let with_state = (\<lambda>s step. \<lparr>sh_State = s, sh_Running = rs_Running st, sh_LastAttemptAt = strip (rs_LastAttemptAt st),
                 sh_LastSuccessfulAt = strip (rs_LastSuccessfulAt st), sh_LastErrorClass = rs_LastErrorClass st, sh_NextStep = step\<rparr>)
           in if \<not> rs_Running st then
                with_state OperationalDisconnected ''Restart Device Watch and confirm the enrolled network is still available.''
              else if rs_LastErrorClass st \<noteq> [] then with_state OperationalDegraded (sensorErrorNextStep (rs_LastErrorClass st))
              else if is_zero (rs_LastAttemptAt st) \<or> is_zero (rs_LastSuccessfulAt st) then
                with_state OperationalStarting ''Wait for the first Device Watch collection to complete.''
              else if after (rs_LastSuccessfulAt st) (time_add now coverageFutureTolerance) then
                with_state OperationalDegraded ''Correct the controller clock before relying on sensor timestamps.''
              else if time_sub now (rs_LastSuccessfulAt st) > coverageFreshnessWindow then
                with_state OperationalStale ''Wake or reconnect the enrolled Mac and confirm Device Watch is still running.''
              else with_state OperationalCurrent []))"

definition pipelineHealth :: "ingestion_health \<Rightarrow> pipeline_health" where
  "pipelineHealth h =
     (let result = (\<lambda>st reason step. \<lparr>ph_State = st, ph_Reason = reason, ph_Measured = h, ph_NextStep = step\<rparr>) in
      case ih_State h of
        IngestionHealthCurrent \<Rightarrow>
          if ih_QueuePressure h then result OperationalCurrent ''queue-pressure''
            ''Queue utilization is high, but measured accepted-to-durable latency remains within the current lag threshold.''
          else result OperationalCurrent [] []
      | IngestionHealthLagging \<Rightarrow> result OperationalDegraded ''latency''
          ''Restore ingestion throughput; accepted evidence is taking too long to reach durable storage.''
      | IngestionHealthBackpressure \<Rightarrow> result OperationalDegraded ''backpressure''
          ''Restore ingestion throughput; some evidence has been dropped while the queue was saturated.''
      | IngestionHealthStorageFull \<Rightarrow> result OperationalDegraded ''sqlite-full''
          ''SQLite rejected a write as full. Free the limiting database or host-volume capacity shown below, then wait for a successful collection to prove write recovery.''
      | IngestionHealthWriteFailed \<Rightarrow> result OperationalDegraded ''write-failed''
          ''Restore controller storage writes before trusting newly collected evidence.''
      | IngestionHealthClosing \<Rightarrow> result OperationalDegraded ''closing''
          ''Allow controller shutdown to complete before evaluating coverage.''
      | IngestionHealthClosed \<Rightarrow> result OperationalDisconnected ''closed''
          ''Restart the controller before relying on new Device Watch evidence.''
      | IngestionHealthOther _ \<Rightarrow> result OperationalDegraded ''unknown''
          ''Inspect ingestion diagnostics before trusting new Device Watch evidence.'')"

definition databaseHealth :: "storage_health \<Rightarrow> database_health" where
  "databaseHealth h =
     (let result = (\<lambda>st reason step. \<lparr>dh_State = st, dh_Reason = reason, dh_Measured = Some h, dh_NextStep = step\<rparr>) in
      case th_State h of
        HealthCurrent \<Rightarrow>
          if fc_Supported (th_Filesystem h) \<and> fc_State (th_Filesystem h) = FilesystemCapacityUnavailable then
            result OperationalDegraded ''filesystem-unknown''
              ''Check the controller state-directory volume before relying on filesystem-capacity health.''
          else result OperationalCurrent [] []
      | HealthPressure \<Rightarrow> result OperationalDegraded ''quota-pressure''
          ''Review retention and storage growth before the Cozy SOC database reaches its configured quota.''
      | HealthAtQuota \<Rightarrow> result OperationalDegraded ''quota-reached''
          ''Free Cozy SOC database capacity before relying on new evidence writes.''
      | HealthFilesystemPressure \<Rightarrow> result OperationalDegraded ''filesystem-pressure''
          ''Free space on the volume containing the Cozy SOC state directory before available write headroom is exhausted.''
      | HealthFilesystemFull \<Rightarrow> result OperationalDegraded ''filesystem-full''
          ''Free space on the volume containing the Cozy SOC state directory before relying on new evidence writes.''
      | HealthOther _ \<Rightarrow> result OperationalDegraded ''unknown''
          ''Inspect controller storage health before relying on new evidence writes.'')"

text \<open>
  The parts of the driver: the runtime with its state and the health of its ingestor (none on an unsupported
  platform), the store (its health may fail), and the inspector.
\<close>

record 'e device_driver =
  dd_platform :: string
  dd_runtime :: "(runtime_state \<times> ingestion_health) option"
  dd_storeHealth :: "('e, storage_health) result option"

text \<open>\<open>IngestionHealth\<close> of a missing runtime: closed, every count zero.\<close>

definition closed_health :: ingestion_health where
  "closed_health =
     \<lparr>ih_State = IngestionHealthClosed, ih_FailureClass = [], ih_Capacity = 0, ih_Depth = 0, ih_QueuePressure = False, ih_Accepted = 0,
      ih_Processed = 0, ih_Dropped = 0, ih_Failed = 0, ih_Latency = \<lparr>ls_State = IngestionLatencyUnset, ls_Threshold = 0, ls_Pending = 0,
        ls_OldestPendingAge = 0, ls_LastDurableLatency = 0, ls_LastQueueWait = 0, ls_LastProcessingDuration = 0,
        ls_LastCompletedAt = zero_time, ls_SlowStreak = 0\<rparr>\<rparr>"

definition OperationalHealth :: "'e device_driver \<Rightarrow> time \<Rightarrow> ('e, operational_health) result" where
  "OperationalHealth d now =
     (let now = strip now;
          sensor = sensorHealth (map_option fst (dd_runtime d)) now;
          pipeline = pipelineHealth (case dd_runtime d of Some (_, h) \<Rightarrow> h | None \<Rightarrow> closed_health)
      in case dd_storeHealth d of
           Some r \<Rightarrow> bind_result r (\<lambda>h. Inr \<lparr>oh_Sensor = sensor, oh_Pipeline = pipeline, oh_Database = databaseHealth h\<rparr>)
         | None \<Rightarrow> Inr \<lparr>oh_Sensor = sensor, oh_Pipeline = pipeline,
             oh_Database = \<lparr>dh_State = OperationalUnavailable, dh_Reason = ''storage-unavailable'', dh_Measured = None,
               dh_NextStep = ''Restart the controller before relying on Device Watch storage health.''\<rparr>\<rparr>)"

definition EffectiveCoverage :: "coverage_report \<Rightarrow> operational_health \<Rightarrow> coverage_state \<times> string \<times> string" where
  "EffectiveCoverage r oh =
     (let sensor = oh_Sensor oh; pipeline = oh_Pipeline oh; database = oh_Database oh;
          storage = (StateDegraded, ''storage-'' @ dh_Reason database, dh_NextStep database);
          healthy =
            (if ph_State pipeline \<noteq> OperationalCurrent then
               (if ph_Reason pipeline = ''sqlite-full'' \<and> dh_State database \<noteq> OperationalCurrent then storage
                else (StateDegraded, ''ingestion-'' @ ph_Reason pipeline, ph_NextStep pipeline))
             else if dh_State database \<noteq> OperationalCurrent then storage
             else (dw_State r, dw_Reason r, dw_NextStep r))
      in case sh_State sensor of
           OperationalDisconnected \<Rightarrow> (StateDisconnected, ''sensor-disconnected'', sh_NextStep sensor)
         | OperationalStale \<Rightarrow> (StateStale, ''sensor-stale'', sh_NextStep sensor)
         | OperationalDegraded \<Rightarrow> (StateDegraded, ''sensor-degraded'', sh_NextStep sensor)
         | OperationalUnavailable \<Rightarrow> (StateDegraded, ''sensor-degraded'', sh_NextStep sensor)
         | OperationalStarting \<Rightarrow> (StateUnverified, ''sensor-starting'', sh_NextStep sensor)
         | OperationalCurrent \<Rightarrow> healthy)"

section \<open>The coverage contract\<close>

definition defaultCollectionInterval :: duration where "defaultCollectionInterval = minute"

definition sharedSourceState :: "coverage_source_state \<Rightarrow> source_state" where
  "sharedSourceState st =
     (case st of
        CoverageSourceCurrent \<Rightarrow> SourceCurrent
      | CoverageSourceUnavailable \<Rightarrow> SourceUnavailable
      | CoverageSourcePermission \<Rightarrow> SourcePermissionRequired
      | CoverageSourceStale \<Rightarrow> SourceStale
      | CoverageSourceMissing \<Rightarrow> SourceExpectedUnverified
      | CoverageSourceUnknown \<Rightarrow> SourceUnknown)"

definition sharedDeviceWatchGap :: "coverage_blind_spot \<Rightarrow> coverage_gap" where
  "sharedDeviceWatchGap b =
     (let g = \<lparr>ga_ID = bs_ID b, ga_Kind = ''known-exclusion'', ga_Summary = bs_Summary b, ga_Detail = bs_Detail b,
               ga_NextStep = bs_NextStep b, ga_Dimensions = [], ga_Directions = []\<rparr> in
      if bs_ID b = ''host-neighbor-cache-only'' then g\<lparr>ga_Kind := ''observation-point-limited''\<rparr>
      else if bs_ID b = ''isolated-segments-not-observed'' then g\<lparr>ga_Kind := ''scope-not-observed''\<rparr>
      else if bs_ID b = ''no-traffic-monitoring'' then
        g\<lparr>ga_Kind := ''direction-not-observed'', ga_Directions := [DirectionIngress, DirectionEgress, DirectionEastWest]\<rparr>
      else g)"

definition addressFamilyDimension :: "string \<Rightarrow> dimension option" where
  "addressFamilyDimension family =
     (if family = ''ipv4'' \<or> family = ''ipv6'' then Some \<lparr>di_Kind = DimensionAddressFamily, di_Value = family\<rparr> else None)"

definition family_dimensions :: "bool \<Rightarrow> coverage_source_detail list \<Rightarrow> dimension list" where
  "family_dimensions current ds =
     List.map_filter (\<lambda>d. if (sd_State d = CoverageSourceCurrent) = current then addressFamilyDimension (sd_AddressFamily d) else None) ds"

definition deviceWatchCoverageScope :: "coverage_report \<Rightarrow> coverage_scope" where
  "deviceWatchCoverageScope r =
     (let network = \<lparr>di_Kind = DimensionNetwork, di_Value = dw_ScopeID r\<rparr>;
          ipv4 = \<lparr>di_Kind = DimensionAddressFamily, di_Value = ''ipv4''\<rparr>;
          ipv6 = \<lparr>di_Kind = DimensionAddressFamily, di_Value = ''ipv6''\<rparr>;
          iface = (if dw_InterfaceName r \<noteq> [] then [\<lparr>di_Kind = DimensionInterface, di_Value = dw_InterfaceName r\<rparr>] else []);
          verified = family_dimensions True (dw_Sources r); expected = family_dimensions False (dw_Sources r)
      in \<lparr>sc_Configured = [network, ipv4, ipv6] @ iface,
          sc_Verified = (if verified \<noteq> [] then verified @ network # iface else verified),
          sc_ExpectedUnverified = (if verified \<noteq> [] then expected else expected @ network # iface)\<rparr>)"

definition coverage_point :: "coverage_report \<Rightarrow> operational_health \<Rightarrow> observation_point" where
  "coverage_point r oh =
     (case EffectiveCoverage r oh of (st, reason, step) \<Rightarrow>
      \<lparr>op_ID = ''device-watch.local-neighbor-cache'', op_Kind = ''host-neighbor-cache'', op_SensorID = dw_SensorID r, op_State = st,
       op_Reason = reason, op_Scope = deviceWatchCoverageScope r,
       op_Sources = map (\<lambda>d. \<lparr>so_ID = sd_ID d, so_Kind = ''neighbor-cache'', so_State = sharedSourceState (sd_State d), so_Expected = True,
         so_Observed = sd_Observed d, so_NextStep = sd_NextStep d\<rparr>) (dw_Sources r),
       op_Directions = [],
       op_Window = (if dw_HasEvidence r
         then \<lparr>ew_HasEvidence = True, ew_StartedAt = dw_EvidenceAt r, ew_EndedAt = dw_EvidenceAt r, ew_FreshUntil = dw_FreshUntil r\<rparr>
         else \<lparr>ew_HasEvidence = False, ew_StartedAt = zero_time, ew_EndedAt = zero_time, ew_FreshUntil = zero_time\<rparr>),
       op_Cadence = \<lparr>ca_Mode = CadencePeriodic, ca_Interval = defaultCollectionInterval, ca_Dwell = 0\<rparr>,
       op_Gaps = map sharedDeviceWatchGap (dw_BlindSpots r), op_NextStep = step\<rparr>)"

definition device_watch_ID :: string where "device_watch_ID = ''device-watch''"

definition CoverageContract :: "coverage_report \<Rightarrow> operational_health \<Rightarrow> coverage_contract option" where
  "CoverageContract r oh =
     (case EffectiveCoverage r oh of (st, reason, step) \<Rightarrow>
      let c = \<lparr>cr_CapabilityID = device_watch_ID, cr_Configured = True, cr_State = st, cr_Reason = reason,
               cr_ObservationPoints = [coverage_point r oh], cr_NextStep = step\<rparr>
      in if ValidateSinglePointReport c then Some c else None)"

definition UnconfiguredCoverageContract :: coverage_contract where
  "UnconfiguredCoverageContract =
     \<lparr>cr_CapabilityID = device_watch_ID, cr_Configured = False, cr_State = StateUnconfigured, cr_Reason = ''not-configured'',
      cr_ObservationPoints = [], cr_NextStep = ''Enroll a home network and enable Device Watch before evaluating its coverage.''\<rparr>"

section \<open>Verification signals\<close>

definition signal :: "string \<Rightarrow> signal_status \<Rightarrow> string \<Rightarrow> verification_signal" where
  "signal i st m = \<lparr>vs_ID = i, vs_Status = st, vs_Message = m\<rparr>"

definition sensorVerificationSignal :: "sensor_health \<Rightarrow> verification_signal" where
  "sensorVerificationSignal h =
     (case sh_State h of
        OperationalCurrent \<Rightarrow> signal ''sensor-operational'' SignalFresh []
      | OperationalStarting \<Rightarrow> signal ''sensor-operational'' SignalMissing ''Device Watch has not completed its first collection''
      | OperationalStale \<Rightarrow> signal ''sensor-operational'' SignalStale
          ''Device Watch has not completed a successful collection within the freshness window''
      | _ \<Rightarrow> signal ''sensor-operational'' SignalFailed ''Device Watch sensor runtime is not currently healthy'')"

definition pipelineVerificationSignal :: "pipeline_health \<Rightarrow> verification_signal" where
  "pipelineVerificationSignal h =
     (if ph_State h = OperationalCurrent then signal ''ingestion-health'' SignalFresh []
      else signal ''ingestion-health'' SignalFailed ''Device Watch ingestion pipeline is degraded'')"

definition databaseVerificationSignal :: "database_health \<Rightarrow> verification_signal" where
  "databaseVerificationSignal h =
     (if dh_State h = OperationalCurrent then signal ''storage-health'' SignalFresh []
      else signal ''storage-health'' SignalFailed ''Device Watch storage capacity is degraded'')"

definition observation_signal :: "coverage_report \<Rightarrow> verification_signal" where
  "observation_signal r =
     (case dw_State r of
        StateActiveLimited \<Rightarrow> signal ''observation-freshness'' SignalFresh ''fresh passive neighbor-cache coverage evidence is available''
      | StateStale \<Rightarrow> signal ''observation-freshness'' SignalStale ''latest Device Watch coverage sample is older than the freshness window''
      | StateDegraded \<Rightarrow> signal ''observation-freshness'' SignalFailed
          (if dw_Reason r = ''source-partial'' then ''one or more current passive neighbor sources are unavailable''
           else if dw_Reason r = ''source-unavailable'' then ''current passive neighbor sources are unavailable''
           else if dw_Reason r = ''clock-skew'' then ''latest Device Watch coverage sample is ahead of the controller clock''
           else ''latest Device Watch coverage evidence is invalid'')
      | _ \<Rightarrow> signal ''observation-freshness'' SignalMissing ''no retained Device Watch coverage sample is available'')"

definition coverageVerificationSignal ::
  "unicode_tables \<Rightarrow> 'e sample_reader \<Rightarrow> string \<Rightarrow> time \<Rightarrow> ('e, verification_signal) result" where
  "coverageVerificationSignal T reader scope now =
     bind_result (CurrentCoverage T reader scope now) (\<lambda>r. Inr (observation_signal r))"

section \<open>The lifecycle driver\<close>

text \<open>
  A lookup of the enrolled scope: its error, not found, or the binding that its metadata parse to (none if they
  do not).
\<close>

datatype 'e scope_lookup = ScopeError 'e | ScopeNotFound | ScopeFound "scope_binding option"

definition scopeIDFromConfiguration :: "configuration \<Rightarrow> string option" where
  "scopeIDFromConfiguration c =
     (case map_of (co_Values c) ''network_scope_id'' of
        Some (ValueString s) \<Rightarrow> if s = [] then None else Some s | _ \<Rightarrow> None)"

definition parsed_binding :: "unicode_tables \<Rightarrow> scope_binding option \<Rightarrow> scope_binding option" where
  "parsed_binding T m = (case m of None \<Rightarrow> None | Some b \<Rightarrow> if ValidateScopeBinding T b then Some b else None)"

definition check :: "string \<Rightarrow> check_status \<Rightarrow> string \<Rightarrow> preflight_check" where
  "check i st m = \<lparr>pc_ID = i, pc_Status = st, pc_Blocking = True, pc_Message = m\<rparr>"

definition device_Preflight ::
  "unicode_tables \<Rightarrow> 'e device_driver \<Rightarrow> (string \<Rightarrow> 'e scope_lookup) \<Rightarrow> inspector \<Rightarrow> driver_request \<Rightarrow> ('e, preflight_report) result" where
  "device_Preflight T d lookup inspect rq =
     (let pass = (\<lambda>i. check i CheckPass []); refuse = (\<lambda>i m. check i CheckFail m) in
      if dq_Action rq = ActionDisable then Inr [pass ''runtime-disable'']
      else if dd_platform d \<noteq> ''darwin'' then
        Inr [refuse ''platform-supported'' ''passive Device Watch runtime is not supported on this platform'']
      else (case scopeIDFromConfiguration (dq_Configuration rq) of
              None \<Rightarrow> Inr [pass ''platform-supported'', refuse ''scope-configured'' ''Device Watch requires an enrolled network scope'']
            | Some scope \<Rightarrow>
                (let checks = [pass ''platform-supported'', pass ''scope-configured''] in
                 case lookup scope of
                   ScopeError e \<Rightarrow> Inl e
                 | ScopeNotFound \<Rightarrow> Inr (checks @ [refuse ''scope-enrolled'' ''enrolled Device Watch network scope is unavailable''])
                 | ScopeFound m \<Rightarrow>
                     (case parsed_binding T m of
                        None \<Rightarrow> Inr (checks @ [refuse ''scope-enrolled'' ''enrolled Device Watch scope is invalid''])
                      | Some b \<Rightarrow>
                          (let checks = checks @ [pass ''scope-enrolled''] in
                           case ValidateCurrentScope T inspect b of
                             Inl _ \<Rightarrow> Inr (checks @ [refuse ''scope-current'' ''enrolled network no longer matches the current interface''])
                           | Inr _ \<Rightarrow> Inr (checks @ [pass ''scope-current'']))))))"

definition device_Verify ::
  "unicode_tables \<Rightarrow> 'e device_driver \<Rightarrow> (string \<Rightarrow> 'e scope_lookup) \<Rightarrow> inspector \<Rightarrow> 'e sample_reader \<Rightarrow> time \<Rightarrow> driver_request \<Rightarrow>
   ('e, verification_report) result" where
  "device_Verify T d lookup inspect reader now rq =
     bind_result (OperationalHealth d now) (\<lambda>oh.
       let report = (\<lambda>scope_status observation.
             [signal ''network-scope-enrolled'' scope_status [], observation, sensorVerificationSignal (oh_Sensor oh),
              pipelineVerificationSignal (oh_Pipeline oh), databaseVerificationSignal (oh_Database oh)]);
           missing = signal ''observation-freshness'' SignalMissing ''no current Device Watch coverage evidence is available''
       in case scopeIDFromConfiguration (dq_Configuration rq) of
            None \<Rightarrow> Inr (report SignalMissing missing)
          | Some scope \<Rightarrow>
              (case lookup scope of
                 ScopeNotFound \<Rightarrow> Inr (report SignalMissing missing)
               | ScopeError e \<Rightarrow> Inl e
               | ScopeFound m \<Rightarrow>
                   bind_result (coverageVerificationSignal T reader scope (strip now)) (\<lambda>observation.
                     Inr (report
                       (case parsed_binding T m of
                          None \<Rightarrow> SignalMissing
                        | Some b \<Rightarrow> (case ValidateCurrentScope T inspect b of Inr _ \<Rightarrow> SignalFresh | Inl _ \<Rightarrow> SignalMissing))
                       observation))))"

text \<open>The control of the runtime, over the state \<open>'w\<close> of the process it runs in.\<close>

record ('w, 'e) runtime_control =
  rc_Running :: "'w \<Rightarrow> bool"
  rc_State :: "'w \<Rightarrow> runtime_state"
  rc_Start :: "string \<Rightarrow> 'w \<Rightarrow> 'e option \<times> 'w"
  rc_Stop :: "'w \<Rightarrow> (bool \<times> 'e option) \<times> 'w"

definition step_changed :: "bool \<Rightarrow> step_result" where
  "step_changed b = \<lparr>sr_Changed = b, sr_Process = None\<rparr>"

datatype 'e execute_error = ErrPlatformUnsupported | ErrNoScope | ErrOtherScope | ErrRuntime 'e | ErrNotExecuted

definition device_Execute ::
  "('w, 'e) runtime_control option \<Rightarrow> lifecycle_action \<Rightarrow> driver_request \<Rightarrow> 'w \<Rightarrow> ('e execute_error, step_result) result \<times> 'w" where
  "device_Execute runtime a rq w =
     (case a of
        ActionEnable \<Rightarrow>
          (case runtime of
             None \<Rightarrow> (Inl ErrPlatformUnsupported, w)
           | Some rt \<Rightarrow>
               (case scopeIDFromConfiguration (dq_Configuration rq) of
                  None \<Rightarrow> (Inl ErrNoScope, w)
                | Some scope \<Rightarrow>
                    if rc_Running rt w then
                      (if rs_ScopeID (rc_State rt w) = scope then (Inr (step_changed False), w) else (Inl ErrOtherScope, w))
                    else (case rc_Start rt scope w of
                            (Some e, w) \<Rightarrow> (Inl (ErrRuntime e), w)
                          | (None, w) \<Rightarrow> (Inr (step_changed True), w))))
      | ActionDisable \<Rightarrow>
          (case runtime of
             None \<Rightarrow> (Inr (step_changed False), w)
           | Some rt \<Rightarrow>
               (case rc_Stop rt w of
                  ((_, Some e), w) \<Rightarrow> (Inl (ErrRuntime e), w)
                | ((changed, None), w) \<Rightarrow> (Inr (step_changed changed), w)))
      | _ \<Rightarrow> (Inl ErrNotExecuted, w))"

definition device_Close :: "('w, 'e) runtime_control option \<Rightarrow> 'w \<Rightarrow> 'e option \<times> 'w" where
  "device_Close runtime w =
     (case runtime of None \<Rightarrow> (None, w) | Some rt \<Rightarrow> (case rc_Stop rt w of ((_, e), w) \<Rightarrow> (e, w)))"

definition device_Active :: "('w, 'e) runtime_control option \<Rightarrow> 'w \<Rightarrow> bool" where
  "device_Active runtime w = (case runtime of None \<Rightarrow> False | Some rt \<Rightarrow> rc_Running rt w)"

text \<open>\<open>EnabledScopeID\<close>: the scope to resume, none when the capability is absent or off, an error when it is on without a scope.\<close>

definition EnabledScopeID :: "configuration list \<Rightarrow> (unit, string option) result" where
  "EnabledScopeID cs =
     (case find (\<lambda>c. co_ID c = device_watch_ID) cs of
        None \<Rightarrow> Inr None
      | Some c \<Rightarrow>
          if co_Desired c \<noteq> DesiredEnabled then Inr None
          else (case scopeIDFromConfiguration c of None \<Rightarrow> Inl () | Some scope \<Rightarrow> Inr (Some scope)))"

end
