(* ===== verification/DriverContract.thy ===== *)
theory DriverContract
  imports CapabilityRules
begin

text \<open>
  What the lifecycle engine relies on in a driver that verifies: every report is well formed and names exactly the
  signals of the manifest.  From these two laws the engine always reaches a verdict, and it is \<open>verified\<close> exactly when
  every signal is fresh.
\<close>

locale reporting_driver =
  fixes verify :: "'q \<Rightarrow> ('e, verification_report) result"
    and signals :: "string list"
  assumes report_valid: "verify q = Inr r \<Longrightarrow> validateVerificationReport r"
    and report_signals: "verify q = Inr r \<Longrightarrow> vs_ID ` set r = set signals"
begin

lemma verdict_reached:
  assumes "verify q = Inr r" and "hl_VerificationSignals (mf_Health m) = signals"
  shows "evaluateVerification m r = Inr (signal_verdict m r)"
  using evaluate_verdict [OF report_valid [OF assms(1)], of m] report_signals [OF assms(1)] assms(2) by auto

lemma one_missing:
  assumes "verify q = Inr r"
  shows "(\<exists>j\<in>set signals. \<forall>g\<in>set r. vs_ID g = j \<longrightarrow> vs_Status g = SignalMissing) \<longleftrightarrow> (\<exists>g\<in>set r. vs_Status g = SignalMissing)"
proof
  assume "\<exists>j\<in>set signals. \<forall>g\<in>set r. vs_ID g = j \<longrightarrow> vs_Status g = SignalMissing"
  then show "\<exists>g\<in>set r. vs_Status g = SignalMissing" using report_signals [OF assms] by (metis imageE)
next
  assume "\<exists>g\<in>set r. vs_Status g = SignalMissing"
  then obtain g where g: "g \<in> set r" "vs_Status g = SignalMissing" by blast
  have "inj_on vs_ID (set r)" using validateVerificationReportD(1) [OF report_valid [OF assms]] by (simp add: distinct_map)
  then have "\<forall>h\<in>set r. vs_ID h = vs_ID g \<longrightarrow> vs_Status h = SignalMissing" using g by (metis inj_onD)
  then show "\<exists>j\<in>set signals. \<forall>g\<in>set r. vs_ID g = j \<longrightarrow> vs_Status g = SignalMissing"
    using g(1) report_signals [OF assms] by blast
qed

lemma verified_iff_fresh:
  assumes "verify q = Inr r" and "hl_VerificationSignals (mf_Health m) = signals"
  shows "evaluateVerification m r = Inr VerificationVerified \<longleftrightarrow> (\<forall>g\<in>set r. vs_Status g = SignalFresh)"
proof -
  have "(\<forall>g\<in>set r. vs_Status g = SignalFresh) \<longleftrightarrow>
      \<not> (\<exists>g\<in>set r. vs_Status g = SignalFailed) \<and> \<not> (\<exists>g\<in>set r. vs_Status g = SignalStale) \<and> \<not> (\<exists>g\<in>set r. vs_Status g = SignalMissing)"
    using validateVerificationReportD(2) [OF report_valid [OF assms(1)]] by (metis signal_status.exhaust signal_status.distinct(1,3,5))
  then show ?thesis using verdict_reached [OF assms] one_missing [OF assms(1)] by (simp add: signal_verdict_def assms(2))
qed

end

end
