(* ===== verification/DeviceRules.thy ===== *)
theory DeviceRules
  imports DeviceDriver DriverContract
begin

text \<open>
  The lemmas behind the properties of Device Watch: every text and token it emits passes the shared validation, every
  report has two well formed sources, a source is current only on fresh evidence, and the five signals of the driver
  are those of its manifest.
\<close>

section \<open>Tokens and texts\<close>

lemma coverage_token_patterns:
  "list_all tokenPattern
     [''device-watch'', ''device-watch.local-neighbor-cache'', ''host-neighbor-cache'', ''neighbor-cache'', ''arp-cache'', ''ndp-cache'',
      ''no-evidence'', ''invalid-evidence'', ''clock-skew'', ''stale-evidence'', ''source-partial'', ''fresh-limited'', ''source-unavailable'',
      ''sensor-disconnected'', ''sensor-stale'', ''sensor-degraded'', ''sensor-starting'',
      ''ingestion-latency'', ''ingestion-backpressure'', ''ingestion-sqlite-full'', ''ingestion-write-failed'', ''ingestion-closing'',
      ''ingestion-closed'', ''ingestion-unknown'', ''storage-filesystem-unknown'', ''storage-quota-pressure'', ''storage-quota-reached'',
      ''storage-filesystem-pressure'', ''storage-filesystem-full'', ''storage-unknown'', ''storage-storage-unavailable'',
      ''host-neighbor-cache-only'', ''isolated-segments-not-observed'', ''no-traffic-monitoring'', ''known-exclusion'',
      ''observation-point-limited'', ''scope-not-observed'', ''direction-not-observed'']"
  by (simp add: tokenPattern_def is_lower_alnum_def is_lower_def is_digit_def is_token_separator_def less_eq_char_def)

lemmas device_token = coverage_token_patterns [simplified] valid_coverage_token_def maxValueLength_def
lemmas device_text = plain_coverage_text printable_def coverage_limits

lemma blind_spots_valid:
  "length (map sharedDeviceWatchGap deviceWatchBlindSpots) \<le> maxGaps \<and>
   unique_by validateGap ga_ID (map sharedDeviceWatchGap deviceWatchBlindSpots)"
  by (simp add: unique_by_def deviceWatchBlindSpots_def sharedDeviceWatchGap_def Let_def validateGap_def device_token device_text
      validateDimensionList_def validateDirections_def validDirection_def)

section \<open>Every report is well formed\<close>

definition step_ok :: "string \<Rightarrow> bool" where
  "step_ok s = validate_coverage_text s maxNextStepLength"

definition verdict_ok :: "coverage_state \<times> string \<times> string \<Rightarrow> bool" where
  "verdict_ok v = (case v of (st, reason, step) \<Rightarrow>
     validState st \<and> st \<noteq> StateUnconfigured \<and> valid_coverage_token reason \<and> step_ok step)"

definition source_ok :: "coverage_source_detail \<Rightarrow> bool" where
  "source_ok d \<longleftrightarrow> (if sd_State d = CoverageSourceCurrent then sd_Observed d \<and> sd_NextStep d = [] else step_ok (sd_NextStep d))"

definition sources_ok :: "bool \<Rightarrow> coverage_source_detail list \<Rightarrow> bool" where
  "sources_ok evidence ds \<longleftrightarrow>
     map (\<lambda>d. (sd_ID d, sd_AddressFamily d)) ds = [(''arp-cache'', ''ipv4''), (''ndp-cache'', ''ipv6'')] \<and>
     (\<forall>d\<in>set ds. source_ok d \<and> (\<not> evidence \<longrightarrow> sd_State d \<noteq> CoverageSourceCurrent \<and> \<not> sd_Observed d))"

definition window_ok :: "coverage_report \<Rightarrow> bool" where
  "window_ok r \<longleftrightarrow> (dw_HasEvidence r \<longrightarrow> \<not> is_zero (dw_EvidenceAt r) \<and> \<not> is_zero (dw_FreshUntil r) \<and>
     \<not> before (dw_FreshUntil r) (dw_EvidenceAt r))"

definition report_ok :: "coverage_report \<Rightarrow> bool" where
  "report_ok r \<longleftrightarrow>
     validateValue (dw_ScopeID r) \<and> (dw_SensorID r \<noteq> [] \<longrightarrow> valid_coverage_token (dw_SensorID r)) \<and>
     (dw_InterfaceName r \<noteq> [] \<longrightarrow> validateValue (dw_InterfaceName r)) \<and>
     verdict_ok (dw_State r, dw_Reason r, dw_NextStep r) \<and> sources_ok (dw_HasEvidence r) (dw_Sources r) \<and>
     window_ok r \<and> dw_BlindSpots r = deviceWatchBlindSpots"

lemmas report_defs = verdict_ok_def step_ok_def validState_def device_token device_text

lemma verdicts_ok:
  "verdict_ok (StateUnverified, ''no-evidence'',
     ''Wait for the first Device Watch collection; if evidence does not appear, confirm the enrolled Mac is awake and Device Watch is enabled.'')"
  "verdict_ok (StateDegraded, ''invalid-evidence'',
     ''Restart the controller; if invalid Device Watch evidence persists, inspect local diagnostics before trusting coverage state.'')"
  "verdict_ok (StateDegraded, ''clock-skew'', ''Correct the controller clock before relying on Device Watch freshness.'')"
  "verdict_ok (StateStale, ''stale-evidence'',
     ''Wake or reconnect the enrolled Mac and confirm Device Watch is still enabled on the enrolled network.'')"
  "verdict_ok (StateDegraded, ''source-partial'', permission_step)"
  "verdict_ok (StateDegraded, ''source-partial'',
     ''Restore the unavailable neighbor source if dual-stack device visibility matters; Device Watch remains limited even when both sources are current.'')"
  "verdict_ok (StateActiveLimited, ''fresh-limited'', ''Use Traffic Watch rather than Device Watch when packet or flow visibility is required.'')"
  "verdict_ok (StateDegraded, ''source-unavailable'', permission_step)"
  "verdict_ok (StateDegraded, ''source-unavailable'',
     ''Check local ARP/NDP neighbor-table access on the enrolled Mac and confirm the interface still matches the enrolled network.'')"
  by (simp_all add: report_defs permission_step_def)

lemma plain_sources_ok:
  "sources_ok evidence missingCoverageSources" "sources_ok evidence unknownCoverageSources"
  by (simp_all add: sources_ok_def source_ok_def missingCoverageSources_def unknownCoverageSources_def plain_source_def
      method_text_def report_defs)

lemma current_sources_ok: "sources_ok True (currentCoverageSources ss)"
  by (auto simp: sources_ok_def source_ok_def currentCoverageSources_def coverageSourceDetail_def Let_def method_text_def report_defs)

lemma marked_sources_ok:
  assumes "sources_ok True ds" and "st \<noteq> CoverageSourceCurrent" and "step_ok step"
  shows "sources_ok True (map (\<lambda>d. d\<lparr>sd_State := st, sd_NextStep := step\<rparr>) ds)"
  using assms by (auto simp: sources_ok_def source_ok_def comp_def)

lemma marks_ok:
  "step_ok ''Correct the controller clock before relying on this source timestamp.''"
  "step_ok ''Wake or reconnect the enrolled Mac and confirm Device Watch is still enabled on this network.''"
  by (simp_all add: report_defs)

lemma conclude_report_ok:
  assumes "report_ok r" and "verdict_ok (st, reason, step)"
  shows "report_ok (conclude_report st reason step r)"
  using assms by (auto simp: report_ok_def conclude_report_def window_ok_def)

lemma mark_sources_ok:
  assumes "report_ok r" and "dw_HasEvidence r" and "st \<noteq> CoverageSourceCurrent" and "step_ok step"
  shows "report_ok (mark_sources st step r)"
  using assms marked_sources_ok [of "dw_Sources r" st step] by (auto simp: report_ok_def mark_sources_def window_ok_def)

lemma status_report_ok: "report_ok r \<Longrightarrow> report_ok (status_report status r)"
  by (auto simp: status_report_def intro!: conclude_report_ok verdicts_ok)

lemma no_evidence_report_ok: "validateValue scope \<Longrightarrow> report_ok (no_evidence_report scope)"
  by (simp add: report_ok_def no_evidence_report_def verdicts_ok plain_sources_ok window_ok_def)

lemma interface_name_value: "validateInterfaceName T s \<Longrightarrow> validateValue s"
  using interface_name_plain [of T s]
  by (auto simp: validateValue_def validateInterfaceName_def maxValueLength_def list_ex_iff)

text \<open>A sample as the collector writes it: an identifier that is a token, and an end later than the zero time.\<close>

definition sample_ok :: "coverage_sample \<Rightarrow> bool" where
  "sample_ok s \<longleftrightarrow> valid_coverage_token (cs_SensorID s) \<and> zero_wall < wall (cs_EndedAt s)"

lemma decoded_evidence_interface: "decodeCoverageEvidence T raw = Some e \<Longrightarrow> validateInterfaceName T (cv_Interface e)"
  by (auto simp: decodeCoverageEvidence_def split: option.splits if_splits)

lemma evidence_report_ok:
  assumes "validateValue scope" and "sample_ok sample"
  shows "report_ok (evidence_report T scope sample now)"
proof -
  define r where "r = (no_evidence_report scope)\<lparr>dw_HasEvidence := True, dw_SensorID := cs_SensorID sample,
    dw_EvidenceAt := strip (cs_EndedAt sample), dw_FreshUntil := time_add (strip (cs_EndedAt sample)) coverageFreshnessWindow\<rparr>"
  have window: "window_ok r"
    using assms(2)
    by (auto simp: window_ok_def r_def sample_ok_def is_zero_def before_wall coverageFreshnessWindow_def duration_units)
  have base: "report_ok (r\<lparr>dw_InterfaceName := n, dw_NeighborsInScope := k, dw_Sources := ds\<rparr>)"
    if "sources_ok True ds" "n \<noteq> [] \<longrightarrow> validateValue n" for ds n k
    using no_evidence_report_ok [OF assms(1)] assms(2) that window
    by (simp add: report_ok_def r_def window_ok_def sample_ok_def)
  have invalid: "report_ok (conclude_report StateDegraded ''invalid-evidence''
      ''Restart the controller; if invalid Device Watch evidence persists, inspect local diagnostics before trusting coverage state.''
      (r\<lparr>dw_Sources := unknownCoverageSources\<rparr>))"
    using base [OF plain_sources_ok(2), of "dw_InterfaceName r" "dw_NeighborsInScope r"] verdicts_ok(2)
    by (intro conclude_report_ok) (simp_all add: r_def no_evidence_report_def)
  show ?thesis
  proof (cases "decodeCoverageEvidence T (cs_Evidence sample)")
    case None
    with invalid show ?thesis by (simp add: evidence_report_def r_def Let_def)
  next
    case (Some e)
    let ?r = "r\<lparr>dw_InterfaceName := cv_Interface e, dw_NeighborsInScope := cv_NeighborsInScope e,
      dw_Sources := currentCoverageSources (cv_Sources e)\<rparr>"
    have ok: "report_ok ?r"
      using base [OF current_sources_ok [of "cv_Sources e"], of "cv_Interface e" "cv_NeighborsInScope e"]
        interface_name_value [OF decoded_evidence_interface [OF Some]] by simp
    have has: "dw_HasEvidence ?r" by (simp add: r_def)
    show ?thesis
      using Some invalid ok conclude_report_ok [OF mark_sources_ok [OF ok has _ marks_ok(1)] verdicts_ok(3)]
        conclude_report_ok [OF mark_sources_ok [OF ok has _ marks_ok(2)] verdicts_ok(4)] status_report_ok [OF ok]
      by (simp add: evidence_report_def r_def Let_def)
  qed
qed

lemma current_coverage_ok:
  assumes "CurrentCoverage T reader scope now = Inr r" and "validateValue scope"
    and "\<forall>latest sample. reader = Some latest \<longrightarrow> latest scope = Inr (Some sample) \<longrightarrow> sample_ok sample"
  shows "report_ok r"
  using assms
  by (auto simp: CurrentCoverage_def split: option.splits intro!: no_evidence_report_ok evidence_report_ok)

section \<open>Operational health\<close>

lemma sensor_step_ok: "sh_State (sensorHealth runtime now) \<noteq> OperationalCurrent \<Longrightarrow> step_ok (sh_NextStep (sensorHealth runtime now))"
  by (auto simp: sensorHealth_def sensorErrorNextStep_def Let_def report_defs split: option.splits if_splits)

lemma pipeline_verdict_ok:
  "ph_State (pipelineHealth h) \<noteq> OperationalCurrent \<Longrightarrow>
     verdict_ok (StateDegraded, ''ingestion-'' @ ph_Reason (pipelineHealth h), ph_NextStep (pipelineHealth h))"
  by (auto simp: pipelineHealth_def Let_def report_defs split: ingestion_health_state.splits if_splits)

lemma database_verdict_ok:
  "dh_State (databaseHealth h) \<noteq> OperationalCurrent \<Longrightarrow>
     verdict_ok (StateDegraded, ''storage-'' @ dh_Reason (databaseHealth h), dh_NextStep (databaseHealth h))"
  by (auto simp: databaseHealth_def Let_def report_defs split: storage_health_state.splits if_splits)

lemma no_storage_verdict_ok:
  "verdict_ok (StateDegraded, ''storage-'' @ ''storage-unavailable'', ''Restart the controller before relying on Device Watch storage health.'')"
  by (simp add: report_defs)

lemma sensor_verdicts_ok:
  assumes "step_ok step"
  shows "verdict_ok (StateDisconnected, ''sensor-disconnected'', step)" "verdict_ok (StateStale, ''sensor-stale'', step)"
    "verdict_ok (StateDegraded, ''sensor-degraded'', step)" "verdict_ok (StateUnverified, ''sensor-starting'', step)"
  using assms by (simp_all add: verdict_ok_def validState_def device_token)

text \<open>What the operational health of the driver promises to \<open>EffectiveCoverage\<close>.\<close>

definition health_ok :: "operational_health \<Rightarrow> bool" where
  "health_ok oh \<longleftrightarrow>
     (sh_State (oh_Sensor oh) \<noteq> OperationalCurrent \<longrightarrow> step_ok (sh_NextStep (oh_Sensor oh))) \<and>
     (ph_State (oh_Pipeline oh) \<noteq> OperationalCurrent \<longrightarrow>
        verdict_ok (StateDegraded, ''ingestion-'' @ ph_Reason (oh_Pipeline oh), ph_NextStep (oh_Pipeline oh))) \<and>
     (dh_State (oh_Database oh) \<noteq> OperationalCurrent \<longrightarrow>
        verdict_ok (StateDegraded, ''storage-'' @ dh_Reason (oh_Database oh), dh_NextStep (oh_Database oh)))"

lemma operational_health_ok:
  assumes "OperationalHealth d now = Inr oh"
  shows "health_ok oh"
proof -
  obtain runtime h db where oh: "oh = \<lparr>oh_Sensor = sensorHealth runtime (strip now), oh_Pipeline = pipelineHealth h, oh_Database = db\<rparr>"
    and db: "(\<exists>s. db = databaseHealth s) \<or> dh_State db = OperationalUnavailable \<and> dh_Reason db = ''storage-unavailable'' \<and>
      dh_NextStep db = ''Restart the controller before relying on Device Watch storage health.''"
    using assms by (auto simp: OperationalHealth_def Let_def split: option.splits)
  show ?thesis
    using db sensor_step_ok pipeline_verdict_ok database_verdict_ok no_storage_verdict_ok unfolding health_ok_def oh by fastforce
qed

lemma effective_coverage_ok:
  assumes "report_ok r" and "health_ok oh"
  shows "verdict_ok (EffectiveCoverage r oh)"
proof (cases "sh_State (oh_Sensor oh) = OperationalCurrent")
  case True
  with assms show ?thesis by (simp add: EffectiveCoverage_def Let_def health_ok_def report_ok_def)
next
  case False
  with assms(2) have "step_ok (sh_NextStep (oh_Sensor oh))" by (simp add: health_ok_def)
  note sensor_verdicts_ok [OF this]
  with False show ?thesis by (cases "sh_State (oh_Sensor oh)") (simp_all add: EffectiveCoverage_def Let_def)
qed

section \<open>The contract\<close>

lemma two_sources:
  assumes "sources_ok evidence ds"
  obtains a b where "ds = [a, b]" "sd_ID a = ''arp-cache''" "sd_AddressFamily a = ''ipv4''" "sd_ID b = ''ndp-cache''"
    "sd_AddressFamily b = ''ipv6''" "source_ok a" "source_ok b"
    "\<not> evidence \<longrightarrow> (\<forall>d\<in>{a, b}. sd_State d \<noteq> CoverageSourceCurrent \<and> \<not> sd_Observed d)"
  using assms unfolding sources_ok_def
  by (cases ds; cases "tl ds"; cases "tl (tl ds)") auto

lemma family_dimensions_two:
  "sd_AddressFamily a = ''ipv4'' \<Longrightarrow> sd_AddressFamily b = ''ipv6'' \<Longrightarrow>
   family_dimensions current [a, b] =
     (if (sd_State a = CoverageSourceCurrent) = current then [\<lparr>di_Kind = DimensionAddressFamily, di_Value = ''ipv4''\<rparr>] else []) @
     (if (sd_State b = CoverageSourceCurrent) = current then [\<lparr>di_Kind = DimensionAddressFamily, di_Value = ''ipv6''\<rparr>] else [])"
  by (auto simp: family_dimensions_def addressFamilyDimension_def map_filter_simps)

lemma family_values: "validateValue ''ipv4''" "validateValue ''ipv6''"
  by (simp_all add: validateValue_def plain_trimmed printable_def maxValueLength_def)

lemma coverage_scope_ok:
  assumes "report_ok r"
  shows "validateScope (deviceWatchCoverageScope r)"
proof -
  obtain a b where ds: "dw_Sources r = [a, b]" "sd_AddressFamily a = ''ipv4''" "sd_AddressFamily b = ''ipv6''"
    using two_sources [of "dw_HasEvidence r" "dw_Sources r"] assms unfolding report_ok_def by metis
  have named: "validateValue (dw_ScopeID r)" "dw_InterfaceName r \<noteq> [] \<longrightarrow> validateValue (dw_InterfaceName r)"
    using assms by (simp_all add: report_ok_def)
  show ?thesis
    using named family_values
    by (auto simp: validateScope_def deviceWatchCoverageScope_def ds family_dimensions_two Let_def validateDimensionList_def
        unique_by_def validDimensionKind_def maxDimensions_def)
qed

lemma shared_source_ok:
  assumes "source_ok d" and "valid_coverage_token (sd_ID d)"
  shows "validate_source \<lparr>so_ID = sd_ID d, so_Kind = ''neighbor-cache'', so_State = sharedSourceState (sd_State d), so_Expected = True,
    so_Observed = sd_Observed d, so_NextStep = sd_NextStep d\<rparr>"
proof -
  have "valid_coverage_token ''neighbor-cache''" by (simp add: device_token)
  with assms show ?thesis
    by (cases "sd_State d")
      (auto simp: validate_source_def source_ok_def sharedSourceState_def validSourceState_def step_ok_def)
qed

lemma coverage_point_ok:
  assumes "report_ok r" and "health_ok oh"
  shows "validateObservationPoint (coverage_point r oh)"
proof -
  obtain st reason step where v: "EffectiveCoverage r oh = (st, reason, step)" by (metis prod.exhaust)
  then have verdict: "verdict_ok (st, reason, step)" using effective_coverage_ok [OF assms] by simp
  obtain a b where ds: "dw_Sources r = [a, b]" "sd_ID a = ''arp-cache''" "sd_ID b = ''ndp-cache''" "source_ok a" "source_ok b"
    and fam: "sd_AddressFamily a = ''ipv4''" "sd_AddressFamily b = ''ipv6''"
    and none: "\<not> dw_HasEvidence r \<longrightarrow> (\<forall>d\<in>{a, b}. sd_State d \<noteq> CoverageSourceCurrent \<and> \<not> sd_Observed d)"
    using assms(1) two_sources [of "dw_HasEvidence r" "dw_Sources r"] unfolding report_ok_def by metis
  have ids: "valid_coverage_token (sd_ID a)" "valid_coverage_token (sd_ID b)" by (simp_all add: ds device_token)
  have sources: "validateSources (op_Sources (coverage_point r oh))"
    using shared_source_ok [OF ds(4) ids(1)] shared_source_ok [OF ds(5) ids(2)]
    by (simp add: coverage_point_def v ds validateSources_def unique_by_def maxSources_def)
  have shared: "sharedSourceState s = SourceCurrent \<longleftrightarrow> s = CoverageSourceCurrent" for s
    by (cases s) (simp_all add: sharedSourceState_def)
  have unclaimed: "\<not> evidence_claimed (coverage_point r oh)" if "\<not> dw_HasEvidence r"
    using none that by (simp add: evidence_claimed_def coverage_point_def v ds shared deviceWatchCoverageScope_def family_dimensions_two fam Let_def)
  have window: "validateWindow (op_Window (coverage_point r oh))"
    using assms(1) by (auto simp: coverage_point_def v validateWindow_def report_ok_def window_ok_def is_zero_def zero_time_def)
  have evidence: "ew_HasEvidence (op_Window (coverage_point r oh)) = dw_HasEvidence r"
    by (simp add: coverage_point_def v)
  have gaps: "length (op_Gaps (coverage_point r oh)) \<le> maxGaps \<and> unique_by validateGap ga_ID (op_Gaps (coverage_point r oh))"
    using blind_spots_valid assms(1) by (simp add: coverage_point_def v report_ok_def)
  have cadence: "validateCadence (op_Cadence (coverage_point r oh))"
    by (simp add: coverage_point_def v validateCadence_def defaultCollectionInterval_def duration_units)
  show ?thesis
    unfolding validateObservationPoint_def
    using sources unclaimed window evidence gaps cadence coverage_scope_ok [OF assms(1)] verdict assms(1)
    by (simp add: coverage_point_def v verdict_ok_def step_ok_def report_ok_def device_token validateDirections_def unique_by_def)
qed

lemma contract_accepted:
  assumes "CurrentCoverage T reader scope now = Inr r" and "OperationalHealth d later = Inr oh" and "validateValue scope"
    and "\<forall>latest sample. reader = Some latest \<longrightarrow> latest scope = Inr (Some sample) \<longrightarrow> sample_ok sample"
  shows "\<exists>c. CoverageContract r oh = Some c \<and> ValidateReport c \<and> map op_Scope (cr_ObservationPoints c) = [deviceWatchCoverageScope r]"
proof -
  have r: "report_ok r" using current_coverage_ok [OF assms(1,3,4)] .
  have oh: "health_ok oh" using operational_health_ok [OF assms(2)] .
  obtain st reason step where v: "EffectiveCoverage r oh = (st, reason, step)" by (metis prod.exhaust)
  have "verdict_ok (st, reason, step)" using effective_coverage_ok [OF r oh] v by simp
  moreover have "valid_coverage_token device_watch_ID" by (simp add: device_watch_ID_def device_token)
  ultimately have "ValidateSinglePointReport \<lparr>cr_CapabilityID = device_watch_ID, cr_Configured = True, cr_State = st, cr_Reason = reason,
      cr_ObservationPoints = [coverage_point r oh], cr_NextStep = step\<rparr>"
    using coverage_point_ok [OF r oh]
    by (simp add: ValidateSinglePointReport_def ValidateReport_def verdict_ok_def step_ok_def unique_by_def maxObservationPoints_def
        coverage_point_def v)
  moreover have "op_Scope (coverage_point r oh) = deviceWatchCoverageScope r" by (simp add: coverage_point_def v)
  ultimately show ?thesis by (auto simp: CoverageContract_def v ValidateSinglePointReport_def Let_def)
qed

section \<open>What is called verified\<close>

lemma source_by_method_available: "es_Available (source_by_method ss m) \<Longrightarrow> \<exists>s\<in>set ss. es_Available s \<and> es_Method s = m"
  by (auto simp: source_by_method_def find_Some_iff split: option.splits intro: nth_mem) (metis length_rev nth_mem set_rev)

lemma current_detail: "sd_State (coverageSourceDetail m family s observed) = CoverageSourceCurrent \<longleftrightarrow> es_Available s"
  by (simp add: coverageSourceDetail_def Let_def)

text \<open>The evidence behind a source that a report calls current.\<close>

definition fresh_sample :: "unicode_tables \<Rightarrow> 'e sample_reader \<Rightarrow> string \<Rightarrow> time \<Rightarrow> coverage_evidence \<Rightarrow> bool" where
  "fresh_sample T reader scope now e \<longleftrightarrow>
     (\<exists>latest sample. reader = Some latest \<and> latest scope = Inr (Some sample) \<and> decodeCoverageEvidence T (cs_Evidence sample) = Some e \<and>
        wall now - wall (cs_EndedAt sample) \<le> coverageFreshnessWindow \<and>
        wall (cs_EndedAt sample) \<le> wall now + coverageFutureTolerance)"

lemma status_report_sources: "dw_Sources (status_report status r) = dw_Sources r"
  by (simp add: status_report_def conclude_report_def)

lemma evidence_report_sources:
  assumes "d \<in> set (dw_Sources (evidence_report T scope sample now))" and "sd_State d = CoverageSourceCurrent"
  shows "\<exists>e. decodeCoverageEvidence T (cs_Evidence sample) = Some e \<and>
    dw_Sources (evidence_report T scope sample now) = currentCoverageSources (cv_Sources e) \<and>
    wall now - wall (cs_EndedAt sample) \<le> coverageFreshnessWindow \<and> wall (cs_EndedAt sample) \<le> wall now + coverageFutureTolerance"
proof (cases "decodeCoverageEvidence T (cs_Evidence sample)")
  case None
  with assms show ?thesis
    by (auto simp: evidence_report_def Let_def conclude_report_def unknownCoverageSources_def plain_source_def)
next
  case (Some e)
  have clamp: "int64_clamp x \<le> coverageFreshnessWindow \<longleftrightarrow> x \<le> coverageFreshnessWindow" for x
    by (subst int64_clamp_le_iff) (simp_all add: fits_int64_def int64_min_def int64_max_def coverageFreshnessWindow_def duration_units)
  have over: "coverageFreshnessWindow < int64_clamp x \<longleftrightarrow> coverageFreshnessWindow < x" for x
    using clamp [of x] by linarith
  from assms Some show ?thesis
    by (auto simp: evidence_report_def Let_def conclude_report_def mark_sources_def status_report_sources unknownCoverageSources_def
        plain_source_def after_wall time_sub_wall over not_less split: if_splits)
qed

lemma no_evidence_sources: "d \<in> set (dw_Sources (no_evidence_report scope)) \<Longrightarrow> sd_State d \<noteq> CoverageSourceCurrent"
  by (auto simp: no_evidence_report_def missingCoverageSources_def plain_source_def)

lemma current_source_fresh:
  assumes "CurrentCoverage T reader scope now = Inr r" and "d \<in> set (dw_Sources r)" and "sd_State d = CoverageSourceCurrent"
  shows "\<exists>e. fresh_sample T reader scope now e \<and> dw_Sources r = currentCoverageSources (cv_Sources e)"
proof -
  obtain latest sample where *: "reader = Some latest" "latest scope = Inr (Some sample)" "r = evidence_report T scope sample now"
    using assms no_evidence_sources [of d scope] by (auto simp: CurrentCoverage_def split: option.splits)
  with evidence_report_sources [of d T scope sample now] assms show ?thesis by (auto simp: fresh_sample_def)
qed

lemma verified_scope_fresh:
  assumes "CurrentCoverage T reader scope now = Inr r" and "CoverageContract r oh = Some c"
    and "p \<in> set (cr_ObservationPoints c)" and "di \<in> set (sc_Verified (op_Scope p))"
  shows "\<exists>e. fresh_sample T reader scope now e \<and>
    (\<exists>s\<in>set (cv_Sources e). es_Available s \<and>
       (di_Kind di = DimensionAddressFamily \<longrightarrow>
          es_Method s = (if di_Value di = ''ipv4'' then MethodARPCache else MethodNDPCache)))"
proof -
  have p: "op_Scope p = deviceWatchCoverageScope r"
    using assms(2,3) by (auto simp: CoverageContract_def coverage_point_def Let_def split: prod.splits if_splits)
  have some: "family_dimensions True (dw_Sources r) \<noteq> []"
    using assms(4) by (auto simp: p deviceWatchCoverageScope_def Let_def split: if_splits)
  then obtain d0 where d0: "d0 \<in> set (dw_Sources r)" "sd_State d0 = CoverageSourceCurrent"
    by (force simp: family_dimensions_def List.map_filter_def filter_empty_conv split: if_splits)
  from current_source_fresh [OF assms(1) d0] obtain e where e: "fresh_sample T reader scope now e"
    and src: "dw_Sources r = currentCoverageSources (cv_Sources e)" by blast
  define arp ndp where "arp = source_by_method (cv_Sources e) MethodARPCache" and "ndp = source_by_method (cv_Sources e) MethodNDPCache"
  have fam: "family_dimensions True (dw_Sources r) =
      (if es_Available arp then [\<lparr>di_Kind = DimensionAddressFamily, di_Value = ''ipv4''\<rparr>] else []) @
      (if es_Available ndp then [\<lparr>di_Kind = DimensionAddressFamily, di_Value = ''ipv6''\<rparr>] else [])"
    unfolding src currentCoverageSources_def arp_def ndp_def
    by (subst family_dimensions_two) (simp_all add: current_detail, simp_all add: coverageSourceDetail_def Let_def)
  have "di \<in> set (family_dimensions True (dw_Sources r)) \<or> di_Kind di \<noteq> DimensionAddressFamily"
    using assms(4) some by (auto simp: p deviceWatchCoverageScope_def Let_def split: if_splits)
  with some source_by_method_available [of "cv_Sources e" MethodARPCache] source_by_method_available [of "cv_Sources e" MethodNDPCache]
  have "\<exists>s\<in>set (cv_Sources e). es_Available s \<and> (di_Kind di = DimensionAddressFamily \<longrightarrow>
      es_Method s = (if di_Value di = ''ipv4'' then MethodARPCache else MethodNDPCache))"
    unfolding fam arp_def [symmetric] ndp_def [symmetric] by (auto split: if_splits)
  with e show ?thesis by blast
qed

section \<open>The driver and the lifecycle engine\<close>

text \<open>The verification signals of the shipped Device Watch manifest.\<close>

definition device_watch_signals :: "string list" where
  "device_watch_signals = [''network-scope-enrolled'', ''observation-freshness'', ''sensor-operational'', ''ingestion-health'', ''storage-health'']"

lemma device_ids: "list_all validateID (device_watch_signals @
    [''runtime-disable'', ''platform-supported'', ''scope-configured'', ''scope-enrolled'', ''scope-current''])"
  by (simp add: device_watch_signals_def validateID_def idPattern_def head_tail_match_def is_id_tail_def is_lower_alnum_def is_lower_def
      is_digit_def less_eq_char_def)

lemmas device_id = device_ids [unfolded device_watch_signals_def, simplified]

lemma printable_message: "list_all printable s \<Longrightarrow> length s \<le> 240 \<Longrightarrow> length s \<le> 240 \<and> \<not> hasUnsafeText s"
  using printable_safe by blast

lemma empty_message: "\<not> hasUnsafeText []"
  using printable_safe [of "[]"] by simp

lemmas device_message = printable_safe printable_def empty_message

lemma preflight_report_valid:
  "device_Preflight T d lookup inspect rq = Inr checks \<Longrightarrow> validatePreflightReport checks"
  by (auto simp: device_Preflight_def Let_def check_def validatePreflightReport_def unique_by_def device_id device_message
      split: if_splits option.splits scope_lookup.splits sum.splits)

lemma signal_simps [simp]: "vs_ID (signal i st m) = i" "vs_Status (signal i st m) = st" "vs_Message (signal i st m) = m"
  by (simp_all add: signal_def)

lemma signal_IDs [simp]:
  "vs_ID (sensorVerificationSignal sh) = ''sensor-operational''" "vs_ID (pipelineVerificationSignal ph) = ''ingestion-health''"
  "vs_ID (databaseVerificationSignal dh) = ''storage-health''" "vs_ID (observation_signal r) = ''observation-freshness''"
  by (simp_all add: sensorVerificationSignal_def pipelineVerificationSignal_def databaseVerificationSignal_def observation_signal_def
      split: operational_state.splits coverage_state.splits)

definition message_ok :: "verification_signal \<Rightarrow> bool" where
  "message_ok g \<longleftrightarrow> (\<forall>x. vs_Status g \<noteq> SignalOther x) \<and> length (vs_Message g) \<le> 240 \<and> \<not> hasUnsafeText (vs_Message g)"

lemma signal_messages:
  "message_ok (sensorVerificationSignal sh)" "message_ok (pipelineVerificationSignal ph)"
  "message_ok (databaseVerificationSignal dh)" "message_ok (observation_signal r)"
  by (auto simp: message_ok_def sensorVerificationSignal_def pipelineVerificationSignal_def databaseVerificationSignal_def observation_signal_def
      device_message split: operational_state.splits coverage_state.splits)

lemma signals_fresh [simp]:
  "vs_Status (sensorVerificationSignal sh) = SignalFresh \<longleftrightarrow> sh_State sh = OperationalCurrent"
  "vs_Status (pipelineVerificationSignal ph) = SignalFresh \<longleftrightarrow> ph_State ph = OperationalCurrent"
  "vs_Status (databaseVerificationSignal dh) = SignalFresh \<longleftrightarrow> dh_State dh = OperationalCurrent"
  "vs_Status (observation_signal r) = SignalFresh \<longleftrightarrow> dw_State r = StateActiveLimited"
  by (simp_all add: sensorVerificationSignal_def pipelineVerificationSignal_def databaseVerificationSignal_def observation_signal_def
      split: operational_state.splits coverage_state.splits)

text \<open>The report of the driver, as the five signals it always has.\<close>

lemma device_Verify_report:
  assumes "device_Verify T d lookup inspect reader now rq = Inr report"
  obtains oh scope_status observation where "OperationalHealth d now = Inr oh"
    "report = [signal ''network-scope-enrolled'' scope_status [], observation, sensorVerificationSignal (oh_Sensor oh),
       pipelineVerificationSignal (oh_Pipeline oh), databaseVerificationSignal (oh_Database oh)]"
    "vs_ID observation = ''observation-freshness''" "message_ok observation" "scope_status \<in> {SignalFresh, SignalMissing}"
    "scope_status = SignalFresh \<and> vs_Status observation = SignalFresh \<longleftrightarrow>
       (\<exists>scope m b st r. scopeIDFromConfiguration (dq_Configuration rq) = Some scope \<and> lookup scope = ScopeFound m \<and>
          parsed_binding T m = Some b \<and> ValidateCurrentScope T inspect b = Inr st \<and> CurrentCoverage T reader scope (strip now) = Inr r \<and>
          dw_State r = StateActiveLimited)"
proof -
  let ?missing = "signal ''observation-freshness'' SignalMissing ''no current Device Watch coverage evidence is available''"
  have missing: "message_ok ?missing" by (simp add: message_ok_def device_message)
  obtain oh where oh: "OperationalHealth d now = Inr oh" using assms by (auto simp: device_Verify_def)
  show ?thesis
  proof (cases "\<exists>scope m. scopeIDFromConfiguration (dq_Configuration rq) = Some scope \<and> lookup scope = ScopeFound m")
    case False
    then have "report = [signal ''network-scope-enrolled'' SignalMissing [], ?missing, sensorVerificationSignal (oh_Sensor oh),
       pipelineVerificationSignal (oh_Pipeline oh), databaseVerificationSignal (oh_Database oh)]"
      using assms oh by (auto simp: device_Verify_def Let_def split: option.splits scope_lookup.splits)
    with that [OF oh this] missing False show ?thesis by auto
  next
    case True
    then obtain scope m where sc: "scopeIDFromConfiguration (dq_Configuration rq) = Some scope" "lookup scope = ScopeFound m" by blast
    let ?status = "case parsed_binding T m of None \<Rightarrow> SignalMissing
      | Some b \<Rightarrow> (case ValidateCurrentScope T inspect b of Inr _ \<Rightarrow> SignalFresh | Inl _ \<Rightarrow> SignalMissing)"
    obtain r where r: "CurrentCoverage T reader scope (strip now) = Inr r"
      "report = [signal ''network-scope-enrolled'' ?status [], observation_signal r, sensorVerificationSignal (oh_Sensor oh),
       pipelineVerificationSignal (oh_Pipeline oh), databaseVerificationSignal (oh_Database oh)]"
      using assms oh sc by (auto simp: device_Verify_def coverageVerificationSignal_def Let_def)
    have "?status \<in> {SignalFresh, SignalMissing}" by (simp split: option.splits sum.splits)
    moreover have "?status = SignalFresh \<longleftrightarrow> (\<exists>b st. parsed_binding T m = Some b \<and> ValidateCurrentScope T inspect b = Inr st)"
      by (simp split: option.splits sum.splits)
    ultimately show ?thesis using that [OF oh r(2)] signal_messages(4) [of r] sc r(1) by auto
  qed
qed


lemma message_ok_known:
  "message_ok g \<longleftrightarrow> (case vs_Status g of SignalOther _ \<Rightarrow> False | _ \<Rightarrow> True) \<and> length (vs_Message g) \<le> 240 \<and> \<not> hasUnsafeText (vs_Message g)"
  by (auto simp: message_ok_def split: signal_status.splits)

lemma device_report_valid:
  assumes "device_Verify T d lookup inspect reader now rq = Inr report"
  shows "validateVerificationReport report \<and> vs_ID ` set report = set device_watch_signals"
proof -
  obtain oh :: operational_health and scope_status and observation :: verification_signal where report:
    "report = [signal ''network-scope-enrolled'' scope_status [], observation, sensorVerificationSignal (oh_Sensor oh),
       pipelineVerificationSignal (oh_Pipeline oh), databaseVerificationSignal (oh_Database oh)]"
    and obs: "vs_ID observation = ''observation-freshness''" "message_ok observation" "scope_status \<in> {SignalFresh, SignalMissing}"
    using device_Verify_report [OF assms] by metis
  have "map vs_ID report = device_watch_signals" by (simp add: report obs device_watch_signals_def)
  moreover have "list_all (\<lambda>g. validateID (vs_ID g) \<and> message_ok g) report"
    using obs(3) by (auto simp: report obs signal_messages device_id) (simp_all add: message_ok_def empty_message)
  moreover have "distinct device_watch_signals" by (simp add: device_watch_signals_def)
  ultimately show ?thesis
    by (simp add: validateVerificationReport_def unique_by_def message_ok_known flip: set_map)
qed

lemma effective_active:
  "fst (EffectiveCoverage r oh) = StateActiveLimited \<longleftrightarrow>
     sh_State (oh_Sensor oh) = OperationalCurrent \<and> ph_State (oh_Pipeline oh) = OperationalCurrent \<and>
     dh_State (oh_Database oh) = OperationalCurrent \<and> dw_State r = StateActiveLimited"
  by (auto simp: EffectiveCoverage_def Let_def split: operational_state.splits)

interpretation dw: reporting_driver "device_Verify T d lookup inspect reader now" device_watch_signals
  for T d lookup inspect reader now
  by unfold_locales (use device_report_valid in blast)+

lemma verified_iff_active:
  assumes "device_Verify T d lookup inspect reader now rq = Inr report"
    and "hl_VerificationSignals (mf_Health m) = device_watch_signals"
  shows "evaluateVerification m report = Inr VerificationVerified \<longleftrightarrow>
    (\<exists>scope e b st r oh. scopeIDFromConfiguration (dq_Configuration rq) = Some scope \<and> lookup scope = ScopeFound e \<and>
       parsed_binding T e = Some b \<and> ValidateCurrentScope T inspect b = Inr st \<and>
       CurrentCoverage T reader scope (strip now) = Inr r \<and> OperationalHealth d now = Inr oh \<and>
       fst (EffectiveCoverage r oh) = StateActiveLimited)"
proof -
  obtain oh scope_status observation where oh: "OperationalHealth d now = Inr oh" and
    report: "report = [signal ''network-scope-enrolled'' scope_status [], observation, sensorVerificationSignal (oh_Sensor oh),
       pipelineVerificationSignal (oh_Pipeline oh), databaseVerificationSignal (oh_Database oh)]"
    and obs: "vs_ID observation = ''observation-freshness''" "message_ok observation" "scope_status \<in> {SignalFresh, SignalMissing}"
    and fresh: "scope_status = SignalFresh \<and> vs_Status observation = SignalFresh \<longleftrightarrow>
       (\<exists>scope m b st r. scopeIDFromConfiguration (dq_Configuration rq) = Some scope \<and> lookup scope = ScopeFound m \<and>
          parsed_binding T m = Some b \<and> ValidateCurrentScope T inspect b = Inr st \<and> CurrentCoverage T reader scope (strip now) = Inr r \<and>
          dw_State r = StateActiveLimited)"
    using device_Verify_report [OF assms(1)] by metis
  have "evaluateVerification m report = Inr VerificationVerified \<longleftrightarrow> (\<forall>g\<in>set report. vs_Status g = SignalFresh)"
    by (rule dw.verified_iff_fresh [OF assms])
  moreover have "(\<forall>g\<in>set report. vs_Status g = SignalFresh) \<longleftrightarrow>
      (scope_status = SignalFresh \<and> vs_Status observation = SignalFresh) \<and> sh_State (oh_Sensor oh) = OperationalCurrent \<and>
      ph_State (oh_Pipeline oh) = OperationalCurrent \<and> dh_State (oh_Database oh) = OperationalCurrent"
    unfolding report by auto
  ultimately show ?thesis unfolding fresh effective_active using oh by auto
qed

end
