(* ===== verification/DeviceProps.thy ===== *)
theory DeviceProps
  imports DeviceRules
begin

text \<open>
  What holds of Device Watch, on a running example of an enrolled Mac.  Its coverage contract always passes the shared
  validation, nothing is called verified without fresh evidence, the reports of its driver are well formed for the
  lifecycle engine, and the engine finds it verified exactly when its effective coverage is active.
\<close>

section \<open>A running example\<close>

text \<open>An enrolled Mac whose last sample, with both neighbour caches readable, is a minute old.\<close>

definition watch_tables :: unicode_tables where
  "watch_tables = \<lparr>ut_letter = (\<lambda>_. False), ut_lower = (\<lambda>_. False), ut_digit = (\<lambda>_. False)\<rparr>"

definition watch_time :: "int \<Rightarrow> time" where "watch_time s = \<lparr>wall = s * second, mono_at = None\<rparr>"

definition watch_evidence :: coverage_evidence where
  "watch_evidence =
     \<lparr>cv_SchemaVersion = 2, cv_Interface = ''en0'',
      cv_Sources = [\<lparr>es_Method = MethodARPCache, es_Available = True, es_PermissionRequired = False\<rparr>,
        \<lparr>es_Method = MethodNDPCache, es_Available = True, es_PermissionRequired = False\<rparr>],
      cv_NeighborsInScope = 3, cv_ObservationsInserted = 1, cv_ObservationsDeduplicated = 2,
      cv_WholeNetworkTrafficVisible = False, cv_Limitations = [''local cache only'']\<rparr>"

definition watch_sample :: coverage_sample where
  "watch_sample = \<lparr>cs_SensorID = ''device-watch'', cs_Status = ''partial'', cs_EndedAt = watch_time 100, cs_SchemaVersion = 2,
     cs_Evidence = Some watch_evidence\<rparr>"

definition watch_reader :: "unit sample_reader" where "watch_reader = Some (\<lambda>_. Inr (Some watch_sample))"

definition watch_storage :: storage_health where
  "watch_storage = \<lparr>th_State = HealthCurrent, th_QuotaState = HealthCurrent, th_DatabaseBytes = 4096, th_UsedBytes = 4096, th_ReusableBytes = 0,
     th_MaxBytes = 40960, th_Filesystem = classifyFilesystemCapacity False 0 0\<rparr>"

definition watch_driver :: "unit device_driver" where
  "watch_driver =
     \<lparr>dd_platform = ''darwin'',
      dd_runtime = Some (\<lparr>rs_Running = True, rs_ScopeID = ''home'', rs_LastAttemptAt = watch_time 100, rs_LastSuccessfulAt = watch_time 100,
        rs_LastErrorClass = []\<rparr>, closed_health\<lparr>ih_State := IngestionHealthCurrent\<rparr>),
      dd_storeHealth = Some (Inr watch_storage)\<rparr>"

definition watch_binding :: scope_binding where
  "watch_binding = \<lparr>sb_InterfaceName = ''en0'', sb_InterfaceIndex = 4, sb_Prefixes = [''10.0.0.0/8'']\<rparr>"

definition watch_interface :: interface_state where
  "watch_interface = \<lparr>is_Name = ''en0'', is_Index = 4, is_Up = True, is_Loopback = False, is_PointToPoint = False,
     is_Prefixes = [\<lparr>p_Addr = Addr4 0x0a000001, p_Bits = 8\<rparr>]\<rparr>"

definition watch_lookup :: "string \<Rightarrow> unit scope_lookup" where "watch_lookup _ = ScopeFound (Some watch_binding)"

definition watch_inspect :: inspector where "watch_inspect _ = Some watch_interface"

definition watch_manifest :: manifest where
  "watch_manifest = bench_manifest\<lparr>mf_Health := \<lparr>hl_ProcessRequired = False, hl_VerificationSignals = device_watch_signals,
     hl_CoverageRequiresVerification = True\<rparr>\<rparr>"

definition watch_request :: driver_request where
  "watch_request = \<lparr>dq_Manifest = watch_manifest,
     dq_Configuration = bench_configuration\<lparr>co_Values := [(''network_scope_id'', ValueString ''home'')]\<rparr>,
     dq_Ownership = OwnershipBuiltin, dq_Action = ActionVerify\<rparr>"

lemma watch_name: "validateInterfaceName watch_tables ''en0''"
proof -
  have "runes (bytes_of ''en0'') = map of_char ''en0''" by (rule runes_printable) (simp add: printable_def)
  moreover have "trimmed ''en0''" using plain_text [of "''en0''" 3] by (simp add: printable_def validateText_def)
  ultimately show ?thesis by (simp add: validateInterfaceName_def IsLetter_def IsDigit_def IsControl_def IsSpace_def)
qed

lemma watch_decoded: "decodeCoverageEvidence watch_tables (Some watch_evidence) = Some watch_evidence"
proof -
  have "trimmed ''local cache only''" using plain_text [of "''local cache only''" 16] by (simp add: printable_def validateText_def)
  then show ?thesis
    by (simp add: decodeCoverageEvidence_def watch_evidence_def watch_name counters_ok_def MaxNeighborEntries_def unique_by_def)
qed

lemma watch_prefix: "ParsePrefix ''10.0.0.0/8'' = Some \<lparr>p_Addr = Addr4 0x0a000000, p_Bits = 8\<rparr>"
  by code_simp

lemma watch_masked:
  "Masked \<lparr>p_Addr = Addr4 0x0a000001, p_Bits = 8\<rparr> = \<lparr>p_Addr = Addr4 0x0a000000, p_Bits = 8\<rparr>"
  "Masked \<lparr>p_Addr = Addr4 0x0a000000, p_Bits = 8\<rparr> = \<lparr>p_Addr = Addr4 0x0a000000, p_Bits = 8\<rparr>"
  "usablePrefix \<lparr>p_Addr = Addr4 0x0a000000, p_Bits = 8\<rparr>" "usablePrefix \<lparr>p_Addr = Addr4 0x0a000001, p_Bits = 8\<rparr>"
  "\<not> IsLinkLocalUnicast (Addr4 0x0a000000)"
  by code_simp+

lemma watch_prefix_string: "prefix_string \<lparr>p_Addr = Addr4 0x0a000000, p_Bits = 8\<rparr> = ''10.0.0.0/8''"
  by code_simp

lemma watch_binding_valid: "ValidateScopeBinding watch_tables watch_binding"
  by (simp add: ValidateScopeBinding_def watch_binding_def watch_name unique_by_def enrolled_text_ok_def watch_prefix watch_masked)

lemma watch_current: "ValidateCurrentScope watch_tables watch_inspect watch_binding = Inr watch_interface"
  using watch_binding_valid
  by (simp add: ValidateCurrentScope_def watch_binding_def watch_inspect_def watch_interface_def validateInterfaceState_def watch_name
      canonicalUsablePrefixes_def watch_masked watch_prefix_string Let_def guard_def)

definition watch_report :: coverage_report where
  "watch_report = evidence_report watch_tables ''home'' watch_sample (watch_time 160)"

definition watch_health :: operational_health where
  "watch_health = (case OperationalHealth watch_driver (watch_time 160) of Inr oh \<Rightarrow> oh)"

lemma watch_time_simps [simp]: "strip (watch_time s) = watch_time s" "wall (watch_time s) = s * second"
  by (simp_all add: watch_time_def strip_def)

lemma watch_clock:
  "\<not> after (watch_time 100) (time_add (watch_time 160) coverageFutureTolerance)"
  "\<not> coverageFreshnessWindow < time_sub (watch_time 160) (watch_time 100)"
  "\<not> is_zero (watch_time 100)" "zero_wall < wall (watch_time 100)"
  by (code_simp)+

lemma watch_coverage: "CurrentCoverage watch_tables watch_reader ''home'' (watch_time 160) = Inr watch_report"
  by (simp add: CurrentCoverage_def watch_reader_def watch_report_def)

lemma watch_evidence_facts:
  "cv_SchemaVersion watch_evidence = 2" "coverageStatusConsistent ''partial'' (cv_Sources watch_evidence)"
  "\<not> hasUnavailableCoverageSource (currentCoverageSources (cv_Sources watch_evidence))"
  by (simp_all add: watch_evidence_def coverageStatusConsistent_def hasUnavailableCoverageSource_def currentCoverageSources_def
      coverageSourceDetail_def source_by_method_def Let_def)

lemma watch_report_current:
  "dw_State watch_report = StateActiveLimited" "dw_Sources watch_report = currentCoverageSources (cv_Sources watch_evidence)"
  "dw_InterfaceName watch_report = ''en0''"
  using watch_clock
  by (simp_all add: watch_report_def evidence_report_def watch_sample_def watch_decoded Let_def watch_evidence_facts
      status_report_def conclude_report_def) (simp add: watch_evidence_def)

lemma watch_healthy: "OperationalHealth watch_driver (watch_time 160) = Inr watch_health"
  by (simp add: watch_health_def OperationalHealth_def watch_driver_def Let_def)

lemma watch_health_current:
  "sh_State (oh_Sensor watch_health) = OperationalCurrent" "ph_State (oh_Pipeline watch_health) = OperationalCurrent"
  "dh_State (oh_Database watch_health) = OperationalCurrent"
  using watch_clock
  by (simp_all add: watch_health_def OperationalHealth_def watch_driver_def Let_def sensorHealth_def pipelineHealth_def databaseHealth_def watch_storage_def
      classifyFilesystemCapacity_def)

lemma watch_sample_ok: "sample_ok watch_sample"
  using watch_clock(4) by (simp add: sample_ok_def watch_sample_def device_token)

lemma watch_scope_value: "validateValue ''home''"
proof -
  have "trimmed ''home''" using plain_text [of "''home''" 4] by (simp add: printable_def validateText_def)
  then show ?thesis by (simp add: validateValue_def maxValueLength_def)
qed

lemma watch_verified: "\<lparr>di_Kind = DimensionAddressFamily, di_Value = ''ipv6''\<rparr> \<in> set (sc_Verified (deviceWatchCoverageScope watch_report))"
  by (simp add: deviceWatchCoverageScope_def watch_report_current family_dimensions_def currentCoverageSources_def watch_evidence_def
      source_by_method_def coverageSourceDetail_def Let_def addressFamilyDimension_def List.map_filter_def)

lemma watch_request_scope: "scopeIDFromConfiguration (dq_Configuration watch_request) = Some ''home''"
  by (simp add: watch_request_def scopeIDFromConfiguration_def)

lemma watch_verify:
  "\<exists>report. device_Verify watch_tables watch_driver watch_lookup watch_inspect watch_reader (watch_time 160) watch_request = Inr report"
  by (simp add: device_Verify_def watch_healthy Let_def watch_request_scope watch_lookup_def coverageVerificationSignal_def watch_coverage)

lemma watch_manifest_signals: "hl_VerificationSignals (mf_Health watch_manifest) = device_watch_signals"
  by (simp add: watch_manifest_def)

section \<open>Properties\<close>



text \<open>
  C17: nothing is called verified without fresh evidence.  If a dimension (network, interface or address family)
  is in the verified part of the scope of the contract, the latest sample of that network decodes, ended at most three
  minutes before and at most one minute after the clock, and lists an available neighbour cache; an address family is
  verified by the cache of that family itself.
\<close>

theorem verified_scope_needs_fresh_evidence:
  assumes "CurrentCoverage T reader scope now = Inr r" and "CoverageContract r oh = Some c"
    and "p \<in> set (cr_ObservationPoints c)" and "di \<in> set (sc_Verified (op_Scope p))"
  shows "\<exists>e. fresh_sample T reader scope now e \<and>
    (\<exists>s\<in>set (cv_Sources e). es_Available s \<and>
       (di_Kind di = DimensionAddressFamily \<longrightarrow>
          es_Method s = (if di_Value di = ''ipv4'' then MethodARPCache else MethodNDPCache)))"
  using assms by (rule verified_scope_fresh)

theorem verified_scope_needs_fresh_evidence_witness:
  "\<exists>e s. fresh_sample watch_tables watch_reader ''home'' (watch_time 160) e \<and> s \<in> set (cv_Sources e) \<and> es_Available s \<and>
     es_Method s = MethodNDPCache"
proof -
  obtain c where c: "CoverageContract watch_report watch_health = Some c"
    "map op_Scope (cr_ObservationPoints c) = [deviceWatchCoverageScope watch_report]"
    using contract_accepted [OF watch_coverage watch_healthy watch_scope_value] watch_sample_ok by (auto simp: watch_reader_def)
  then obtain p where "p \<in> set (cr_ObservationPoints c)" "op_Scope p = deviceWatchCoverageScope watch_report" by auto
  with verified_scope_needs_fresh_evidence [OF watch_coverage c(1), of p "\<lparr>di_Kind = DimensionAddressFamily, di_Value = ''ipv6''\<rparr>"]
    watch_verified show ?thesis by auto
qed

text \<open>
  C19: the engine's verdict and the coverage contract agree.  On the report of the driver the engine concludes
  \<open>verified\<close> exactly when the configured scope is enrolled, parses and matches the current interface, and the
  effective coverage of that scope, from the same sample and the same health, is active.
\<close>

theorem device_verified_iff_active:
  assumes "device_Verify T d lookup inspect reader now rq = Inr report"
    and "hl_VerificationSignals (mf_Health m) = device_watch_signals"
  shows "evaluateVerification m report = Inr VerificationVerified \<longleftrightarrow>
    (\<exists>scope e b st r oh. scopeIDFromConfiguration (dq_Configuration rq) = Some scope \<and> lookup scope = ScopeFound e \<and>
       parsed_binding T e = Some b \<and> ValidateCurrentScope T inspect b = Inr st \<and>
       CurrentCoverage T reader scope (strip now) = Inr r \<and> OperationalHealth d now = Inr oh \<and>
       fst (EffectiveCoverage r oh) = StateActiveLimited)"
  using assms by (rule verified_iff_active)

theorem device_verified_iff_active_witness:
  "\<exists>report. device_Verify watch_tables watch_driver watch_lookup watch_inspect watch_reader (watch_time 160) watch_request = Inr report \<and>
     evaluateVerification watch_manifest report = Inr VerificationVerified"
proof -
  obtain report where r: "device_Verify watch_tables watch_driver watch_lookup watch_inspect watch_reader (watch_time 160) watch_request = Inr report"
    using watch_verify by blast
  have "fst (EffectiveCoverage watch_report watch_health) = StateActiveLimited"
    by (simp add: effective_active watch_health_current watch_report_current)
  moreover have "watch_lookup ''home'' = ScopeFound (Some watch_binding)" "parsed_binding watch_tables (Some watch_binding) = Some watch_binding"
    using watch_binding_valid by (simp_all add: watch_lookup_def parsed_binding_def)
  ultimately show ?thesis
    using r device_verified_iff_active [OF r watch_manifest_signals] watch_request_scope watch_current watch_coverage watch_healthy
    by (metis watch_time_simps(1))
qed

end
