(* ===== verification/IngestionRules.thy ===== *)
theory IngestionRules
  imports Ingestion
begin

text \<open>
  The invariants of the ingestor.
\<close>

section \<open>Counting program points\<close>

lemma filter_update_length:
  "i < length xs \<Longrightarrow>
     length (filter P (xs[i := p])) + (if P (xs ! i) then 1 else 0) = length (filter P xs) + (if P p then 1 else 0)"
proof (induction xs arbitrary: i)
  case Nil
  then show ?case by simp
next
  case (Cons x xs)
  then show ?case by (cases i) auto
qed

lemma sum_list_update_nat:
  "i < length xs \<Longrightarrow> sum_list (map f (xs[i := p])) + f (xs ! i) = sum_list (map f xs) + (f p :: nat)"
proof (induction xs arbitrary: i)
  case Nil
  then show ?case by simp
next
  case (Cons x xs)
  then show ?case by (cases i) auto
qed

section \<open>Program points\<close>

definition sent_point :: "submitter \<Rightarrow> bool" where
  "sent_point p \<longleftrightarrow> p \<in> {SubmitTrack, SubmitCount, SubmitRelease, SubmitDone None, SubmitReturned None}"

definition tracked_point :: "submitter \<Rightarrow> bool" where
  "tracked_point p \<longleftrightarrow> p \<in> {SubmitCount, SubmitRelease, SubmitDone None, SubmitReturned None}"

definition counted_point :: "submitter \<Rightarrow> bool" where
  "counted_point p \<longleftrightarrow> p \<in> {SubmitRelease, SubmitDone None, SubmitReturned None}"

definition released_point :: "submitter \<Rightarrow> bool" where
  "released_point p \<longleftrightarrow> p \<in> {SubmitDone None, SubmitReturned None}"

definition active_point :: "submitter \<Rightarrow> bool" where
  "active_point p = (case p of SubmitReturned _ \<Rightarrow> False | _ \<Rightarrow> True)"

lemma sent_points [simp]:
  "\<not> sent_point (SubmitSend item nb)" "sent_point SubmitTrack" "sent_point SubmitCount" "sent_point SubmitRelease"
  "\<not> sent_point (DropCount kind reason)" "\<not> sent_point (DropEpisode kind reason dropped)" "\<not> sent_point (DropRecord kind reason dropped)"
  "sent_point (SubmitDone e) \<longleftrightarrow> e = None" "sent_point (SubmitReturned e) \<longleftrightarrow> e = None"
  by (simp_all add: sent_point_def)

lemma released_points [simp]:
  "\<not> released_point (SubmitSend item nb)" "\<not> released_point SubmitTrack" "\<not> released_point SubmitCount" "\<not> released_point SubmitRelease"
  "\<not> released_point (DropCount kind reason)" "\<not> released_point (DropEpisode kind reason dropped)"
  "\<not> released_point (DropRecord kind reason dropped)"
  "released_point (SubmitDone e) \<longleftrightarrow> e = None" "released_point (SubmitReturned e) \<longleftrightarrow> e = None"
  by (simp_all add: released_point_def)

lemma active_points [simp]: "active_point p \<longleftrightarrow> (\<forall>e. p \<noteq> SubmitReturned e)"
  by (simp add: active_point_def split: submitter.splits)

lemma counted_points [simp]:
  "\<not> counted_point (SubmitSend item nb)" "\<not> counted_point SubmitTrack" "\<not> counted_point SubmitCount" "counted_point SubmitRelease"
  "\<not> counted_point (DropCount kind reason)" "\<not> counted_point (DropEpisode kind reason dropped)"
  "\<not> counted_point (DropRecord kind reason dropped)"
  "counted_point (SubmitDone e) \<longleftrightarrow> e = None" "counted_point (SubmitReturned e) \<longleftrightarrow> e = None"
  by (simp_all add: counted_point_def)

definition dropped_point :: "submitter \<Rightarrow> bool" where
  "dropped_point p = (case p of DropEpisode _ _ _ \<Rightarrow> True | DropRecord _ _ _ \<Rightarrow> True | SubmitDone (Some _) \<Rightarrow> True
     | SubmitReturned (Some _) \<Rightarrow> True | _ \<Rightarrow> False)"

lemma dropped_points [simp]:
  "\<not> dropped_point (SubmitSend item nb)" "\<not> dropped_point SubmitTrack" "\<not> dropped_point SubmitCount" "\<not> dropped_point SubmitRelease"
  "\<not> dropped_point (DropCount kind reason)" "dropped_point (DropEpisode kind reason dropped)"
  "dropped_point (DropRecord kind reason dropped)"
  "dropped_point (SubmitDone e) \<longleftrightarrow> e \<noteq> None" "dropped_point (SubmitReturned e) \<longleftrightarrow> e \<noteq> None"
  by (simp_all add: dropped_point_def split: option.splits)

lemma tracked_points [simp]:
  "\<not> tracked_point (SubmitSend item nb)" "\<not> tracked_point SubmitTrack" "tracked_point SubmitCount" "tracked_point SubmitRelease"
  "\<not> tracked_point (DropCount kind reason)" "\<not> tracked_point (DropEpisode kind reason dropped)"
  "\<not> tracked_point (DropRecord kind reason dropped)"
  "tracked_point (SubmitDone e) \<longleftrightarrow> e = None" "tracked_point (SubmitReturned e) \<longleftrightarrow> e = None"
  by (simp_all add: tracked_point_def)

lemmas points = sent_point_def tracked_point_def counted_point_def released_point_def active_point_def

definition in_worker :: "worker \<Rightarrow> nat list" where
  "in_worker p =
     (case p of WorkerAwait i _ \<Rightarrow> [i] | WorkerProcess i _ _ \<Rightarrow> [i] | WorkerLatency i _ _ _ _ \<Rightarrow> [i] | WorkerCount i _ _ \<Rightarrow> [i]
      | WorkerEpisode i _ _ _ \<Rightarrow> [i] | WorkerRecord i _ _ _ _ \<Rightarrow> [i] | WorkerPublish i _ \<Rightarrow> [i] | _ \<Rightarrow> [])"

definition resulted :: "worker \<Rightarrow> nat" where
  "resulted p = (case p of WorkerEpisode _ _ _ _ \<Rightarrow> 1 | WorkerRecord _ _ _ _ _ \<Rightarrow> 1 | WorkerPublish _ _ \<Rightarrow> 1 | _ \<Rightarrow> 0)"

definition awaiting :: "worker \<Rightarrow> bool" where
  "awaiting p = (case p of WorkerAwait _ _ \<Rightarrow> True | _ \<Rightarrow> False)"

definition leaving :: "worker \<Rightarrow> bool" where
  "leaving p = (case p of WorkerDrain \<Rightarrow> True | WorkerDrainWrite _ \<Rightarrow> True | WorkerFinish \<Rightarrow> True | WorkerMarkClosed \<Rightarrow> True
     | WorkerSignal \<Rightarrow> True | WorkerDone \<Rightarrow> True | _ \<Rightarrow> False)"

lemmas worker_points = in_worker_def resulted_def awaiting_def leaving_def

section \<open>The cases of a step\<close>

definition submit_failed :: "string \<Rightarrow> submitter" where
  "submit_failed reason = SubmitDone (Some (if reason = ''queue-full'' then ErrQueueFull else ErrBackpressure))"

lemma submit_step_cases:
  assumes "submit_step ended now i s = Some s'"
  obtains
    (SendClosed) item nb where "i < length (ig_submits s)" "ig_submits s ! i = SubmitSend item nb" "ig_queueClosed s" "s' = s\<lparr>ig_panic := True\<rparr>"
  | (Send) item nb where "i < length (ig_submits s)" "ig_submits s ! i = SubmitSend item nb" "\<not> ig_queueClosed s"
      "length (ig_queue s) < ig_capacity s"
      "s' = goto_submit i SubmitTrack (s\<lparr>ig_queue := ig_queue s @ [(i, item)], ig_sent := ig_sent s @ [i]\<rparr>)"
  | (Drop) item nb reason where "i < length (ig_submits s)" "ig_submits s ! i = SubmitSend item nb"
      "s' = goto_submit i (DropCount (ingestion_item_kind item) reason) s"
  | (Track) "i < length (ig_submits s)" "ig_submits s ! i = SubmitTrack"
      "s' = goto_submit i SubmitCount (at_receipt i (\<lambda>r. r\<lparr>re_acceptedAt := strip now\<rparr>)
         (s\<lparr>ig_latency := latency_accept i (strip now) (ig_latency s)\<rparr>))"
  | (Count) "i < length (ig_submits s)" "ig_submits s ! i = SubmitCount" "s' = goto_submit i SubmitRelease (noteAccepted s)"
  | (ReleaseTwice) "i < length (ig_submits s)" "ig_submits s ! i = SubmitRelease" "re_accepted (ig_receipts s ! i)" "s' = s\<lparr>ig_panic := True\<rparr>"
  | (Release) "i < length (ig_submits s)" "ig_submits s ! i = SubmitRelease"
      "s' = goto_submit i (SubmitDone None) (at_receipt i (\<lambda>r. r\<lparr>re_accepted := True\<rparr>) s)"
  | (DropCount) kind reason where "i < length (ig_submits s)" "ig_submits s ! i = DropCount kind reason"
      "s' = goto_submit i (DropEpisode kind reason (is_Dropped (ig_stats s) + 1)) (count_dropped s)"
  | (DropAgain) kind reason dropped where "i < length (ig_submits s)" "ig_submits s ! i = DropEpisode kind reason dropped"
      "s' = goto_submit i (submit_failed reason) s"
  | (DropFirst) kind reason dropped where "i < length (ig_submits s)" "ig_submits s ! i = DropEpisode kind reason dropped"
      "s' = goto_submit i (DropRecord kind reason dropped) (begin_overflow s)"
  | (DropRecord) kind reason dropped where "i < length (ig_submits s)" "ig_submits s ! i = DropRecord kind reason dropped"
      "s' = goto_submit i (submit_failed reason)
         (recordEpisode ''ingestion-backpressure'' (BackpressureDetails kind reason dropped (ig_capacity s)) now s)"
  | (DoneNegative) e where "i < length (ig_submits s)" "ig_submits s ! i = SubmitDone e" "ig_submitters s = 0" "s' = s\<lparr>ig_panic := True\<rparr>"
  | (Done) e where "i < length (ig_submits s)" "ig_submits s ! i = SubmitDone e" "0 < ig_submitters s"
      "s' = goto_submit i (SubmitReturned e) (s\<lparr>ig_submitters := ig_submitters s - 1\<rparr>)"
proof -
  have i: "i < length (ig_submits s)" using assms by (auto simp: submit_step_def split: if_splits)
  note rules = assms [unfolded submit_step_def] i
  show ?thesis
  proof (cases "ig_submits s ! i")
    case (SubmitSend item nb)
    with rules SendClosed Send Drop show ?thesis
      by (auto simp: submit_send_def split: if_splits option.splits)
  next
    case SubmitTrack
    with rules Track show ?thesis by auto
  next
    case SubmitCount
    with rules Count show ?thesis by auto
  next
    case SubmitRelease
    with rules Release ReleaseTwice show ?thesis by (auto split: if_splits)
  next
    case (DropCount kind reason)
    with rules that(8) show ?thesis by auto
  next
    case (DropEpisode kind reason dropped)
    with rules DropAgain DropFirst show ?thesis by (auto simp: submit_failed_def Let_def split: if_splits)
  next
    case (DropRecord kind reason dropped)
    with rules that(11) show ?thesis by (auto simp: submit_failed_def)
  next
    case (SubmitDone e)
    with rules Done DoneNegative show ?thesis by (auto split: if_splits)
  next
    case (SubmitReturned e)
    with rules show ?thesis by auto
  qed
qed

lemma worker_select_cases:
  assumes "worker_select event_first s = Some s'"
  obtains
    (Event) e es where "ig_eventQueue s = e # es" "s' = goto_worker (WorkerWrite e) (s\<lparr>ig_eventQueue := es\<rparr>)"
  | (Item) i item rest where "ig_queue s = (i, item) # rest" "s' = goto_worker (WorkerAwait i item) (s\<lparr>ig_queue := rest\<rparr>)"
  | (Closed) "ig_queue s = []" "ig_queueClosed s" "s' = goto_worker WorkerDrain s"
  using assms that by (auto simp: worker_select_def split: list.splits if_splits)

lemma worker_step_cases:
  assumes "worker_step sink event_first now s = Some s'"
  obtains
    (Event) e es where "ig_worker s = WorkerSelect" "ig_eventQueue s = e # es" "s' = goto_worker (WorkerWrite e) (s\<lparr>ig_eventQueue := es\<rparr>)"
  | (Item) i item rest where "ig_worker s = WorkerSelect" "ig_queue s = (i, item) # rest"
      "s' = goto_worker (WorkerAwait i item) (s\<lparr>ig_queue := rest\<rparr>)"
  | (Closed) "ig_worker s = WorkerSelect" "ig_queue s = []" "ig_queueClosed s" "s' = goto_worker WorkerDrain s"
  | (Write) e where "ig_worker s = WorkerWrite e" "s' = goto_worker WorkerSelect (write_episode sink e s)"
  | (Await) i item where "ig_worker s = WorkerAwait i item" "re_accepted (ig_receipts s ! i)"
      "s' = goto_worker (WorkerProcess i item (strip now)) s"
  | (Process) i item started outcome w where "ig_worker s = WorkerProcess i item started" "process sink item (ig_sink s) = (outcome, w)"
      "s' = goto_worker (WorkerLatency i item started outcome (strip now)) (s\<lparr>ig_sink := w\<rparr>)"
  | (Latency) i item started outcome completed where "ig_worker s = WorkerLatency i item started outcome completed"
      "s' = goto_worker (WorkerCount i item outcome)
         (s\<lparr>ig_latency := latency_complete i (re_acceptedAt (ig_receipts s ! i)) started completed (snd outcome = None) (ig_latency s)\<rparr>)"
  | (Count) i item outcome where "ig_worker s = WorkerCount i item outcome"
      "s' = goto_worker (WorkerEpisode i item outcome (is_Failed (ig_stats s) + 1))
         (if snd outcome = None then count_processed (fst outcome) s else count_failed s)"
  | (Recovered) i item outcome failed where "ig_worker s = WorkerEpisode i item outcome failed" "snd outcome = None"
      "s' = goto_worker (WorkerPublish i outcome) (end_failure s)"
  | (FailedAgain) i item outcome failed e where "ig_worker s = WorkerEpisode i item outcome failed" "snd outcome = Some e"
      "s' = goto_worker (WorkerPublish i outcome) (begin_failure (classifyIngestionFailure e) s)"
  | (FailedFirst) i item outcome failed e where "ig_worker s = WorkerEpisode i item outcome failed" "snd outcome = Some e"
      "s' = goto_worker (WorkerRecord i item outcome (classifyIngestionFailure e) failed)
         (begin_failure (classifyIngestionFailure e) s)"
  | (Record) i item outcome cls failed where "ig_worker s = WorkerRecord i item outcome cls failed"
      "s' = goto_worker (WorkerPublish i outcome)
         (recordEpisode ''ingestion-write-failed'' (FailureDetails (ingestion_item_kind item) cls failed) now s)"
  | (PublishTwice) i outcome where "ig_worker s = WorkerPublish i outcome" "re_outcome (ig_receipts s ! i) \<noteq> None" "s' = s\<lparr>ig_panic := True\<rparr>"
  | (Publish) i outcome where "ig_worker s = WorkerPublish i outcome" "re_outcome (ig_receipts s ! i) = None"
      "s' = goto_worker WorkerOverflow
         (at_receipt i (\<lambda>r. r\<lparr>re_outcome := Some outcome\<rparr>) (s\<lparr>ig_handled := ig_handled s @ [i]\<rparr>))"
  | (Overflow) "ig_worker s = WorkerOverflow" "s' = goto_worker WorkerSelect (maybeEndOverflowEpisode s)"
  | (Drained) "ig_worker s = WorkerDrain" "ig_eventQueue s = []" "s' = goto_worker WorkerFinish s"
  | (Drain) e es where "ig_worker s = WorkerDrain" "ig_eventQueue s = e # es"
      "s' = goto_worker (WorkerDrainWrite e) (s\<lparr>ig_eventQueue := es\<rparr>)"
  | (DrainWrite) e where "ig_worker s = WorkerDrainWrite e" "s' = goto_worker WorkerDrain (write_episode sink e s)"
  | (Finish) e w where "ig_worker s = WorkerFinish" "s' = goto_worker WorkerMarkClosed (s\<lparr>ig_closeErr := e, ig_sink := w\<rparr>)"
  | (MarkClosed) "ig_worker s = WorkerMarkClosed" "s' = goto_worker WorkerSignal (s\<lparr>ig_closed := True\<rparr>)"
  | (SignalTwice) "ig_worker s = WorkerSignal" "ig_done s" "s' = s\<lparr>ig_panic := True\<rparr>"
  | (Signal) "ig_worker s = WorkerSignal" "\<not> ig_done s" "s' = goto_worker WorkerDone (s\<lparr>ig_done := True\<rparr>)"
proof (cases "ig_worker s")
  case WorkerSelect
  with assms have "worker_select event_first s = Some s'" by (simp add: worker_step_def)
  then show ?thesis using WorkerSelect Event Item Closed by (cases rule: worker_select_cases) auto
next
  case (WorkerWrite e)
  with assms Write show ?thesis by (simp add: worker_step_def)
next
  case (WorkerAwait i item)
  with assms Await show ?thesis by (simp add: worker_step_def split: if_splits)
next
  case (WorkerProcess i item started)
  with assms Process show ?thesis by (simp add: worker_step_def split: prod.splits)
next
  case (WorkerLatency i item started outcome completed)
  with assms Latency show ?thesis by (simp add: worker_step_def)
next
  case (WorkerCount i item outcome)
  with assms Count show ?thesis by (simp add: worker_step_def)
next
  case (WorkerEpisode i item outcome failed)
  with assms Recovered FailedAgain FailedFirst show ?thesis
    by (simp add: worker_step_def Let_def split: option.splits if_splits)
next
  case (WorkerRecord i item outcome cls failed)
  with assms Record show ?thesis by (simp add: worker_step_def)
next
  case (WorkerPublish i outcome)
  with assms Publish PublishTwice show ?thesis by (cases "re_outcome (ig_receipts s ! i)") (simp_all add: worker_step_def)
next
  case WorkerOverflow
  with assms Overflow show ?thesis by (simp add: worker_step_def)
next
  case WorkerDrain
  with assms Drained Drain show ?thesis by (simp add: worker_step_def split: list.splits)
next
  case (WorkerDrainWrite e)
  with assms DrainWrite show ?thesis by (simp add: worker_step_def)
next
  case WorkerFinish
  have "s' = goto_worker WorkerMarkClosed (s\<lparr>ig_closeErr := ig_closeErr s, ig_sink := ig_sink s\<rparr>) \<or>
      (\<exists>e w. s' = goto_worker WorkerMarkClosed (s\<lparr>ig_closeErr := e, ig_sink := w\<rparr>))"
    using assms WorkerFinish by (auto simp: worker_step_def split: option.splits prod.splits)
  with WorkerFinish Finish show ?thesis by blast
next
  case WorkerMarkClosed
  with assms MarkClosed show ?thesis by (simp add: worker_step_def)
next
  case WorkerSignal
  with assms Signal SignalTwice show ?thesis by (simp add: worker_step_def split: if_splits)
next
  case WorkerDone
  with assms show ?thesis by (simp add: worker_step_def)
qed

section \<open>The order of receipts\<close>

text \<open>What entered the channel is what was handled, then what the worker holds, then what waits.\<close>

definition order_inv :: "'w ingestor \<Rightarrow> bool" where
  "order_inv s \<longleftrightarrow>
     length (ig_receipts s) = length (ig_submits s) \<and> 0 < ig_capacity s \<and> length (ig_queue s) \<le> ig_capacity s \<and>
     ig_sent s = ig_handled s @ in_worker (ig_worker s) @ map fst (ig_queue s) \<and> distinct (ig_sent s) \<and>
     (\<forall>i. i \<in> set (ig_sent s) \<longleftrightarrow> i < length (ig_submits s) \<and> sent_point (ig_submits s ! i))"

lemmas move_defs = begin_overflow_def end_failure_def begin_failure_def goto_submit_def at_receipt_def noteAccepted_def count_dropped_def goto_worker_def write_episode_def
  count_processed_def count_failed_def maybeEndOverflowEpisode_def recordEpisode_def Let_def submit_failed_def

lemma order_invD:
  assumes "order_inv s"
  shows "length (ig_receipts s) = length (ig_submits s)" "0 < ig_capacity s" "length (ig_queue s) \<le> ig_capacity s"
    "ig_sent s = ig_handled s @ in_worker (ig_worker s) @ map fst (ig_queue s)" "distinct (ig_sent s)"
    "i \<in> set (ig_sent s) \<longleftrightarrow> i < length (ig_submits s) \<and> sent_point (ig_submits s ! i)"
  using assms unfolding order_inv_def by blast+

text \<open>A step that neither sends nor passes the send of a submitter.\<close>

lemma order_inv_frame:
  assumes "order_inv s" and "ig_capacity s' = ig_capacity s" and "ig_sent s' = ig_sent s"
    and "length (ig_receipts s') = length (ig_receipts s)" and "length (ig_submits s') = length (ig_submits s)"
    and "length (ig_queue s') \<le> length (ig_queue s)"
    and "ig_handled s' @ in_worker (ig_worker s') @ map fst (ig_queue s') = ig_handled s @ in_worker (ig_worker s) @ map fst (ig_queue s)"
    and "\<And>i. i < length (ig_submits s) \<Longrightarrow> sent_point (ig_submits s' ! i) \<longleftrightarrow> sent_point (ig_submits s ! i)"
  shows "order_inv s'"
  unfolding order_inv_def using order_invD [OF assms(1)] assms(2-8) by (metis le_trans)

lemma sent_point_update:
  "sent_point p \<longleftrightarrow> sent_point (xs ! i) \<Longrightarrow> j < length xs \<Longrightarrow> sent_point (xs[i := p] ! j) \<longleftrightarrow> sent_point (xs ! j)"
  by (cases "i = j") simp_all

lemma order_inv_send:
  assumes "order_inv s" and "i < length (ig_submits s)" and "\<not> sent_point (ig_submits s ! i)" and "length (ig_queue s) < ig_capacity s"
  shows "order_inv (goto_submit i SubmitTrack (s\<lparr>ig_queue := ig_queue s @ [(i, item)], ig_sent := ig_sent s @ [i]\<rparr>))"
proof -
  note inv = order_invD [OF assms(1)]
  have "i \<notin> set (ig_sent s)" using inv(6) [of i] assms(3) by simp
  moreover have "(j \<in> set (ig_sent s @ [i])) = (j < length (ig_submits s) \<and> sent_point ((ig_submits s)[i := SubmitTrack] ! j))" for j
    using inv(6) [of j] assms(2) by (cases "j = i") (simp_all add: sent_point_def)
  moreover have "ig_sent s @ [i] = ig_handled s @ in_worker (ig_worker s) @ map fst (ig_queue s @ [(i, item)])"
    using inv(4) by simp
  ultimately show ?thesis unfolding order_inv_def using inv(1,2,5) assms(4) by (simp add: goto_submit_def)
qed

lemma order_inv_submit:
  assumes "order_inv s" and "submit_step ended now i s = Some s'"
  shows "order_inv s'"
  using assms(2)
proof (cases rule: submit_step_cases)
  case (Send item nb)
  have "\<not> sent_point (ig_submits s ! i)" using Send(2) by simp
  then show ?thesis using Send order_inv_send [OF assms(1)] by simp
qed (rule order_inv_frame [OF assms(1)]; simp add: move_defs sent_point_update)+

lemma order_inv_worker:
  assumes "order_inv s" and "worker_step sink event_first now s = Some s'"
  shows "order_inv s'"
  using assms(2)
  by (cases rule: worker_step_cases; intro order_inv_frame [OF assms(1)]) (simp_all add: move_defs in_worker_def)

section \<open>The state of receipts\<close>

text \<open>The receipts that the worker works on, past the wait for their acceptance.\<close>

definition held :: "worker \<Rightarrow> nat list" where
  "held p = (if awaiting p then [] else in_worker p)"

definition receipt_inv :: "'w ingestor \<Rightarrow> bool" where
  "receipt_inv s \<longleftrightarrow>
     (\<forall>i < length (ig_submits s).
        (re_accepted (ig_receipts s ! i) \<longleftrightarrow> released_point (ig_submits s ! i)) \<and>
        (re_outcome (ig_receipts s ! i) \<noteq> None \<longleftrightarrow> i \<in> set (ig_handled s))) \<and>
     (\<forall>i \<in> set (ig_handled s @ held (ig_worker s)). re_accepted (ig_receipts s ! i))"

lemma receipt_invD:
  assumes "receipt_inv s"
  shows "i < length (ig_submits s) \<Longrightarrow> re_accepted (ig_receipts s ! i) \<longleftrightarrow> released_point (ig_submits s ! i)"
    "i < length (ig_submits s) \<Longrightarrow> re_outcome (ig_receipts s ! i) \<noteq> None \<longleftrightarrow> i \<in> set (ig_handled s)"
    "i \<in> set (ig_handled s) \<or> i \<in> set (held (ig_worker s)) \<Longrightarrow> re_accepted (ig_receipts s ! i)"
  using assms unfolding receipt_inv_def by auto

lemma sent_in_range:
  assumes "order_inv s" and "i \<in> set (ig_handled s) \<or> i \<in> set (in_worker (ig_worker s)) \<or> i \<in> fst ` set (ig_queue s)"
  shows "i < length (ig_submits s) \<and> i < length (ig_receipts s)"
  using order_invD(6) [OF assms(1), of i] order_invD(1) [OF assms(1)] assms(2) unfolding order_invD(4) [OF assms(1)] by auto

lemma receipt_inv_frame:
  assumes "receipt_inv s" and "length (ig_submits s') = length (ig_submits s)" and "ig_handled s' = ig_handled s"
    and "set (held (ig_worker s')) \<subseteq> set (held (ig_worker s))"
    and "\<And>i. i < length (ig_submits s) \<Longrightarrow> re_outcome (ig_receipts s' ! i) = re_outcome (ig_receipts s ! i)"
    and "\<And>i. i < length (ig_submits s) \<Longrightarrow> re_accepted (ig_receipts s' ! i) \<longleftrightarrow> released_point (ig_submits s' ! i)"
    and "\<And>i. re_accepted (ig_receipts s ! i) \<Longrightarrow> re_accepted (ig_receipts s' ! i)"
  shows "receipt_inv s'"
  unfolding receipt_inv_def using receipt_invD [OF assms(1)] assms(2-7) by auto

lemma released_point_update:
  "released_point p \<longleftrightarrow> released_point (xs ! i) \<Longrightarrow> j < length xs \<Longrightarrow> released_point (xs[i := p] ! j) \<longleftrightarrow> released_point (xs ! j)"
  by (cases "i = j") simp_all

lemma receipt_inv_submit:
  assumes "order_inv s" and "receipt_inv s" and "submit_step ended now i s = Some s'"
  shows "receipt_inv s'"
proof -
  note inv = receipt_invD [OF assms(2)] and len = order_invD(1) [OF assms(1)]
  from assms(3) show ?thesis
  proof (cases rule: submit_step_cases)
    case Track
    with inv len show ?thesis
      by (intro receipt_inv_frame [OF assms(2)]) (auto simp: move_defs nth_list_update)
  next
    case Release
    with inv len show ?thesis
      by (intro receipt_inv_frame [OF assms(2)]) (auto simp: move_defs nth_list_update)
  qed (rule receipt_inv_frame [OF assms(2)]; simp add: move_defs inv released_point_update)+
qed

lemma receipt_inv_publish:
  assumes "order_inv s" and "receipt_inv s" and "ig_worker s = WorkerPublish i outcome"
  shows "receipt_inv (goto_worker WorkerOverflow
    (at_receipt i (\<lambda>r. r\<lparr>re_outcome := Some outcome\<rparr>) (s\<lparr>ig_handled := ig_handled s @ [i]\<rparr>)))"
proof -
  note inv = receipt_invD [OF assms(2)]
  have i: "i < length (ig_receipts s)" "i < length (ig_submits s)"
    using sent_in_range [OF assms(1), of i] assms(3) by (simp_all add: in_worker_def)
  have "re_accepted (ig_receipts s ! i)" using inv(3) [of i] assms(3) by (simp add: held_def awaiting_def in_worker_def)
  with i inv show ?thesis
    unfolding receipt_inv_def by (auto simp: goto_worker_def at_receipt_def nth_list_update held_def awaiting_def in_worker_def)
qed

lemma receipt_inv_worker:
  assumes "order_inv s" and "receipt_inv s" and "worker_step sink event_first now s = Some s'"
  shows "receipt_inv s'"
proof -
  note inv = receipt_invD [OF assms(2)]
  from assms(3) show ?thesis
  proof (cases rule: worker_step_cases)
    case (Await i item)
    then show ?thesis using inv unfolding receipt_inv_def by (auto simp: goto_worker_def held_def awaiting_def in_worker_def)
  next
    case (Publish i outcome)
    then show ?thesis using receipt_inv_publish [OF assms(1,2)] by simp
  qed (rule receipt_inv_frame [OF assms(2)]; simp add: move_defs inv held_def awaiting_def in_worker_def)+
qed

section \<open>Opening and closing\<close>

definition life_inv :: "'w ingestor \<Rightarrow> bool" where
  "life_inv s \<longleftrightarrow>
     ig_submitters s = length (filter active_point (ig_submits s)) \<and>
     (ig_queueClosed s \<longrightarrow> ig_closing s \<and> ig_submitters s = 0) \<and>
     (leaving (ig_worker s) \<longrightarrow> ig_queueClosed s \<and> ig_queue s = []) \<and>
     (ig_done s \<longleftrightarrow> ig_worker s = WorkerDone) \<and>
     (ig_closed s \<longleftrightarrow> ig_worker s = WorkerSignal \<or> ig_worker s = WorkerDone) \<and> \<not> ig_panic s"

lemma active_counted: "xs ! i = p \<Longrightarrow> i < length xs \<Longrightarrow> active_point p \<Longrightarrow> 0 < length (filter active_point xs)"
  by (auto simp: filter_empty_conv simp del: active_points)

lemma active_count_update:
  assumes "i < length xs" and "active_point (xs ! i)"
  shows "length (filter active_point (xs[i := p])) = length (filter active_point xs) - (if active_point p then 0 else 1)"
  using filter_update_length [OF assms(1), of active_point p] assms(2) by (simp del: active_points split: if_splits)

lemma life_inv_submit:
  assumes "order_inv s" and "receipt_inv s" and "life_inv s" and "submit_step ended now i s = Some s'"
  shows "life_inv s'"
proof -
  have i: "i < length (ig_submits s)" and active: "active_point (ig_submits s ! i)"
    using assms(4) by (auto simp: submit_step_def split: if_splits)
  have "0 < ig_submitters s" using assms(3) active_counted [OF refl i active] by (simp add: life_inv_def del: active_points)
  then have opened: "\<not> ig_queueClosed s" "0 < ig_submitters s" using assms(3) by (auto simp: life_inv_def)
  note upd = active_count_update [OF i active]
  have released: "re_accepted (ig_receipts s ! i) \<longleftrightarrow> released_point (ig_submits s ! i)" using receipt_invD(1) [OF assms(2) i] .
  from assms(4) show ?thesis
    by (cases rule: submit_step_cases) (use assms(3) opened upd released in \<open>simp_all add: life_inv_def move_defs leaving_def\<close>)
qed

lemma life_inv_worker:
  assumes "order_inv s" and "receipt_inv s" and "life_inv s" and "worker_step sink event_first now s = Some s'"
  shows "life_inv s'"
proof -
  have fresh: "re_outcome (ig_receipts s ! i) = None" if "ig_worker s = WorkerPublish i outcome" for i outcome
  proof -
    have "i \<in> set (in_worker (ig_worker s))" using that by (simp add: in_worker_def)
    moreover have "i \<notin> set (ig_handled s)"
      using order_invD(4,5) [OF assms(1)] calculation by auto
    ultimately show ?thesis using receipt_invD(2) [OF assms(2)] sent_in_range [OF assms(1), of i] by blast
  qed
  from assms(4) show ?thesis
    by (cases rule: worker_step_cases) (use assms(3) fresh in \<open>auto simp: life_inv_def move_defs leaving_def\<close>)
qed

section \<open>Counters\<close>

definition count_inv :: "'w ingestor \<Rightarrow> bool" where
  "count_inv s \<longleftrightarrow>
     is_Accepted (ig_stats s) = of_nat (length (filter counted_point (ig_submits s))) \<and>
     is_Dropped (ig_stats s) = of_nat (length (filter dropped_point (ig_submits s))) \<and>
     is_Processed (ig_stats s) + is_Failed (ig_stats s) = of_nat (length (ig_handled s) + resulted (ig_worker s))"

lemma count_update:
  "xs ! i = q \<Longrightarrow> i < length xs \<Longrightarrow> P p = P q \<Longrightarrow> length (filter P (xs[i := p])) = length (filter P xs)"
  "xs ! i = q \<Longrightarrow> i < length xs \<Longrightarrow> P p \<Longrightarrow> \<not> P q \<Longrightarrow> length (filter P (xs[i := p])) = Suc (length (filter P xs))"
  using filter_update_length [of i xs P p] by (simp_all split: if_splits)

lemma count_inv_submit:
  assumes "count_inv s" and "submit_step ended now i s = Some s'"
  shows "count_inv s'"
  using assms(2)
  by (cases rule: submit_step_cases) (use assms(1) in \<open>simp_all add: count_inv_def move_defs count_update\<close>)

lemma count_inv_worker:
  assumes "count_inv s" and "worker_step sink event_first now s = Some s'"
  shows "count_inv s'"
  using assms(2)
  by (cases rule: worker_step_cases) (use assms(1) in \<open>simp_all add: count_inv_def move_defs resulted_def\<close>)

section \<open>Latency\<close>

definition past_latency :: "worker \<Rightarrow> nat list" where
  "past_latency p =
     (case p of WorkerCount i _ _ \<Rightarrow> [i] | WorkerEpisode i _ _ _ \<Rightarrow> [i] | WorkerRecord i _ _ _ _ \<Rightarrow> [i] | WorkerPublish i _ \<Rightarrow> [i] | _ \<Rightarrow> [])"

definition pending_ids :: "'w ingestor \<Rightarrow> nat list" where
  "pending_ids s = map fst (lt_pending (ig_latency s))"

definition completed_ids :: "'w ingestor \<Rightarrow> nat set" where
  "completed_ids s = set (ig_handled s) \<union> set (past_latency (ig_worker s))"

definition latency_inv :: "'w ingestor \<Rightarrow> bool" where
  "latency_inv s \<longleftrightarrow> distinct (pending_ids s) \<and>
     (\<forall>i. i \<in> set (pending_ids s) \<longleftrightarrow> i < length (ig_submits s) \<and> tracked_point (ig_submits s ! i) \<and> i \<notin> completed_ids s)"

lemma latency_pending:
  "map fst (lt_pending (latency_accept i t l)) = i # filter (\<lambda>j. j \<noteq> i) (map fst (lt_pending l))"
  "map fst (lt_pending (latency_complete i acc started completed durable l)) = filter (\<lambda>j. j \<noteq> i) (map fst (lt_pending l))"
  by (simp_all add: latency_accept_def latency_complete_def Let_def filter_map comp_def)

lemma latency_inv_frame:
  assumes "latency_inv s" and "pending_ids s' = pending_ids s" and "completed_ids s' = completed_ids s"
    and "length (ig_submits s') = length (ig_submits s)"
    and "\<And>i. i < length (ig_submits s) \<Longrightarrow> tracked_point (ig_submits s' ! i) \<longleftrightarrow> tracked_point (ig_submits s ! i)"
  shows "latency_inv s'"
  unfolding latency_inv_def using assms unfolding latency_inv_def by auto

lemma tracked_point_update:
  "tracked_point p \<longleftrightarrow> tracked_point (xs ! i) \<Longrightarrow> j < length xs \<Longrightarrow> tracked_point (xs[i := p] ! j) \<longleftrightarrow> tracked_point (xs ! j)"
  by (cases "i = j") simp_all

lemma latency_inv_submit:
  assumes "order_inv s" and "receipt_inv s" and "latency_inv s" and "submit_step ended now i s = Some s'"
  shows "latency_inv s'"
  using assms(4)
proof (cases rule: submit_step_cases)
  case Track
  have "\<not> re_accepted (ig_receipts s ! i)" using receipt_invD(1) [OF assms(2) Track(1)] Track(2) by simp
  then have "i \<notin> set (ig_handled s)" "i \<notin> set (held (ig_worker s))" using receipt_invD(3) [OF assms(2), of i] by auto
  moreover have "set (past_latency (ig_worker s)) \<subseteq> set (held (ig_worker s))"
    by (auto simp: past_latency_def held_def awaiting_def in_worker_def split: worker.splits)
  ultimately have free: "i \<notin> completed_ids s" by (auto simp: completed_ids_def)
  have pend: "pending_ids s' = i # filter (\<lambda>j. j \<noteq> i) (pending_ids s)" and comp: "completed_ids s' = completed_ids s"
    and sub: "ig_submits s' = (ig_submits s)[i := SubmitCount]"
    using Track(3) by (simp_all add: goto_submit_def at_receipt_def pending_ids_def completed_ids_def latency_pending)
  show ?thesis
    unfolding latency_inv_def pend comp sub
    using assms(3) Track(1,2) free unfolding latency_inv_def by (auto simp: nth_list_update)
qed (rule latency_inv_frame [OF assms(3)]; simp add: move_defs pending_ids_def completed_ids_def tracked_point_update)+

lemma latency_inv_worker:
  assumes "latency_inv s" and "worker_step sink event_first now s = Some s'"
  shows "latency_inv s'"
  using assms(2)
proof (cases rule: worker_step_cases)
  case (Latency i item started outcome completed)
  then have "pending_ids s' = filter (\<lambda>j. j \<noteq> i) (pending_ids s)" "completed_ids s' = insert i (completed_ids s)"
    "ig_submits s' = ig_submits s"
    by (simp_all add: goto_worker_def pending_ids_def completed_ids_def latency_pending past_latency_def)
  with assms(1) show ?thesis unfolding latency_inv_def by auto
qed (rule latency_inv_frame [OF assms(1)]; simp add: move_defs pending_ids_def completed_ids_def past_latency_def)+

section \<open>Failures\<close>

definition last_error :: "'w ingestor \<Rightarrow> sink_error option" where
  "last_error s = (if ig_handled s = [] then None
     else (case re_outcome (ig_receipts s ! last (ig_handled s)) of None \<Rightarrow> None | Some outcome \<Rightarrow> snd outcome))"

definition current_error :: "'w ingestor \<Rightarrow> sink_error option" where
  "current_error s =
     (case ig_worker s of WorkerRecord _ _ outcome _ _ \<Rightarrow> snd outcome | WorkerPublish _ outcome \<Rightarrow> snd outcome | _ \<Rightarrow> last_error s)"

definition failure_of :: "sink_error option \<Rightarrow> bool \<times> string" where
  "failure_of e = (case e of None \<Rightarrow> (False, []) | Some x \<Rightarrow> (True, classifyIngestionFailure x))"

definition failure_inv :: "'w ingestor \<Rightarrow> bool" where
  "failure_inv s \<longleftrightarrow> (ig_failureActive s, ig_failureClass s) = failure_of (current_error s)"

lemma failure_inv_submit:
  assumes "order_inv s" and "failure_inv s" and "submit_step ended now i s = Some s'"
  shows "failure_inv s'"
proof -
  have "re_outcome (ig_receipts s' ! j) = re_outcome (ig_receipts s ! j)" if "j < length (ig_receipts s)" for j
    using assms(3) that order_invD(1) [OF assms(1)] by (cases rule: submit_step_cases) (auto simp: move_defs nth_list_update)
  moreover have "ig_worker s' = ig_worker s" "ig_handled s' = ig_handled s" "ig_failureActive s' = ig_failureActive s"
    "ig_failureClass s' = ig_failureClass s"
    using assms(3) by (cases rule: submit_step_cases; simp add: move_defs)+
  moreover have "last (ig_handled s) < length (ig_receipts s)" if "ig_handled s \<noteq> []"
    using sent_in_range [OF assms(1), of "last (ig_handled s)"] that by simp
  ultimately show ?thesis using assms(2) by (simp add: failure_inv_def current_error_def last_error_def cong: worker.case_cong)
qed

lemma failure_inv_worker:
  assumes "order_inv s" and "failure_inv s" and "worker_step sink event_first now s = Some s'"
  shows "failure_inv s'"
  using assms(3)
proof (cases rule: worker_step_cases)
  case (Publish i outcome)
  have "i < length (ig_receipts s)" using sent_in_range [OF assms(1), of i] Publish(1) by (simp add: in_worker_def)
  with Publish assms(2) show ?thesis by (simp add: failure_inv_def current_error_def last_error_def goto_worker_def at_receipt_def)
qed (use assms(2) in \<open>auto simp: failure_inv_def current_error_def last_error_def move_defs failure_of_def\<close>)

section \<open>All reached states\<close>

definition ingestor_inv :: "'w ingestor \<Rightarrow> bool" where
  "ingestor_inv s \<longleftrightarrow> order_inv s \<and> receipt_inv s \<and> life_inv s \<and> count_inv s \<and> latency_inv s \<and> failure_inv s"

text \<open>A step that only changes flags, the refusals or what the invariants do not read.\<close>

lemma inv_same:
  assumes "ingestor_inv s" and "life_inv s'"
    and eqs: "ig_capacity s' = ig_capacity s" "ig_queue s' = ig_queue s" "ig_latency s' = ig_latency s" "ig_receipts s' = ig_receipts s"
      "ig_submits s' = ig_submits s" "ig_worker s' = ig_worker s" "ig_sent s' = ig_sent s" "ig_handled s' = ig_handled s"
      "ig_failureActive s' = ig_failureActive s" "ig_failureClass s' = ig_failureClass s"
      "is_Accepted (ig_stats s') = is_Accepted (ig_stats s)" "is_Dropped (ig_stats s') = is_Dropped (ig_stats s)"
      "is_Processed (ig_stats s') = is_Processed (ig_stats s)" "is_Failed (ig_stats s') = is_Failed (ig_stats s)"
  shows "ingestor_inv s'"
proof -
  have inv: "order_inv s" "receipt_inv s" "count_inv s" "latency_inv s" "failure_inv s" using assms(1) by (simp_all add: ingestor_inv_def)
  have "order_inv s'" using inv(1) unfolding order_inv_def eqs .
  moreover have "receipt_inv s'" using inv(2) unfolding receipt_inv_def eqs .
  moreover have "count_inv s'" using inv(3) unfolding count_inv_def eqs .
  moreover have "latency_inv s'" using inv(4) unfolding latency_inv_def pending_ids_def completed_ids_def eqs .
  moreover have "failure_inv s'" using inv(5) unfolding failure_inv_def current_error_def last_error_def eqs .
  ultimately show ?thesis using assms(2) by (simp add: ingestor_inv_def)
qed

lemma inv_internal:
  assumes "ingestor_inv s" and "internal_step sink s s'"
  shows "ingestor_inv s'"
  using assms(2)
proof cases
  case (SubmitterStep ended now i)
  with assms(1) show ?thesis unfolding ingestor_inv_def
    by (blast intro: order_inv_submit receipt_inv_submit life_inv_submit count_inv_submit latency_inv_submit failure_inv_submit)
next
  case (WorkerStep event_first now)
  with assms(1) show ?thesis unfolding ingestor_inv_def
    by (blast intro: order_inv_worker receipt_inv_worker life_inv_worker count_inv_worker latency_inv_worker failure_inv_worker)
next
  case CloserStep
  then have "s' = s\<lparr>ig_queueClosed := True\<rparr>" "ig_closing s" "ig_submitters s = 0" by (auto simp: close_queue_step_def split: if_splits)
  with assms(1) show ?thesis by (intro inv_same [OF assms(1)]) (auto simp: ingestor_inv_def life_inv_def)
qed

lemma inv_begin_submit:
  assumes "ingestor_inv s"
  shows "ingestor_inv (begin_submit item nb s)"
proof (cases "ig_closing s \<or> ig_closed s")
  case True
  with assms show ?thesis by (simp add: begin_submit_def)
next
  case False
  define s' where "s' = begin_submit item nb s"
  have s': "ig_submits s' = ig_submits s @ [SubmitSend item nb]"
    "ig_receipts s' = ig_receipts s @ [\<lparr>re_accepted = False, re_acceptedAt = zero_time, re_outcome = None\<rparr>]"
    "ig_submitters s' = Suc (ig_submitters s)" "ig_queue s' = ig_queue s" "ig_worker s' = ig_worker s" "ig_sent s' = ig_sent s"
    "ig_handled s' = ig_handled s" "ig_capacity s' = ig_capacity s" "ig_stats s' = ig_stats s" "ig_latency s' = ig_latency s"
    "ig_queueClosed s' = ig_queueClosed s" "ig_closing s' = ig_closing s" "ig_closed s' = ig_closed s" "ig_done s' = ig_done s"
    "ig_panic s' = ig_panic s" "ig_failureActive s' = ig_failureActive s" "ig_failureClass s' = ig_failureClass s"
    using False by (simp_all add: s'_def begin_submit_def)
  have inv: "order_inv s" "receipt_inv s" "life_inv s" "count_inv s" "latency_inv s" "failure_inv s"
    using assms by (simp_all add: ingestor_inv_def)
  note ord = order_invD [OF inv(1)]
  have range: "i < length (ig_submits s)" if "i \<in> set (ig_handled s) \<or> i \<in> set (held (ig_worker s))" for i
    using sent_in_range [OF inv(1), of i] that by (auto simp: held_def split: if_splits)
  have "order_inv s'"
    unfolding order_inv_def s' using ord(1-5) ord(6) by (auto simp: nth_append less_Suc_eq)
  moreover have "receipt_inv s'"
    unfolding receipt_inv_def s' using receipt_invD [OF inv(2)] range ord(1) by (auto simp: nth_append less_Suc_eq)
  moreover have "life_inv s'" using inv(3) False by (auto simp: life_inv_def s')
  moreover have "count_inv s'" using inv(4) by (simp add: count_inv_def s')
  moreover have "latency_inv s'"
    using inv(5) by (auto simp: latency_inv_def pending_ids_def completed_ids_def s' nth_append less_Suc_eq)
  moreover have "failure_inv s'"
  proof -
    have "last (ig_handled s) < length (ig_receipts s)" if "ig_handled s \<noteq> []" using range [of "last (ig_handled s)"] that ord(1) by simp
    then show ?thesis using inv(6)
      by (simp add: failure_inv_def current_error_def last_error_def s' nth_append cong: worker.case_cong)
  qed
  ultimately show ?thesis by (simp add: ingestor_inv_def s'_def)
qed

lemma inv_other:
  assumes "ingestor_inv s"
  shows "ingestor_inv (noteRejected s)" "ingestor_inv (begin_close s)"
proof -
  have "life_inv s" using assms by (simp add: ingestor_inv_def)
  then show "ingestor_inv (noteRejected s)" "ingestor_inv (begin_close s)"
    by (intro inv_same [OF assms]; auto simp: life_inv_def noteRejected_def begin_close_def)+
qed

lemma inv_start: "newIngestor capacity w = Some s \<Longrightarrow> ingestor_inv s"
  by (auto simp: newIngestor_def Let_def DefaultIngestionCapacity_def ingestor_inv_def order_inv_def in_worker_def receipt_inv_def held_def
      life_inv_def leaving_def count_inv_def resulted_def latency_inv_def pending_ids_def completed_ids_def past_latency_def
      newIngestionLatencyTracker_def failure_inv_def current_error_def last_error_def failure_of_def split: if_splits)

lemma reached_inv: "reached T sink s \<Longrightarrow> ingestor_inv s"
  by (induction rule: reached.induct) (auto intro: inv_start inv_internal inv_begin_submit inv_other)

end
