(* ===== verification/IngestionProps.thy ===== *)
theory IngestionProps
  imports IngestionRules "HOL-Library.Sublist"
begin

text \<open>
  What holds of the ingestor: it never panics, it hands out every accepted receipt exactly once and in order, its
  counters balance, and a closing ingestor finishes by itself with an outcome for every receipt.
\<close>

section \<open>Work that is left\<close>

definition submit_work :: "submitter \<Rightarrow> nat" where
  "submit_work p =
     (case p of SubmitSend _ _ \<Rightarrow> 16 | SubmitTrack \<Rightarrow> 4 | SubmitCount \<Rightarrow> 3 | SubmitRelease \<Rightarrow> 2 | DropCount _ _ \<Rightarrow> 6
      | DropEpisode _ _ _ \<Rightarrow> 5 | DropRecord _ _ _ \<Rightarrow> 4 | SubmitDone _ \<Rightarrow> 1 | SubmitReturned _ \<Rightarrow> 0)"

definition worker_work :: "worker \<Rightarrow> nat" where
  "worker_work p =
     (case p of WorkerSelect \<Rightarrow> 6 | WorkerAwait _ _ \<Rightarrow> 16 | WorkerProcess _ _ _ \<Rightarrow> 15 | WorkerLatency _ _ _ _ _ \<Rightarrow> 14
      | WorkerCount _ _ _ \<Rightarrow> 13 | WorkerEpisode _ _ _ _ \<Rightarrow> 12 | WorkerRecord _ _ _ _ _ \<Rightarrow> 11 | WorkerPublish _ _ \<Rightarrow> 8
      | WorkerOverflow \<Rightarrow> 7 | WorkerWrite _ \<Rightarrow> 7 | WorkerDrain \<Rightarrow> 5 | WorkerDrainWrite _ \<Rightarrow> 6 | WorkerFinish \<Rightarrow> 4
      | WorkerMarkClosed \<Rightarrow> 3 | WorkerSignal \<Rightarrow> 2 | WorkerDone \<Rightarrow> 1)"

definition work :: "'w ingestor \<Rightarrow> nat" where
  "work s = sum_list (map submit_work (ig_submits s)) + 11 * length (ig_queue s) + 2 * length (ig_eventQueue s) +
     worker_work (ig_worker s) + (if ig_queueClosed s then 0 else 1)"

lemma submit_step_local:
  assumes "submit_step ended now i s = Some s'" and "\<not> ig_panic s'"
  shows "i < length (ig_submits s) \<and> ig_submits s' = (ig_submits s)[i := ig_submits s' ! i] \<and> ig_worker s' = ig_worker s \<and>
    ig_queueClosed s' = ig_queueClosed s \<and>
    submit_work (ig_submits s' ! i) + 11 * length (ig_queue s') + 2 * length (ig_eventQueue s') <
      submit_work (ig_submits s ! i) + 11 * length (ig_queue s) + 2 * length (ig_eventQueue s)"
  using assms(1)
  by (cases rule: submit_step_cases) (use assms(2) in \<open>simp_all add: move_defs submit_work_def\<close>)

lemma submit_step_work:
  assumes "submit_step ended now i s = Some s'" and "\<not> ig_panic s'"
  shows "work s' < work s"
proof -
  note local = submit_step_local [OF assms]
  then have "sum_list (map submit_work (ig_submits s')) + submit_work (ig_submits s ! i) =
      sum_list (map submit_work (ig_submits s)) + submit_work (ig_submits s' ! i)"
    using sum_list_update_nat [of i "ig_submits s" submit_work "ig_submits s' ! i"] by simp
  moreover have same: "ig_worker s' = ig_worker s" "ig_queueClosed s' = ig_queueClosed s" using local by blast+
  moreover have "submit_work (ig_submits s' ! i) + 11 * length (ig_queue s') + 2 * length (ig_eventQueue s') <
      submit_work (ig_submits s ! i) + 11 * length (ig_queue s) + 2 * length (ig_eventQueue s)" using local by blast
  ultimately show ?thesis unfolding work_def same by linarith
qed

lemma worker_step_work:
  assumes "worker_step sink event_first now s = Some s'" and "\<not> ig_panic s'"
  shows "work s' < work s"
  using assms(1)
  by (cases rule: worker_step_cases) (use assms(2) in \<open>simp_all add: work_def move_defs worker_work_def\<close>)

lemma internal_step_work:
  assumes "ingestor_inv s" and "internal_step sink s s'"
  shows "work s' < work s"
proof -
  have "\<not> ig_panic s'" using inv_internal [OF assms] by (simp add: ingestor_inv_def life_inv_def)
  with assms(2) show ?thesis
  proof cases
    case CloserStep
    then show ?thesis by (auto simp: close_queue_step_def work_def split: if_splits)
  qed (simp_all add: submit_step_work worker_step_work)
qed

lemma inv_internal_star: "(internal_step sink)\<^sup>*\<^sup>* s t \<Longrightarrow> ingestor_inv s \<Longrightarrow> ingestor_inv t"
  by (induction rule: rtranclp_induct) (auto intro: inv_internal)

lemma internal_runs_end:
  assumes "ingestor_inv s"
  shows "\<not> (\<exists>f. f 0 = s \<and> (\<forall>n. internal_step sink (f n) (f (Suc n))))"
proof
  assume "\<exists>f. f 0 = s \<and> (\<forall>n. internal_step sink (f n) (f (Suc n)))"
  then obtain f where f: "f 0 = s" "\<And>n. internal_step sink (f n) (f (Suc n))" by blast
  have inv: "ingestor_inv (f n)" for n by (induction n) (use assms f in \<open>auto intro: inv_internal\<close>)
  have "(f (Suc n), f n) \<in> measure work" for n using internal_step_work [OF inv f(2)] by simp
  then show False using wf_measure [of work] by (metis wf_iff_no_infinite_down_chain)
qed

section \<open>Progress\<close>

text \<open>The steps that need no context to end.\<close>

inductive drain_step :: "'w ingestion_sink \<Rightarrow> 'w ingestor \<Rightarrow> 'w ingestor \<Rightarrow> bool" for sink where
  DrainSubmitter: "submit_step False now i s = Some s' \<Longrightarrow> drain_step sink s s'"
| DrainWorker: "worker_step sink event_first now s = Some s' \<Longrightarrow> drain_step sink s s'"
| DrainCloser: "close_queue_step s = Some s' \<Longrightarrow> drain_step sink s s'"

lemma drain_internal: "drain_step sink s s' \<Longrightarrow> internal_step sink s s'"
  by (induction rule: drain_step.induct) (auto intro: internal_step.intros)

lemma submitter_moves:
  assumes "i < length (ig_submits s)" and "active_point (ig_submits s ! i)"
    and "(\<exists>item nb. ig_submits s ! i = SubmitSend item nb) \<longrightarrow> length (ig_queue s) < ig_capacity s"
  shows "\<exists>s'. drain_step sink s s'"
proof -
  have "submit_step False zero_time i s \<noteq> None"
    using assms by (auto simp: submit_step_def submit_send_def Let_def split: submitter.splits option.splits)
  then show ?thesis using drain_step.DrainSubmitter by blast
qed

lemma worker_moves:
  assumes "ingestor_inv s" and "worker_step sink True zero_time s = None"
  shows "ig_worker s = WorkerDone \<or> (ig_worker s = WorkerSelect \<and> ig_queue s = [] \<and> \<not> ig_queueClosed s) \<or>
    (\<exists>i item. ig_worker s = WorkerAwait i item \<and> \<not> re_accepted (ig_receipts s ! i))"
  using assms(2) by (auto simp: worker_step_def worker_select_def Let_def split: worker.splits if_splits option.splits list.splits prod.splits)

lemma closing_progress:
  assumes "ingestor_inv s" and "ig_closing s" and "\<not> ig_done s"
  shows "\<exists>s'. drain_step sink s s'"
proof (cases "worker_step sink True zero_time s")
  case (Some s')
  then show ?thesis using drain_step.DrainWorker by blast
next
  case None
  have inv: "order_inv s" "receipt_inv s" "life_inv s" using assms(1) by (simp_all add: ingestor_inv_def)
  from worker_moves [OF assms(1) None] consider
    "ig_worker s = WorkerSelect" "ig_queue s = []" "\<not> ig_queueClosed s"
    | i item where "ig_worker s = WorkerAwait i item" "\<not> re_accepted (ig_receipts s ! i)"
    using assms(3) inv(3) by (auto simp: life_inv_def)
  then show ?thesis
  proof cases
    case 1
    show ?thesis
    proof (cases "\<exists>i < length (ig_submits s). active_point (ig_submits s ! i)")
      case True
      then show ?thesis using submitter_moves order_invD(2) [OF inv(1)] 1(2) by (metis list.size(3))
    next
      case False
      then have "filter active_point (ig_submits s) = []" by (auto simp: filter_empty_conv in_set_conv_nth simp del: active_points)
      then have "close_queue_step s \<noteq> None" using inv(3) assms(2) 1(3) by (simp add: close_queue_step_def life_inv_def)
      then show ?thesis using drain_step.DrainCloser by blast
    qed
  next
    case (2 i item)
    have "i \<in> set (in_worker (ig_worker s))" using 2(1) by (simp add: in_worker_def)
    then have i: "i < length (ig_submits s)" "sent_point (ig_submits s ! i)"
      using order_invD(4,6) [OF inv(1)] by auto
    with 2(2) receipt_invD(1) [OF inv(2)] have "ig_submits s ! i \<in> {SubmitTrack, SubmitCount, SubmitRelease}"
      by (auto simp: sent_point_def)
    with i show ?thesis by (intro submitter_moves [of i]) auto
  qed
qed

lemma internal_step_keeps:
  assumes "internal_step sink s s'"
  shows "ig_closing s' = ig_closing s \<and> prefix (ig_sent s) (ig_sent s')"
  using assms
proof cases
  case (SubmitterStep ended now i)
  then show ?thesis by (cases rule: submit_step_cases) (auto simp: move_defs)
next
  case (WorkerStep event_first now)
  then show ?thesis by (cases rule: worker_step_cases) (auto simp: move_defs)
next
  case CloserStep
  then show ?thesis by (auto simp: close_queue_step_def split: if_splits)
qed

lemma internal_star_keeps: "(internal_step sink)\<^sup>*\<^sup>* s t \<Longrightarrow> ig_closing t = ig_closing s \<and> prefix (ig_sent s) (ig_sent t)"
  by (induction rule: rtranclp_induct) (auto dest: internal_step_keeps intro: prefix_order.trans)

lemma drain_star_internal: "(drain_step sink)\<^sup>*\<^sup>* s t \<Longrightarrow> (internal_step sink)\<^sup>*\<^sup>* s t"
  by (erule rtranclp_mono [THEN predicate2D, rotated]) (auto intro: drain_internal)

lemma drain_finishes:
  assumes "ingestor_inv s" and "ig_closing s"
  shows "\<exists>t. (drain_step sink)\<^sup>*\<^sup>* s t \<and> ig_done t"
  using assms
proof (induction "work s" arbitrary: s rule: less_induct)
  case less
  show ?case
  proof (cases "ig_done s")
    case False
    then obtain s' where s': "drain_step sink s s'" using closing_progress less.prems by blast
    note step = drain_internal [OF s']
    have "\<exists>t. (drain_step sink)\<^sup>*\<^sup>* s' t \<and> ig_done t"
      using less.hyps [OF internal_step_work [OF less.prems(1) step]] inv_internal [OF less.prems(1) step]
        internal_step_keeps [OF step] less.prems(2) by simp
    with s' show ?thesis by (meson converse_rtranclp_into_rtranclp)
  qed auto
qed

text \<open>A finished ingestor: nothing is left and every receipt that entered the channel has its outcome, in order.\<close>

definition finished :: "'w ingestor \<Rightarrow> 'w ingestor \<Rightarrow> bool" where
  "finished s t \<longleftrightarrow> ig_done t \<and> ig_queue t = [] \<and> ig_handled t = ig_sent t \<and> prefix (ig_sent s) (ig_sent t) \<and>
     list_all (\<lambda>i. re_outcome (ig_receipts t ! i) \<noteq> None) (ig_sent t) \<and> \<not> list_ex active_point (ig_submits t)"

lemma done_finished:
  assumes "ingestor_inv t" and "ig_done t" and "prefix (ig_sent s) (ig_sent t)"
  shows "finished s t"
proof -
  have inv: "order_inv t" "receipt_inv t" "life_inv t" using assms(1) by (simp_all add: ingestor_inv_def)
  have w: "ig_worker t = WorkerDone" using inv(3) assms(2) by (simp add: life_inv_def)
  then have q: "ig_queue t = []" "ig_submitters t = 0" using inv(3) by (auto simp: life_inv_def leaving_def)
  then have "filter active_point (ig_submits t) = []" using inv(3) by (simp add: life_inv_def)
  then have "\<not> list_ex active_point (ig_submits t)" by (simp add: filter_empty_conv list_ex_iff del: active_points)
  moreover have sent: "ig_handled t = ig_sent t" using order_invD(4) [OF inv(1)] w q(1) by (simp add: in_worker_def)
  moreover have "re_outcome (ig_receipts t ! i) \<noteq> None" if "i \<in> set (ig_sent t)" for i
    using that sent receipt_invD(2) [OF inv(2)] sent_in_range [OF inv(1), of i] by simp
  ultimately show ?thesis using assms(2,3) q(1) unfolding finished_def list_all_iff by blast
qed

section \<open>Quiet states\<close>

text \<open>No submitter is under way and the worker holds no item.\<close>

definition quiet :: "'w ingestor \<Rightarrow> bool" where
  "quiet s \<longleftrightarrow> \<not> list_ex active_point (ig_submits s) \<and> in_worker (ig_worker s) = []"

lemma sent_count:
  assumes "order_inv s"
  shows "length (filter sent_point (ig_submits s)) = length (ig_sent s)"
proof -
  have "length (filter sent_point (ig_submits s)) = card {i. i < length (ig_submits s) \<and> sent_point (ig_submits s ! i)}"
    by (rule length_filter_conv_card)
  also have "\<dots> = card (set (ig_sent s))" using order_invD(6) [OF assms] by (intro arg_cong [of _ _ card]) auto
  also have "\<dots> = length (ig_sent s)" using order_invD(5) [OF assms] by (rule distinct_card)
  finally show ?thesis .
qed

lemma quiet_points:
  assumes "quiet s" and "p \<in> set (ig_submits s)"
  shows "counted_point p = sent_point p" "tracked_point p = sent_point p" "dropped_point p = (\<not> sent_point p)"
  using assms by (auto simp: quiet_def list_ex_iff)

lemma quiet_balance:
  assumes "ingestor_inv s" and "quiet s"
  shows "is_Accepted (ig_stats s) = is_Processed (ig_stats s) + is_Failed (ig_stats s) + of_nat (length (ig_queue s)) \<and>
    is_Accepted (ig_stats s) + is_Dropped (ig_stats s) = of_nat (length (ig_submits s)) \<and>
    set (pending_ids s) = fst ` set (ig_queue s)"
proof -
  have inv: "order_inv s" "count_inv s" "latency_inv s" using assms(1) by (simp_all add: ingestor_inv_def)
  have counted: "filter counted_point (ig_submits s) = filter sent_point (ig_submits s)"
    by (rule filter_cong) (simp_all add: quiet_points [OF assms(2)])
  have dropped: "filter dropped_point (ig_submits s) = filter (\<lambda>p. \<not> sent_point p) (ig_submits s)"
    by (rule filter_cong) (simp_all add: quiet_points [OF assms(2)])
  have handled: "is_Processed (ig_stats s) + is_Failed (ig_stats s) = of_nat (length (ig_handled s))"
    using inv(2) assms(2) by (auto simp: count_inv_def quiet_def in_worker_def resulted_def split: worker.splits)
  have sent: "ig_sent s = ig_handled s @ map fst (ig_queue s)" using order_invD(4) [OF inv(1)] assms(2) by (simp add: quiet_def)
  have pend: "set (pending_ids s) = fst ` set (ig_queue s)"
  proof -
    have past: "past_latency (ig_worker s) = []" using assms(2) by (auto simp: quiet_def in_worker_def past_latency_def split: worker.splits)
    have "i \<in> set (pending_ids s) \<longleftrightarrow> i \<in> set (ig_sent s) \<and> i \<notin> set (ig_handled s)" for i
    proof (cases "i < length (ig_submits s)")
      case True
      with inv(3) show ?thesis
        unfolding latency_inv_def order_invD(6) [OF inv(1), of i] completed_ids_def past
        using quiet_points(2) [OF assms(2), of "ig_submits s ! i"] by simp
    next
      case False
      with inv(3) show ?thesis unfolding latency_inv_def order_invD(6) [OF inv(1), of i] by simp
    qed
    then have "set (pending_ids s) = set (ig_sent s) - set (ig_handled s)" by blast
    moreover have "set (ig_handled s) \<inter> fst ` set (ig_queue s) = {}" using order_invD(5) [OF inv(1)] by (simp add: sent)
    ultimately show ?thesis by (auto simp: sent)
  qed
  have split: "length (filter sent_point (ig_submits s)) + length (filter (\<lambda>p. \<not> sent_point p) (ig_submits s)) = length (ig_submits s)"
    by (rule sum_length_filter_compl)
  have acc: "is_Accepted (ig_stats s) = of_nat (length (ig_sent s))" "is_Dropped (ig_stats s) = of_nat (length (filter (\<lambda>p. \<not> sent_point p) (ig_submits s)))"
    using inv(2) sent_count [OF inv(1)] unfolding count_inv_def counted dropped by simp_all
  have "is_Accepted (ig_stats s) = is_Processed (ig_stats s) + is_Failed (ig_stats s) + of_nat (length (ig_queue s))"
    unfolding handled acc(1) sent by simp
  moreover have "is_Accepted (ig_stats s) + is_Dropped (ig_stats s) = of_nat (length (ig_submits s))"
    unfolding acc sent_count [OF inv(1), symmetric] split [symmetric] by simp
  ultimately show ?thesis using pend by blast
qed

section \<open>Health\<close>

lemma idle_health:
  assumes "ingestor_inv s" and "ig_worker s = WorkerSelect" and "\<not> ig_closing s"
  shows "ih_State (ingestor_Health now s) \<in> {IngestionHealthWriteFailed, IngestionHealthStorageFull} \<longleftrightarrow> last_error s \<noteq> None"
    and "ih_State (ingestor_Health now s) = IngestionHealthStorageFull \<longleftrightarrow>
      (\<exists>code. last_error s = Some (CodedError code) \<and> code mod 256 = SQLITE_FULL)"
proof -
  have "\<not> ig_closed s" using assms by (simp add: ingestor_inv_def life_inv_def)
  moreover have "(ig_failureActive s, ig_failureClass s) = failure_of (last_error s)"
    using assms(1,2) by (simp add: ingestor_inv_def failure_inv_def current_error_def)
  ultimately show "ih_State (ingestor_Health now s) \<in> {IngestionHealthWriteFailed, IngestionHealthStorageFull} \<longleftrightarrow> last_error s \<noteq> None"
    "ih_State (ingestor_Health now s) = IngestionHealthStorageFull \<longleftrightarrow>
      (\<exists>code. last_error s = Some (CodedError code) \<and> code mod 256 = SQLITE_FULL)"
    using assms(3)
    by (auto simp: ingestor_Health_def Let_def failure_of_def classifyIngestionFailure_def IngestionFailureSQLiteFull_def
        IngestionFailureWriteFailed_def split: option.splits sink_error.splits if_splits)
qed

section \<open>A running example\<close>

text \<open>A schedule of steps, and an ingestor of capacity one with a sink that counts its writes and refuses the second.\<close>

datatype move = MoveSubmitter nat | MoveEnded nat | MoveWorker | MoveCloser

definition take_move :: "'w ingestion_sink \<Rightarrow> move \<Rightarrow> 'w ingestor \<Rightarrow> 'w ingestor option" where
  "take_move sink m s =
     (case m of MoveSubmitter i \<Rightarrow> submit_step False zero_time i s | MoveEnded i \<Rightarrow> submit_step True zero_time i s | MoveWorker \<Rightarrow> worker_step sink False zero_time s
      | MoveCloser \<Rightarrow> close_queue_step s)"

fun take_moves :: "'w ingestion_sink \<Rightarrow> move list \<Rightarrow> 'w ingestor \<Rightarrow> 'w ingestor option" where
  "take_moves sink [] s = Some s"
| "take_moves sink (m # ms) s = (case take_move sink m s of None \<Rightarrow> None | Some s \<Rightarrow> take_moves sink ms s)"

lemma reached_moves: "reached T sink s \<Longrightarrow> take_moves sink ms s = Some t \<Longrightarrow> reached T sink t"
proof (induction sink ms s rule: take_moves.induct)
  case (2 sink m ms s)
  then obtain u where u: "take_move sink m s = Some u" "take_moves sink ms u = Some t" by (auto split: option.splits)
  then have "internal_step sink s u" by (cases m) (auto simp: take_move_def intro: internal_step.intros)
  with 2 u show ?case by (auto intro: reached.Internal)
qed simp

definition demo_tables :: unicode_tables where
  "demo_tables = \<lparr>ut_letter = (\<lambda>_. False), ut_lower = (\<lambda>_. False), ut_digit = (\<lambda>_. False)\<rparr>"

definition demo_sink :: "nat ingestion_sink" where
  "demo_sink =
     \<lparr>sk_ingestObservation = None, sk_InsertObservation = (\<lambda>_ n. ((True, None), n)), sk_SaveCheckpoint = (\<lambda>_ n. (None, n)),
      sk_InsertIdentityClaim = (\<lambda>_ n. (None, n)), sk_InsertCoverageSample = (\<lambda>_ n. (None, n)), sk_InsertFinding = (\<lambda>_ n. (None, n)),
      sk_InsertAuditEvent = (\<lambda>_ n. (if n = 1 then Some (CodedError 13) else None, n + 1)),
      sk_recordIngestionEvent = (\<lambda>_ n. (None, n)), sk_closeIngestionSink = None\<rparr>"

definition demo_event :: audit_event where
  "demo_event = \<lparr>ae_ID = ''audit.x'', ae_Kind = ''k'', ae_Actor = ''a'', ae_OccurredAt = \<lparr>wall = 0, mono_at = None\<rparr>, ae_SchemaVersion = 1,
     ae_Payload = ''{}'', ae_Retention = RetentionAudit\<rparr>"

definition demo_start :: "nat ingestor" where "demo_start = the (newIngestor 1 0)"

definition demo_submitted :: "nat ingestor" where "demo_submitted = begin_submit (ItemAudit demo_event) False demo_start"

text \<open>The item is in the channel, but its submitter has not yet told the worker so.\<close>

definition demo_sent :: "nat ingestor" where "demo_sent = the (take_moves demo_sink [MoveSubmitter 0] demo_submitted)"

definition demo_closing :: "nat ingestor" where "demo_closing = begin_close demo_sent"

lemma trimmed_id: "trimmed s \<Longrightarrow> TrimSpace s = s"
proof -
  assume t: "trimmed s"
  have "find (\<lambda>w. w \<noteq> [] \<and> has_prefix s w) space_encodings = None" "find (\<lambda>w. w \<noteq> [] \<and> has_suffix s w) space_encodings = None"
    using t by (auto simp: find_None_iff trimmed_def list_ex_iff)
  then show ?thesis unfolding TrimSpace_def by (subst trim_left.simps, subst trim_right.simps) simp
qed

lemma plain_trimmed_text: "s \<noteq> [] \<Longrightarrow> list_all printable s \<Longrightarrow> hd s \<noteq> CHR '' '' \<Longrightarrow> last s \<noteq> CHR '' '' \<Longrightarrow> trimmed s"
  using plain_text [of s "length s"] by (simp add: validateText_def)

lemma demo_admitted: "admit demo_tables (ItemAudit demo_event) = Some (ItemAudit demo_event)"
proof -
  have trim: "trimmed ''k''" "trimmed ''a''" "trimmed ''{}''" by (rule plain_trimmed_text; simp add: printable_def)+
  have runes: "runes (bytes_of ''k'') = map of_char ''k''" "runes (bytes_of ''a'') = map of_char ''a''"
    by (rule runes_printable; simp add: printable_def)+
  have "json_valid ''{}''" by code_simp
  moreover have "domain_id ''audit.x''" by code_simp
  moreover have "\<not> is_zero \<lparr>wall = 0, mono_at = None\<rparr>" by (simp add: is_zero_def zero_wall_def)
  ultimately show ?thesis
    using trim runes by (simp add: admit_def ValidateAuditEvent_def demo_event_def validateToken_def validateOpaque_def validateJSON_def
        trimmed_id Let_def MaxJSONBytes_def validateRetention_def IsLower_def IsDigit_def IsControl_def)
qed

lemma demo_start: "newIngestor 1 0 = Some demo_start"
  by (simp add: demo_start_def newIngestor_def MaxIngestionCapacity_def)

lemma demo_submitted: "reached demo_tables demo_sink demo_submitted"
  unfolding demo_submitted_def
  by (rule reached.Submit [OF reached.Start [OF demo_start] demo_admitted]) simp

lemmas demo_state = demo_start_def newIngestor_def MaxIngestionCapacity_def demo_submitted_def begin_submit_def Let_def
lemmas demo_steps = end_failure_def take_move_def submit_step_def submit_send_def goto_submit_def at_receipt_def noteAccepted_def worker_step_def
  worker_select_def goto_worker_def process_def demo_sink_def count_processed_def maybeEndOverflowEpisode_def ingestion_item_kind_def nth_append

lemma demo_sent: "take_moves demo_sink [MoveSubmitter 0] demo_submitted = Some demo_sent" "ig_sent demo_sent = [0]" "ig_queue demo_sent \<noteq> []"
  by (simp_all add: demo_sent_def demo_state demo_steps)

lemma demo_closing: "reached demo_tables demo_sink demo_closing" "ig_closing demo_closing" "ig_sent demo_closing = [0]"
  unfolding demo_closing_def
  by (rule reached.Close [OF reached_moves [OF demo_submitted demo_sent(1)]]) (simp_all add: begin_close_def demo_sent(2))

text \<open>The first item is written, a second one waits.\<close>

definition demo_written :: "nat ingestor option" where
  "demo_written = take_moves demo_sink (replicate 5 (MoveSubmitter 0) @ replicate 8 MoveWorker) demo_submitted"

definition demo_waiting :: "nat ingestor option" where
  "demo_waiting = (case demo_written of None \<Rightarrow> None
     | Some s \<Rightarrow> take_moves demo_sink (replicate 5 (MoveSubmitter 1)) (begin_submit (ItemAudit demo_event) False s))"

lemma demo_waiting_facts:
  "\<exists>s. demo_waiting = Some s \<and> quiet s \<and> length (ig_queue s) = 1 \<and> ig_closing s = False"
  by (simp add: demo_waiting_def demo_written_def numeral_eq_Suc demo_state demo_steps quiet_def in_worker_def)

lemma demo_waiting_reached:
  assumes "demo_waiting = Some s"
  shows "reached demo_tables demo_sink s"
proof (cases demo_written)
  case None
  with assms show ?thesis by (simp only: demo_waiting_def option.case) simp
next
  case (Some u)
  have moves: "take_moves demo_sink (replicate 5 (MoveSubmitter 1)) (begin_submit (ItemAudit demo_event) False u) = Some s"
    using assms unfolding demo_waiting_def Some option.case .
  have "reached demo_tables demo_sink u" using reached_moves [OF demo_submitted Some [unfolded demo_written_def]] .
  from reached.Submit [OF this demo_admitted, of False] moves show ?thesis by (blast intro: reached_moves)
qed

text \<open>
  An overflow episode can outlive its queue: the context of the second submitter ends while the channel is full, the
  worker writes the first item, and only then is the episode opened.  Nothing is left to do, but the health is
  backpressure until another item is handled.
\<close>

definition demo_overflow :: "nat ingestor option" where
  "demo_overflow = take_moves demo_sink
     ([MoveEnded 1] @ replicate 4 (MoveSubmitter 0) @ replicate 8 MoveWorker @ replicate 4 (MoveSubmitter 1) @ replicate 2 MoveWorker)
     (begin_submit (ItemAudit demo_event) False demo_sent)"

lemma overflow_outlives_the_queue:
  "\<exists>s. demo_overflow = Some s \<and> reached demo_tables demo_sink s \<and> quiet s \<and> ig_queue s = [] \<and> ig_eventQueue s = [] \<and>
     ig_worker s = WorkerSelect \<and> ih_State (ingestor_Health now s) = IngestionHealthBackpressure"
proof -
  obtain s where s: "demo_overflow = Some s" "quiet s" "ig_queue s = []" "ig_eventQueue s = []" "ig_worker s = WorkerSelect"
    "ig_overflowActive s" "\<not> ig_failureActive s" "\<not> ig_closing s" "\<not> ig_closed s"
    by (simp add: demo_overflow_def numeral_eq_Suc demo_sent_def demo_state demo_steps quiet_def in_worker_def count_dropped_def
        begin_overflow_def recordEpisode_def write_episode_def)
  have "reached demo_tables demo_sink (begin_submit (ItemAudit demo_event) False demo_sent)"
    by (rule reached.Submit [OF reached_moves [OF demo_submitted demo_sent(1)] demo_admitted]) simp
  from reached_moves [OF this s(1) [unfolded demo_overflow_def]] s show ?thesis by (auto simp: ingestor_Health_def Let_def)
qed

section \<open>Properties\<close>

text \<open>
  C13: a closing ingestor finishes by itself and loses nothing.  Whatever the goroutines do and however they
  interleave, no run of their steps goes on for ever; as long as the worker has not signalled the end, some goroutine
  can move, even if no context of a blocked submitter ever ends; and when none can move, every submitter has returned,
  the channel is empty and every receipt that entered it has its outcome, in the order of entry.
\<close>

theorem close_completes:
  assumes "reached T sink s" and "ig_closing s"
  shows "\<not> (\<exists>f. f 0 = s \<and> (\<forall>n. internal_step sink (f n) (f (Suc n)))) \<and>
    (\<exists>t. (drain_step sink)\<^sup>*\<^sup>* s t \<and> finished s t) \<and>
    (\<forall>t. (internal_step sink)\<^sup>*\<^sup>* s t \<and> \<not> (\<exists>u. drain_step sink t u) \<longrightarrow> finished s t)"
proof -
  note inv = reached_inv [OF assms(1)]
  have finish: "finished s t" if "(internal_step sink)\<^sup>*\<^sup>* s t" "ig_done t" for t
    using that internal_star_keeps inv_internal_star [OF _ inv] by (blast intro: done_finished)
  have "finished s t" if "(internal_step sink)\<^sup>*\<^sup>* s t" "\<not> (\<exists>u. drain_step sink t u)" for t
    using that finish closing_progress inv_internal_star [OF _ inv] internal_star_keeps assms(2) by metis
  moreover have "\<exists>t. (drain_step sink)\<^sup>*\<^sup>* s t \<and> finished s t"
    using drain_finishes [OF inv assms(2)] drain_star_internal finish by metis
  ultimately show ?thesis using internal_runs_end [OF inv] by blast
qed

theorem close_completes_witness:
  "\<exists>t. (drain_step demo_sink)\<^sup>*\<^sup>* demo_closing t \<and> ig_done t \<and> 0 \<in> set (ig_handled t) \<and> re_outcome (ig_receipts t ! 0) \<noteq> None"
proof -
  obtain t where t: "(drain_step demo_sink)\<^sup>*\<^sup>* demo_closing t" "finished demo_closing t"
    using close_completes [OF demo_closing(1,2)] by blast
  then have "0 \<in> set (ig_sent t)" using demo_closing(3) by (auto simp: finished_def prefix_def)
  with t show ?thesis by (auto simp: finished_def list_all_iff)
qed

text \<open>
  C14: the ingestor never panics and handles every receipt once, in order.  In every state that the goroutines can
  reach, nothing was sent on a closed channel, no channel was closed twice and the wait group did not go below zero;
  the channel holds at most its capacity; what entered it is what was handled, followed by what the worker holds and
  what waits, each receipt once; and exactly the handled receipts have an outcome.
\<close>

theorem receipts_in_order:
  assumes "reached T sink s"
  shows "\<not> ig_panic s \<and> length (ig_queue s) \<le> ig_capacity s \<and>
    ig_sent s = ig_handled s @ in_worker (ig_worker s) @ map fst (ig_queue s) \<and> distinct (ig_sent s) \<and>
    (\<forall>i < length (ig_receipts s). re_outcome (ig_receipts s ! i) \<noteq> None \<longleftrightarrow> i \<in> set (ig_handled s))"
proof -
  have inv: "order_inv s" "receipt_inv s" "life_inv s" using reached_inv [OF assms] by (simp_all add: ingestor_inv_def)
  show ?thesis
    using order_invD(1,3,4,5) [OF inv(1)] receipt_invD(2) [OF inv(2)] inv(3) unfolding life_inv_def by metis
qed

theorem receipts_in_order_witness:
  "\<not> ig_panic demo_closing \<and> [0] = ig_handled demo_closing @ in_worker (ig_worker demo_closing) @ map fst (ig_queue demo_closing)"
  using receipts_in_order [OF demo_closing(1)] unfolding demo_closing(3) by blast

text \<open>
  C15: the counters balance.  Whenever no submission is under way and the worker holds no item, as many items were
  accepted as were processed, failed or still wait (modulo the width of the counters), every submission that was let in
  was either accepted or dropped, and the latency tracker has exactly the waiting receipts as pending.
\<close>

theorem counters_balance:
  assumes "reached T sink s" and "quiet s"
  shows "is_Accepted (ig_stats s) = is_Processed (ig_stats s) + is_Failed (ig_stats s) + of_nat (length (ig_queue s)) \<and>
    is_Accepted (ig_stats s) + is_Dropped (ig_stats s) = of_nat (length (ig_submits s)) \<and>
    set (pending_ids s) = fst ` set (ig_queue s)"
  using reached_inv [OF assms(1)] assms(2) by (rule quiet_balance)

theorem counters_balance_witness:
  "\<exists>s. demo_waiting = Some s \<and> is_Accepted (ig_stats s) = is_Processed (ig_stats s) + is_Failed (ig_stats s) + 1 \<and>
     set (pending_ids s) = fst ` set (ig_queue s)"
proof -
  obtain s where s: "demo_waiting = Some s" "quiet s" "length (ig_queue s) = 1" using demo_waiting_facts by blast
  from counters_balance [OF demo_waiting_reached [OF s(1)] s(2)] s show ?thesis by auto
qed

end
