(* ===== verification/Spec2Isabelle.thy ===== *)
theory Spec2Isabelle
  imports CorroborateProps GatewayHistory ResolverRun HttpsRun IcmpProps CapabilityProps DeviceProps IngestionProps
begin

text \<open>
  \<^bold>\<open>Cozy SOC controller: a verification development\<close>

  The controller (Go, under \<open>src/internal/controller\<close>) watches a home network.  It sends a network check only
  after a person has reviewed it, keeps an audit trail of every check, judges the evidence it has without claiming
  more than it shows, and manages capabilities through drivers.  This development models the decisions of that
  program as executable HOL functions and proves what makes them correct.

  \<^bold>\<open>How the parts interact.\<close>  A review plan (\<open>GatewayPlan\<close>, \<open>ResolverPlan\<close>, \<open>HttpsPlan\<close>) fixes one target, one
  budget and a window of thirty seconds.  A run control (\<open>RunControl\<close>) turns one reviewed plan into at most one
  execution, with audit events around it.  The executor of the gateway check is the ICMP sender (\<open>IcmpSender\<close>).
  The stored events are later read back as a history (\<open>GatewayHistory\<close>, \<open>ResolverRun\<close>, \<open>HttpsRun\<close>), and the
  measurements are assessed (\<open>QualityAssess\<close>, \<open>ResolverQuality\<close>, \<open>HttpsQuality\<close>) and compared across layers
  (\<open>Corroborate\<close>).  Capabilities are declared by manifests and driven by the lifecycle engine
  (\<open>CapabilityEngine\<close>).  Device Watch is the built-in one: its driver (\<open>DeviceDriver\<close>) answers the engine from the
  enrolled network (\<open>DeviceScope\<close>), the last coverage sample (\<open>DeviceCoverage\<close>) and the health of the queue that
  writes its evidence (\<open>Ingestion\<close>) and of the database (\<open>StorageHealth\<close>), and reports its coverage under the shared
  contract (\<open>CoverageModel\<close>).  The last section of this theory ties the queue and the coverage together.

  \<^bold>\<open>Theories.\<close>

  \<^item> \<open>Prelude\<close>: results with an error side (\<open>guard\<close>, \<open>bind_result\<close>), keyed lists, character classes, the
    collections \<open>result_simps\<close> and \<open>go_time\<close>.  \<open>GoTime\<close>: \<open>time.Time\<close> with wall and monotonic readings, saturating
    and wrapping 64-bit durations.  \<open>Netip\<close>: \<open>net/netip\<close> addresses and prefixes with their parser and printer.
    \<open>GoEncoding\<close>: SHA-256, hexadecimal and JSON strings.  \<open>Effects\<close>: computations with state and error, and their
    weakest preconditions (collection \<open>wp_simps\<close>).
  \<^item> \<open>Evidence\<close>: the locale \<open>assessed_evidence\<close>, the contract that the three evidence kinds share: the latest
    measurement of each target decides, and the order of the measurements does not.  It is interpreted in
    \<open>QualityModel\<close> (\<open>networkquality/model.go\<close>), \<open>ResolverQuality\<close> (\<open>resolver.go\<close>, \<open>resolver_assess.go\<close>) and
    \<open>HttpsQuality\<close> (\<open>https.go\<close>, \<open>https_assess.go\<close>); \<open>QualityAssess\<close> holds \<open>assess.go\<close>.
  \<^item> \<open>Corroborate\<close>, \<open>CorroborateProps\<close>: \<open>networkquality/corroborate.go\<close>: which fresh entries are compared, the
    barrier of recorded gaps, and the conclusions.
  \<^item> \<open>GatewayPlan\<close>: \<open>networkquality/gateway_plan.go\<close>.  \<open>CheckBinding\<close>: \<open>checkbinding/binding.go\<close>.
    \<open>ResolverPlan\<close>: \<open>resolverplan/plan.go\<close>.  \<open>HttpsPlan\<close>: \<open>httpsplan/plan.go\<close>.  \<open>ResolverWire\<close>:
    \<open>resolverwire/*.go\<close>, where every read of a byte is a function that may panic.
  \<^item> \<open>RunControl\<close>: \<open>gatewayrun/control.go\<close> and \<open>discard.go\<close>.  Every section of the code under its mutex is one
    function; the goroutine of an operation is a machine of at most fourteen steps (its rank), interleaved with the
    calls of other goroutines by the inductive relation \<open>reaches\<close>.  The control is a profile-parametric model:
    the gateway, resolver and HTTPS controls of the code differ in selection, event and limits only.
    \<open>RunControlProps\<close> proves consent, single use, cooldown, lockout, draining and termination.  \<open>RunAudit\<close>: the
    locale \<open>audited_control\<close>, what a control needs so that it never offers an event its auditor refuses.
  \<^item> \<open>GatewayRun\<close> (\<open>gatewayrun/model.go\<close>, \<open>measurement.go\<close>), \<open>GatewayContract\<close> (the interpretation of
    \<open>audited_control\<close>), \<open>GatewayHistory\<close> (\<open>history.go\<close>); \<open>ReviewedRun\<close> (the locales \<open>retained_phases\<close> and
    \<open>measured_phases\<close> shared by the later two runs), \<open>ResolverRun\<close> (\<open>resolverrun/*.go\<close>), \<open>HttpsRun\<close> (\<open>httpsrun/*.go\<close>).
  \<^item> \<open>IcmpPacket\<close> (\<open>gatewayicmp/packet.go\<close>), \<open>IcmpSender\<close> (\<open>sender.go\<close>, \<open>gatewayrun/icmp.go\<close>), \<open>IcmpRules\<close>,
    \<open>IcmpProps\<close>: the measurement loop as an \<open>Effects\<close> computation over the state of an arbitrary outside world; its
    receive loop ends because the code itself allows 512 receive calls.
  \<^item> \<open>Capability\<close> (\<open>capability/manifest.go\<close>, \<open>validate.go\<close>, \<open>registry.go\<close>, \<open>state.go\<close>), \<open>CapabilityEngine\<close>
    (\<open>instance.go\<close>, \<open>lifecycle.go\<close>, \<open>lifecycle_config.go\<close>), \<open>CapabilityRules\<close>, \<open>CapabilityProps\<close>: one operation under
    its lock is one function; \<open>engine_step\<close> is the relation of all operations.  A driver call is tried at most three
    times, which is the bound of the retry loop.

  \<^item> \<open>DriverContract\<close>: the locale \<open>reporting_driver\<close>, what the engine relies on in a driver that verifies; it is
    interpreted on the Device Watch driver in \<open>DeviceRules\<close>.
  \<^item> \<open>GoUnicode\<close>, \<open>GoJson\<close>: runes, white space and the scanner of \<open>json.Valid\<close>.  \<open>Domain\<close>: \<open>domain/model.go\<close> and
    \<open>validate.go\<close>, the stored records, their validation and the normal form of identity claims.
  \<^item> \<open>Ingestion\<close>: \<open>storage/ingestion.go\<close>, \<open>ingestion_health.go\<close>, \<open>ingestion_latency.go\<close>.  The goroutines (any number of
    submitters, one worker, one closer) are program points over a shared record; every critical section, channel
    operation and call of the sink is one step of \<open>internal_step\<close>, and \<open>reached\<close> closes under these and the calls of
    users.  A send on a closed channel or a second close sets a panic flag.  \<open>IngestionRules\<close> keeps six invariants by
    cases over the steps; \<open>IngestionProps\<close> has the order of receipts, the balance of the counters and, by a measure
    of the work that is left, that a closing ingestor finishes.
  \<^item> \<open>StorageHealth\<close>: \<open>storage/health.go\<close>, \<open>filesystem_capacity.go\<close> and its Unix part.
  \<^item> \<open>CoverageModel\<close> (\<open>coverage/*.go\<close>); \<open>DeviceScope\<close> (\<open>devicewatch/scope.go\<close>, \<open>enrollment.go\<close>), \<open>DeviceCoverage\<close>
    (\<open>coverage_report.go\<close>), \<open>DeviceDriver\<close> (\<open>operational_health.go\<close>, \<open>coverage_operational.go\<close>,
    \<open>coverage_contract.go\<close>, \<open>coverage.go\<close>, \<open>lifecycle.go\<close>), \<open>DeviceRules\<close>, \<open>DeviceProps\<close>: every report passes the
    shared contract, nothing is verified without fresh evidence, and the verdict of the engine agrees with the coverage.

  \<^bold>\<open>Modelling choices.\<close>  A struct is a record, a string enumeration is a datatype with one constructor for every
  other string, an error is a value.  Clock, context, random source, sockets, drivers, auditors, the store, the
  inspector of interfaces, Unicode tables beyond ASCII and the DNS message codec are parameters; what is needed of them is a named hypothesis of the property, and its witness shows a concrete
  instance.  There is no fuel: loops are structural or end by a measure that the code itself keeps.  Error texts are
  not modelled where only the failure matters.

  \<^bold>\<open>Not modelled.\<close>  SQL storage (its meaning is that of SQLite) and with it the collection and reconciliation of
  Device Watch, which are transactions over it, HTTP serving and the browser interface, the JSON
  decoders of stored records (a decoded value is an input), operating system calls (routes, sockets, neighbor tables,
  the keychain), process wiring in \<open>src/cmd\<close>, and the experiments.
\<close>

section \<open>Ingestion and coverage\<close>

lemma current_pipeline: "ph_State (pipelineHealth h) = OperationalCurrent \<longleftrightarrow> ih_State h = IngestionHealthCurrent"
  by (simp add: pipelineHealth_def Let_def split: ingestion_health_state.splits)

lemma current_ingestion:
  "ih_State (ingestor_Health now s) = IngestionHealthCurrent \<longleftrightarrow>
     \<not> ig_closed s \<and> \<not> ig_closing s \<and> \<not> ig_failureActive s \<and> \<not> ig_overflowActive s \<and>
     ls_State (latency_snapshot_at (strip now) (ig_latency s)) \<noteq> IngestionLatencyLagging"
  by (simp add: ingestor_Health_def Let_def)

lemma driver_pipeline:
  assumes "OperationalHealth d now = Inr oh" and "dd_runtime d = Some (rt, h)"
  shows "oh_Pipeline oh = pipelineHealth h"
  using assms by (auto simp: OperationalHealth_def Let_def split: option.splits)


text \<open>The enrolled Mac of the Device Watch example, with the ingestor of the ingestion example after its first write.\<close>

definition written_driver :: "nat ingestor \<Rightarrow> unit device_driver" where
  "written_driver s = watch_driver\<lparr>dd_runtime := map_option (\<lambda>p. (fst p, ingestor_Health (watch_time 160) s)) (dd_runtime watch_driver)\<rparr>"

lemma demo_written_idle:
  "\<exists>s. demo_written = Some s \<and> ig_worker s = WorkerSelect \<and> ig_handled s = [0] \<and>
     ih_State (ingestor_Health (watch_time 160) s) = IngestionHealthCurrent"
  by (simp add: demo_written_def numeral_eq_Suc demo_state demo_steps current_ingestion latency_snapshot_at_def Let_def latency_accept_def
      latency_complete_def newIngestionLatencyTracker_def is_zero_def strip_def zero_time_def)


end
